(* ===== verification/Prelude.thy ===== *)
theory Prelude
  imports Main "HOL-Library.Word"
begin

text \<open>
  Shared vocabulary of the development: the machine types of the C++ sources, exceptions as
  values of a sum type, the associative containers of the standard library, and the generic
  lemmas on lists that the component theories rely on.

  \<^item> \<open>byte\<close>, \<open>u64\<close>, \<open>u256\<close> are \<open>uint8_t\<close>, \<open>size_t\<close> / \<open>uint64_t\<close> and the 256-bit
    unsigned type of boost; sizes and positions of containers are \<^typ>\<open>nat\<close>.
  \<^item> \<open>'a result\<close> is the outcome of a function that may throw: \<open>Inl\<close> of the exception or
    \<open>Inr\<close> of the value; \<open>bindE\<close> sequences, \<open>assertThrow\<close> is the macro of the sources.
  \<^item> \<open>std::map\<close> is a list of pairs with strictly increasing keys, in the iteration order of the
    C++ container; \<open>std::multimap\<close> one with weakly increasing keys.
\<close>

section \<open>Machine types\<close>

type_synonym byte = "8 word"
type_synonym bytes = "8 word list"
type_synonym u32 = "32 word"
type_synonym u64 = "64 word"
type_synonym u256 = "256 word"

text \<open>\<open>numeric_limits<size_t>::max()\<close>, which the sources use as ``no position'' and ``no sub id''.\<close>

definition size_t_max :: nat where
  "size_t_max = 2 ^ 64 - 1"

lemma unat_less: "unat (w :: 'a::len word) < 2 ^ LENGTH('a)"
  by (rule unsigned_less)

lemma unat_byte_less [simp]: "unat (b :: byte) < 256"
  using unat_less [of b] by simp

lemma unat_u64_le [simp]: "unat (w :: u64) \<le> size_t_max"
  using unat_less [of w] by (simp add: size_t_max_def)

section \<open>Exceptions\<close>

text \<open>
  One constructor per exception type that the modelled code throws. \<open>OutOfRange\<close> is
  \<open>std::out_of_range\<close> of \<open>at()\<close> and \<open>substr()\<close>; \<open>UndefinedBehaviour\<close> marks the
  inputs on which the C++ code has no defined result (an unchecked access outside a container, a
  \<open>std::string\<close> made from a null pointer).
\<close>

datatype exn =
    Exception
  | AssemblyException string
  | InvalidOpcode
  | InvalidDeposit
  | CodeGenerationError nat
  | BadHexCase
  | BadHexCharacter
  | InvalidAddress
  | StringTooLong
  | OutOfRange
  | InternalCompilerError
  | OptimizerException string
  | StackTooDeepError
  | UnimplementedFeatureError
  | UndefinedBehaviour

type_synonym 'a result = "exn + 'a"

fun bindE :: "'a result \<Rightarrow> ('a \<Rightarrow> 'b result) \<Rightarrow> 'b result" where
  "bindE (Inl e) f = Inl e"
| "bindE (Inr x) f = f x"

definition assertThrow :: "bool \<Rightarrow> exn \<Rightarrow> unit result" where
  "assertThrow b e = (if b then Inr () else Inl e)"

named_theorems result_simps \<open>equations that take successful computations apart\<close>

lemma bindE_Inr [result_simps]: "bindE m f = Inr y \<longleftrightarrow> (\<exists>x. m = Inr x \<and> f x = Inr y)"
  by (cases m) auto

lemma bindE_Inl: "bindE m f = Inl e \<longleftrightarrow> m = Inl e \<or> (\<exists>x. m = Inr x \<and> f x = Inl e)"
  by (cases m) auto

lemma assertThrow_Inr [result_simps]: "assertThrow b e = Inr u \<longleftrightarrow> b"
  by (simp add: assertThrow_def)

lemma assertThrow_simps [simp]:
  "assertThrow True e = Inr ()" "assertThrow False e = Inl e"
  by (simp_all add: assertThrow_def)

lemma bindE_assoc: "bindE (bindE m f) g = bindE m (\<lambda>x. bindE (f x) g)"
  by (cases m) auto

lemma bindE_cong [fundef_cong]:
  "m = m' \<Longrightarrow> (\<And>x. m' = Inr x \<Longrightarrow> f x = f' x) \<Longrightarrow> bindE m f = bindE m' f'"
  by (cases m') auto

text \<open>A loop over a container whose body may throw, collecting the results.\<close>

fun mapE :: "('a \<Rightarrow> 'b result) \<Rightarrow> 'a list \<Rightarrow> 'b list result" where
  "mapE f [] = Inr []"
| "mapE f (x # xs) = bindE (f x) (\<lambda>y. bindE (mapE f xs) (\<lambda>ys. Inr (y # ys)))"

lemma mapE_cong [fundef_cong]:
  "xs = ys \<Longrightarrow> (\<And>x. x \<in> set ys \<Longrightarrow> f x = g x) \<Longrightarrow> mapE f xs = mapE g ys"
  by (induction xs arbitrary: ys) auto

lemma mapE_Inr_iff: "mapE f xs = Inr ys \<longleftrightarrow> list_all2 (\<lambda>x y. f x = Inr y) xs ys"
  by (induction xs arbitrary: ys) (auto simp: result_simps list_all2_Cons1)

lemma mapE_length: "mapE f xs = Inr ys \<Longrightarrow> length ys = length xs"
  by (simp add: mapE_Inr_iff list_all2_lengthD)

text \<open>A loop that threads a state and may throw.\<close>

fun foldE :: "('s \<Rightarrow> 'a \<Rightarrow> 's result) \<Rightarrow> 's \<Rightarrow> 'a list \<Rightarrow> 's result" where
  "foldE f s [] = Inr s"
| "foldE f s (x # xs) = bindE (f s x) (\<lambda>s'. foldE f s' xs)"

lemma foldE_append: "foldE f s (xs @ ys) = bindE (foldE f s xs) (\<lambda>s'. foldE f s' ys)"
  by (induction xs arbitrary: s) (auto simp: bindE_assoc)

lemma foldE_invariant:
  assumes "foldE f s xs = Inr s'" and "P s"
    and "\<And>s x s'. x \<in> set xs \<Longrightarrow> P s \<Longrightarrow> f s x = Inr s' \<Longrightarrow> P s'"
  shows "P s'"
  using assms by (induction xs arbitrary: s) (auto simp: result_simps)

section \<open>Containers\<close>

subsection \<open>Ordered maps\<close>

text \<open>
  \<open>map_put k v m\<close> is \<open>m[k] = v\<close>, \<open>map_find\<close> is \<open>find\<close>, \<open>map_at\<close> is \<open>at\<close> (which throws) and
  \<open>map_erase\<close> is \<open>erase\<close>.
\<close>

fun map_put :: "'k::linorder \<Rightarrow> 'v \<Rightarrow> ('k \<times> 'v) list \<Rightarrow> ('k \<times> 'v) list" where
  "map_put k v [] = [(k, v)]"
| "map_put k v ((k', v') # m) =
     (if k < k' then (k, v) # (k', v') # m
      else if k = k' then (k, v) # m
      else (k', v') # map_put k v m)"

definition map_find :: "'k \<Rightarrow> ('k \<times> 'v) list \<Rightarrow> 'v option" where
  "map_find k m = map_of m k"

definition map_at :: "'k \<Rightarrow> ('k \<times> 'v) list \<Rightarrow> 'v result" where
  "map_at k m = (case map_of m k of None \<Rightarrow> Inl OutOfRange | Some v \<Rightarrow> Inr v)"

definition map_erase :: "'k \<Rightarrow> ('k \<times> 'v) list \<Rightarrow> ('k \<times> 'v) list" where
  "map_erase k m = filter (\<lambda>(k', _). k' \<noteq> k) m"

abbreviation map_keys :: "('k \<times> 'v) list \<Rightarrow> 'k list" where
  "map_keys m \<equiv> map fst m"

definition map_ok :: "('k::linorder \<times> 'v) list \<Rightarrow> bool" where
  "map_ok m = sorted_wrt (<) (map_keys m)"

text \<open>The interface the clients of an ordered map rely on.\<close>

locale ordered_map =
  fixes empty :: 'm
    and put :: "'k::linorder \<Rightarrow> 'v \<Rightarrow> 'm \<Rightarrow> 'm"
    and erase :: "'k \<Rightarrow> 'm \<Rightarrow> 'm"
    and find :: "'k \<Rightarrow> 'm \<Rightarrow> 'v option"
    and entries :: "'m \<Rightarrow> ('k \<times> 'v) list"
    and ok :: "'m \<Rightarrow> bool"
  assumes ok_empty: "ok empty"
    and ok_put: "ok m \<Longrightarrow> ok (put k v m)"
    and ok_erase: "ok m \<Longrightarrow> ok (erase k m)"
    and find_empty: "find k empty = None"
    and find_put: "ok m \<Longrightarrow> find k' (put k v m) = (if k' = k then Some v else find k' m)"
    and find_erase: "ok m \<Longrightarrow> find k' (erase k m) = (if k' = k then None else find k' m)"
    and find_entries: "ok m \<Longrightarrow> find k m = Some v \<longleftrightarrow> (k, v) \<in> set (entries m)"
    and entries_sorted: "ok m \<Longrightarrow> sorted_wrt (<) (map fst (entries m))"
begin

definition build :: "('k \<times> 'v) list \<Rightarrow> 'm" where
  "build xs = foldl (\<lambda>m (k, v). put k v m) empty xs"

lemma build_snoc: "build (xs @ [(k, v)]) = put k v (build xs)"
  by (simp add: build_def)

lemma ok_build: "ok (build xs)"
  by (induction xs rule: rev_induct) (auto simp: build_def ok_empty ok_put)

lemma find_build: "find k (build xs) = map_of (rev xs) k"
proof (induction xs rule: rev_induct)
  case Nil
  then show ?case by (simp add: build_def find_empty)
next
  case (snoc p xs)
  then show ?case by (cases p) (simp add: build_snoc find_put ok_build)
qed

lemma entries_unique:
  assumes "ok m" and "(k, v) \<in> set (entries m)" and "(k, w) \<in> set (entries m)"
  shows "v = w"
  using assms find_entries [OF assms(1)] by (metis option.inject)

lemma find_None_entries: "ok m \<Longrightarrow> find k m = None \<longleftrightarrow> k \<notin> fst ` set (entries m)"
  using find_entries by (cases "find k m") force+

end

lemma map_keys_put: "fst ` set (map_put k v m) = insert k (fst ` set m)"
  by (induction k v m rule: map_put.induct) auto

lemma map_ok_Cons [simp]: "map_ok ((k, v) # m) \<longleftrightarrow> (\<forall>k' \<in> fst ` set m. k < k') \<and> map_ok m"
  by (simp add: map_ok_def)

lemma map_ok_Nil [simp]: "map_ok []"
  by (simp add: map_ok_def)

lemma map_ok_put: "map_ok m \<Longrightarrow> map_ok (map_put k v m)"
  by (induction k v m rule: map_put.induct) (auto simp: map_keys_put)

lemma map_ok_distinct: "map_ok m \<Longrightarrow> distinct (map_keys m)"
  by (simp add: map_ok_def strict_sorted_iff)

lemma map_of_put: "map_ok m \<Longrightarrow> map_of (map_put k v m) k' = (if k' = k then Some v else map_of m k')"
  by (induction k v m rule: map_put.induct) (auto simp: map_of_eq_None_iff)

lemma map_of_erase: "map_of (map_erase k m) k' = (if k' = k then None else map_of m k')"
  by (induction m) (auto simp: map_erase_def)

lemma map_ok_erase: "map_ok m \<Longrightarrow> map_ok (map_erase k m)"
  unfolding map_erase_def by (induction m) auto

interpretation std_map: ordered_map "[]" map_put map_erase map_find "\<lambda>m. m" map_ok
proof unfold_locales
  fix m :: "('k::linorder \<times> 'v) list" and k v
  assume "map_ok m"
  then show "map_find k m = Some v \<longleftrightarrow> (k, v) \<in> set m"
    by (simp add: map_find_def map_of_eq_Some_iff map_ok_distinct)
next
  fix m :: "('k::linorder \<times> 'v) list"
  assume "map_ok m"
  then show "sorted_wrt (<) (map fst m)" by (simp add: map_ok_def)
qed (auto simp: map_ok_put map_ok_erase map_find_def map_of_put map_of_erase)

lemma map_put_snoc: "\<forall>k' \<in> fst ` set m. k' < k \<Longrightarrow> map_put k v m = m @ [(k, v)]"
  by (induction k v m rule: map_put.induct) auto

subsection \<open>Multimaps\<close>

text \<open>\<open>insert\<close> of \<open>std::multimap\<close>: after every entry whose key is not greater.\<close>

fun multimap_insert :: "'k::linorder \<Rightarrow> 'v \<Rightarrow> ('k \<times> 'v) list \<Rightarrow> ('k \<times> 'v) list" where
  "multimap_insert k v [] = [(k, v)]"
| "multimap_insert k v ((k', v') # m) =
     (if k < k' then (k, v) # (k', v') # m else (k', v') # multimap_insert k v m)"

lemma set_multimap_insert: "set (multimap_insert k v m) = insert (k, v) (set m)"
  by (induction k v m rule: multimap_insert.induct) auto

lemma sorted_multimap_insert:
  "sorted (map fst m) \<Longrightarrow> sorted (map fst (multimap_insert k v m))"
  by (induction k v m rule: multimap_insert.induct) (fastforce simp: set_multimap_insert)+

lemma length_multimap_insert: "length (multimap_insert k v m) = Suc (length m)"
  by (induction k v m rule: multimap_insert.induct) auto

section \<open>Writing into a byte vector\<close>

text \<open>
  \<open>overwrite bs p ys\<close> stores the elements \<open>ys\<close> at the positions from \<open>p\<close> on, as a
  \<open>bytesRef\<close> into a vector or \<open>std::copy\<close> to an iterator does.
\<close>

definition overwrite :: "'a list \<Rightarrow> nat \<Rightarrow> 'a list \<Rightarrow> 'a list" where
  "overwrite xs p ys = take p xs @ ys @ drop (p + length ys) xs"

lemma length_overwrite [simp]:
  "p + length ys \<le> length xs \<Longrightarrow> length (overwrite xs p ys) = length xs"
  by (simp add: overwrite_def)

lemma overwrite_append_right:
  "length xs \<le> p \<Longrightarrow> overwrite (xs @ zs) p ys = xs @ overwrite zs (p - length xs) ys"
  by (simp add: overwrite_def)

lemma overwrite_append_left:
  "p + length ys \<le> length xs \<Longrightarrow> overwrite (xs @ zs) p ys = overwrite xs p ys @ zs"
  by (simp add: overwrite_def)

lemma overwrite_exact: "length xs = length ys \<Longrightarrow> overwrite (xs @ zs) 0 ys = ys @ zs"
  by (simp add: overwrite_def)

lemma nth_overwrite:
  "p + length ys \<le> length xs \<Longrightarrow> i < length xs \<Longrightarrow>
   overwrite xs p ys ! i = (if p \<le> i \<and> i < p + length ys then ys ! (i - p) else xs ! i)"
  by (auto simp: overwrite_def nth_append min_def)

lemma take_drop_overwrite:
  "p + length ys \<le> length xs \<Longrightarrow> take (length ys) (drop p (overwrite xs p ys)) = ys"
  by (simp add: overwrite_def)

lemma overwrite_nil [simp]: "overwrite xs p [] = xs"
  by (simp add: overwrite_def)

end
