(* ===== verification/CommonData.thy ===== *)
theory CommonData
  imports Prelude
begin

text \<open>
  The generic utilities of \<^verbatim>\<open>libsolutil/CommonData.{h,cpp}\<close>: hexadecimal and decimal text,
  big-endian encodings, the size of an encoded integer, the escaping of string literals and the
  vector rewriting loops. A templated unsigned integer is a \<^typ>\<open>nat\<close> where the code only shifts
  it right, and a word of the template's width where the code shifts it left.
\<close>

section \<open>Definitions\<close>

subsection \<open>Hexadecimal text\<close>

datatype WhenError = DontThrow | Throw

datatype HexPrefix = DontAdd | Add

datatype HexCase = Lower | Upper | Mixed

definition upperHexChars :: string where
  "upperHexChars = ''0123456789ABCDEF''"

definition lowerHexChars :: string where
  "lowerHexChars = ''0123456789abcdef''"

definition toHex_byte :: "byte \<Rightarrow> HexCase \<Rightarrow> string result" where
  "toHex_byte d hc =
     bindE (assertThrow (hc \<noteq> Mixed) BadHexCase) (\<lambda>_.
       let chars = (if hc = Upper then upperHexChars else lowerHexChars)
       in Inr [chars ! ((unat d div 16) mod 16), chars ! (unat d mod 16)])"

text \<open>
  The loop of \<open>toHex(bytes)\<close>: \<open>rix\<close> starts at the size minus one and is decremented in every
  iteration of the mixed case, so that it is the number of bytes that follow.
\<close>

fun toHex_loop :: "HexCase \<Rightarrow> bytes \<Rightarrow> string" where
  "toHex_loop hc [] = []"
| "toHex_loop hc (c # cs) =
     (let rix = length cs;
          chars = (case hc of
                     Mixed \<Rightarrow> (if (rix div 2) mod 2 = 0 then lowerHexChars else upperHexChars)
                   | Upper \<Rightarrow> upperHexChars
                   | Lower \<Rightarrow> lowerHexChars)
      in chars ! (unat c div 16) # chars ! (unat c mod 16) # toHex_loop hc cs)"

definition toHex :: "bytes \<Rightarrow> HexPrefix \<Rightarrow> HexCase \<Rightarrow> string" where
  "toHex d p hc = (if p = Add then ''0x'' else '''') @ toHex_loop hc d"

definition fromHex_char :: "char \<Rightarrow> WhenError \<Rightarrow> int result" where
  "fromHex_char c we =
     (let i = of_char c :: int in
      if 48 \<le> i \<and> i \<le> 57 then Inr (i - 48)
      else if 97 \<le> i \<and> i \<le> 102 then Inr (i - 97 + 10)
      else if 65 \<le> i \<and> i \<le> 70 then Inr (i - 65 + 10)
      else if we = Throw then Inl BadHexCharacter
      else Inr (-1))"

text \<open>
  The pair loop of \<open>fromHex(string)\<close>. Reading the position just past the end of a
  \<open>std::string\<close> gives the null character, which the last equation but one writes out; the
  inner \<open>return bytes()\<close> drops what was collected.
\<close>

fun fromHex_loop :: "string \<Rightarrow> WhenError \<Rightarrow> bytes \<Rightarrow> bytes result" where
  "fromHex_loop [] we ret = Inr ret"
| "fromHex_loop [c] we ret =
     bindE (fromHex_char c we) (\<lambda>h. bindE (fromHex_char (CHR 0x00) we) (\<lambda>l.
       if h \<noteq> -1 \<and> l \<noteq> -1 then Inr (ret @ [word_of_int (h * 16 + l)]) else Inr []))"
| "fromHex_loop (c # d # s) we ret =
     bindE (fromHex_char c we) (\<lambda>h. bindE (fromHex_char d we) (\<lambda>l.
       if h \<noteq> -1 \<and> l \<noteq> -1 then fromHex_loop s we (ret @ [word_of_int (h * 16 + l)])
       else Inr []))"

definition fromHex :: "string \<Rightarrow> WhenError \<Rightarrow> bytes result" where
  "fromHex s we =
     (if s = [] then Inr []
      else
        let start = (if take 2 s = ''0x'' then 2 else 0); rest = drop start s
        in if odd (length s) then
             (case rest of
                [] \<Rightarrow> bindE (fromHex_char (CHR 0x00) we) (\<lambda>h. Inr [])
              | c # s' \<Rightarrow>
                  bindE (fromHex_char c we) (\<lambda>h.
                    if h \<noteq> -1 then fromHex_loop s' we [word_of_int h] else Inr []))
           else fromHex_loop rest we [])"

subsection \<open>Bytes and strings\<close>

definition asString :: "bytes \<Rightarrow> string" where
  "asString b = map (\<lambda>x. char_of (unat x)) b"

definition asBytes :: "string \<Rightarrow> bytes" where
  "asBytes s = map of_char s"

subsection \<open>Big-endian encodings\<close>

fun toBigEndian_loop :: "nat \<Rightarrow> nat \<Rightarrow> bytes \<Rightarrow> bytes" where
  "toBigEndian_loop val 0 out = out"
| "toBigEndian_loop val (Suc i) out =
     toBigEndian_loop (val div 256) i (out[i := word_of_nat (val mod 256)])"

definition toBigEndian :: "nat \<Rightarrow> bytes \<Rightarrow> bytes" where
  "toBigEndian val out = toBigEndian_loop val (length out) out"

definition fromBigEndian :: "bytes \<Rightarrow> 'a::len word" where
  "fromBigEndian bs = foldl (\<lambda>ret i. or (push_bit 8 ret) (ucast i)) 0 bs"

definition toBigEndian_u256 :: "u256 \<Rightarrow> bytes" where
  "toBigEndian_u256 val = toBigEndian (unat val) (replicate 32 0)"

definition toBigEndian_u160 :: "160 word \<Rightarrow> bytes" where
  "toBigEndian_u160 val = toBigEndian (unat val) (replicate 20 0)"

fun bytesRequired :: "nat \<Rightarrow> nat" where
  "bytesRequired i = (if i = 0 then 0 else Suc (bytesRequired (i div 256)))"

declare bytesRequired.simps [simp del]

text \<open>\<open>toCompactBigEndian\<close> counts the bytes with the same loop that \<open>bytesRequired\<close> runs.\<close>

definition toCompactBigEndian :: "nat \<Rightarrow> nat \<Rightarrow> bytes" where
  "toCompactBigEndian val minlen = toBigEndian val (replicate (max minlen (bytesRequired val)) 0)"

definition toHex_u256 :: "u256 \<Rightarrow> HexPrefix \<Rightarrow> string" where
  "toHex_u256 val prefix =
     (let str = toHex (toBigEndian_u256 val) DontAdd Lower
      in if prefix = Add then ''0x'' @ str else str)"

definition toCompactHexWithPrefix :: "u256 \<Rightarrow> string" where
  "toCompactHexWithPrefix value = toHex (toCompactBigEndian (unat value) 1) Add Lower"

subsection \<open>Numbers as text\<close>

text \<open>Decimal digits, the text of \<open>std::to_string\<close> and of \<open>str()\<close> of a big integer.\<close>

definition decDigits :: string where
  "decDigits = ''0123456789''"

definition digitChar :: "nat \<Rightarrow> char" where
  "digitChar d = decDigits ! d"

fun decimal :: "nat \<Rightarrow> string" where
  "decimal n = (if n < 10 then [digitChar n] else decimal (n div 10) @ [digitChar (n mod 10)])"

declare decimal.simps [simp del]

definition decimal_int :: "int \<Rightarrow> string" where
  "decimal_int i = (if i < 0 then ''-'' @ decimal (nat (- i)) else decimal (nat i))"

definition formatNumber :: "int \<Rightarrow> string" where
  "formatNumber value =
     (let abs_text = (\<lambda>v. if v > 0x1000000 then toHex (toCompactBigEndian v 1) Add Lower
                           else decimal v)
      in if value < 0 then ''-'' @ abs_text (nat (- value)) else abs_text (nat value))"

definition formatNumber_u256 :: "u256 \<Rightarrow> string" where
  "formatNumber_u256 value =
     (if value > 0x1000000 then toCompactHexWithPrefix value else decimal (unat value))"

subsection \<open>Validity of number literals\<close>

definition hexDigits :: string where
  "hexDigits = ''0123456789abcdefABCDEF''"

text \<open>\<open>isValidHex\<close> accepts a string with the prefix and no other character from position two on.\<close>

definition isValidHex :: "string \<Rightarrow> bool" where
  "isValidHex s = (if take 2 s \<noteq> ''0x'' then False else list_all (\<lambda>c. c \<in> set hexDigits) (drop 2 s))"

definition isValidDecimal :: "string \<Rightarrow> bool" where
  "isValidDecimal s =
     (if s = '''' then False
      else if s = ''0'' then True
      else if hd s = CHR ''0'' then False
      else list_all (\<lambda>c. c \<in> set decDigits) s)"

subsection \<open>Quoted strings\<close>

text \<open>\<open>isprint\<close> in the classic locale: the codes from 0x20 to 0x7e.\<close>

definition isprint :: "char \<Rightarrow> bool" where
  "isprint c = (let n = of_char c :: nat in 0x20 \<le> n \<and> n \<le> 0x7e)"

definition escapeChar :: "char \<Rightarrow> string" where
  "escapeChar c =
     (let n = of_char c :: nat in
      if n = 0x5c then [CHR 0x5c, CHR 0x5c]
      else if n = 0x22 then [CHR 0x5c, CHR 0x22]
      else if n = 8 then [CHR 0x5c, CHR ''b'']
      else if n = 12 then [CHR 0x5c, CHR ''f'']
      else if n = 10 then [CHR 0x5c, CHR ''n'']
      else if n = 13 then [CHR 0x5c, CHR ''r'']
      else if n = 9 then [CHR 0x5c, CHR ''t'']
      else if n = 11 then [CHR 0x5c, CHR ''v'']
      else if \<not> isprint c then
        [CHR 0x5c, CHR ''x'', lowerHexChars ! (n div 16), lowerHexChars ! (n mod 16)]
      else [c])"

definition escapeAndQuoteString :: "string \<Rightarrow> string" where
  "escapeAndQuoteString s = [CHR 0x22] @ concat (map escapeChar s) @ [CHR 0x22]"

subsection \<open>Rewriting loops\<close>

text \<open>
  \<open>iterateReplacing\<close>: \<open>useModified\<close> tells whether the copy \<open>modifiedVector\<close> is in use, and
  \<open>i\<close> is the position in the vector. The callable is taken as a function of the element's value.
\<close>

fun iterateReplacing_loop ::
    "('a \<Rightarrow> 'a list option) \<Rightarrow> 'a list \<Rightarrow> bool \<Rightarrow> 'a list \<Rightarrow> nat \<Rightarrow> 'a list \<Rightarrow> bool \<times> 'a list" where
  "iterateReplacing_loop f vec useModified modifiedVector i [] = (useModified, modifiedVector)"
| "iterateReplacing_loop f vec useModified modifiedVector i (x # xs) =
     (case f x of
        Some r \<Rightarrow>
          iterateReplacing_loop f vec True
            ((if \<not> useModified then take i vec else modifiedVector) @ r) (Suc i) xs
      | None \<Rightarrow>
          iterateReplacing_loop f vec useModified
            (if useModified then modifiedVector @ [x] else modifiedVector) (Suc i) xs)"

definition iterateReplacing :: "('a \<Rightarrow> 'a list option) \<Rightarrow> 'a list \<Rightarrow> 'a list" where
  "iterateReplacing f vec =
     (let (useModified, modifiedVector) = iterateReplacing_loop f vec False [] 0 vec
      in if useModified then modifiedVector else vec)"

text \<open>
  \<open>iterateReplacingWindow\<close>: the same over windows of \<open>n\<close> elements, with the tail of the vector
  copied at the end. \<open>n\<close> is a template argument; a window of no element would not advance the
  loop after a replacement, so \<open>n\<close> is \<open>Suc k\<close> below.
\<close>

function iterateReplacingWindow_loop ::
    "('a list \<Rightarrow> 'a list option) \<Rightarrow> nat \<Rightarrow> 'a list \<Rightarrow> bool \<Rightarrow> 'a list \<Rightarrow> nat \<Rightarrow> bool \<times> 'a list" where
  "iterateReplacingWindow_loop f k vec useModified modifiedVector i =
     (if i + Suc k \<le> length vec then
        (case f (take (Suc k) (drop i vec)) of
           Some r \<Rightarrow>
             iterateReplacingWindow_loop f k vec True
               ((if \<not> useModified then take i vec else modifiedVector) @ r) (i + k + 1)
         | None \<Rightarrow>
             iterateReplacingWindow_loop f k vec useModified
               (if useModified then modifiedVector @ [vec ! i] else modifiedVector) (i + 1))
      else (useModified, if useModified then modifiedVector @ drop i vec else modifiedVector))"
  by pat_completeness auto
termination
  by (relation "measure (\<lambda>(f, k, vec, u, m, i). length vec - i)") auto

declare iterateReplacingWindow_loop.simps [simp del]

definition iterateReplacingWindow :: "nat \<Rightarrow> ('a list \<Rightarrow> 'a list option) \<Rightarrow> 'a list \<Rightarrow> 'a list" where
  "iterateReplacingWindow k f vec =
     (let (useModified, modifiedVector) = iterateReplacingWindow_loop f k vec False [] 0
      in if useModified then modifiedVector else vec)"

section \<open>Big-endian encodings\<close>

text \<open>The bytes of a number as a recursion on their count, and the number they stand for.\<close>

fun be :: "nat \<Rightarrow> nat \<Rightarrow> bytes" where
  "be 0 v = []"
| "be (Suc n) v = be n (v div 256) @ [word_of_nat (v mod 256)]"

definition be_value :: "bytes \<Rightarrow> nat" where
  "be_value bs = foldl (\<lambda>r b. r * 256 + unat b) 0 bs"

lemma length_be [simp]: "length (be n v) = n"
  by (induction n arbitrary: v) auto

lemma toBigEndian_loop_be:
  "i \<le> length out \<Longrightarrow> toBigEndian_loop v i out = be i v @ drop i out"
proof (induction v i out rule: toBigEndian_loop.induct)
  case (2 v i out)
  then show ?case by (simp add: drop_update_cancel Cons_nth_drop_Suc [symmetric])
qed simp

theorem toBigEndian_be: "toBigEndian v out = be (length out) v"
  by (simp add: toBigEndian_def toBigEndian_loop_be)

lemma be_zero [simp]: "be n 0 = replicate n 0"
  by (induction n) (auto simp: replicate_append_same)

lemma be_value_append [simp]: "be_value (bs @ [b]) = be_value bs * 256 + unat b"
  by (simp add: be_value_def)

lemma be_value_be: "be_value (be n v) = v mod 256 ^ n"
proof (induction n arbitrary: v)
  case 0
  then show ?case by (simp add: be_value_def)
next
  case (Suc n)
  have "v div 256 mod 256 ^ n * 256 + v mod 256 = v mod (256 * 256 ^ n)"
    by (simp add: mod_mult2_eq)
  with Suc show ?case by (simp add: unat_of_nat)
qed

lemma be_value_bound: "be_value bs < 256 ^ length bs"
proof (induction bs rule: rev_induct)
  case Nil
  then show ?case by (simp add: be_value_def)
next
  case (snoc b bs)
  then show ?case using unat_byte_less [of b] by (simp del: unat_byte_less)
qed

lemma be_be_value: "be (length bs) (be_value bs) = bs"
proof (induction bs rule: rev_induct)
  case (snoc b bs)
  have "unat b < 256" by simp
  with snoc show ?case by simp
qed simp

lemma or_push_bit_8: "or (push_bit 8 w) (ucast (b::byte)) = (w * 256 + ucast b :: 'a::len word)"
proof -
  have "and (push_bit 8 w) (ucast b :: 'a word) = 0"
    by (rule bit_eqI) (auto simp: bit_simps dest: bit_imp_le_length)
  then have "or (push_bit 8 w) (ucast b) = push_bit 8 w + (ucast b :: 'a word)"
    by (simp add: disjunctive_add_eq_or)
  then show ?thesis by (simp add: push_bit_eq_mult)
qed

lemma fromBigEndian_value: "fromBigEndian bs = (word_of_nat (be_value bs) :: 'a::len word)"
proof (induction bs rule: rev_induct)
  case Nil
  then show ?case by (simp add: fromBigEndian_def be_value_def)
next
  case (snoc b bs)
  have "(ucast b :: 'a word) = word_of_nat (unat b)" by simp
  with snoc show ?case
    by (simp add: fromBigEndian_def or_push_bit_8)
qed

theorem bytesRequired_le_iff: "bytesRequired v \<le> n \<longleftrightarrow> v < 256 ^ n"
proof (induction n arbitrary: v)
  case 0
  then show ?case by (subst bytesRequired.simps) simp
next
  case (Suc n)
  have "v div 256 < 256 ^ n \<longleftrightarrow> v < 256 ^ Suc n" 
    by (simp add: div_less_iff_less_mult mult.commute)
  with Suc [of "v div 256"] show ?case by (subst bytesRequired.simps) auto
qed

lemma bytesRequired_bound: "v < 256 ^ bytesRequired v"
  using bytesRequired_le_iff [of v "bytesRequired v"] by simp

lemma bytesRequired_mono: "v \<le> w \<Longrightarrow> bytesRequired v \<le> bytesRequired w"
  using bytesRequired_bound [of w] by (auto simp: bytesRequired_le_iff)

lemma bytesRequired_pos: "0 < bytesRequired v \<longleftrightarrow> 0 < v"
  using bytesRequired_le_iff [of v 0] by auto

lemma bytesRequired_0 [simp]: "bytesRequired 0 = 0"
  by (simp add: bytesRequired.simps)

lemma bytesRequired_word: "bytesRequired (unat (w :: 'a::len word)) \<le> n" if "LENGTH('a) \<le> 8 * n"
proof -
  have "(2::nat) ^ LENGTH('a) \<le> 2 ^ (8 * n)" using that by simp
  then have "(2::nat) ^ LENGTH('a) \<le> 256 ^ n" by (simp add: power_mult)
  with unat_less [of w] have "unat w < 256 ^ n" by (rule less_le_trans)
  then show ?thesis by (simp add: bytesRequired_le_iff)
qed

lemma be_value_be_small: "bytesRequired v \<le> n \<Longrightarrow> be_value (be n v) = v"
  by (simp add: be_value_be bytesRequired_le_iff)

theorem fromBigEndian_toBigEndian:
  "LENGTH('a) \<le> 8 * length out \<Longrightarrow> fromBigEndian (toBigEndian (unat w) out) = (w :: 'a::len word)"
  by (simp add: toBigEndian_be fromBigEndian_value be_value_be_small bytesRequired_word)

theorem toCompactBigEndian_roundtrip:
  "be_value (toCompactBigEndian v m) = v \<and>
   length (toCompactBigEndian v m) = max m (bytesRequired v)"
  by (simp add: toCompactBigEndian_def toBigEndian_be be_value_be_small)

lemma of_char_char_of_byte [simp]: "of_char (char_of (unat x)) = (x :: byte)"
proof -
  have "(of_char (char_of (unat x)) :: byte) = of_nat (of_char (char_of (unat x)))"
    by (simp only: of_nat_of_char)
  then show ?thesis by simp
qed

lemma asBytes_asString [simp]: "asBytes (asString b) = b"
  by (simp add: asBytes_def asString_def comp_def)

lemma asString_asBytes [simp]: "asString (asBytes s) = s"
proof -
  have "char_of (unat (of_char c :: byte)) = c" for c
  proof -
    have "(of_char c :: byte) = of_nat (of_char c)" by (simp only: of_nat_of_char)
    then show ?thesis by (simp add: unat_of_nat)
  qed
  then show ?thesis by (simp add: asBytes_def asString_def comp_def)
qed

section \<open>Hexadecimal text\<close>

lemma fromHex_char_digit:
  assumes "d < 16"
  shows "fromHex_char (lowerHexChars ! d) we = Inr (int d)"
    and "fromHex_char (upperHexChars ! d) we = Inr (int d)"
proof -
  have "list_all (\<lambda>d. fromHex_char (lowerHexChars ! d) we = Inr (int d) \<and>
                      fromHex_char (upperHexChars ! d) we = Inr (int d)) [0..<16]"
    by (cases we) code_simp+
  then show "fromHex_char (lowerHexChars ! d) we = Inr (int d)"
    and "fromHex_char (upperHexChars ! d) we = Inr (int d)"
    using assms by (simp_all add: list_all_iff)
qed

lemma hexChars_not_x:
  assumes "d < 16"
  shows "lowerHexChars ! d \<noteq> CHR ''x'' \<and> upperHexChars ! d \<noteq> CHR ''x'' \<and>
         lowerHexChars ! d \<in> set hexDigits \<and> upperHexChars ! d \<in> set hexDigits"
proof -
  have "list_all (\<lambda>d. lowerHexChars ! d \<noteq> CHR ''x'' \<and> upperHexChars ! d \<noteq> CHR ''x'' \<and>
         lowerHexChars ! d \<in> set hexDigits \<and> upperHexChars ! d \<in> set hexDigits) [0..<16]"
    by code_simp
  then show ?thesis using assms by (simp add: list_all_iff)
qed

lemma byte_nibbles: "unat (b :: byte) div 16 < 16" "unat b mod 16 < 16"
  using unat_byte_less [of b] by (simp_all add: div_less_iff_less_mult del: unat_byte_less)

lemma fromHex_loop_toHex_loop: "fromHex_loop (toHex_loop hc d) we ret = Inr (ret @ d)"
proof (induction d arbitrary: ret)
  case (Cons c cs)
  have "int (unat c div 16) * 16 + int (unat c mod 16) = int (unat c)"
    by presburger
  then have "word_of_int (int (unat c div 16) * 16 + int (unat c mod 16)) = c"
    by (simp only:) simp
  with Cons show ?case
    by (cases hc) (simp_all add: Let_def fromHex_char_digit byte_nibbles)
qed simp

lemma length_toHex_loop [simp]: "length (toHex_loop hc d) = 2 * length d"
  by (induction d) (auto simp: Let_def)

lemma toHex_loop_Nil: "toHex_loop hc d = [] \<longleftrightarrow> d = []"
  by (cases d) (auto simp: Let_def)

lemma toHex_loop_no_prefix: "take 2 (toHex_loop hc d) \<noteq> ''0x''"
  by (cases d; cases hc) (auto simp: Let_def numeral_2_eq_2 hexChars_not_x byte_nibbles)

lemma toHex_loop_digits: "set (toHex_loop hc d) \<subseteq> set hexDigits"
  by (induction d) (auto simp: Let_def hexChars_not_x byte_nibbles split: HexCase.splits)

theorem fromHex_toHex: "fromHex (toHex d p hc) we = Inr d"
  using toHex_loop_no_prefix [of hc d]
  by (cases p) (auto simp: toHex_def fromHex_def Let_def fromHex_loop_toHex_loop toHex_loop_Nil
    simp del: toHex_loop.simps)

lemma length_toHex: "length (toHex d p hc) = 2 * length d + (if p = Add then 2 else 0)"
  by (simp add: toHex_def)

lemma isValidHex_toHex: "isValidHex (toHex d Add hc)"
  using toHex_loop_digits [of hc d] by (auto simp: isValidHex_def toHex_def list_all_iff)

lemma fromHex_char_range: "fromHex_char c we = Inr h \<Longrightarrow> -1 \<le> h \<and> h < 16"
  by (auto simp: fromHex_char_def Let_def split: if_splits)

lemma fromHex_char_bad: "fromHex_char c DontThrow = Inr (-1) \<longleftrightarrow> c \<notin> set hexDigits"
proof -
  have "\<forall>c. fromHex_char c DontThrow = Inr (-1) \<longleftrightarrow> c \<notin> set hexDigits"
    by code_simp
  then show ?thesis by blast
qed

section \<open>Decimal\<close>

definition decimal_value :: "string \<Rightarrow> nat" where
  "decimal_value s = foldl (\<lambda>n c. n * 10 + (of_char c - 48)) 0 s"

lemma digitChar_value: "d < 10 \<Longrightarrow> of_char (digitChar d) = (48 + d :: nat) \<and> digitChar d \<in> set decDigits"
proof -
  have "list_all (\<lambda>d. of_char (digitChar d) = (48 + d :: nat) \<and> digitChar d \<in> set decDigits) [0..<10]"
    by code_simp
  then show "d < 10 \<Longrightarrow> ?thesis" by (simp add: list_all_iff)
qed

theorem decimal_value_decimal: "decimal_value (decimal n) = n"
proof (induction n rule: decimal.induct)
  case (1 n)
  then show ?case
    by (subst decimal.simps) (auto simp: decimal_value_def digitChar_value)
qed

lemma decimal_digits: "set (decimal n) \<subseteq> set decDigits \<and> decimal n \<noteq> []"
proof (induction n rule: decimal.induct)
  case (1 n)
  show ?case 
  proof (cases "n < 10")
    case True
    then show ?thesis using digitChar_value [of n] by (subst (1 2) decimal.simps) auto
  next
    case False
    then show ?thesis using 1 digitChar_value [of "n mod 10"] by (subst (1 2) decimal.simps) auto
  qed
qed

lemma decimal_hd: "0 < n \<Longrightarrow> hd (decimal n) \<noteq> CHR ''0''"
proof (induction n rule: decimal.induct)
  case (1 n)
  show ?case
  proof (cases "n < 10")
    case True
    have "of_char (digitChar n) = (48 + n :: nat)" using True digitChar_value by blast
    with 1(2) True show ?thesis by (subst decimal.simps) auto
  next
    case False
    then have "hd (decimal (n div 10)) \<noteq> CHR ''0''" using 1 by auto
    with False decimal_digits [of "n div 10"] show ?thesis by (subst decimal.simps) auto
  qed
qed

theorem isValidDecimal_decimal: "isValidDecimal (decimal n)"
proof (cases "n = 0")
  case True
  then show ?thesis by (simp add: isValidDecimal_def decimal.simps [of 0] digitChar_def decDigits_def)
next
  case False
  then have "hd (decimal n) \<noteq> CHR ''0''" by (simp add: decimal_hd)
  with decimal_digits [of n] show ?thesis by (auto simp: isValidDecimal_def list_all_iff)
qed

section \<open>Replacing\<close>

definition replaceEach :: "('a \<Rightarrow> 'a list option) \<Rightarrow> 'a list \<Rightarrow> 'a list" where
  "replaceEach f xs = concat (map (\<lambda>x. case f x of None \<Rightarrow> [x] | Some r \<Rightarrow> r) xs)"

lemma replaceEach_simps [simp]:
  "replaceEach f [] = []"
  "replaceEach f (xs @ ys) = replaceEach f xs @ replaceEach f ys"
  "replaceEach f (x # xs) = (case f x of None \<Rightarrow> [x] | Some r \<Rightarrow> r) @ replaceEach f xs"
  by (simp_all add: replaceEach_def)

lemma replaceEach_none: "\<forall>x \<in> set xs. f x = None \<Longrightarrow> replaceEach f xs = xs"
  by (induction xs) auto

lemma iterateReplacing_loop_spec:
  assumes "vec = pre @ xs" and "u \<longleftrightarrow> (\<exists>x \<in> set pre. f x \<noteq> None)" and "u \<longrightarrow> m = replaceEach f pre"
  shows "iterateReplacing_loop f vec u m (length pre) xs =
    (\<exists>x \<in> set vec. f x \<noteq> None, if \<exists>x \<in> set vec. f x \<noteq> None then replaceEach f vec else m)"
  using assms
proof (induction xs arbitrary: pre u m)
  case (Cons x xs)
  let ?m = "case f x of None \<Rightarrow> if u then m @ [x] else m
            | Some r \<Rightarrow> (if \<not> u then take (length pre) vec else m) @ r"
  have m: "u \<or> f x \<noteq> None \<longrightarrow> ?m = replaceEach f (pre @ [x])"
    using Cons.prems replaceEach_none [of pre f] by (auto split: option.splits)
  have "iterateReplacing_loop f vec (u \<or> f x \<noteq> None) ?m (length (pre @ [x])) xs =
    (\<exists>x \<in> set vec. f x \<noteq> None, if \<exists>x \<in> set vec. f x \<noteq> None then replaceEach f vec else ?m)"
    by (rule Cons.IH) (use Cons.prems m in auto)
  moreover have "(\<exists>x \<in> set vec. f x \<noteq> None) \<or> ?m = m"
    using Cons.prems by (auto split: option.splits)
  ultimately show ?case by (cases "f x") auto
qed auto

theorem iterateReplacing_replaceEach: "iterateReplacing f vec = replaceEach f vec"
  using iterateReplacing_loop_spec [of vec "[]" vec False f "[]"] replaceEach_none [of vec f]
  by (auto simp: iterateReplacing_def)

section \<open>Quoted strings\<close>

text \<open>A reader of quoted strings: an unescaped quote ends the string.\<close>

definition escapeLetters :: "(char \<times> char) list" where
  "escapeLetters =
     [(CHR 0x5c, CHR 0x5c), (CHR 0x22, CHR 0x22), (CHR ''b'', CHR 0x08), (CHR ''f'', CHR 0x0c),
      (CHR ''n'', CHR 0x0a), (CHR ''r'', CHR 0x0d), (CHR ''t'', CHR 0x09), (CHR ''v'', CHR 0x0b)]"

fun unescape :: "string \<Rightarrow> string option" where
  "unescape [] = None"
| "unescape (c # s) =
     (if c = CHR 0x22 then (if s = [] then Some [] else None)
      else if c \<noteq> CHR 0x5c then map_option (Cons c) (unescape s)
      else (case s of
              [] \<Rightarrow> None
            | d # s' \<Rightarrow>
                (case map_of escapeLetters d of
                   Some e \<Rightarrow> map_option (Cons e) (unescape s')
                 | None \<Rightarrow>
                     (case s' of
                        h # l # s'' \<Rightarrow>
                          (case (fromHex_char h Throw, fromHex_char l Throw) of
                             (Inr a, Inr b) \<Rightarrow>
                               map_option (Cons (char_of (nat (a * 16 + b)))) (unescape s'')
                           | _ \<Rightarrow> None)
                      | _ \<Rightarrow> None))))"

definition unquote :: "string \<Rightarrow> string option" where
  "unquote s = (case s of [] \<Rightarrow> None | c # s' \<Rightarrow> if c = CHR 0x22 then unescape s' else None)"

lemma escapeLetters_escapeChar:
  "(d, c) \<in> set escapeLetters \<Longrightarrow> escapeChar c = [CHR 0x5c, d] \<and> map_of escapeLetters d = Some c"
proof -
  have "list_all (\<lambda>(d, c). escapeChar c = [CHR 0x5c, d] \<and> map_of escapeLetters d = Some c) escapeLetters"
    by code_simp
  then show "(d, c) \<in> set escapeLetters \<Longrightarrow> ?thesis" by (auto simp: list_all_iff)
qed

lemma escapeLetters_codes:
  "of_char c \<in> {0x5c, 0x22, 8, 12, 10, 13, 9, 11 :: nat} \<Longrightarrow> \<exists>d. (d, c) \<in> set escapeLetters"
proof -
  assume "of_char c \<in> {0x5c, 0x22, 8, 12, 10, 13, 9, 11 :: nat}"
  then have "c \<in> char_of ` {0x5c, 0x22, 8, 12, 10, 13, 9, 11 :: nat}"
    by (metis char_of_char imageI)
  also have "\<dots> = snd ` set escapeLetters" by code_simp
  finally show ?thesis by force
qed

lemma escapeChar_cases:
  obtains (letter) d where "escapeChar c = [CHR 0x5c, d]" and "map_of escapeLetters d = Some c"
  | (hex) "escapeChar c =
      [CHR 0x5c, CHR ''x'', lowerHexChars ! (of_char c div 16), lowerHexChars ! (of_char c mod 16)]"
  | (plain) "escapeChar c = [c]" and "c \<noteq> CHR 0x22" and "c \<noteq> CHR 0x5c"
proof (cases "of_char c \<in> {0x5c, 0x22, 8, 12, 10, 13, 9, 11 :: nat}")
  case True
  then show thesis using escapeLetters_codes escapeLetters_escapeChar letter by blast
next
  case False
  then have "c \<noteq> CHR 0x22" and "c \<noteq> CHR 0x5c" by auto
  with False show thesis
    by (cases "isprint c") (auto simp: escapeChar_def Let_def intro: hex plain)
qed

lemma escapeLetters_x: "map_of escapeLetters CHR ''x'' = None"
  by code_simp

lemma unescape_escapeChar: "unescape (escapeChar c @ s) = map_option (Cons c) (unescape s)"
proof (cases c rule: escapeChar_cases)
  case hex
  have "of_char c < (256 :: nat)" by simp
  then have "of_char c div 16 < (16 :: nat)" by (simp add: div_less_iff_less_mult)
  moreover have "int (of_char c div 16) * 16 + int (of_char c mod 16) = int (of_char c)"
    by presburger
  then have "nat (int (of_char c div 16) * 16 + int (of_char c mod 16)) = of_char c"
    by simp
  ultimately show ?thesis
    by (simp add: hex fromHex_char_digit escapeLetters_x del: of_char_eq_iff)
qed auto

theorem unquote_escapeAndQuoteString: "unquote (escapeAndQuoteString s) = Some s"
proof -
  have "unescape (concat (map escapeChar s) @ [CHR 0x22]) = Some s"
    by (induction s) (simp_all add: unescape_escapeChar)
  then show ?thesis by (simp add: unquote_def escapeAndQuoteString_def)
qed

section \<open>Windows\<close>

function replaceWindows :: "nat \<Rightarrow> ('a list \<Rightarrow> 'a list option) \<Rightarrow> 'a list \<Rightarrow> 'a list" where
  "replaceWindows k f xs =
     (if Suc k \<le> length xs then
        (case f (take (Suc k) xs) of
           Some r \<Rightarrow> r @ replaceWindows k f (drop (Suc k) xs)
         | None \<Rightarrow> hd xs # replaceWindows k f (tl xs))
      else xs)"
  by pat_completeness auto
termination
  by (relation "measure (\<lambda>(k, f, xs). length xs)") auto

declare replaceWindows.simps [simp del]

lemma iterateReplacingWindow_loop_spec:
  "iterateReplacingWindow_loop f k vec u m i = (u', m') \<Longrightarrow>
   (if u' then m' = (if u then m else take i vec) @ replaceWindows k f (drop i vec)
    else \<not> u \<and> replaceWindows k f (drop i vec) = drop i vec)"
proof (induction f k vec u m i rule: iterateReplacingWindow_loop.induct)
  case (1 f k vec u m i)
  show ?case
  proof (cases "i + Suc k \<le> length vec")
    case False
    with 1(3) show ?thesis
      by (subst (asm) iterateReplacingWindow_loop.simps) 
         (auto simp: replaceWindows.simps [of k f "drop i vec"])
  next
    case True
    note unf = iterateReplacingWindow_loop.simps [of f k vec u m i] replaceWindows.simps [of k f "drop i vec"]
    have le: "Suc k \<le> length (drop i vec)" using True by simp
    have dr: "drop i vec = vec ! i # drop (Suc i) vec" using True by (simp add: Cons_nth_drop_Suc)
    have tk: "take (Suc i) vec = take i vec @ [vec ! i]" using True by (simp add: take_Suc_conv_app_nth)
    show ?thesis
    proof (cases "f (take (Suc k) (drop i vec))")
      case None
      then have rw: "replaceWindows k f (drop i vec) = vec ! i # replaceWindows k f (drop (Suc i) vec)"
        using True by (simp add: unf(2) hd_drop_conv_nth drop_Suc tl_drop)
      have "iterateReplacingWindow_loop f k vec u (if u then m @ [vec ! i] else m) (i + 1) = (u', m')"
        using None True "1.prems" by (simp add: unf(1))
      from "1.IH"(1) [OF True None this] show ?thesis
        unfolding rw by (cases u') (simp_all add: tk dr split: if_splits)
    next
      case (Some r)
      then have rw: "replaceWindows k f (drop i vec) = r @ replaceWindows k f (drop (i + k + 1) vec)"
        using le by (simp add: unf(2) add.commute)
      have "iterateReplacingWindow_loop f k vec True ((if \<not> u then take i vec else m) @ r) (i + k + 1)
          = (u', m')"
        using Some True "1.prems" by (simp add: unf(1))
      from "1.IH"(2) [OF True Some this] show ?thesis
        unfolding rw by (cases u') simp_all
    qed
  qed
qed

theorem iterateReplacingWindow_replaceWindows:
  "iterateReplacingWindow k f vec = replaceWindows k f vec"
proof -
  obtain u m where um: "iterateReplacingWindow_loop f k vec False [] 0 = (u, m)" by force
  with iterateReplacingWindow_loop_spec [OF um] show ?thesis
    by (auto simp: iterateReplacingWindow_def)
qed

section \<open>Malformed hexadecimal text\<close>

lemma fromHex_char_good: "c \<in> set hexDigits \<Longrightarrow> \<exists>h. 0 \<le> h \<and> fromHex_char c we = Inr h"
proof -
  have "\<forall>c \<in> set hexDigits. case fromHex_char c we of Inl _ \<Rightarrow> False | Inr h \<Rightarrow> 0 \<le> h"
    by (cases we) code_simp+
  then show "c \<in> set hexDigits \<Longrightarrow> ?thesis" by (fastforce split: sum.splits)
qed

lemma fromHex_char_Throw_bad: "c \<notin> set hexDigits \<Longrightarrow> fromHex_char c Throw = Inl BadHexCharacter"
  using fromHex_char_bad [of c] by (auto simp: fromHex_char_def Let_def split: if_splits)

text \<open>A malformed string: the answer of \<open>fromHex\<close> for each error mode.\<close>

abbreviation malformed :: "WhenError \<Rightarrow> bytes result" where
  "malformed we \<equiv> (if we = Throw then Inl BadHexCharacter else Inr [])"

lemma fromHex_char_cases:
  obtains (good) h where "c \<in> set hexDigits" "0 \<le> h" "fromHex_char c we = Inr h"
  | (bad) "c \<notin> set hexDigits" "fromHex_char c we = (if we = Throw then Inl BadHexCharacter else Inr (-1))"
  using fromHex_char_good [of c we] fromHex_char_Throw_bad [of c] fromHex_char_bad [of c]
  by (cases we; cases "c \<in> set hexDigits") auto

lemma fromHex_loop_bad:
  "even (length s) \<Longrightarrow> \<not> set s \<subseteq> set hexDigits \<Longrightarrow> fromHex_loop s we ret = malformed we"
proof (induction s we ret rule: fromHex_loop.induct)
  case (3 c d s we ret)
  show ?case
  proof (cases c we rule: fromHex_char_cases)
    case c: (good h)
    then show ?thesis
    proof (cases d we rule: fromHex_char_cases)
      case (good l)
      with 3 c show ?thesis by auto
    next
      case bad
      with c show ?thesis by simp
    qed
  next
    case bad
    then show ?thesis by (cases d we rule: fromHex_char_cases) simp_all
  qed
qed auto

lemma fromHex_bad:
  assumes "even (length s)" and "\<not> set (if take 2 s = ''0x'' then drop 2 s else s) \<subseteq> set hexDigits"
  shows "fromHex s we = malformed we"
proof -
  have "s \<noteq> []" using assms(2) by auto
  with assms show ?thesis
    by (auto simp: fromHex_def Let_def fromHex_loop_bad split: if_splits)
qed

section \<open>Properties\<close>

text \<open>
  C37. Printing bytes in hexadecimal and reading them back: for either prefix and any letter case,
  \<open>fromHex\<close> recovers exactly the bytes that \<open>toHex\<close> printed, the text has two characters per byte,
  and the prefixed text is a valid hexadecimal literal.
\<close>

theorem toHex_fromHex_roundtrip:
  "fromHex (toHex d p hc) we = Inr d \<and>
   length (toHex d p hc) = 2 * length d + (if p = Add then 2 else 0) \<and>
   isValidHex (toHex d Add hc)"
  by (simp add: fromHex_toHex length_toHex isValidHex_toHex)



text \<open>
  C39. The compact big-endian encoding stands for the encoded number, and it is the shortest that does (or
  as long as the requested minimum): \<open>bytesRequired\<close> is at most \<open>n\<close> exactly for the numbers below 256^n.
\<close>

theorem toCompactBigEndian_minimal:
  "be_value (toCompactBigEndian v m) = v \<and>
   length (toCompactBigEndian v m) = max m (bytesRequired v) \<and>
   (bytesRequired v \<le> n \<longleftrightarrow> v < 256 ^ n)"
  by (simp add: toCompactBigEndian_def toBigEndian_be be_value_be_small bytesRequired_le_iff)

text \<open>
  Quoted strings can be read back: a reader that ends at the first unescaped quote recovers the
  original string from the output of \<open>escapeAndQuoteString\<close>.
\<close>

theorem escapeAndQuoteString_roundtrip: "unquote (escapeAndQuoteString s) = Some s"
  by (rule unquote_escapeAndQuoteString)

text \<open>
  C40. The in-place rewriting loops are equivalent to their specifications: \<open>iterateReplacing\<close> replaces
  every element independently, \<open>iterateReplacingWindow\<close> consumes windows from left to right.
\<close>

theorem iterateReplacing_equivalence:
  "iterateReplacing f vec = replaceEach f vec \<and> iterateReplacingWindow k g vec = replaceWindows k g vec"
  by (simp add: iterateReplacing_replaceEach iterateReplacingWindow_replaceWindows)

text \<open>
  Decimal text: the digits printed for a number are a valid decimal literal (no leading zero) and stand
  for the number.
\<close>

theorem decimal_roundtrip: "isValidDecimal (decimal n) \<and> decimal_value (decimal n) = n"
  by (simp add: isValidDecimal_decimal decimal_value_decimal)

end
