(* ===== verification/FixedHash.thy ===== *)
theory FixedHash
  imports CommonData
begin

text \<open>
  The class template \<open>FixedHash<N>\<close> of \<^verbatim>\<open>libsolutil/FixedHash.h\<close>: an array of \<open>N\<close> bytes
  that converts to and from an integer in big-endian order. A hash is the list of its bytes; the
  template argument is an explicit parameter of the constructors. The lemmas show what the
  constructors produce, that the conversion to the integer and back is the identity, and that the
  order of hashes is the order of the integers, which is why the later theories use the integer as
  the key of the maps that the code keys by \<open>h256\<close>.
\<close>

section \<open>Definitions\<close>

datatype ConstructFromStringType = FromHex | FromBinary

datatype ConstructFromHashType = AlignLeft | AlignRight | FailIfDifferent

definition FixedHash_empty :: "nat \<Rightarrow> bytes" where
  "FixedHash_empty N = replicate N 0"

text \<open>The constructor from a hash of another size: anything but \<open>AlignRight\<close> aligns left.\<close>

definition FixedHash_of_hash :: "nat \<Rightarrow> bytes \<Rightarrow> ConstructFromHashType \<Rightarrow> bytes" where
  "FixedHash_of_hash N h t =
     (let M = length h; c = min M N
      in foldl (\<lambda>d i. d[(if t = AlignRight then N - 1 - i else i) :=
                         h ! (if t = AlignRight then M - 1 - i else i)])
           (replicate N 0) [0..<c])"

definition FixedHash_of_arith :: "nat \<Rightarrow> nat \<Rightarrow> bytes" where
  "FixedHash_of_arith N arith = toBigEndian arith (replicate N 0)"

definition FixedHash_of_bytes :: "nat \<Rightarrow> bytes \<Rightarrow> ConstructFromHashType \<Rightarrow> bytes" where
  "FixedHash_of_bytes N a sizeMismatchBehavior =
     (if length a = N then a
      else if sizeMismatchBehavior \<noteq> FailIfDifferent then
        let bytesToCopy = min (length a) N
        in foldl (\<lambda>d i. if sizeMismatchBehavior = AlignRight
                         then d[N - 1 - i := a ! (length a - 1 - i)]
                         else d[i := a ! i])
             (replicate N 0) [0..<bytesToCopy]
      else replicate N 0)"

definition FixedHash_of_string ::
    "nat \<Rightarrow> string \<Rightarrow> ConstructFromStringType \<Rightarrow> ConstructFromHashType \<Rightarrow> bytes result" where
  "FixedHash_of_string N s t ht =
     bindE (if t = FromHex then fromHex s Throw else Inr (asBytes s)) (\<lambda>b.
       Inr (FixedHash_of_bytes N b ht))"

definition FixedHash_arith :: "bytes \<Rightarrow> 'a::len word" where
  "FixedHash_arith h = fromBigEndian h"

fun FixedHash_less :: "bytes \<Rightarrow> bytes \<Rightarrow> bool" where
  "FixedHash_less (a # as) (b # bs) =
     (if a < b then True else if a > b then False else FixedHash_less as bs)"
| "FixedHash_less _ _ = False"

definition FixedHash_hex :: "bytes \<Rightarrow> string" where
  "FixedHash_hex h = toHex h DontAdd Lower"

text \<open>\<open>operator<<\<close> prints every byte in hexadecimal with two digits.\<close>

definition FixedHash_print :: "bytes \<Rightarrow> string" where
  "FixedHash_print h = concat (map (\<lambda>b. [lowerHexChars ! (unat b div 16), lowerHexChars ! (unat b mod 16)]) h)"

section \<open>Constructors\<close>

lemma foldl_update_prefix:
  "c \<le> length d \<Longrightarrow> foldl (\<lambda>d i. d[i := f i]) d [0..<c] = map f [0..<c] @ drop c d"
proof (induction c)
  case (Suc c)
  then have "foldl (\<lambda>d i. d[i := f i]) d [0..<Suc c] = (map f [0..<c] @ drop c d)[c := f c]"
    by simp
  also have "\<dots> = map f [0..<Suc c] @ drop (Suc c) d"
    using Suc.prems by (simp add: list_update_append Cons_nth_drop_Suc [symmetric])
  finally show ?case .
qed simp

lemma foldl_update_suffix:
  "c \<le> n \<Longrightarrow> length d = n \<Longrightarrow>
   foldl (\<lambda>d i. d[n - Suc i := f i]) d [0..<c] = take (n - c) d @ rev (map f [0..<c])"
proof (induction c)
  case (Suc c)
  have "foldl (\<lambda>d i. d[n - Suc i := f i]) d [0..<Suc c] =
        (take (n - c) d @ rev (map f [0..<c]))[n - Suc c := f c]"
    using Suc by simp
  also have "take (n - c) d = take (n - Suc c) d @ [d ! (n - Suc c)]"
    using Suc.prems by (metis Suc_diff_Suc Suc_le_lessD diff_less less_le_trans take_Suc_conv_app_nth zero_less_Suc)
  finally show ?case
    using Suc.prems by (simp add: list_update_append)
qed simp

lemma rev_map_suffix: "c \<le> length h \<Longrightarrow> rev (map (\<lambda>i. h ! (length h - Suc i)) [0..<c]) = drop (length h - c) h"
  by (rule nth_equalityI) (auto simp: rev_nth)

lemma FixedHash_of_hash_left:
  "t \<noteq> AlignRight \<Longrightarrow> FixedHash_of_hash N h t = take N h @ replicate (N - length h) 0"
  by (auto simp: FixedHash_of_hash_def foldl_update_prefix Let_def min_def take_map
      intro: nth_equalityI)

lemma FixedHash_of_bytes_left:
  "FixedHash_of_bytes N a AlignLeft = take N a @ replicate (N - length a) 0"
  by (auto simp: FixedHash_of_bytes_def foldl_update_prefix Let_def min_def intro: nth_equalityI)

lemma FixedHash_of_hash_right:
  "FixedHash_of_hash N h AlignRight = replicate (N - length h) 0 @ drop (length h - N) h"
  by (simp add: FixedHash_of_hash_def Let_def foldl_update_suffix rev_map_suffix min_def)

lemma FixedHash_of_bytes_right:
  "FixedHash_of_bytes N a AlignRight = replicate (N - length a) 0 @ drop (length a - N) a"
  by (simp add: FixedHash_of_bytes_def Let_def foldl_update_suffix rev_map_suffix min_def)

section \<open>Order and conversion\<close>

lemma be_value_Cons: "be_value (b # bs) = unat b * 256 ^ length bs + be_value bs"
proof (induction bs rule: rev_induct)
  case Nil
  then show ?case by (simp add: be_value_def)
next
  case (snoc c bs)
  have "be_value (b # bs @ [c]) = be_value ((b # bs) @ [c])" by simp
  also have "\<dots> = be_value (b # bs) * 256 + unat c" by (rule be_value_append)
  finally show ?case by (simp add: snoc algebra_simps)
qed

lemma FixedHash_less_value:
  "length a = length b \<Longrightarrow> FixedHash_less a b \<longleftrightarrow> be_value a < be_value b"
proof (induction a b rule: FixedHash_less.induct)
  case (1 a as b bs)
  let ?B = "256 ^ length bs"
  have bounds: "be_value as < ?B" "be_value bs < ?B"
    using be_value_bound [of as] be_value_bound [of bs] "1.prems" by simp_all
  have lt: "unat x * ?B + be_value xs < unat y * ?B + be_value ys"
    if "x < y" "be_value xs < ?B" for x y :: byte and xs ys
  proof -
    have "Suc (unat x) * ?B \<le> unat y * ?B" using that(1) by (intro mult_le_mono1) (simp add: word_less_nat_alt)
    with that(2) show ?thesis by simp
  qed
  consider "a < b" | "b < a" | "a = b" by (rule linorder_cases)
  then show ?case
  proof cases
    case 1
    then show ?thesis using lt [of a b as bs] bounds "1.prems" by (simp add: be_value_Cons)
  next
    case 2
    then show ?thesis using lt [of b a bs as] bounds "1.prems" by (simp add: be_value_Cons)
  next
    case 3
    then show ?thesis using "1.IH" "1.prems" by (simp add: be_value_Cons)
  qed
qed auto

section \<open>Properties\<close>

text \<open>
  A hash is as good as its integer: converting an integer of at most 8 N bits to a hash of N bytes and
  back gives the integer again, and comparing two hashes byte by byte is comparing the integers.
\<close>

theorem FixedHash_arith_iso:
  fixes x y :: "'a::len word"
  assumes "LENGTH('a) \<le> 8 * N"
  shows "FixedHash_arith (FixedHash_of_arith N (unat x)) = x \<and>
         (FixedHash_less (FixedHash_of_arith N (unat x)) (FixedHash_of_arith N (unat y)) \<longleftrightarrow> x < y)"
  using assms
  by (simp add: FixedHash_arith_def FixedHash_of_arith_def toBigEndian_be fromBigEndian_value
      be_value_be_small bytesRequired_word FixedHash_less_value word_less_nat_alt)

theorem FixedHash_arith_iso_witness:
  "FixedHash_arith (FixedHash_of_arith 2 (unat (0x1234 :: 16 word))) = (0x1234 :: 16 word) \<and>
   (FixedHash_less (FixedHash_of_arith 2 (unat (0x1234 :: 16 word)))
      (FixedHash_of_arith 2 (unat (0x1235 :: 16 word))) \<longleftrightarrow> (0x1234 :: 16 word) < 0x1235)"
  by (rule FixedHash_arith_iso) simp

text \<open>
  Cropping and filling: a hash of another size, or a byte array, is cropped or filled with zeros on
  the right when aligned left and on the left when aligned right; the result always has N bytes.
\<close>

theorem FixedHash_alignment:
  "FixedHash_of_hash N h AlignLeft = take N h @ replicate (N - length h) 0 \<and>
   FixedHash_of_hash N h AlignRight = replicate (N - length h) 0 @ drop (length h - N) h \<and>
   FixedHash_of_bytes N h AlignLeft = FixedHash_of_hash N h AlignLeft \<and>
   FixedHash_of_bytes N h AlignRight = FixedHash_of_hash N h AlignRight \<and>
   length (FixedHash_of_bytes N h t) = N"
  by (cases t)
     (auto simp: FixedHash_of_hash_left FixedHash_of_hash_right FixedHash_of_bytes_left
       FixedHash_of_bytes_right, simp add: FixedHash_of_bytes_def)

end
