(* ===== verification/Blake2.thy ===== *)
theory Blake2
  imports CommonData
begin

text \<open>
  The BLAKE2b implementation of \<^verbatim>\<open>libsolutil/Blake2bRef.cpp\<close>, \<^verbatim>\<open>Blake2.h\<close> and
  \<^verbatim>\<open>Blake2Impl.h\<close>: the streaming state and its operations as the C code has them (the
  lazily compressed block buffer, the two-word byte counter, the finalisation flags), and a
  reference definition of the keyed hash function by blocks in the manner of RFC 7693. The
  streaming state is shown to represent the data absorbed so far, whatever the chunks, and
  \<open>blake2b_raw\<close> to compute the reference digest.

  Arrays are lists; a pointer that may be null is an option. \<open>NATIVE_LITTLE_ENDIAN\<close> is not
  defined, so the portable branches of the load and store functions are modelled.
\<close>

unbundle bit_operations_syntax

section \<open>Loads, stores and rotations\<close>

definition load64 :: "bytes \<Rightarrow> u64" where
  "load64 p =
     push_bit 0 (ucast (p ! 0)) OR push_bit 8 (ucast (p ! 1)) OR
     push_bit 16 (ucast (p ! 2)) OR push_bit 24 (ucast (p ! 3)) OR
     push_bit 32 (ucast (p ! 4)) OR push_bit 40 (ucast (p ! 5)) OR
     push_bit 48 (ucast (p ! 6)) OR push_bit 56 (ucast (p ! 7))"

definition load32 :: "bytes \<Rightarrow> u32" where
  "load32 p =
     push_bit 0 (ucast (p ! 0)) OR push_bit 8 (ucast (p ! 1)) OR
     push_bit 16 (ucast (p ! 2)) OR push_bit 24 (ucast (p ! 3))"

definition store64 :: "u64 \<Rightarrow> bytes" where
  "store64 w =
     [ucast (drop_bit 0 w), ucast (drop_bit 8 w), ucast (drop_bit 16 w), ucast (drop_bit 24 w),
      ucast (drop_bit 32 w), ucast (drop_bit 40 w), ucast (drop_bit 48 w), ucast (drop_bit 56 w)]"

definition store32 :: "u32 \<Rightarrow> bytes" where
  "store32 w =
     [ucast (drop_bit 0 w), ucast (drop_bit 8 w), ucast (drop_bit 16 w), ucast (drop_bit 24 w)]"

definition load48 :: "bytes \<Rightarrow> u64" where
  "load48 p =
     push_bit 0 (ucast (p ! 0)) OR push_bit 8 (ucast (p ! 1)) OR
     push_bit 16 (ucast (p ! 2)) OR push_bit 24 (ucast (p ! 3)) OR
     push_bit 32 (ucast (p ! 4)) OR push_bit 40 (ucast (p ! 5))"

definition store48 :: "u64 \<Rightarrow> bytes" where
  "store48 w =
     [ucast (drop_bit 0 w), ucast (drop_bit 8 w), ucast (drop_bit 16 w), ucast (drop_bit 24 w),
      ucast (drop_bit 32 w), ucast (drop_bit 40 w)]"

definition rotr32 :: "u32 \<Rightarrow> nat \<Rightarrow> u32" where
  "rotr32 w c = drop_bit c w OR push_bit (32 - c) w"

definition rotr64 :: "u64 \<Rightarrow> nat \<Rightarrow> u64" where
  "rotr64 w c = drop_bit c w OR push_bit (64 - c) w"

section \<open>State and parameters\<close>

definition BLAKE2B_BLOCKBYTES :: nat where
  "BLAKE2B_BLOCKBYTES = 128"

definition BLAKE2B_OUTBYTES :: nat where
  "BLAKE2B_OUTBYTES = 64"

definition BLAKE2B_KEYBYTES :: nat where
  "BLAKE2B_KEYBYTES = 64"

definition BLAKE2B_SALTBYTES :: nat where
  "BLAKE2B_SALTBYTES = 16"

definition BLAKE2B_PERSONALBYTES :: nat where
  "BLAKE2B_PERSONALBYTES = 16"

record blake2b_state =
  st_h :: "u64 list"
  st_t :: "u64 list"
  st_f :: "u64 list"
  st_buf :: bytes
  st_buflen :: nat
  st_outlen :: nat
  st_last_node :: byte

record blake2b_param =
  digest_length :: byte
  key_length :: byte
  fanout :: byte
  depth :: byte
  leaf_length :: bytes
  node_offset :: bytes
  xof_length :: bytes
  node_depth :: byte
  inner_length :: byte
  reserved :: bytes
  salt :: bytes
  personal :: bytes

text \<open>The packed struct as the bytes it occupies.\<close>

definition param_bytes :: "blake2b_param \<Rightarrow> bytes" where
  "param_bytes P =
     [digest_length P, key_length P, fanout P, depth P] @ leaf_length P @ node_offset P @
     xof_length P @ [node_depth P, inner_length P] @ reserved P @ salt P @ personal P"

definition blake2b_IV :: "u64 list" where
  "blake2b_IV =
     [0x6a09e667f3bcc908, 0xbb67ae8584caa73b, 0x3c6ef372fe94f82b, 0xa54ff53a5f1d36f1,
      0x510e527fade682d1, 0x9b05688c2b3e6c1f, 0x1f83d9abfb41bd6b, 0x5be0cd19137e2179]"

definition blake2b_sigma :: "nat list list" where
  "blake2b_sigma =
     [[0, 1, 2, 3, 4, 5, 6, 7, 8, 9, 10, 11, 12, 13, 14, 15],
      [14, 10, 4, 8, 9, 15, 13, 6, 1, 12, 0, 2, 11, 7, 5, 3],
      [11, 8, 12, 0, 5, 2, 15, 13, 10, 14, 3, 6, 7, 1, 9, 4],
      [7, 9, 3, 1, 13, 12, 11, 14, 2, 6, 5, 10, 4, 0, 15, 8],
      [9, 0, 5, 7, 2, 4, 10, 15, 14, 1, 11, 12, 6, 8, 3, 13],
      [2, 12, 6, 10, 0, 11, 8, 3, 4, 13, 7, 5, 15, 14, 1, 9],
      [12, 5, 1, 15, 14, 13, 4, 10, 0, 7, 6, 3, 9, 2, 8, 11],
      [13, 11, 7, 14, 12, 1, 3, 9, 5, 0, 15, 4, 8, 6, 2, 10],
      [6, 15, 14, 9, 11, 3, 0, 8, 12, 2, 13, 7, 1, 4, 10, 5],
      [10, 2, 8, 4, 7, 6, 1, 5, 15, 11, 9, 14, 3, 12, 13, 0],
      [0, 1, 2, 3, 4, 5, 6, 7, 8, 9, 10, 11, 12, 13, 14, 15],
      [14, 10, 4, 8, 9, 15, 13, 6, 1, 12, 0, 2, 11, 7, 5, 3]]"

section \<open>Operations\<close>

definition blake2b_set_lastnode :: "blake2b_state \<Rightarrow> blake2b_state" where
  "blake2b_set_lastnode S = S\<lparr>st_f := (st_f S)[1 := -1]\<rparr>"

definition blake2b_is_lastblock :: "blake2b_state \<Rightarrow> bool" where
  "blake2b_is_lastblock S = (st_f S ! 0 \<noteq> 0)"

definition blake2b_set_lastblock :: "blake2b_state \<Rightarrow> blake2b_state" where
  "blake2b_set_lastblock S =
     (let S1 = (if st_last_node S \<noteq> 0 then blake2b_set_lastnode S else S)
      in S1\<lparr>st_f := (st_f S1)[0 := -1]\<rparr>)"

definition blake2b_increment_counter :: "blake2b_state \<Rightarrow> u64 \<Rightarrow> blake2b_state" where
  "blake2b_increment_counter S inc =
     (let t0 = st_t S ! 0 + inc;
          t1 = st_t S ! 1 + (if t0 < inc then 1 else 0)
      in S\<lparr>st_t := (st_t S)[0 := t0, 1 := t1]\<rparr>)"

definition blake2b_init0 :: blake2b_state where
  "blake2b_init0 =
     \<lparr>st_h = blake2b_IV, st_t = [0, 0], st_f = [0, 0],
      st_buf = replicate BLAKE2B_BLOCKBYTES 0, st_buflen = 0, st_outlen = 0, st_last_node = 0\<rparr>"

definition blake2b_init_param :: "blake2b_param \<Rightarrow> blake2b_state" where
  "blake2b_init_param P =
     (let p = param_bytes P; S = blake2b_init0
      in S\<lparr>st_h := map (\<lambda>i. st_h S ! i XOR load64 (drop (8 * i) p)) [0..<8],
           st_outlen := unat (digest_length P)\<rparr>)"

definition blake2b_param_for :: "nat \<Rightarrow> nat \<Rightarrow> blake2b_param" where
  "blake2b_param_for outlen keylen =
     \<lparr>digest_length = word_of_nat outlen, key_length = word_of_nat keylen, fanout = 1, depth = 1,
      leaf_length = store32 0, node_offset = store32 0, xof_length = store32 0,
      node_depth = 0, inner_length = 0, reserved = replicate 14 0,
      salt = replicate BLAKE2B_SALTBYTES 0, personal = replicate BLAKE2B_PERSONALBYTES 0\<rparr>"

text \<open>A return value of \<open>-1\<close> is \<^const>\<open>None\<close>.\<close>

definition blake2b_init :: "nat \<Rightarrow> blake2b_state option" where
  "blake2b_init outlen =
     (if outlen = 0 \<or> outlen > BLAKE2B_OUTBYTES then None
      else Some (blake2b_init_param (blake2b_param_for outlen 0)))"

text \<open>
  The macro \<open>G(r,i,a,b,c,d)\<close> on the working vector \<open>v\<close>, its four lvalues given by their
  indices, and \<open>ROUND(r)\<close>.
\<close>

definition G :: "u64 list \<Rightarrow> nat \<Rightarrow> nat \<Rightarrow> nat \<times> nat \<times> nat \<times> nat \<Rightarrow> u64 list \<Rightarrow> u64 list" where
  "G m r i ix v =
     (case ix of (ja, jb, jc, jd) \<Rightarrow>
        let a = v ! ja; b = v ! jb; c = v ! jc; d = v ! jd;
            a = a + b + m ! (blake2b_sigma ! r ! (2 * i + 0));
            d = rotr64 (d XOR a) 32;
            c = c + d;
            b = rotr64 (b XOR c) 24;
            a = a + b + m ! (blake2b_sigma ! r ! (2 * i + 1));
            d = rotr64 (d XOR a) 16;
            c = c + d;
            b = rotr64 (b XOR c) 63
        in v[ja := a, jb := b, jc := c, jd := d])"

definition ROUND :: "u64 list \<Rightarrow> nat \<Rightarrow> u64 list \<Rightarrow> u64 list" where
  "ROUND m r v =
     (let v = G m r 0 (0, 4, 8, 12) v;
          v = G m r 1 (1, 5, 9, 13) v;
          v = G m r 2 (2, 6, 10, 14) v;
          v = G m r 3 (3, 7, 11, 15) v;
          v = G m r 4 (0, 5, 10, 15) v;
          v = G m r 5 (1, 6, 11, 12) v;
          v = G m r 6 (2, 7, 8, 13) v
      in G m r 7 (3, 4, 9, 14) v)"

definition blake2b_compress :: "blake2b_state \<Rightarrow> bytes \<Rightarrow> blake2b_state" where
  "blake2b_compress S block =
     (let m = map (\<lambda>i. load64 (drop (8 * i) block)) [0..<16];
          v = map (\<lambda>i. st_h S ! i) [0..<8] @
              [blake2b_IV ! 0, blake2b_IV ! 1, blake2b_IV ! 2, blake2b_IV ! 3,
               blake2b_IV ! 4 XOR st_t S ! 0, blake2b_IV ! 5 XOR st_t S ! 1,
               blake2b_IV ! 6 XOR st_f S ! 0, blake2b_IV ! 7 XOR st_f S ! 1];
          v = foldl (\<lambda>v r. ROUND m r v) v [0..<12]
      in S\<lparr>st_h := map (\<lambda>i. st_h S ! i XOR v ! i XOR v ! (i + 8)) [0..<8]\<rparr>)"

text \<open>The inner loop of \<open>blake2b_update\<close>, which leaves the last block for the buffer.\<close>

function blake2b_update_blocks :: "blake2b_state \<Rightarrow> bytes \<Rightarrow> blake2b_state \<times> bytes" where
  "blake2b_update_blocks S inp =
     (if length inp > BLAKE2B_BLOCKBYTES then
        blake2b_update_blocks
          (blake2b_compress (blake2b_increment_counter S (word_of_nat BLAKE2B_BLOCKBYTES)) inp)
          (drop BLAKE2B_BLOCKBYTES inp)
      else (S, inp))"
  by pat_completeness auto
termination
  by (relation "measure (\<lambda>(S, inp). length inp)") (auto simp: BLAKE2B_BLOCKBYTES_def)

declare blake2b_update_blocks.simps [simp del]

definition blake2b_update :: "blake2b_state \<Rightarrow> bytes \<Rightarrow> blake2b_state" where
  "blake2b_update S inp =
     (if length inp > 0 then
        let left = st_buflen S;
            fill = BLAKE2B_BLOCKBYTES - left;
            (S, inp) =
              (if length inp > fill then
                 let S = S\<lparr>st_buflen := 0\<rparr>;
                     S = S\<lparr>st_buf := overwrite (st_buf S) left (take fill inp)\<rparr>;
                     S = blake2b_increment_counter S (word_of_nat BLAKE2B_BLOCKBYTES);
                     S = blake2b_compress S (st_buf S)
                 in blake2b_update_blocks S (drop fill inp)
               else (S, inp))
        in S\<lparr>st_buf := overwrite (st_buf S) (st_buflen S) inp,
             st_buflen := st_buflen S + length inp\<rparr>
      else S)"

definition blake2b_init_key :: "nat \<Rightarrow> bytes option \<Rightarrow> nat \<Rightarrow> blake2b_state option" where
  "blake2b_init_key outlen key keylen =
     (if outlen = 0 \<or> outlen > BLAKE2B_OUTBYTES then None
      else case key of
        None \<Rightarrow> None
      | Some k \<Rightarrow>
          if keylen = 0 \<or> keylen > BLAKE2B_KEYBYTES then None
          else
            let S = blake2b_init_param (blake2b_param_for outlen keylen);
                block = overwrite (replicate BLAKE2B_BLOCKBYTES 0) 0 (take keylen k)
            in Some (blake2b_update S block))"

text \<open>
  \<open>blake2b_final\<close> returns its code, the state and the memory \<open>out\<close> points to.
\<close>

definition blake2b_final :: "blake2b_state \<Rightarrow> bytes option \<Rightarrow> nat \<Rightarrow> int \<times> blake2b_state \<times> bytes option" where
  "blake2b_final S out outlen =
     (case out of
        None \<Rightarrow> (-1, S, out)
      | Some mem \<Rightarrow>
          if outlen < st_outlen S then (-1, S, out)
          else if blake2b_is_lastblock S then (-1, S, out)
          else
            let S = blake2b_increment_counter S (word_of_nat (st_buflen S));
                S = blake2b_set_lastblock S;
                S = S\<lparr>st_buf := overwrite (st_buf S) (st_buflen S)
                        (replicate (BLAKE2B_BLOCKBYTES - st_buflen S) 0)\<rparr>;
                S = blake2b_compress S (st_buf S);
                buffer = concat (map (\<lambda>i. store64 (st_h S ! i)) [0..<8])
            in (0, S, Some (overwrite mem 0 (take (st_outlen S) buffer))))"

definition blake2b_raw ::
    "bytes option \<Rightarrow> nat \<Rightarrow> bytes option \<Rightarrow> nat \<Rightarrow> bytes option \<Rightarrow> nat \<Rightarrow> int \<times> bytes option" where
  "blake2b_raw out outlen inp inlen key keylen =
     (if inp = None \<and> inlen > 0 then (-1, out)
      else if out = None then (-1, out)
      else if key = None \<and> keylen > 0 then (-1, out)
      else if outlen = 0 \<or> outlen > BLAKE2B_OUTBYTES then (-1, out)
      else if keylen > BLAKE2B_KEYBYTES then (-1, out)
      else
        case (if keylen > 0 then blake2b_init_key outlen key keylen else blake2b_init outlen) of
          None \<Rightarrow> (-1, out)
        | Some S \<Rightarrow>
            let S = blake2b_update S (case inp of None \<Rightarrow> [] | Some d \<Rightarrow> take inlen d);
                (code, S, out') = blake2b_final S out outlen
            in (0, out'))"

text \<open>The C++ interface: \<open>blake2b(bytesConstRef, bytesRef)\<close> and the overloads that return an \<open>h256\<close>.\<close>

definition blake2b_into :: "bytes \<Rightarrow> bytes \<Rightarrow> bool \<times> bytes" where
  "blake2b_into inp out =
     (if length out \<noteq> 32 then (False, out)
      else case blake2b_raw (Some out) 32 (Some inp) (length inp) None 0 of
             (_, Some out') \<Rightarrow> (True, out')
           | (_, None) \<Rightarrow> (True, out))"

definition blake2b :: "bytes \<Rightarrow> bytes" where
  "blake2b inp = snd (blake2b_into inp (replicate 32 0))"

definition blake2b_string :: "string \<Rightarrow> bytes" where
  "blake2b_string s = blake2b (asBytes s)"

section \<open>Reference definition by blocks\<close>

text \<open>
  \<open>rfc_F h block t fin\<close> is the compression function with the byte counter as a number of up to
  128 bits and the finalisation flag as a truth value. \<open>rfc_absorb\<close> compresses every block but the
  last, \<open>rfc_blake2b\<close> finishes with the zero-padded last block.
\<close>

definition rfc_F :: "u64 list \<Rightarrow> bytes \<Rightarrow> nat \<Rightarrow> bool \<Rightarrow> u64 list" where
  "rfc_F h block t fin =
     (let m = map (\<lambda>i. load64 (drop (8 * i) block)) [0..<16];
          v = h @ blake2b_IV;
          v = v[12 := v ! 12 XOR word_of_nat t, 13 := v ! 13 XOR word_of_nat (t div 2 ^ 64)];
          v = (if fin then v[14 := NOT (v ! 14)] else v);
          v = foldl (\<lambda>v r. ROUND m r v) v [0..<12]
      in map (\<lambda>i. h ! i XOR v ! i XOR v ! (i + 8)) [0..<8])"

function rfc_absorb :: "u64 list \<Rightarrow> nat \<Rightarrow> bytes \<Rightarrow> u64 list \<times> nat \<times> bytes" where
  "rfc_absorb h n d =
     (if length d > 128 then rfc_absorb (rfc_F h (take 128 d) (n + 128) False) (n + 128) (drop 128 d)
      else (h, n, d))"
  by pat_completeness auto
termination
  by (relation "measure (\<lambda>(h, n, d). length d)") auto

declare rfc_absorb.simps [simp del]

definition rfc_h0 :: "nat \<Rightarrow> nat \<Rightarrow> u64 list" where
  "rfc_h0 outlen keylen =
     blake2b_IV[0 := blake2b_IV ! 0 XOR 0x01010000 XOR push_bit 8 (word_of_nat keylen) XOR word_of_nat outlen]"

definition pad128 :: "bytes \<Rightarrow> bytes" where
  "pad128 d = d @ replicate (128 - length d) 0"

definition rfc_finish :: "nat \<Rightarrow> u64 list \<times> nat \<times> bytes \<Rightarrow> bytes" where
  "rfc_finish outlen st =
     (case st of (h, n, r) \<Rightarrow>
        take outlen (concat (map store64 (rfc_F h (pad128 r) (n + length r) True))))"

definition rfc_blake2b :: "nat \<Rightarrow> bytes \<Rightarrow> bytes \<Rightarrow> bytes" where
  "rfc_blake2b outlen key d =
     rfc_finish outlen (rfc_absorb (rfc_h0 outlen (length key)) 0 (if key = [] then d else pad128 key @ d))"

section \<open>Properties\<close>

lemma rfc_absorb_short: "length d \<le> 128 \<Longrightarrow> rfc_absorb h n d = (h, n, d)"
  by (subst rfc_absorb.simps) simp

lemma rfc_absorb_long:
  "128 < length d \<Longrightarrow>
   rfc_absorb h n d = rfc_absorb (rfc_F h (take 128 d) (n + 128) False) (n + 128) (drop 128 d)"
  by (subst rfc_absorb.simps) simp

lemma rfc_absorb_append:
  "rfc_absorb h n (d @ x) = (case rfc_absorb h n d of (h', n', r) \<Rightarrow> rfc_absorb h' n' (r @ x))"
proof (induction h n d rule: rfc_absorb.induct)
  case (1 h n d)
  show ?case
  proof (cases "128 < length d")
    case True
    then have "rfc_absorb h n (d @ x) =
        rfc_absorb (rfc_F h (take 128 d) (n + 128) False) (n + 128) (drop 128 d @ x)"
      by (subst rfc_absorb_long) auto
    with "1.IH" [OF True] show ?thesis by (simp only: rfc_absorb_long [OF True])
  next
    case False
    then show ?thesis by (simp add: rfc_absorb_short)
  qed
qed

lemma rfc_absorb_rest: "rfc_absorb h n d = (h', n', r) \<Longrightarrow> length r \<le> 128"
proof (induction h n d rule: rfc_absorb.induct)
  case (1 h n d)
  then show ?case
    by (cases "128 < length d") (auto simp: rfc_absorb_long [of d h n] rfc_absorb_short)
qed

subsection \<open>The counter\<close>

definition counter_of :: "nat \<Rightarrow> u64 list" where
  "counter_of n = [word_of_nat n, word_of_nat (n div 2 ^ 64)]"

lemma mod_add_carry: "a < m \<Longrightarrow> b < m \<Longrightarrow> (a + b) mod m < b \<longleftrightarrow> m \<le> a + (b :: nat)"
  by (cases "a + b < m") (auto simp: le_mod_geq)

lemma div_add_carry:
  assumes "b < (m :: nat)"
  shows "(n + b) div m = n div m + (if m \<le> n mod m + b then 1 else 0)"
proof -
  have "(n + b) div m = n div m + (n mod m + b) div m"
    using assms by (simp add: div_add1_eq [of n b m])
  moreover have "n mod m + b < m + m" using assms by (intro add_strict_mono) auto
  then have "m \<le> n mod m + b \<Longrightarrow> (n mod m + b) div m = 1"
    by (intro div_nat_eqI) auto
  ultimately show ?thesis by auto
qed

lemma unat_u64_of_nat: "unat (word_of_nat n :: u64) = n mod 2 ^ 64"
  by (simp add: unsigned_of_nat take_bit_eq_mod)

lemma u64_add_carry:
  assumes "inc < 2 ^ 64"
  shows "(word_of_nat n + word_of_nat inc :: u64) < word_of_nat inc \<longleftrightarrow> 2 ^ 64 \<le> n mod 2 ^ 64 + inc"
proof -
  have "unat (word_of_nat n + word_of_nat inc :: u64) = (n mod 2 ^ 64 + inc mod 2 ^ 64) mod 2 ^ 64"
    unfolding of_nat_add [symmetric] unat_u64_of_nat by (rule mod_add_eq [symmetric])
  with assms show ?thesis
    unfolding word_less_nat_alt unat_u64_of_nat
    using mod_add_carry [of "n mod 2 ^ 64" "2 ^ 64" inc] by simp
qed

lemma increment_counter_of:
  assumes "inc < 2 ^ 64"
  shows "blake2b_increment_counter (S\<lparr>st_t := counter_of n\<rparr>) (word_of_nat inc) =
         S\<lparr>st_t := counter_of (n + inc)\<rparr>"
proof -
  have "(word_of_nat ((n + inc) div 2 ^ 64) :: u64) = word_of_nat (n div 2 ^ 64) +
      (if (word_of_nat n + word_of_nat inc :: u64) < word_of_nat inc then 1 else 0)"
    unfolding div_add_carry [OF assms] u64_add_carry [OF assms] by simp
  then show ?thesis
    by (simp only: blake2b_increment_counter_def counter_of_def Let_def) simp
qed

subsection \<open>Compression\<close>

lemma load64_take: "8 * i + 8 \<le> n \<Longrightarrow> n \<le> length p \<Longrightarrow> load64 (drop (8 * i) (take n p)) = load64 (drop (8 * i) p)"
  by (simp add: load64_def)

text \<open>The part of the state that matters for the digest: everything but stale buffer bytes.\<close>

definition rep :: "nat \<Rightarrow> u64 list \<Rightarrow> nat \<Rightarrow> bytes \<Rightarrow> blake2b_state \<Rightarrow> bool" where
  "rep outlen h n r S \<longleftrightarrow>
     st_h S = h \<and> length h = 8 \<and> st_t S = counter_of n \<and> st_f S = [0, 0] \<and>
     length (st_buf S) = 128 \<and> st_buflen S = length r \<and> length r \<le> 128 \<and>
     take (length r) (st_buf S) = r \<and> st_outlen S = outlen \<and> st_last_node S = 0"

lemma length_rfc_F [simp]: "length (rfc_F h b t l) = 8"
  by (simp add: rfc_F_def Let_def)

lemma length_blake2b_IV [simp]: "length blake2b_IV = 8"
  by (simp add: blake2b_IV_def)

lemma list8: "length h = 8 \<Longrightarrow> map (\<lambda>i. h ! i) [0..<8] = h"
  by (metis map_nth)

lemma compress_rfc_F:
  assumes "length (st_h S) = 8" and "st_t S = counter_of t" and "128 \<le> length block"
    and "st_f S = [if fin then -1 else 0, 0]"
  shows "blake2b_compress S block = S\<lparr>st_h := rfc_F (st_h S) (take 128 block) t fin\<rparr>"
proof -
  have m: "map (\<lambda>i. load64 (drop (8 * i) (take 128 block))) [0..<16] =
           map (\<lambda>i. load64 (drop (8 * i) block)) [0..<16]"
    using assms(3) by (intro map_cong) (auto intro!: load64_take)
  obtain i0 i1 i2 i3 i4 i5 i6 i7 where iv: "blake2b_IV = [i0, i1, i2, i3, i4, i5, i6, i7]"
    by (simp add: blake2b_IV_def)
  obtain h0 h1 h2 h3 h4 h5 h6 h7 where h: "st_h S = [h0, h1, h2, h3, h4, h5, h6, h7]"
    using assms(1) by (auto simp: numeral_eq_Suc length_Suc_conv)
  have "map (\<lambda>i. st_h S ! i) [0..<8] @
      [blake2b_IV ! 0, blake2b_IV ! 1, blake2b_IV ! 2, blake2b_IV ! 3,
       blake2b_IV ! 4 XOR st_t S ! 0, blake2b_IV ! 5 XOR st_t S ! 1,
       blake2b_IV ! 6 XOR st_f S ! 0, blake2b_IV ! 7 XOR st_f S ! 1] =
    (let v = st_h S @ blake2b_IV;
         v = v[12 := v ! 12 XOR word_of_nat t, 13 := v ! 13 XOR word_of_nat (t div 2 ^ 64)]
     in if fin then v[14 := NOT (v ! 14)] else v)"
    unfolding list8 [OF assms(1)]
    by (simp add: assms(2,4) counter_of_def h iv Let_def)
  then show ?thesis
    unfolding blake2b_compress_def rfc_F_def Let_def m by simp
qed

subsection \<open>The streaming state\<close>

lemma increment_counter_eq:
  assumes "st_t S = counter_of n" and "inc < 2 ^ 64"
  shows "blake2b_increment_counter S (word_of_nat inc) = S\<lparr>st_t := counter_of (n + inc)\<rparr>"
  using increment_counter_of [where S = S and n = n, OF assms(2)] assms(1) by (metis blake2b_state.surjective blake2b_state.update_convs(2))

lemma increment_counter_buf [simp]: "st_buf (blake2b_increment_counter S inc) = st_buf S"
  by (simp add: blake2b_increment_counter_def Let_def)

lemma compress_block:
  assumes "length (st_h S) = 8" and "st_t S = counter_of n" and "st_f S = [0, 0]" and "128 \<le> length block"
  shows "blake2b_compress (blake2b_increment_counter S 128) block =
         S\<lparr>st_t := counter_of (n + 128), st_h := rfc_F (st_h S) (take 128 block) (n + 128) False\<rparr>"
  using increment_counter_eq [OF assms(2), of 128] assms
  by (simp add: compress_rfc_F [where t = "n + 128" and fin = False])

lemma update_blocks_absorb:
  assumes "length (st_h S) = 8" and "st_t S = counter_of n" and "st_f S = [0, 0]"
    and "rfc_absorb (st_h S) n d = (h', n', r)"
  shows "blake2b_update_blocks S d = (S\<lparr>st_t := counter_of n', st_h := h'\<rparr>, r)"
  using assms
proof (induction S d arbitrary: n rule: blake2b_update_blocks.induct)
  case (1 S d)
  show ?case
  proof (cases "128 < length d")
    case True
    let ?S = "blake2b_compress (blake2b_increment_counter S 128) d"
    have S: "?S = S\<lparr>st_t := counter_of (n + 128), st_h := rfc_F (st_h S) (take 128 d) (n + 128) False\<rparr>"
      using "1.prems" True by (intro compress_block) auto
    have "blake2b_update_blocks ?S (drop 128 d) = (?S\<lparr>st_t := counter_of n', st_h := h'\<rparr>, r)"
      using "1.IH" [of "n + 128"] "1.prems" True
      by (simp add: BLAKE2B_BLOCKBYTES_def S [simplified] rfc_absorb_long [OF True])
    then show ?thesis using True
      by (simp add: blake2b_update_blocks.simps [of S d] BLAKE2B_BLOCKBYTES_def S)
  next
    case False
    with "1.prems" show ?thesis
      by (subst blake2b_update_blocks.simps) (auto simp: BLAKE2B_BLOCKBYTES_def rfc_absorb_short)
  qed
qed

lemma rfc_absorb_length_h: "length h = 8 \<Longrightarrow> rfc_absorb h n d = (h', n', r) \<Longrightarrow> length h' = 8"
proof (induction h n d rule: rfc_absorb.induct)
  case (1 h n d)
  then show ?case
    by (cases "128 < length d") (auto simp: rfc_absorb_long [of d h n] rfc_absorb_short)
qed

lemma rep_update:
  assumes rep: "rep outlen h n r S" and ab: "rfc_absorb h n (r @ x) = (h', n', r')"
  shows "rep outlen h' n' r' (blake2b_update S x)"
proof -
  note R = rep [unfolded rep_def]
  have r': "length r' \<le> 128" and h': "length h' = 8"
    using rfc_absorb_rest [OF ab] rfc_absorb_length_h [OF _ ab] R by auto
  show ?thesis
  proof (cases "128 < length r + length x")
    case False
    then have "(h', n', r') = (h, n, r @ x)" using ab by (simp add: rfc_absorb_short)
    moreover have "take (length r + length x) (overwrite (st_buf S) (length r) x) = r @ x"
      using False R by (simp add: overwrite_def)
    ultimately show ?thesis using False R
      by (auto simp: rep_def blake2b_update_def Let_def BLAKE2B_BLOCKBYTES_def)
  next
    case True
    let ?fill = "128 - length r"
    have "length r \<le> 128" using R by blast
    with True have gt: "?fill < length x" by arith
    let ?buf = "overwrite (st_buf S) (length r) (take ?fill x)"
    have buf: "?buf = r @ take ?fill x"
      using True R by (simp add: overwrite_def)
    let ?S = "S\<lparr>st_buflen := 0, st_buf := ?buf, st_t := counter_of (n + 128),
                 st_h := rfc_F h (r @ take ?fill x) (n + 128) False\<rparr>"
    have "take 128 (r @ x) = r @ take ?fill x" and "drop 128 (r @ x) = drop ?fill x"
      using R by auto
    then have ab': "rfc_absorb (st_h ?S) (n + 128) (drop ?fill x) = (h', n', r')"
      using ab True by (simp add: rfc_absorb_long [of "r @ x"])
    have "blake2b_update_blocks ?S (drop ?fill x) = (?S\<lparr>st_t := counter_of n', st_h := h'\<rparr>, r')"
      using R by (intro update_blocks_absorb [OF _ _ _ ab']) auto
    moreover have "blake2b_compress
        (blake2b_increment_counter (S\<lparr>st_buflen := 0, st_buf := ?buf\<rparr>) 128) ?buf = ?S"
      using R True by (subst compress_block [where n = n]) (auto simp: buf)
    ultimately have upd: "blake2b_update S x =
        (let T = ?S\<lparr>st_t := counter_of n', st_h := h'\<rparr>
         in T\<lparr>st_buf := overwrite (st_buf T) (st_buflen T) r', st_buflen := st_buflen T + length r'\<rparr>)"
      using R gt by (auto simp: blake2b_update_def Let_def BLAKE2B_BLOCKBYTES_def)
    have "take (length r') (overwrite ?buf 0 r') = r'"
      by (simp add: overwrite_def)
    with r' h' R True show ?thesis
      by (simp add: upd rep_def Let_def buf)
  qed
qed

subsection \<open>Initialisation\<close>

lemma disjoint_fields:
  fixes a b :: byte and x y :: u64
  assumes "\<And>n. bit x n \<longleftrightarrow> n = 16" and "\<And>n. bit y n \<longleftrightarrow> n = 24"
  shows "ucast a OR push_bit 8 (ucast b) OR x OR y = (x OR y) XOR push_bit 8 (ucast b) XOR ucast a"
  by (rule bit_eqI) (auto simp: bit_simps assms dest: bit_imp_le_length)

lemma param_word:
  fixes a b :: byte
  shows "(ucast a OR push_bit 8 (ucast b) OR 0x10000 OR 0x1000000 :: u64) =
         0x01010000 XOR push_bit 8 (ucast b) XOR ucast a"
proof -
  have b: "bit (push_bit k 1 :: u64) n \<longleftrightarrow> n = k" if "k < 64" for k n
    using that by (auto simp: bit_simps bit_1_iff)
  have "(ucast a OR push_bit 8 (ucast b) OR push_bit 16 1 OR push_bit 24 1 :: u64) =
        (push_bit 16 1 OR push_bit 24 1) XOR push_bit 8 (ucast b) XOR ucast a"
    by (rule disjoint_fields) (rule b; simp)+
  then show ?thesis by simp
qed

lemma param_bytes_for:
  "param_bytes (blake2b_param_for out key) = [word_of_nat out, word_of_nat key, 1, 1] @ replicate 60 0"
proof -
  have "store32 0 = replicate 4 0" by (simp add: store32_def numeral_eq_Suc)
  then show ?thesis
    by (simp add: param_bytes_def blake2b_param_for_def BLAKE2B_SALTBYTES_def
        BLAKE2B_PERSONALBYTES_def numeral_eq_Suc)
qed

lemma load64_param_tail:
  "0 < i \<Longrightarrow> i < 8 \<Longrightarrow> load64 (drop (8 * i) (param_bytes (blake2b_param_for out key))) = 0"
  by (simp add: load64_def param_bytes_for nth_append)

lemma load64_param_head:
  "load64 (param_bytes (blake2b_param_for out key)) =
   0x01010000 XOR push_bit 8 (ucast (word_of_nat key :: byte)) XOR ucast (word_of_nat out :: byte)"
  using param_word [of "word_of_nat out" "word_of_nat key"]
  by (simp add: load64_def param_bytes_for or.assoc)

lemma ucast_byte_of_nat: "n < 256 \<Longrightarrow> (ucast (word_of_nat n :: byte) :: u64) = word_of_nat n"
proof -
  assume "n < 256"
  then have "unat (word_of_nat n :: byte) = n" by (simp add: unsigned_of_nat take_bit_eq_mod)
  moreover have "(ucast (word_of_nat n :: byte) :: u64) = word_of_nat (unat (word_of_nat n :: byte))"
    by (rule of_nat_unat [symmetric])
  ultimately show ?thesis by simp
qed

lemma init_param_h:
  assumes "out \<le> 64" and "key \<le> 64"
  shows "st_h (blake2b_init_param (blake2b_param_for out key)) = rfc_h0 out key"
proof (rule nth_equalityI)
  fix i assume "i < length (st_h (blake2b_init_param (blake2b_param_for out key)))"
  then have "i < 8" by (simp add: blake2b_init_param_def Let_def)
  then show "st_h (blake2b_init_param (blake2b_param_for out key)) ! i = rfc_h0 out key ! i"
    using assms load64_param_tail [of i out key]
    by (cases "i = 0")
       (simp_all add: blake2b_init_param_def Let_def rfc_h0_def blake2b_init0_def
         load64_param_head ucast_byte_of_nat)
qed (simp add: blake2b_init_param_def Let_def rfc_h0_def)

lemma rep_init:
  assumes "out \<le> 64" and "key \<le> 64"
  shows "rep out (rfc_h0 out key) 0 [] (blake2b_init_param (blake2b_param_for out key))"
  using assms init_param_h [OF assms]
  by (simp add: rep_def counter_of_def rfc_h0_def blake2b_init_param_def Let_def blake2b_init0_def
      blake2b_param_for_def unsigned_of_nat take_bit_eq_mod BLAKE2B_BLOCKBYTES_def)

subsection \<open>Finalisation\<close>

lemma final_rep:
  assumes rep: "rep out h n r S" and "out \<le> outlen"
  shows "\<exists>S'. blake2b_final S (Some mem) outlen =
           (0, S', Some (overwrite mem 0 (rfc_finish out (h, n, r))))"
proof -
  note R = rep [unfolded rep_def]
  have "length r < 2 ^ 64" using R by (auto intro: le_less_trans [of _ 128])
  have inc: "blake2b_increment_counter S (word_of_nat (length r)) = S\<lparr>st_t := counter_of (n + length r)\<rparr>"
    using R \<open>length r < 2 ^ 64\<close> by (intro increment_counter_eq) auto
  have buf: "overwrite (st_buf S) (length r) (replicate (128 - length r) 0) = pad128 r"
    using R by (simp add: overwrite_def pad128_def)
  let ?S = "S\<lparr>st_t := counter_of (n + length r), st_f := [-1, 0], st_buf := pad128 r\<rparr>"
  have len: "length (pad128 r) = 128" using R by (simp add: pad128_def)
  have c: "blake2b_compress ?S (pad128 r) = ?S\<lparr>st_h := rfc_F h (pad128 r) (n + length r) True\<rparr>"
    using R len by (subst compress_rfc_F [where t = "n + length r" and fin = True]) auto
  have m: "concat (map (\<lambda>i. store64 (g ! i)) [0..<8]) = concat (map store64 g)" if "length g = 8" for g
    using arg_cong [OF list8 [OF that], of "map store64"] by (simp add: comp_def)
  show ?thesis
    using R assms(2) buf inc c
    by (simp add: blake2b_final_def blake2b_is_lastblock_def blake2b_set_lastblock_def Let_def
        BLAKE2B_BLOCKBYTES_def rfc_finish_def m)
qed

subsection \<open>The streaming interface\<close>

locale streaming_hash =
  fixes update :: "'s \<Rightarrow> 'b list \<Rightarrow> 's"
    and digest :: "'s \<Rightarrow> 'd"
    and represents :: "'s \<Rightarrow> 'b list \<Rightarrow> bool"
    and spec :: "'b list \<Rightarrow> 'd"
  assumes represents_update: "represents s d \<Longrightarrow> represents (update s x) (d @ x)"
    and digest_represents: "represents s d \<Longrightarrow> digest s = spec d"
begin

lemma represents_chunks: "represents s d \<Longrightarrow> represents (foldl update s xs) (d @ concat xs)"
proof (induction xs arbitrary: s d)
  case (Cons x xs)
  then have "represents (foldl update (update s x) xs) ((d @ x) @ concat xs)"
    by (intro Cons.IH represents_update)
  then show ?case by simp
qed simp

lemma digest_chunks: "represents s d \<Longrightarrow> digest (foldl update s xs) = spec (d @ concat xs)"
  by (intro digest_represents represents_chunks)

lemma chunks_irrelevant:
  assumes "represents s d" and "concat xs = concat ys"
  shows "digest (foldl update s xs) = digest (foldl update s ys)"
  using assms by (simp add: digest_chunks)

end

definition blake2b_represents :: "nat \<Rightarrow> bytes \<Rightarrow> blake2b_state \<Rightarrow> bytes \<Rightarrow> bool" where
  "blake2b_represents out key S d \<longleftrightarrow> out \<le> 64 \<and>
     (\<exists>h n r. rfc_absorb (rfc_h0 out (length key)) 0 (if key = [] then d else pad128 key @ d) = (h, n, r) \<and>
              rep out h n r S)"

definition blake2b_digest :: "blake2b_state \<Rightarrow> bytes option" where
  "blake2b_digest S =
     snd (snd (blake2b_final S (Some (replicate (st_outlen S) 0)) (st_outlen S)))"

lemma blake2b_represents_update:
  assumes "blake2b_represents out key S d"
  shows "blake2b_represents out key (blake2b_update S x) (d @ x)"
proof -
  let ?p = "if key = [] then [] else pad128 key"
  from assms obtain h n r where ab: "rfc_absorb (rfc_h0 out (length key)) 0 (?p @ d) = (h, n, r)"
    and rep: "rep out h n r S" and out: "out \<le> 64"
    by (auto simp: blake2b_represents_def split: if_splits)
  obtain h' n' r' where ab': "rfc_absorb h n (r @ x) = (h', n', r')"
    by (cases "rfc_absorb h n (r @ x)") auto
  have "rfc_absorb (rfc_h0 out (length key)) 0 ((?p @ d) @ x) = (h', n', r')"
    by (subst rfc_absorb_append) (simp add: ab ab')
  with rep_update [OF rep ab'] out show ?thesis
    by (auto simp: blake2b_represents_def split: if_splits)
qed

lemma concat_store64_length: "length (concat (map store64 hs)) = 8 * length hs"
  by (induction hs) (auto simp: store64_def)

lemma length_rfc_finish: "out \<le> 64 \<Longrightarrow> length (rfc_finish out st) = out"
  by (cases st) (simp add: rfc_finish_def concat_store64_length)

lemma length_rfc_blake2b: "out \<le> 64 \<Longrightarrow> length (rfc_blake2b out key d) = out"
  by (simp add: rfc_blake2b_def length_rfc_finish)

lemma final_represents:
  assumes "blake2b_represents out key S d" and "out \<le> outlen"
  shows "\<exists>S'. blake2b_final S (Some mem) outlen = (0, S', Some (overwrite mem 0 (rfc_blake2b out key d)))"
proof -
  from assms(1) obtain h n r
    where ab: "rfc_absorb (rfc_h0 out (length key)) 0 (if key = [] then d else pad128 key @ d) = (h, n, r)"
      and rep: "rep out h n r S"
    unfolding blake2b_represents_def by blast
  show ?thesis unfolding rfc_blake2b_def ab by (rule final_rep [OF rep assms(2)])
qed

lemma blake2b_digest_represents:
  assumes "blake2b_represents out key S d"
  shows "blake2b_digest S = Some (rfc_blake2b out key d)"
proof -
  have out: "out \<le> 64" "st_outlen S = out" using assms by (auto simp: blake2b_represents_def rep_def)
  then show ?thesis
    using final_represents [OF assms, of out "replicate out 0"]
    by (auto simp: blake2b_digest_def overwrite_def length_rfc_blake2b)
qed

interpretation b2: streaming_hash blake2b_update blake2b_digest "blake2b_represents out key"
    "\<lambda>d. Some (rfc_blake2b out key d)" for out key
  by unfold_locales (simp_all add: blake2b_represents_update blake2b_digest_represents)

lemma represents_init:
  assumes "blake2b_init out = Some S"
  shows "blake2b_represents out [] S []"
  using assms rep_init [of out 0]
  by (auto simp: blake2b_init_def blake2b_represents_def rfc_absorb_short BLAKE2B_OUTBYTES_def split: if_splits)

lemma represents_init_key:
  assumes "blake2b_init_key out (Some key) (length key) = Some S"
  shows "blake2b_represents out key S []"
proof -
  from assms have b: "0 < out" "out \<le> 64" "0 < length key" "length key \<le> 64"
    and S: "S = blake2b_update (blake2b_init_param (blake2b_param_for out (length key)))
              (overwrite (replicate 128 0) 0 key)"
    by (auto simp: blake2b_init_key_def Let_def BLAKE2B_OUTBYTES_def BLAKE2B_KEYBYTES_def
        BLAKE2B_BLOCKBYTES_def split: if_splits)
  have block: "overwrite (replicate 128 0) 0 key = pad128 key"
    using b by (simp add: overwrite_def pad128_def)
  have len: "length (pad128 key) = 128" using b by (simp add: pad128_def)
  have "rep out (rfc_h0 out (length key)) 0 (pad128 key) S"
    unfolding S block using b len by (intro rep_update [OF rep_init]) (simp_all add: rfc_absorb_short)
  with b len show ?thesis by (auto simp: blake2b_represents_def rfc_absorb_short)
qed

lemma blake2b_raw_unkeyed:
  assumes "0 < out" and "out \<le> 64"
  shows "blake2b_raw (Some mem) out (Some d) (length d) kp 0 =
         (0, Some (overwrite mem 0 (rfc_blake2b out [] d)))"
proof -
  obtain S where S: "blake2b_init out = Some S"
    using assms by (auto simp: blake2b_init_def BLAKE2B_OUTBYTES_def)
  have "blake2b_represents out [] (blake2b_update S d) d"
    using b2.represents_update [OF represents_init [OF S], of d] by simp
  from final_represents [OF this order_refl, of mem] show ?thesis
    using assms S by (auto simp: blake2b_raw_def BLAKE2B_OUTBYTES_def)
qed

lemma blake2b_raw_keyed:
  assumes "0 < out" and "out \<le> 64" and "key \<noteq> []" and "length key \<le> 64"
  shows "blake2b_raw (Some mem) out (Some d) (length d) (Some key) (length key) =
         (0, Some (overwrite mem 0 (rfc_blake2b out key d)))"
proof -
  obtain S where S: "blake2b_init_key out (Some key) (length key) = Some S"
    using assms by (auto simp: blake2b_init_key_def BLAKE2B_OUTBYTES_def BLAKE2B_KEYBYTES_def Let_def)
  have "blake2b_represents out key (blake2b_update S d) d"
    using b2.represents_update [OF represents_init_key [OF S], of d] by simp
  from final_represents [OF this order_refl, of mem] show ?thesis
    using assms S by (auto simp: blake2b_raw_def BLAKE2B_OUTBYTES_def BLAKE2B_KEYBYTES_def)
qed

lemma blake2b_rfc: "blake2b d = rfc_blake2b 32 [] d"
  by (simp add: blake2b_def blake2b_into_def blake2b_raw_unkeyed overwrite_def length_rfc_blake2b)

lemma length_blake2b [simp]: "length (blake2b d) = 32"
  by (simp add: blake2b_rfc length_rfc_blake2b)

text \<open>\<open>load64\<close> and \<open>store64\<close> are inverse.\<close>

lemma take_bit_byte_step:
  fixes w :: u64
  shows "take_bit k w OR push_bit k (ucast (ucast (drop_bit k w) :: byte)) = take_bit (k + 8) w"
proof (rule bit_eqI)
  fix n
  show "bit (take_bit k w OR push_bit k (ucast (ucast (drop_bit k w) :: byte))) n =
        bit (take_bit (k + 8) w) n"
    by (cases "n < k") (auto simp: bit_simps dest: bit_imp_le_length)
qed

lemma load64_store64: "load64 (store64 w) = w"
  using take_bit_byte_step [of 0 w] take_bit_byte_step [of 8 w] take_bit_byte_step [of 16 w]
    take_bit_byte_step [of 24 w] take_bit_byte_step [of 32 w] take_bit_byte_step [of 40 w]
    take_bit_byte_step [of 48 w] take_bit_byte_step [of 56 w]
  by (simp add: load64_def store64_def or.assoc [symmetric] take_bit_word_eq_self)

lemma counter_value:
  "unat (counter_of m ! 0) + 2 ^ 64 * unat (counter_of m ! 1) = m mod 2 ^ 128"
proof -
  have "m mod (2 ^ 64 * 2 ^ 64) = 2 ^ 64 * (m div 2 ^ 64 mod 2 ^ 64) + m mod 2 ^ 64"
    by (rule mod_mult2_eq)
  then show ?thesis by (simp add: counter_of_def unat_u64_of_nat flip: power_add)
qed

lemma counter_of_words: "counter_of (unat t0 + 2 ^ 64 * unat t1) = [t0, t1]"
proof -
  have "unat t0 < 2 ^ 64" using unat_less [of t0] by simp
  then have "(unat t0 + 2 ^ 64 * unat t1) div 2 ^ 64 = unat t1"
    by simp
  moreover have z: "(word_of_nat (2 ^ 64 * unat t1) :: u64) = 0"
    unfolding word_of_nat_eq_0_iff by simp
  have "(word_of_nat (unat t0 + 2 ^ 64 * unat t1) :: u64) = t0"
    unfolding of_nat_add z by simp
  ultimately show ?thesis by (simp only: counter_of_def) simp
qed

section \<open>Properties\<close>



text \<open>
  C31. Streaming: however the input is cut into chunks, updating a freshly initialised state with them
  and finalising gives the reference digest of their concatenation.
\<close>

theorem blake2b_streaming:
  assumes "blake2b_init out = Some S"
  shows "blake2b_digest (foldl blake2b_update S chunks) = Some (rfc_blake2b out [] (concat chunks))"
  using b2.digest_chunks [OF represents_init [OF assms]] by simp

theorem blake2b_streaming_witness:
  "blake2b_init 32 \<noteq> None \<and>
   blake2b_digest (foldl blake2b_update (the (blake2b_init 32)) [[1, 2], [], [3]]) =
     Some (rfc_blake2b 32 [] [1, 2, 3])"
proof -
  have "blake2b_init 32 = Some (the (blake2b_init 32))"
    by (simp add: blake2b_init_def BLAKE2B_OUTBYTES_def)
  from blake2b_streaming [OF this, of "[[1, 2], [], [3]]"] this show ?thesis
    by (simp del: not_None_eq) (metis option.distinct(1))
qed

text \<open>
  The byte counter: adding less than 2^64 to the two words that hold a count modulo 2^128 gives the
  two words of the sum, the carry included.
\<close>

theorem blake2b_counter_carry:
  assumes "inc < 2 ^ 64" and "length (st_t S) = 2"
  shows "let S' = blake2b_increment_counter S (word_of_nat inc) in
         unat (st_t S' ! 0) + 2 ^ 64 * unat (st_t S' ! 1) =
           (unat (st_t S ! 0) + 2 ^ 64 * unat (st_t S ! 1) + inc) mod 2 ^ 128"
proof -
  obtain t0 t1 where t: "st_t S = [t0, t1]"
    using assms(2) by (auto simp: numeral_2_eq_2 length_Suc_conv)
  let ?n = "unat t0 + 2 ^ 64 * unat t1"
  have "st_t S = counter_of ?n"
    unfolding t by (rule counter_of_words [symmetric])
  from increment_counter_eq [OF this assms(1)] counter_value [of "?n + inc"]
  show ?thesis by (simp add: Let_def t)
qed

theorem blake2b_counter_carry_witness:
  "let S' = blake2b_increment_counter (blake2b_init0\<lparr>st_t := [0xFFFFFFFFFFFFFFFF, 6]\<rparr>) (word_of_nat 128) in
   unat (st_t S' ! 0) + 2 ^ 64 * unat (st_t S' ! 1) = (2 ^ 64 - 1 + 2 ^ 64 * 6 + 128) mod 2 ^ 128"
  using blake2b_counter_carry [of 128 "blake2b_init0\<lparr>st_t := [0xFFFFFFFFFFFFFFFF, 6]\<rparr>"] by simp

end
