(* ===== verification/FunctionSelector.thy ===== *)
theory FunctionSelector
  imports FixedHash Blake2
begin

text \<open>
  The function selectors of \<^verbatim>\<open>libsolutil/FunctionSelector.h\<close>: the first four bytes of the
  BLAKE2b hash of the signature, as a 32-bit number or left aligned in 256 bits, and the callback
  selector of an await expression.
\<close>

definition selectorFromSignature32 :: "string \<Rightarrow> u32" where
  "selectorFromSignature32 signature =
     FixedHash_arith (FixedHash_of_hash 4 (blake2b_string signature) AlignLeft)"

definition selectorFromSignature :: "string \<Rightarrow> u256" where
  "selectorFromSignature signature = push_bit (256 - 32) (ucast (selectorFromSignature32 signature))"

definition selectorFromAwaitId :: "u64 \<Rightarrow> u32" where
  "selectorFromAwaitId awaitId = ucast awaitId"

section \<open>Lemmas\<close>

lemma be_append_zeros: "be (n + k) (v * 256 ^ k) = be n v @ replicate k 0"
proof (induction k)
  case (Suc k)
  have "v * 256 ^ Suc k div 256 = v * 256 ^ k" and "v * 256 ^ Suc k mod 256 = 0"
    by (simp_all add: mult.commute mult.left_commute)
  with Suc show ?case by (simp add: replicate_append_same)
qed simp

section \<open>Properties\<close>

text \<open>
  The ABI encoding of a selector: as 32 big-endian bytes, \<open>selectorFromSignature\<close> is the first four
  bytes of the BLAKE2b hash of the signature followed by zeros.
\<close>

theorem selectorFromSignature_bytes:
  "toBigEndian_u256 (selectorFromSignature s) =
     take 4 (rfc_blake2b 32 [] (asBytes s)) @ replicate 28 0"
proof -
  let ?h = "take 4 (blake2b (asBytes s))"
  have len: "length ?h = 4" by simp
  have bound: "be_value ?h < 256 ^ 4" using be_value_bound [of ?h] len by simp
  have u: "unat (selectorFromSignature32 s) = be_value ?h"
    using bound by (simp add: selectorFromSignature32_def FixedHash_arith_def fromBigEndian_value
        FixedHash_of_hash_left blake2b_string_def unsigned_of_nat take_bit_eq_mod)
  have "unat (selectorFromSignature s) = be_value ?h * 256 ^ 28"
  proof -
    have "be_value ?h * 2 ^ 224 < 2 ^ 256" using bound by simp
    then show ?thesis
      using u by (simp add: selectorFromSignature_def push_bit_eq_mult unat_word_ariths
        unsigned_ucast_eq take_bit_eq_mod)
  qed
  then have "toBigEndian_u256 (selectorFromSignature s) = be (4 + 28) (be_value ?h * 256 ^ 28)"
    by (simp add: toBigEndian_u256_def toBigEndian_be)
  also have "\<dots> = be 4 (be_value ?h) @ replicate 28 0" by (rule be_append_zeros)
  also have "be 4 (be_value ?h) = ?h" using be_be_value [of ?h] len by simp
  finally show ?thesis by (simp add: blake2b_rfc)
qed

end
