(* ===== verification/Instruction.thy ===== *)
theory Instruction
  imports CommonData
begin

text \<open>
  The instruction set of the virtual machine (\<^verbatim>\<open>libevmasm/Instruction.h\<close>, \<^verbatim>\<open>Instruction.cpp\<close>).
  \<open>enum class Instruction: uint8_t\<close> is cast from arbitrary bytes by the disassembler, so an
  instruction is a byte and every enumerator is a constant with its opcode. The two tables are
  transcribed row by row.
\<close>

type_synonym Instruction = byte

section \<open>Enumerators\<close>

definition Instruction_STOP :: Instruction where "Instruction_STOP = 0x00"
definition Instruction_ADD :: Instruction where "Instruction_ADD = 0x01"
definition Instruction_MUL :: Instruction where "Instruction_MUL = 0x02"
definition Instruction_SUB :: Instruction where "Instruction_SUB = 0x03"
definition Instruction_DIV :: Instruction where "Instruction_DIV = 0x04"
definition Instruction_SDIV :: Instruction where "Instruction_SDIV = 0x05"
definition Instruction_MOD :: Instruction where "Instruction_MOD = 0x06"
definition Instruction_SMOD :: Instruction where "Instruction_SMOD = 0x07"
definition Instruction_ADDMOD :: Instruction where "Instruction_ADDMOD = 0x08"
definition Instruction_MULMOD :: Instruction where "Instruction_MULMOD = 0x09"
definition Instruction_EXP :: Instruction where "Instruction_EXP = 0x0a"
definition Instruction_SIGNEXTEND :: Instruction where "Instruction_SIGNEXTEND = 0x0b"
definition Instruction_LT :: Instruction where "Instruction_LT = 0x10"
definition Instruction_GT :: Instruction where "Instruction_GT = 0x11"
definition Instruction_SLT :: Instruction where "Instruction_SLT = 0x12"
definition Instruction_SGT :: Instruction where "Instruction_SGT = 0x13"
definition Instruction_EQ :: Instruction where "Instruction_EQ = 0x14"
definition Instruction_ISZERO :: Instruction where "Instruction_ISZERO = 0x15"
definition Instruction_AND :: Instruction where "Instruction_AND = 0x16"
definition Instruction_OR :: Instruction where "Instruction_OR = 0x17"
definition Instruction_XOR :: Instruction where "Instruction_XOR = 0x18"
definition Instruction_NOT :: Instruction where "Instruction_NOT = 0x19"
definition Instruction_BYTE :: Instruction where "Instruction_BYTE = 0x1a"
definition Instruction_SHL :: Instruction where "Instruction_SHL = 0x1b"
definition Instruction_SHR :: Instruction where "Instruction_SHR = 0x1c"
definition Instruction_SAR :: Instruction where "Instruction_SAR = 0x1d"
definition Instruction_KECCAK256 :: Instruction where "Instruction_KECCAK256 = 0x20"
definition Instruction_BLAKE2B :: Instruction where "Instruction_BLAKE2B = 0x21"
definition Instruction_ADDRESS :: Instruction where "Instruction_ADDRESS = 0x30"
definition Instruction_BALANCE :: Instruction where "Instruction_BALANCE = 0x31"
definition Instruction_ORIGIN :: Instruction where "Instruction_ORIGIN = 0x32"
definition Instruction_CALLER :: Instruction where "Instruction_CALLER = 0x33"
definition Instruction_CALLVALUE :: Instruction where "Instruction_CALLVALUE = 0x34"
definition Instruction_CALLDATALOAD :: Instruction where "Instruction_CALLDATALOAD = 0x35"
definition Instruction_CALLDATASIZE :: Instruction where "Instruction_CALLDATASIZE = 0x36"
definition Instruction_CALLDATACOPY :: Instruction where "Instruction_CALLDATACOPY = 0x37"
definition Instruction_CODESIZE :: Instruction where "Instruction_CODESIZE = 0x38"
definition Instruction_CODECOPY :: Instruction where "Instruction_CODECOPY = 0x39"
definition Instruction_GASPRICE :: Instruction where "Instruction_GASPRICE = 0x3a"
definition Instruction_EXTCODESIZE :: Instruction where "Instruction_EXTCODESIZE = 0x3b"
definition Instruction_EXTCODECOPY :: Instruction where "Instruction_EXTCODECOPY = 0x3c"
definition Instruction_RETURNDATASIZE :: Instruction where "Instruction_RETURNDATASIZE = 0x3d"
definition Instruction_RETURNDATACOPY :: Instruction where "Instruction_RETURNDATACOPY = 0x3e"
definition Instruction_EXTCODEHASH :: Instruction where "Instruction_EXTCODEHASH = 0x3f"
definition Instruction_BLOCKHASH :: Instruction where "Instruction_BLOCKHASH = 0x40"
definition Instruction_COINBASE :: Instruction where "Instruction_COINBASE = 0x41"
definition Instruction_TIMESTAMP :: Instruction where "Instruction_TIMESTAMP = 0x42"
definition Instruction_NUMBER :: Instruction where "Instruction_NUMBER = 0x43"
definition Instruction_DIFFICULTY :: Instruction where "Instruction_DIFFICULTY = 0x44"
definition Instruction_GASLIMIT :: Instruction where "Instruction_GASLIMIT = 0x45"
definition Instruction_TOKENID :: Instruction where "Instruction_TOKENID = 0x46"
definition Instruction_ACCOUNTHEIGHT :: Instruction where "Instruction_ACCOUNTHEIGHT = 0x47"
definition Instruction_PREVHASH :: Instruction where "Instruction_PREVHASH = 0x48"
definition Instruction_FROMHASH :: Instruction where "Instruction_FROMHASH = 0x49"
definition Instruction_SEED :: Instruction where "Instruction_SEED = 0x4a"
definition Instruction_RANDOM :: Instruction where "Instruction_RANDOM = 0x4b"
definition Instruction_POP :: Instruction where "Instruction_POP = 0x50"
definition Instruction_MLOAD :: Instruction where "Instruction_MLOAD = 0x51"
definition Instruction_MSTORE :: Instruction where "Instruction_MSTORE = 0x52"
definition Instruction_MSTORE8 :: Instruction where "Instruction_MSTORE8 = 0x53"
definition Instruction_SLOAD :: Instruction where "Instruction_SLOAD = 0x54"
definition Instruction_SSTORE :: Instruction where "Instruction_SSTORE = 0x55"
definition Instruction_JUMP :: Instruction where "Instruction_JUMP = 0x56"
definition Instruction_JUMPI :: Instruction where "Instruction_JUMPI = 0x57"
definition Instruction_PC :: Instruction where "Instruction_PC = 0x58"
definition Instruction_MSIZE :: Instruction where "Instruction_MSIZE = 0x59"
definition Instruction_GAS :: Instruction where "Instruction_GAS = 0x5a"
definition Instruction_JUMPDEST :: Instruction where "Instruction_JUMPDEST = 0x5b"
definition Instruction_PUSH1 :: Instruction where "Instruction_PUSH1 = 0x60"
definition Instruction_PUSH2 :: Instruction where "Instruction_PUSH2 = 0x61"
definition Instruction_PUSH3 :: Instruction where "Instruction_PUSH3 = 0x62"
definition Instruction_PUSH4 :: Instruction where "Instruction_PUSH4 = 0x63"
definition Instruction_PUSH5 :: Instruction where "Instruction_PUSH5 = 0x64"
definition Instruction_PUSH6 :: Instruction where "Instruction_PUSH6 = 0x65"
definition Instruction_PUSH7 :: Instruction where "Instruction_PUSH7 = 0x66"
definition Instruction_PUSH8 :: Instruction where "Instruction_PUSH8 = 0x67"
definition Instruction_PUSH9 :: Instruction where "Instruction_PUSH9 = 0x68"
definition Instruction_PUSH10 :: Instruction where "Instruction_PUSH10 = 0x69"
definition Instruction_PUSH11 :: Instruction where "Instruction_PUSH11 = 0x6a"
definition Instruction_PUSH12 :: Instruction where "Instruction_PUSH12 = 0x6b"
definition Instruction_PUSH13 :: Instruction where "Instruction_PUSH13 = 0x6c"
definition Instruction_PUSH14 :: Instruction where "Instruction_PUSH14 = 0x6d"
definition Instruction_PUSH15 :: Instruction where "Instruction_PUSH15 = 0x6e"
definition Instruction_PUSH16 :: Instruction where "Instruction_PUSH16 = 0x6f"
definition Instruction_PUSH17 :: Instruction where "Instruction_PUSH17 = 0x70"
definition Instruction_PUSH18 :: Instruction where "Instruction_PUSH18 = 0x71"
definition Instruction_PUSH19 :: Instruction where "Instruction_PUSH19 = 0x72"
definition Instruction_PUSH20 :: Instruction where "Instruction_PUSH20 = 0x73"
definition Instruction_PUSH21 :: Instruction where "Instruction_PUSH21 = 0x74"
definition Instruction_PUSH22 :: Instruction where "Instruction_PUSH22 = 0x75"
definition Instruction_PUSH23 :: Instruction where "Instruction_PUSH23 = 0x76"
definition Instruction_PUSH24 :: Instruction where "Instruction_PUSH24 = 0x77"
definition Instruction_PUSH25 :: Instruction where "Instruction_PUSH25 = 0x78"
definition Instruction_PUSH26 :: Instruction where "Instruction_PUSH26 = 0x79"
definition Instruction_PUSH27 :: Instruction where "Instruction_PUSH27 = 0x7a"
definition Instruction_PUSH28 :: Instruction where "Instruction_PUSH28 = 0x7b"
definition Instruction_PUSH29 :: Instruction where "Instruction_PUSH29 = 0x7c"
definition Instruction_PUSH30 :: Instruction where "Instruction_PUSH30 = 0x7d"
definition Instruction_PUSH31 :: Instruction where "Instruction_PUSH31 = 0x7e"
definition Instruction_PUSH32 :: Instruction where "Instruction_PUSH32 = 0x7f"
definition Instruction_DUP1 :: Instruction where "Instruction_DUP1 = 0x80"
definition Instruction_DUP2 :: Instruction where "Instruction_DUP2 = 0x81"
definition Instruction_DUP3 :: Instruction where "Instruction_DUP3 = 0x82"
definition Instruction_DUP4 :: Instruction where "Instruction_DUP4 = 0x83"
definition Instruction_DUP5 :: Instruction where "Instruction_DUP5 = 0x84"
definition Instruction_DUP6 :: Instruction where "Instruction_DUP6 = 0x85"
definition Instruction_DUP7 :: Instruction where "Instruction_DUP7 = 0x86"
definition Instruction_DUP8 :: Instruction where "Instruction_DUP8 = 0x87"
definition Instruction_DUP9 :: Instruction where "Instruction_DUP9 = 0x88"
definition Instruction_DUP10 :: Instruction where "Instruction_DUP10 = 0x89"
definition Instruction_DUP11 :: Instruction where "Instruction_DUP11 = 0x8a"
definition Instruction_DUP12 :: Instruction where "Instruction_DUP12 = 0x8b"
definition Instruction_DUP13 :: Instruction where "Instruction_DUP13 = 0x8c"
definition Instruction_DUP14 :: Instruction where "Instruction_DUP14 = 0x8d"
definition Instruction_DUP15 :: Instruction where "Instruction_DUP15 = 0x8e"
definition Instruction_DUP16 :: Instruction where "Instruction_DUP16 = 0x8f"
definition Instruction_SWAP1 :: Instruction where "Instruction_SWAP1 = 0x90"
definition Instruction_SWAP2 :: Instruction where "Instruction_SWAP2 = 0x91"
definition Instruction_SWAP3 :: Instruction where "Instruction_SWAP3 = 0x92"
definition Instruction_SWAP4 :: Instruction where "Instruction_SWAP4 = 0x93"
definition Instruction_SWAP5 :: Instruction where "Instruction_SWAP5 = 0x94"
definition Instruction_SWAP6 :: Instruction where "Instruction_SWAP6 = 0x95"
definition Instruction_SWAP7 :: Instruction where "Instruction_SWAP7 = 0x96"
definition Instruction_SWAP8 :: Instruction where "Instruction_SWAP8 = 0x97"
definition Instruction_SWAP9 :: Instruction where "Instruction_SWAP9 = 0x98"
definition Instruction_SWAP10 :: Instruction where "Instruction_SWAP10 = 0x99"
definition Instruction_SWAP11 :: Instruction where "Instruction_SWAP11 = 0x9a"
definition Instruction_SWAP12 :: Instruction where "Instruction_SWAP12 = 0x9b"
definition Instruction_SWAP13 :: Instruction where "Instruction_SWAP13 = 0x9c"
definition Instruction_SWAP14 :: Instruction where "Instruction_SWAP14 = 0x9d"
definition Instruction_SWAP15 :: Instruction where "Instruction_SWAP15 = 0x9e"
definition Instruction_SWAP16 :: Instruction where "Instruction_SWAP16 = 0x9f"
definition Instruction_LOG0 :: Instruction where "Instruction_LOG0 = 0xa0"
definition Instruction_LOG1 :: Instruction where "Instruction_LOG1 = 0xa1"
definition Instruction_LOG2 :: Instruction where "Instruction_LOG2 = 0xa2"
definition Instruction_LOG3 :: Instruction where "Instruction_LOG3 = 0xa3"
definition Instruction_LOG4 :: Instruction where "Instruction_LOG4 = 0xa4"
definition Instruction_EIP615_JUMPTO :: Instruction where "Instruction_EIP615_JUMPTO = 0xb0"
definition Instruction_EIP615_JUMPIF :: Instruction where "Instruction_EIP615_JUMPIF = 0xb1"
definition Instruction_EIP615_JUMPV :: Instruction where "Instruction_EIP615_JUMPV = 0xb2"
definition Instruction_EIP615_JUMPSUB :: Instruction where "Instruction_EIP615_JUMPSUB = 0xb3"
definition Instruction_EIP615_JUMPSUBV :: Instruction where "Instruction_EIP615_JUMPSUBV = 0xb4"
definition Instruction_EIP615_BEGINSUB :: Instruction where "Instruction_EIP615_BEGINSUB = 0xb5"
definition Instruction_EIP615_BEGINDATA :: Instruction where "Instruction_EIP615_BEGINDATA = 0xb6"
definition Instruction_EIP615_RETURNSUB :: Instruction where "Instruction_EIP615_RETURNSUB = 0xb7"
definition Instruction_EIP615_PUTLOCAL :: Instruction where "Instruction_EIP615_PUTLOCAL = 0xb8"
definition Instruction_EIP615_GETLOCAL :: Instruction where "Instruction_EIP615_GETLOCAL = 0xb9"
definition Instruction_CHAINID :: Instruction where "Instruction_CHAINID = 0xe0"
definition Instruction_SELFBALANCE :: Instruction where "Instruction_SELFBALANCE = 0xe1"
definition Instruction_CREATE :: Instruction where "Instruction_CREATE = 0xf0"
definition Instruction_CALL :: Instruction where "Instruction_CALL = 0xf1"
definition Instruction_CALLCODE :: Instruction where "Instruction_CALLCODE = 0xf2"
definition Instruction_RETURN :: Instruction where "Instruction_RETURN = 0xf3"
definition Instruction_DELEGATECALL :: Instruction where "Instruction_DELEGATECALL = 0xf4"
definition Instruction_CREATE2 :: Instruction where "Instruction_CREATE2 = 0xf5"
definition Instruction_SYNCCALL :: Instruction where "Instruction_SYNCCALL = 0xf7"
definition Instruction_CALLBACKDEST :: Instruction where "Instruction_CALLBACKDEST = 0xf8"
definition Instruction_STATICCALL :: Instruction where "Instruction_STATICCALL = 0xfa"
definition Instruction_REVERT :: Instruction where "Instruction_REVERT = 0xfd"
definition Instruction_INVALID :: Instruction where "Instruction_INVALID = 0xfe"
definition Instruction_SELFDESTRUCT :: Instruction where "Instruction_SELFDESTRUCT = 0xff"

lemmas Instruction_defs =
  Instruction_STOP_def Instruction_ADD_def Instruction_MUL_def Instruction_SUB_def
  Instruction_DIV_def Instruction_SDIV_def Instruction_MOD_def Instruction_SMOD_def
  Instruction_ADDMOD_def Instruction_MULMOD_def Instruction_EXP_def Instruction_SIGNEXTEND_def
  Instruction_LT_def Instruction_GT_def Instruction_SLT_def Instruction_SGT_def
  Instruction_EQ_def Instruction_ISZERO_def Instruction_AND_def Instruction_OR_def
  Instruction_XOR_def Instruction_NOT_def Instruction_BYTE_def Instruction_SHL_def
  Instruction_SHR_def Instruction_SAR_def Instruction_KECCAK256_def Instruction_BLAKE2B_def
  Instruction_ADDRESS_def Instruction_BALANCE_def Instruction_ORIGIN_def Instruction_CALLER_def
  Instruction_CALLVALUE_def Instruction_CALLDATALOAD_def Instruction_CALLDATASIZE_def
  Instruction_CALLDATACOPY_def Instruction_CODESIZE_def Instruction_CODECOPY_def
  Instruction_GASPRICE_def Instruction_EXTCODESIZE_def Instruction_EXTCODECOPY_def
  Instruction_RETURNDATASIZE_def Instruction_RETURNDATACOPY_def Instruction_EXTCODEHASH_def
  Instruction_BLOCKHASH_def Instruction_COINBASE_def Instruction_TIMESTAMP_def
  Instruction_NUMBER_def Instruction_DIFFICULTY_def Instruction_GASLIMIT_def
  Instruction_TOKENID_def Instruction_ACCOUNTHEIGHT_def Instruction_PREVHASH_def
  Instruction_FROMHASH_def Instruction_SEED_def Instruction_RANDOM_def Instruction_POP_def
  Instruction_MLOAD_def Instruction_MSTORE_def Instruction_MSTORE8_def Instruction_SLOAD_def
  Instruction_SSTORE_def Instruction_JUMP_def Instruction_JUMPI_def Instruction_PC_def
  Instruction_MSIZE_def Instruction_GAS_def Instruction_JUMPDEST_def Instruction_PUSH1_def
  Instruction_PUSH2_def Instruction_PUSH3_def Instruction_PUSH4_def Instruction_PUSH5_def
  Instruction_PUSH6_def Instruction_PUSH7_def Instruction_PUSH8_def Instruction_PUSH9_def
  Instruction_PUSH10_def Instruction_PUSH11_def Instruction_PUSH12_def Instruction_PUSH13_def
  Instruction_PUSH14_def Instruction_PUSH15_def Instruction_PUSH16_def Instruction_PUSH17_def
  Instruction_PUSH18_def Instruction_PUSH19_def Instruction_PUSH20_def Instruction_PUSH21_def
  Instruction_PUSH22_def Instruction_PUSH23_def Instruction_PUSH24_def Instruction_PUSH25_def
  Instruction_PUSH26_def Instruction_PUSH27_def Instruction_PUSH28_def Instruction_PUSH29_def
  Instruction_PUSH30_def Instruction_PUSH31_def Instruction_PUSH32_def Instruction_DUP1_def
  Instruction_DUP2_def Instruction_DUP3_def Instruction_DUP4_def Instruction_DUP5_def
  Instruction_DUP6_def Instruction_DUP7_def Instruction_DUP8_def Instruction_DUP9_def
  Instruction_DUP10_def Instruction_DUP11_def Instruction_DUP12_def Instruction_DUP13_def
  Instruction_DUP14_def Instruction_DUP15_def Instruction_DUP16_def Instruction_SWAP1_def
  Instruction_SWAP2_def Instruction_SWAP3_def Instruction_SWAP4_def Instruction_SWAP5_def
  Instruction_SWAP6_def Instruction_SWAP7_def Instruction_SWAP8_def Instruction_SWAP9_def
  Instruction_SWAP10_def Instruction_SWAP11_def Instruction_SWAP12_def Instruction_SWAP13_def
  Instruction_SWAP14_def Instruction_SWAP15_def Instruction_SWAP16_def Instruction_LOG0_def
  Instruction_LOG1_def Instruction_LOG2_def Instruction_LOG3_def Instruction_LOG4_def
  Instruction_EIP615_JUMPTO_def Instruction_EIP615_JUMPIF_def Instruction_EIP615_JUMPV_def
  Instruction_EIP615_JUMPSUB_def Instruction_EIP615_JUMPSUBV_def Instruction_EIP615_BEGINSUB_def
  Instruction_EIP615_BEGINDATA_def Instruction_EIP615_RETURNSUB_def
  Instruction_EIP615_PUTLOCAL_def Instruction_EIP615_GETLOCAL_def Instruction_CHAINID_def
  Instruction_SELFBALANCE_def Instruction_CREATE_def Instruction_CALL_def
  Instruction_CALLCODE_def Instruction_RETURN_def Instruction_DELEGATECALL_def
  Instruction_CREATE2_def Instruction_SYNCCALL_def Instruction_CALLBACKDEST_def
  Instruction_STATICCALL_def Instruction_REVERT_def Instruction_INVALID_def
  Instruction_SELFDESTRUCT_def

section \<open>Instruction families\<close>

definition isPushInstruction :: "Instruction \<Rightarrow> bool" where
  "isPushInstruction inst \<longleftrightarrow> Instruction_PUSH1 \<le> inst \<and> inst \<le> Instruction_PUSH32"

definition isDupInstruction :: "Instruction \<Rightarrow> bool" where
  "isDupInstruction inst \<longleftrightarrow> Instruction_DUP1 \<le> inst \<and> inst \<le> Instruction_DUP16"

definition isSwapInstruction :: "Instruction \<Rightarrow> bool" where
  "isSwapInstruction inst \<longleftrightarrow> Instruction_SWAP1 \<le> inst \<and> inst \<le> Instruction_SWAP16"

definition isLogInstruction :: "Instruction \<Rightarrow> bool" where
  "isLogInstruction inst \<longleftrightarrow> Instruction_LOG0 \<le> inst \<and> inst \<le> Instruction_LOG4"

text \<open>The subtractions are done in \<open>unsigned\<close>, a 32-bit word.\<close>

definition getPushNumber :: "Instruction \<Rightarrow> u32" where
  "getPushNumber inst = ucast inst - ucast Instruction_PUSH1 + 1"

definition getDupNumber :: "Instruction \<Rightarrow> u32" where
  "getDupNumber inst = ucast inst - ucast Instruction_DUP1 + 1"

definition getSwapNumber :: "Instruction \<Rightarrow> u32" where
  "getSwapNumber inst = ucast inst - ucast Instruction_SWAP1 + 1"

definition getLogNumber :: "Instruction \<Rightarrow> u32" where
  "getLogNumber inst = ucast inst - ucast Instruction_LOG0"

definition pushInstruction :: "u32 \<Rightarrow> Instruction result" where
  "pushInstruction number =
     bindE (assertThrow (1 \<le> number \<and> number \<le> 32) InvalidOpcode) (\<lambda>_.
       Inr (ucast (ucast Instruction_PUSH1 + number - 1 :: u32)))"

definition dupInstruction :: "u32 \<Rightarrow> Instruction result" where
  "dupInstruction number =
     bindE (assertThrow (1 \<le> number \<and> number \<le> 16) InvalidOpcode) (\<lambda>_.
       Inr (ucast (ucast Instruction_DUP1 + number - 1 :: u32)))"

definition swapInstruction :: "u32 \<Rightarrow> Instruction result" where
  "swapInstruction number =
     bindE (assertThrow (1 \<le> number \<and> number \<le> 16) InvalidOpcode) (\<lambda>_.
       Inr (ucast (ucast Instruction_SWAP1 + number - 1 :: u32)))"

definition logInstruction :: "u32 \<Rightarrow> Instruction result" where
  "logInstruction number =
     bindE (assertThrow (number \<le> 4) InvalidOpcode) (\<lambda>_.
       Inr (ucast (ucast Instruction_LOG0 + number :: u32)))"

section \<open>The instruction tables\<close>

datatype Tier =
    Tier_Zero
  | Tier_Base
  | Tier_VeryLow
  | Tier_Low
  | Tier_Mid
  | Tier_High
  | Tier_Ext
  | Tier_ExtCode
  | Tier_Balance
  | Tier_Special
  | Tier_Invalid

record InstructionInfo =
  info_name :: string
  info_additional :: int
  info_args :: int
  info_ret :: int
  info_sideEffects :: bool
  info_gasPriceTier :: Tier

text \<open>The aggregate initialiser of the rows.\<close>

definition info :: "string \<Rightarrow> int \<Rightarrow> int \<Rightarrow> int \<Rightarrow> bool \<Rightarrow> Tier \<Rightarrow> InstructionInfo" where
  "info name additional args ret sideEffects tier =
     \<lparr>info_name = name, info_additional = additional, info_args = args, info_ret = ret,
      info_sideEffects = sideEffects, info_gasPriceTier = tier\<rparr>"


definition c_instructions :: "(string \<times> Instruction) list" where
  "c_instructions = [
     (''STOP'', Instruction_STOP),
     (''ADD'', Instruction_ADD),
     (''SUB'', Instruction_SUB),
     (''MUL'', Instruction_MUL),
     (''DIV'', Instruction_DIV),
     (''SDIV'', Instruction_SDIV),
     (''MOD'', Instruction_MOD),
     (''SMOD'', Instruction_SMOD),
     (''EXP'', Instruction_EXP),
     (''NOT'', Instruction_NOT),
     (''LT'', Instruction_LT),
     (''GT'', Instruction_GT),
     (''SLT'', Instruction_SLT),
     (''SGT'', Instruction_SGT),
     (''EQ'', Instruction_EQ),
     (''ISZERO'', Instruction_ISZERO),
     (''AND'', Instruction_AND),
     (''OR'', Instruction_OR),
     (''XOR'', Instruction_XOR),
     (''BYTE'', Instruction_BYTE),
     (''SHL'', Instruction_SHL),
     (''SHR'', Instruction_SHR),
     (''SAR'', Instruction_SAR),
     (''ADDMOD'', Instruction_ADDMOD),
     (''MULMOD'', Instruction_MULMOD),
     (''SIGNEXTEND'', Instruction_SIGNEXTEND),
     (''KECCAK256'', Instruction_KECCAK256),
     (''ADDRESS'', Instruction_ADDRESS),
     (''BALANCE'', Instruction_BALANCE),
     (''ORIGIN'', Instruction_ORIGIN),
     (''CALLER'', Instruction_CALLER),
     (''CALLVALUE'', Instruction_CALLVALUE),
     (''CALLDATALOAD'', Instruction_CALLDATALOAD),
     (''CALLDATASIZE'', Instruction_CALLDATASIZE),
     (''CALLDATACOPY'', Instruction_CALLDATACOPY),
     (''CODESIZE'', Instruction_CODESIZE),
     (''CODECOPY'', Instruction_CODECOPY),
     (''GASPRICE'', Instruction_GASPRICE),
     (''EXTCODESIZE'', Instruction_EXTCODESIZE),
     (''EXTCODECOPY'', Instruction_EXTCODECOPY),
     (''RETURNDATASIZE'', Instruction_RETURNDATASIZE),
     (''RETURNDATACOPY'', Instruction_RETURNDATACOPY),
     (''EXTCODEHASH'', Instruction_EXTCODEHASH),
     (''BLOCKHASH'', Instruction_BLOCKHASH),
     (''COINBASE'', Instruction_COINBASE),
     (''TIMESTAMP'', Instruction_TIMESTAMP),
     (''NUMBER'', Instruction_NUMBER),
     (''DIFFICULTY'', Instruction_DIFFICULTY),
     (''GASLIMIT'', Instruction_GASLIMIT),
     (''CHAINID'', Instruction_CHAINID),
     (''SELFBALANCE'', Instruction_SELFBALANCE),
     (''POP'', Instruction_POP),
     (''MLOAD'', Instruction_MLOAD),
     (''MSTORE'', Instruction_MSTORE),
     (''MSTORE8'', Instruction_MSTORE8),
     (''SLOAD'', Instruction_SLOAD),
     (''SSTORE'', Instruction_SSTORE),
     (''JUMP'', Instruction_JUMP),
     (''JUMPI'', Instruction_JUMPI),
     (''PC'', Instruction_PC),
     (''MSIZE'', Instruction_MSIZE),
     (''GAS'', Instruction_GAS),
     (''JUMPDEST'', Instruction_JUMPDEST),
     (''PUSH1'', Instruction_PUSH1),
     (''PUSH2'', Instruction_PUSH2),
     (''PUSH3'', Instruction_PUSH3),
     (''PUSH4'', Instruction_PUSH4),
     (''PUSH5'', Instruction_PUSH5),
     (''PUSH6'', Instruction_PUSH6),
     (''PUSH7'', Instruction_PUSH7),
     (''PUSH8'', Instruction_PUSH8),
     (''PUSH9'', Instruction_PUSH9),
     (''PUSH10'', Instruction_PUSH10),
     (''PUSH11'', Instruction_PUSH11),
     (''PUSH12'', Instruction_PUSH12),
     (''PUSH13'', Instruction_PUSH13),
     (''PUSH14'', Instruction_PUSH14),
     (''PUSH15'', Instruction_PUSH15),
     (''PUSH16'', Instruction_PUSH16),
     (''PUSH17'', Instruction_PUSH17),
     (''PUSH18'', Instruction_PUSH18),
     (''PUSH19'', Instruction_PUSH19),
     (''PUSH20'', Instruction_PUSH20),
     (''PUSH21'', Instruction_PUSH21),
     (''PUSH22'', Instruction_PUSH22),
     (''PUSH23'', Instruction_PUSH23),
     (''PUSH24'', Instruction_PUSH24),
     (''PUSH25'', Instruction_PUSH25),
     (''PUSH26'', Instruction_PUSH26),
     (''PUSH27'', Instruction_PUSH27),
     (''PUSH28'', Instruction_PUSH28),
     (''PUSH29'', Instruction_PUSH29),
     (''PUSH30'', Instruction_PUSH30),
     (''PUSH31'', Instruction_PUSH31),
     (''PUSH32'', Instruction_PUSH32),
     (''DUP1'', Instruction_DUP1),
     (''DUP2'', Instruction_DUP2),
     (''DUP3'', Instruction_DUP3),
     (''DUP4'', Instruction_DUP4),
     (''DUP5'', Instruction_DUP5),
     (''DUP6'', Instruction_DUP6),
     (''DUP7'', Instruction_DUP7),
     (''DUP8'', Instruction_DUP8),
     (''DUP9'', Instruction_DUP9),
     (''DUP10'', Instruction_DUP10),
     (''DUP11'', Instruction_DUP11),
     (''DUP12'', Instruction_DUP12),
     (''DUP13'', Instruction_DUP13),
     (''DUP14'', Instruction_DUP14),
     (''DUP15'', Instruction_DUP15),
     (''DUP16'', Instruction_DUP16),
     (''SWAP1'', Instruction_SWAP1),
     (''SWAP2'', Instruction_SWAP2),
     (''SWAP3'', Instruction_SWAP3),
     (''SWAP4'', Instruction_SWAP4),
     (''SWAP5'', Instruction_SWAP5),
     (''SWAP6'', Instruction_SWAP6),
     (''SWAP7'', Instruction_SWAP7),
     (''SWAP8'', Instruction_SWAP8),
     (''SWAP9'', Instruction_SWAP9),
     (''SWAP10'', Instruction_SWAP10),
     (''SWAP11'', Instruction_SWAP11),
     (''SWAP12'', Instruction_SWAP12),
     (''SWAP13'', Instruction_SWAP13),
     (''SWAP14'', Instruction_SWAP14),
     (''SWAP15'', Instruction_SWAP15),
     (''SWAP16'', Instruction_SWAP16),
     (''LOG0'', Instruction_LOG0),
     (''LOG1'', Instruction_LOG1),
     (''LOG2'', Instruction_LOG2),
     (''LOG3'', Instruction_LOG3),
     (''LOG4'', Instruction_LOG4),
     (''CREATE'', Instruction_CREATE),
     (''CALL'', Instruction_CALL),
     (''CALLCODE'', Instruction_CALLCODE),
     (''STATICCALL'', Instruction_STATICCALL),
     (''RETURN'', Instruction_RETURN),
     (''DELEGATECALL'', Instruction_DELEGATECALL),
     (''CREATE2'', Instruction_CREATE2),
     (''REVERT'', Instruction_REVERT),
     (''INVALID'', Instruction_INVALID),
     (''SELFDESTRUCT'', Instruction_SELFDESTRUCT),
     (''ACCOUNTHEIGHT'', Instruction_ACCOUNTHEIGHT),
     (''PREVHASH'', Instruction_PREVHASH),
     (''FROMHASH'', Instruction_FROMHASH),
     (''SEED'', Instruction_SEED),
     (''RANDOM'', Instruction_RANDOM),
     (''BLAKE2B'', Instruction_BLAKE2B),
     (''TOKENID'', Instruction_TOKENID)]"

definition c_instructionInfo_operations :: "(Instruction \<times> InstructionInfo) list" where
  "c_instructionInfo_operations = [
     (Instruction_STOP, info ''STOP'' 0 0 0 True Tier_Zero),
     (Instruction_ADD, info ''ADD'' 0 2 1 False Tier_VeryLow),
     (Instruction_SUB, info ''SUB'' 0 2 1 False Tier_VeryLow),
     (Instruction_MUL, info ''MUL'' 0 2 1 False Tier_Low),
     (Instruction_DIV, info ''DIV'' 0 2 1 False Tier_Low),
     (Instruction_SDIV, info ''SDIV'' 0 2 1 False Tier_Low),
     (Instruction_MOD, info ''MOD'' 0 2 1 False Tier_Low),
     (Instruction_SMOD, info ''SMOD'' 0 2 1 False Tier_Low),
     (Instruction_EXP, info ''EXP'' 0 2 1 False Tier_Special),
     (Instruction_NOT, info ''NOT'' 0 1 1 False Tier_VeryLow),
     (Instruction_LT, info ''LT'' 0 2 1 False Tier_VeryLow),
     (Instruction_GT, info ''GT'' 0 2 1 False Tier_VeryLow),
     (Instruction_SLT, info ''SLT'' 0 2 1 False Tier_VeryLow),
     (Instruction_SGT, info ''SGT'' 0 2 1 False Tier_VeryLow),
     (Instruction_EQ, info ''EQ'' 0 2 1 False Tier_VeryLow),
     (Instruction_ISZERO, info ''ISZERO'' 0 1 1 False Tier_VeryLow),
     (Instruction_AND, info ''AND'' 0 2 1 False Tier_VeryLow),
     (Instruction_OR, info ''OR'' 0 2 1 False Tier_VeryLow),
     (Instruction_XOR, info ''XOR'' 0 2 1 False Tier_VeryLow),
     (Instruction_BYTE, info ''BYTE'' 0 2 1 False Tier_VeryLow),
     (Instruction_SHL, info ''SHL'' 0 2 1 False Tier_VeryLow),
     (Instruction_SHR, info ''SHR'' 0 2 1 False Tier_VeryLow),
     (Instruction_SAR, info ''SAR'' 0 2 1 False Tier_VeryLow),
     (Instruction_ADDMOD, info ''ADDMOD'' 0 3 1 False Tier_Mid),
     (Instruction_MULMOD, info ''MULMOD'' 0 3 1 False Tier_Mid),
     (Instruction_SIGNEXTEND, info ''SIGNEXTEND'' 0 2 1 False Tier_Low),
     (Instruction_KECCAK256, info ''KECCAK256'' 0 2 1 True Tier_Special),
     (Instruction_ADDRESS, info ''ADDRESS'' 0 0 1 False Tier_Base),
     (Instruction_BALANCE, info ''BALANCE'' 0 1 1 False Tier_Balance),
     (Instruction_ORIGIN, info ''ORIGIN'' 0 0 1 False Tier_Base),
     (Instruction_CALLER, info ''CALLER'' 0 0 1 False Tier_Base),
     (Instruction_CALLVALUE, info ''CALLVALUE'' 0 0 1 False Tier_Base),
     (Instruction_CALLDATALOAD, info ''CALLDATALOAD'' 0 1 1 False Tier_VeryLow),
     (Instruction_CALLDATASIZE, info ''CALLDATASIZE'' 0 0 1 False Tier_Base),
     (Instruction_CALLDATACOPY, info ''CALLDATACOPY'' 0 3 0 True Tier_VeryLow),
     (Instruction_CODESIZE, info ''CODESIZE'' 0 0 1 False Tier_Base),
     (Instruction_CODECOPY, info ''CODECOPY'' 0 3 0 True Tier_VeryLow),
     (Instruction_GASPRICE, info ''GASPRICE'' 0 0 1 False Tier_Base),
     (Instruction_EXTCODESIZE, info ''EXTCODESIZE'' 0 1 1 False Tier_ExtCode),
     (Instruction_EXTCODECOPY, info ''EXTCODECOPY'' 0 4 0 True Tier_ExtCode),
     (Instruction_RETURNDATASIZE, info ''RETURNDATASIZE'' 0 0 1 False Tier_Base),
     (Instruction_RETURNDATACOPY, info ''RETURNDATACOPY'' 0 3 0 True Tier_VeryLow),
     (Instruction_EXTCODEHASH, info ''EXTCODEHASH'' 0 1 1 False Tier_Balance),
     (Instruction_BLOCKHASH, info ''BLOCKHASH'' 0 1 1 False Tier_Ext),
     (Instruction_COINBASE, info ''COINBASE'' 0 0 1 False Tier_Base),
     (Instruction_TIMESTAMP, info ''TIMESTAMP'' 0 0 1 False Tier_Base),
     (Instruction_NUMBER, info ''NUMBER'' 0 0 1 False Tier_Base),
     (Instruction_DIFFICULTY, info ''DIFFICULTY'' 0 0 1 False Tier_Base),
     (Instruction_GASLIMIT, info ''GASLIMIT'' 0 0 1 False Tier_Base),
     (Instruction_CHAINID, info ''CHAINID'' 0 0 1 False Tier_Base),
     (Instruction_SELFBALANCE, info ''SELFBALANCE'' 0 0 1 False Tier_Low),
     (Instruction_POP, info ''POP'' 0 1 0 False Tier_Base),
     (Instruction_MLOAD, info ''MLOAD'' 0 1 1 True Tier_VeryLow),
     (Instruction_MSTORE, info ''MSTORE'' 0 2 0 True Tier_VeryLow),
     (Instruction_MSTORE8, info ''MSTORE8'' 0 2 0 True Tier_VeryLow),
     (Instruction_SLOAD, info ''SLOAD'' 0 1 1 False Tier_Special),
     (Instruction_SSTORE, info ''SSTORE'' 0 2 0 True Tier_Special),
     (Instruction_JUMP, info ''JUMP'' 0 1 0 True Tier_Mid),
     (Instruction_JUMPI, info ''JUMPI'' 0 2 0 True Tier_High),
     (Instruction_PC, info ''PC'' 0 0 1 False Tier_Base),
     (Instruction_MSIZE, info ''MSIZE'' 0 0 1 False Tier_Base),
     (Instruction_GAS, info ''GAS'' 0 0 1 False Tier_Base),
     (Instruction_JUMPDEST, info ''JUMPDEST'' 0 0 0 True Tier_Special)]"

definition c_instructionInfo_families :: "(Instruction \<times> InstructionInfo) list" where
  "c_instructionInfo_families = [
     (Instruction_PUSH1, info ''PUSH1'' 1 0 1 False Tier_VeryLow),
     (Instruction_PUSH2, info ''PUSH2'' 2 0 1 False Tier_VeryLow),
     (Instruction_PUSH3, info ''PUSH3'' 3 0 1 False Tier_VeryLow),
     (Instruction_PUSH4, info ''PUSH4'' 4 0 1 False Tier_VeryLow),
     (Instruction_PUSH5, info ''PUSH5'' 5 0 1 False Tier_VeryLow),
     (Instruction_PUSH6, info ''PUSH6'' 6 0 1 False Tier_VeryLow),
     (Instruction_PUSH7, info ''PUSH7'' 7 0 1 False Tier_VeryLow),
     (Instruction_PUSH8, info ''PUSH8'' 8 0 1 False Tier_VeryLow),
     (Instruction_PUSH9, info ''PUSH9'' 9 0 1 False Tier_VeryLow),
     (Instruction_PUSH10, info ''PUSH10'' 10 0 1 False Tier_VeryLow),
     (Instruction_PUSH11, info ''PUSH11'' 11 0 1 False Tier_VeryLow),
     (Instruction_PUSH12, info ''PUSH12'' 12 0 1 False Tier_VeryLow),
     (Instruction_PUSH13, info ''PUSH13'' 13 0 1 False Tier_VeryLow),
     (Instruction_PUSH14, info ''PUSH14'' 14 0 1 False Tier_VeryLow),
     (Instruction_PUSH15, info ''PUSH15'' 15 0 1 False Tier_VeryLow),
     (Instruction_PUSH16, info ''PUSH16'' 16 0 1 False Tier_VeryLow),
     (Instruction_PUSH17, info ''PUSH17'' 17 0 1 False Tier_VeryLow),
     (Instruction_PUSH18, info ''PUSH18'' 18 0 1 False Tier_VeryLow),
     (Instruction_PUSH19, info ''PUSH19'' 19 0 1 False Tier_VeryLow),
     (Instruction_PUSH20, info ''PUSH20'' 20 0 1 False Tier_VeryLow),
     (Instruction_PUSH21, info ''PUSH21'' 21 0 1 False Tier_VeryLow),
     (Instruction_PUSH22, info ''PUSH22'' 22 0 1 False Tier_VeryLow),
     (Instruction_PUSH23, info ''PUSH23'' 23 0 1 False Tier_VeryLow),
     (Instruction_PUSH24, info ''PUSH24'' 24 0 1 False Tier_VeryLow),
     (Instruction_PUSH25, info ''PUSH25'' 25 0 1 False Tier_VeryLow),
     (Instruction_PUSH26, info ''PUSH26'' 26 0 1 False Tier_VeryLow),
     (Instruction_PUSH27, info ''PUSH27'' 27 0 1 False Tier_VeryLow),
     (Instruction_PUSH28, info ''PUSH28'' 28 0 1 False Tier_VeryLow),
     (Instruction_PUSH29, info ''PUSH29'' 29 0 1 False Tier_VeryLow),
     (Instruction_PUSH30, info ''PUSH30'' 30 0 1 False Tier_VeryLow),
     (Instruction_PUSH31, info ''PUSH31'' 31 0 1 False Tier_VeryLow),
     (Instruction_PUSH32, info ''PUSH32'' 32 0 1 False Tier_VeryLow),
     (Instruction_DUP1, info ''DUP1'' 0 1 2 False Tier_VeryLow),
     (Instruction_DUP2, info ''DUP2'' 0 2 3 False Tier_VeryLow),
     (Instruction_DUP3, info ''DUP3'' 0 3 4 False Tier_VeryLow),
     (Instruction_DUP4, info ''DUP4'' 0 4 5 False Tier_VeryLow),
     (Instruction_DUP5, info ''DUP5'' 0 5 6 False Tier_VeryLow),
     (Instruction_DUP6, info ''DUP6'' 0 6 7 False Tier_VeryLow),
     (Instruction_DUP7, info ''DUP7'' 0 7 8 False Tier_VeryLow),
     (Instruction_DUP8, info ''DUP8'' 0 8 9 False Tier_VeryLow),
     (Instruction_DUP9, info ''DUP9'' 0 9 10 False Tier_VeryLow),
     (Instruction_DUP10, info ''DUP10'' 0 10 11 False Tier_VeryLow),
     (Instruction_DUP11, info ''DUP11'' 0 11 12 False Tier_VeryLow),
     (Instruction_DUP12, info ''DUP12'' 0 12 13 False Tier_VeryLow),
     (Instruction_DUP13, info ''DUP13'' 0 13 14 False Tier_VeryLow),
     (Instruction_DUP14, info ''DUP14'' 0 14 15 False Tier_VeryLow),
     (Instruction_DUP15, info ''DUP15'' 0 15 16 False Tier_VeryLow),
     (Instruction_DUP16, info ''DUP16'' 0 16 17 False Tier_VeryLow),
     (Instruction_SWAP1, info ''SWAP1'' 0 2 2 False Tier_VeryLow),
     (Instruction_SWAP2, info ''SWAP2'' 0 3 3 False Tier_VeryLow),
     (Instruction_SWAP3, info ''SWAP3'' 0 4 4 False Tier_VeryLow),
     (Instruction_SWAP4, info ''SWAP4'' 0 5 5 False Tier_VeryLow),
     (Instruction_SWAP5, info ''SWAP5'' 0 6 6 False Tier_VeryLow),
     (Instruction_SWAP6, info ''SWAP6'' 0 7 7 False Tier_VeryLow),
     (Instruction_SWAP7, info ''SWAP7'' 0 8 8 False Tier_VeryLow),
     (Instruction_SWAP8, info ''SWAP8'' 0 9 9 False Tier_VeryLow),
     (Instruction_SWAP9, info ''SWAP9'' 0 10 10 False Tier_VeryLow),
     (Instruction_SWAP10, info ''SWAP10'' 0 11 11 False Tier_VeryLow),
     (Instruction_SWAP11, info ''SWAP11'' 0 12 12 False Tier_VeryLow),
     (Instruction_SWAP12, info ''SWAP12'' 0 13 13 False Tier_VeryLow),
     (Instruction_SWAP13, info ''SWAP13'' 0 14 14 False Tier_VeryLow),
     (Instruction_SWAP14, info ''SWAP14'' 0 15 15 False Tier_VeryLow),
     (Instruction_SWAP15, info ''SWAP15'' 0 16 16 False Tier_VeryLow),
     (Instruction_SWAP16, info ''SWAP16'' 0 17 17 False Tier_VeryLow),
     (Instruction_LOG0, info ''LOG0'' 0 2 0 True Tier_Special),
     (Instruction_LOG1, info ''LOG1'' 0 3 0 True Tier_Special),
     (Instruction_LOG2, info ''LOG2'' 0 4 0 True Tier_Special),
     (Instruction_LOG3, info ''LOG3'' 0 5 0 True Tier_Special),
     (Instruction_LOG4, info ''LOG4'' 0 6 0 True Tier_Special),
     (Instruction_CREATE, info ''CREATE'' 0 3 1 True Tier_Special),
     (Instruction_CALL, info ''CALL'' 0 5 0 True Tier_Special),
     (Instruction_CALLCODE, info ''CALLCODE'' 0 5 1 True Tier_Special),
     (Instruction_RETURN, info ''RETURN'' 0 2 0 True Tier_Zero),
     (Instruction_DELEGATECALL, info ''DELEGATECALL'' 0 5 1 True Tier_Special),
     (Instruction_SYNCCALL, info ''SYNCCALL'' 0 6 0 True Tier_Special),
     (Instruction_CALLBACKDEST, info ''CALLBACKDEST'' 0 0 1 True Tier_Special),
     (Instruction_STATICCALL, info ''STATICCALL'' 0 6 1 True Tier_Special),
     (Instruction_CREATE2, info ''CREATE2'' 0 4 1 True Tier_Special),
     (Instruction_REVERT, info ''REVERT'' 0 2 0 True Tier_Zero),
     (Instruction_INVALID, info ''INVALID'' 0 0 0 True Tier_Zero),
     (Instruction_SELFDESTRUCT, info ''SELFDESTRUCT'' 0 1 0 True Tier_Special),
     (Instruction_BLAKE2B, info ''BLAKE2B'' 0 2 1 True Tier_Special),
     (Instruction_TOKENID, info ''TOKENID'' 0 0 1 False Tier_Base),
     (Instruction_ACCOUNTHEIGHT, info ''ACCOUNTHEIGHT'' 0 0 1 False Tier_Ext),
     (Instruction_PREVHASH, info ''PREVHASH'' 0 0 1 False Tier_Ext),
     (Instruction_FROMHASH, info ''FROMHASH'' 0 0 1 False Tier_Ext),
     (Instruction_RANDOM, info ''RANDOM'' 0 0 1 False Tier_Ext),
     (Instruction_SEED, info ''SEED'' 0 0 1 False Tier_Ext)]"

definition c_instructionInfo :: "(Instruction \<times> InstructionInfo) list" where
  "c_instructionInfo = c_instructionInfo_operations @ c_instructionInfo_families"

definition isValidInstruction :: "Instruction \<Rightarrow> bool" where
  "isValidInstruction inst \<longleftrightarrow> map_find inst c_instructionInfo \<noteq> None"

text \<open>\<open>at()\<close> throws for an opcode without a row, and the handler builds a row for it.\<close>

definition instructionInfo :: "Instruction \<Rightarrow> InstructionInfo" where
  "instructionInfo inst =
     (case map_at inst c_instructionInfo of
        Inr i \<Rightarrow> i
      | Inl _ \<Rightarrow> info (''<INVALID_INSTRUCTION: '' @ decimal (unat inst) @ ''>'') 0 0 0 False Tier_Invalid)"

section \<open>Reading bytecode\<close>

text \<open>The inner loop: it collects the data of a push while bytes are left.\<close>

fun pushData_loop :: "nat \<Rightarrow> u256 \<Rightarrow> bytes \<Rightarrow> nat \<times> u256 \<times> bytes" where
  "pushData_loop 0 data mem = (0, data, mem)"
| "pushData_loop (Suc additional) data [] = (Suc additional, data, [])"
| "pushData_loop (Suc additional) data (b # mem) =
     pushData_loop additional (or (push_bit 8 data) (ucast b)) mem"

lemma pushData_loop_shorter [termination_simp]:
  "(a, d, rest) = pushData_loop n data mem \<Longrightarrow> length rest \<le> length mem"
  by (induction n data mem rule: pushData_loop.induct) auto

text \<open>The callback is applied to each instruction and its data, over a state of the caller.\<close>

fun eachInstruction :: "bytes \<Rightarrow> ('s \<Rightarrow> Instruction \<Rightarrow> u256 \<Rightarrow> 's) \<Rightarrow> 's \<Rightarrow> 's" where
  "eachInstruction [] onInstruction s = s"
| "eachInstruction (instr # mem) onInstruction s =
     (let additional = (if isValidInstruction instr then info_additional (instructionInfo instr) else 0);
          (left, data, rest) = pushData_loop (nat additional) 0 mem;
          data = push_bit (8 * left) data
      in eachInstruction rest onInstruction (onInstruction s instr data))"

text \<open>Numbers in upper-case hexadecimal, as the stream prints them.\<close>

fun hexUpper :: "nat \<Rightarrow> string" where
  "hexUpper n = (if n < 16 then [upperHexChars ! n] else hexUpper (n div 16) @ [upperHexChars ! (n mod 16)])"

declare hexUpper.simps [simp del]

definition disassemble :: "bytes \<Rightarrow> string" where
  "disassemble mem =
     eachInstruction mem (\<lambda>ret instr data.
       if \<not> isValidInstruction instr then ret @ ''0x'' @ hexUpper (unat instr) @ '' ''
       else
         let i = instructionInfo instr;
             ret = ret @ info_name i @ '' ''
         in if info_additional i \<noteq> 0 then ret @ ''0x'' @ hexUpper (unat data) @ '' '' else ret) ''''"


section \<open>Lemmas on the tables\<close>

lemma instructionInfo_row:
  assumes "isValidInstruction inst"
  shows "(inst, instructionInfo inst) \<in> set c_instructionInfo"
proof -
  from assms obtain i where i: "map_of c_instructionInfo inst = Some i"
    by (auto simp: isValidInstruction_def map_find_def)
  then have "instructionInfo inst = i" by (simp add: instructionInfo_def map_at_def)
  with map_of_SomeD [OF i] show ?thesis by simp
qed

lemma all_instructions:
  "list_all (\<lambda>(inst, i). P inst i) c_instructionInfo \<Longrightarrow> isValidInstruction inst \<Longrightarrow> P inst (instructionInfo inst)"
  using instructionInfo_row [of inst] by (auto simp: list_all_iff)

lemma instructionInfo_invalid:
  "\<not> isValidInstruction inst \<Longrightarrow> instructionInfo inst =
     info (''<INVALID_INSTRUCTION: '' @ decimal (unat inst) @ ''>'') 0 0 0 False Tier_Invalid"
  by (simp add: isValidInstruction_def map_find_def instructionInfo_def map_at_def)

lemma c_instructionInfo_distinct: "distinct (map fst c_instructionInfo)"
  by code_simp

lemma instructionInfo_iff:
  "isValidInstruction inst \<and> instructionInfo inst = i \<longleftrightarrow> (inst, i) \<in> set c_instructionInfo"
proof
  assume "(inst, i) \<in> set c_instructionInfo"
  then have "map_of c_instructionInfo inst = Some i"
    using c_instructionInfo_distinct by simp
  then show "isValidInstruction inst \<and> instructionInfo inst = i"
    by (simp add: isValidInstruction_def map_find_def instructionInfo_def map_at_def)
qed (use instructionInfo_row in blast)

text \<open>The number of data bytes of an instruction.\<close>

definition additional :: "Instruction \<Rightarrow> nat" where
  "additional inst = (if isPushInstruction inst then Suc (unat inst - unat Instruction_PUSH1) else 0)"

lemma additional_table:
  "list_all (\<lambda>(inst, i). info_additional i = int (additional inst)) c_instructionInfo"
  by code_simp

lemma valid_push: "isPushInstruction inst \<Longrightarrow> isValidInstruction inst"
proof -
  assume p: "isPushInstruction inst"
  then have "unat inst \<in> set [96..<128]"
    unfolding set_upt by (simp add: isPushInstruction_def Instruction_defs word_le_nat_alt)
  moreover have "list_all (\<lambda>k. isValidInstruction (of_nat k)) [96..<128]" by code_simp
  ultimately have "isValidInstruction (of_nat (unat inst))" unfolding list_all_iff by blast
  then show ?thesis by simp
qed

lemma additional_instructionInfo:
  "(if isValidInstruction inst then info_additional (instructionInfo inst) else 0) = int (additional inst)"
proof (cases "isValidInstruction inst")
  case True
  then show ?thesis using all_instructions [OF additional_table] by simp
next
  case False
  then show ?thesis using valid_push by (auto simp: additional_def)
qed

lemma eachInstruction_Cons:
  "eachInstruction (instr # mem) f s =
     (let (left, data, rest) = pushData_loop (additional instr) 0 mem
      in eachInstruction rest f (f s instr (push_bit (8 * left) data)))"
  by (simp add: additional_instructionInfo Let_def split: prod.splits)

declare eachInstruction.simps(2) [simp del]

lemma pushData_loop_full:
  "length bs = n \<Longrightarrow> pushData_loop n d (bs @ rest) =
     (0, foldl (\<lambda>ret i. or (push_bit 8 ret) (ucast i)) d bs, rest)"
  by (induction n d "bs @ rest" arbitrary: bs rule: pushData_loop.induct) (auto simp: length_Suc_conv)

lemma pushData_loop_short:
  "length bs \<le> n \<Longrightarrow> pushData_loop n d bs =
     (n - length bs, foldl (\<lambda>ret i. or (push_bit 8 ret) (ucast i)) d bs, [])"
proof (induction n d bs rule: pushData_loop.induct)
  case (1 data mem)
  then show ?case by simp
qed auto

lemma foldl_shift_zeros:
  "foldl (\<lambda>ret i. or (push_bit 8 ret) (ucast i)) d (replicate k (0 :: byte)) = push_bit (8 * k) (d :: u256)"
  by (induction k arbitrary: d) (simp_all add: push_bit_push_bit add.commute)

text \<open>The bytes of an instruction with its data, and the pairs that have such an encoding.\<close>

definition instruction_bytes :: "Instruction \<times> u256 \<Rightarrow> bytes" where
  "instruction_bytes = (\<lambda>(inst, data). inst # be (additional inst) (unat data))"

definition encodable :: "Instruction \<times> u256 \<Rightarrow> bool" where
  "encodable = (\<lambda>(inst, data). unat data < 256 ^ additional inst)"

lemma eachInstruction_data:
  assumes "length bs = additional inst"
  shows "eachInstruction (inst # bs @ rest) f s = eachInstruction rest f (f s inst (fromBigEndian bs))"
  using assms by (simp add: eachInstruction_Cons pushData_loop_full fromBigEndian_def)

lemma eachInstruction_step:
  "encodable p \<Longrightarrow> eachInstruction (instruction_bytes p @ rest) f s =
     eachInstruction rest f (f s (fst p) (snd p))"
  by (cases p) (simp add: instruction_bytes_def encodable_def eachInstruction_data fromBigEndian_value
      be_value_be_small bytesRequired_le_iff)

lemma eachInstruction_encoded:
  "list_all encodable is \<Longrightarrow> eachInstruction (concat (map instruction_bytes is) @ rest) f s =
     eachInstruction rest f (foldl (\<lambda>s (i, d). f s i d) s is)"
  by (induction "is" arbitrary: s) (auto simp: eachInstruction_step)

text \<open>A truncated push reads the zeros that the virtual machine would supply.\<close>

lemma eachInstruction_truncated:
  assumes "length bs \<le> additional inst"
  shows "eachInstruction (inst # bs) f s =
     eachInstruction (inst # bs @ replicate (additional inst - length bs) 0) f s"
  using assms
    eachInstruction_data [of "bs @ replicate (additional inst - length bs) 0" inst "[]" f s]
  by (simp add: eachInstruction_Cons pushData_loop_short fromBigEndian_def foldl_shift_zeros)

subsection \<open>Instruction families\<close>

lemma u32_eq_nat: "(ucast first + n - 1 :: u32) = word_of_nat (unat (first :: byte) + unat n - 1)"
  if "0 < unat n"
  using that by (simp add: of_nat_diff)

lemma family_step:
  fixes first :: byte
  assumes "1 \<le> n" and "unat n \<le> k" and "unat first + k \<le> 256"
  shows "unat (ucast (ucast first + n - 1 :: u32) :: byte) = unat first + unat n - 1"
proof -
  have n: "0 < unat n" using assms(1) by (simp add: word_le_nat_alt)
  have "unat first + unat n - 1 < 256" using assms n by simp
  then show ?thesis unfolding u32_eq_nat [OF n]
    by (simp add: unsigned_ucast_eq unsigned_of_nat take_bit_eq_mod)
qed

lemma family_number:
  fixes first inst :: byte
  assumes "first \<le> inst"
  shows "unat (ucast inst - ucast first + 1 :: u32) = unat inst - unat first + 1"
proof -
  have le: "unat first \<le> unat inst" using assms by (simp add: word_le_nat_alt)
  have "(ucast inst - ucast first + 1 :: u32) = word_of_nat (unat inst - unat first + 1)"
    using le by (simp add: of_nat_diff)
  moreover have "unat inst - unat first + 1 < 2 ^ 32"
  proof (rule le_less_trans)
    show "unat inst - unat first + 1 \<le> 256" using unat_byte_less [of inst] by linarith
  qed simp
  ultimately show ?thesis by (simp only: unsigned_of_nat take_bit_eq_mod mod_less) simp
qed

text \<open>A family of \<open>k\<close> consecutive opcodes numbered from one.\<close>

lemma family_iff:
  fixes first inst :: byte
  assumes "unat first + k \<le> 256" and "0 < k"
  shows "(1 \<le> (n :: u32) \<and> unat n \<le> k \<and> inst = ucast (ucast first + n - 1 :: u32)) \<longleftrightarrow>
    (first \<le> inst \<and> unat inst < unat first + k) \<and> ucast inst - ucast first + 1 = n"
proof
  assume l: "1 \<le> n \<and> unat n \<le> k \<and> inst = ucast (ucast first + n - 1 :: u32)"
  then have i: "unat inst = unat first + unat n - 1" using family_step assms(1) by blast
  have n: "0 < unat n" using l by (simp add: word_le_nat_alt)
  have f: "first \<le> inst" using i n by (simp add: word_le_nat_alt)
  have "unat (ucast inst - ucast first + 1 :: u32) = unat n"
    unfolding family_number [OF f] using i n by simp
  then have "ucast inst - ucast first + 1 = n" by (simp only: word_unat_eq_iff)
  moreover have "unat inst < unat first + k" unfolding i using n l by auto
  ultimately show "(first \<le> inst \<and> unat inst < unat first + k) \<and> ucast inst - ucast first + 1 = n"
    using f by blast
next
  assume r: "(first \<le> inst \<and> unat inst < unat first + k) \<and> ucast inst - ucast first + 1 = n"
  then have n: "unat n = unat inst - unat first + 1" using family_number by blast
  have le: "unat first \<le> unat inst" using r by (simp add: word_le_nat_alt)
  have n1: "1 \<le> n" using n by (simp add: word_le_nat_alt)
  have nk: "unat n \<le> k" using n r le by auto
  have "unat (ucast (ucast first + n - 1 :: u32) :: byte) = unat inst"
    using family_step [OF n1 nk assms(1)] n le by simp
  with n1 nk show "1 \<le> n \<and> unat n \<le> k \<and> inst = ucast (ucast first + n - 1 :: u32)"
    by (simp add: word_unat_eq_iff)
qed

lemma pushInstruction_iff:
  "pushInstruction n = Inr inst \<longleftrightarrow> isPushInstruction inst \<and> getPushNumber inst = n"
proof -
  have "pushInstruction n = Inr inst \<longleftrightarrow>
      1 \<le> n \<and> unat n \<le> 32 \<and> inst = ucast (ucast Instruction_PUSH1 + n - 1 :: u32)"
    by (auto simp: pushInstruction_def result_simps word_le_nat_alt)
  also have "\<dots> \<longleftrightarrow> (Instruction_PUSH1 \<le> inst \<and> unat inst < unat Instruction_PUSH1 + 32) \<and>
      ucast inst - ucast Instruction_PUSH1 + 1 = n"
    by (rule family_iff) (simp_all add: Instruction_PUSH1_def)
  finally show ?thesis
    by (auto simp: isPushInstruction_def getPushNumber_def Instruction_PUSH1_def Instruction_PUSH32_def
        word_le_nat_alt)
qed

lemma dupInstruction_iff:
  "dupInstruction n = Inr inst \<longleftrightarrow> isDupInstruction inst \<and> getDupNumber inst = n"
proof -
  have "dupInstruction n = Inr inst \<longleftrightarrow>
      1 \<le> n \<and> unat n \<le> 16 \<and> inst = ucast (ucast Instruction_DUP1 + n - 1 :: u32)"
    by (auto simp: dupInstruction_def result_simps word_le_nat_alt)
  also have "\<dots> \<longleftrightarrow> (Instruction_DUP1 \<le> inst \<and> unat inst < unat Instruction_DUP1 + 16) \<and>
      ucast inst - ucast Instruction_DUP1 + 1 = n"
    by (rule family_iff) (simp_all add: Instruction_DUP1_def)
  finally show ?thesis
    by (auto simp: isDupInstruction_def getDupNumber_def Instruction_DUP1_def Instruction_DUP16_def
        word_le_nat_alt)
qed

lemma swapInstruction_iff:
  "swapInstruction n = Inr inst \<longleftrightarrow> isSwapInstruction inst \<and> getSwapNumber inst = n"
proof -
  have "swapInstruction n = Inr inst \<longleftrightarrow>
      1 \<le> n \<and> unat n \<le> 16 \<and> inst = ucast (ucast Instruction_SWAP1 + n - 1 :: u32)"
    by (auto simp: swapInstruction_def result_simps word_le_nat_alt)
  also have "\<dots> \<longleftrightarrow> (Instruction_SWAP1 \<le> inst \<and> unat inst < unat Instruction_SWAP1 + 16) \<and>
      ucast inst - ucast Instruction_SWAP1 + 1 = n"
    by (rule family_iff) (simp_all add: Instruction_SWAP1_def)
  finally show ?thesis
    by (auto simp: isSwapInstruction_def getSwapNumber_def Instruction_SWAP1_def Instruction_SWAP16_def
        word_le_nat_alt)
qed

lemma logInstruction_iff:
  "logInstruction n = Inr inst \<longleftrightarrow> isLogInstruction inst \<and> getLogNumber inst = n"
proof -
  have "logInstruction n = Inr inst \<longleftrightarrow>
      1 \<le> n + 1 \<and> unat (n + 1) \<le> 5 \<and> inst = ucast (ucast Instruction_LOG0 + (n + 1) - 1 :: u32)"
  proof (cases "n = - 1")
    case True
    then show ?thesis
      by (simp add: logInstruction_def result_simps word_le_nat_alt unsigned_minus_1_eq_mask mask_eq_exp_minus_1)
  next
    case False
    then have "unat (n + 1) = unat n + 1"
      by (metis add.commute unat_1 unat_plus_simple unatSuc Suc_eq_plus1 eq_neg_iff_add_eq_0)
    then show ?thesis by (auto simp: logInstruction_def result_simps word_le_nat_alt)
  qed
  also have "\<dots> \<longleftrightarrow> (Instruction_LOG0 \<le> inst \<and> unat inst < unat Instruction_LOG0 + 5) \<and>
      ucast inst - ucast Instruction_LOG0 + 1 = n + 1"
    by (rule family_iff) (simp_all add: Instruction_LOG0_def)
  finally show ?thesis
    by (auto simp: isLogInstruction_def getLogNumber_def Instruction_LOG0_def Instruction_LOG4_def
        word_le_nat_alt)
qed

lemma additional_push: "pushInstruction (word_of_nat n) = Inr inst \<Longrightarrow> n < 2 ^ 32 \<Longrightarrow> additional inst = n"
proof -
  assume "pushInstruction (word_of_nat n) = Inr inst" and n: "n < 2 ^ 32"
  then have p: "isPushInstruction inst" and g: "getPushNumber inst = word_of_nat n"
    by (simp_all add: pushInstruction_iff)
  have "unat (getPushNumber inst) = unat inst - unat Instruction_PUSH1 + 1"
    unfolding getPushNumber_def by (rule family_number) (use p in \<open>simp add: isPushInstruction_def\<close>)
  moreover have "unat (getPushNumber inst) = n" using n by (simp add: g unsigned_of_nat take_bit_eq_mod)
  ultimately show ?thesis using p by (simp add: additional_def)
qed

subsection \<open>Mnemonics\<close>

definition info_names :: "(string \<times> Instruction) list" where
  "info_names = map (\<lambda>(inst, i). (info_name i, inst)) c_instructionInfo"

lemma c_instructions_common: "take 135 c_instructions = take 135 info_names"
  by code_simp

lemma c_instructions_rest:
  "set (drop 135 info_names) =
     insert (''SYNCCALL'', Instruction_SYNCCALL) (insert (''CALLBACKDEST'', Instruction_CALLBACKDEST)
       (set (drop 135 c_instructions)))"
  by code_simp

lemma c_instructions_distinct: "distinct (map fst c_instructions)"
  by code_simp

lemma c_instructions_new:
  "list_all (\<lambda>(name, inst). inst \<noteq> Instruction_SYNCCALL \<and> inst \<noteq> Instruction_CALLBACKDEST) c_instructions"
  by code_simp

lemma set_info_names:
  "set info_names = insert (''SYNCCALL'', Instruction_SYNCCALL)
     (insert (''CALLBACKDEST'', Instruction_CALLBACKDEST) (set c_instructions))"
proof -
  have "set info_names = set (take 135 info_names) \<union> set (drop 135 info_names)"
    by (metis append_take_drop_id set_append)
  also have "\<dots> = insert (''SYNCCALL'', Instruction_SYNCCALL) (insert (''CALLBACKDEST'', Instruction_CALLBACKDEST)
      (set (take 135 c_instructions) \<union> set (drop 135 c_instructions)))"
    unfolding c_instructions_common [symmetric] c_instructions_rest by blast
  also have "set (take 135 c_instructions) \<union> set (drop 135 c_instructions) = set c_instructions"
    by (metis append_take_drop_id set_append)
  finally show ?thesis .
qed

lemma info_names_iff:
  "(name, inst) \<in> set info_names \<longleftrightarrow> isValidInstruction inst \<and> info_name (instructionInfo inst) = name"
proof -
  have "(name, inst) \<in> set info_names \<longleftrightarrow> (\<exists>i. (inst, i) \<in> set c_instructionInfo \<and> info_name i = name)"
    by (force simp: info_names_def)
  then show ?thesis by (auto simp: instructionInfo_iff [symmetric])
qed

section \<open>Properties\<close>

text \<open>
  The rows of the instruction families agree with the opcode: a PUSH takes as many data bytes as its
  number says and pushes one item, DUPn reads n items and leaves one more, SWAPn touches n + 1 items,
  LOGn takes n topics beside the two bounds of its data; no other instruction has data bytes.
\<close>

theorem instructionInfo_families:
  assumes "isValidInstruction inst"
  shows "let i = instructionInfo inst in
   info_additional i = (if isPushInstruction inst then uint (getPushNumber inst) else 0) \<and>
   (isPushInstruction inst \<longrightarrow> info_args i = 0 \<and> info_ret i = 1) \<and>
   (isDupInstruction inst \<longrightarrow> info_args i = uint (getDupNumber inst) \<and> info_ret i = info_args i + 1) \<and>
   (isSwapInstruction inst \<longrightarrow> info_args i = uint (getSwapNumber inst) + 1 \<and> info_ret i = info_args i) \<and>
   (isLogInstruction inst \<longrightarrow> info_args i = uint (getLogNumber inst) + 2 \<and> info_ret i = 0)"
proof -
  have "list_all (\<lambda>(inst, i).
     info_additional i = (if isPushInstruction inst then uint (getPushNumber inst) else 0) \<and>
     (isPushInstruction inst \<longrightarrow> info_args i = 0 \<and> info_ret i = 1) \<and>
     (isDupInstruction inst \<longrightarrow> info_args i = uint (getDupNumber inst) \<and> info_ret i = info_args i + 1) \<and>
     (isSwapInstruction inst \<longrightarrow> info_args i = uint (getSwapNumber inst) + 1 \<and> info_ret i = info_args i) \<and>
     (isLogInstruction inst \<longrightarrow> info_args i = uint (getLogNumber inst) + 2 \<and> info_ret i = 0)) c_instructionInfo"
    by code_simp
  from all_instructions [OF this assms] show ?thesis by (simp add: Let_def)
qed

theorem instructionInfo_families_witness:
  "isValidInstruction Instruction_DUP3 \<and>
   info_args (instructionInfo Instruction_DUP3) = uint (getDupNumber Instruction_DUP3)"
proof -
  have v: "isValidInstruction Instruction_DUP3" and d: "isDupInstruction Instruction_DUP3" by code_simp+
  from instructionInfo_families [OF v] v d show ?thesis by (simp add: Let_def)
qed

text \<open>
  Numbers and opcodes of the families are in bijection: \<open>pushInstruction n\<close> succeeds with an opcode exactly
  when that opcode is a PUSH whose number is \<open>n\<close>, and so for DUP, SWAP and LOG; every other number is
  rejected with \<open>InvalidOpcode\<close>.
\<close>

theorem instruction_numbers:
  "(pushInstruction n = Inr inst \<longleftrightarrow> isPushInstruction inst \<and> getPushNumber inst = n) \<and>
   (dupInstruction n = Inr inst \<longleftrightarrow> isDupInstruction inst \<and> getDupNumber inst = n) \<and>
   (swapInstruction n = Inr inst \<longleftrightarrow> isSwapInstruction inst \<and> getSwapNumber inst = n) \<and>
   (logInstruction n = Inr inst \<longleftrightarrow> isLogInstruction inst \<and> getLogNumber inst = n) \<and>
   (pushInstruction n = Inl InvalidOpcode \<longleftrightarrow> n < 1 \<or> n > 32) \<and>
   (dupInstruction n = Inl InvalidOpcode \<longleftrightarrow> n < 1 \<or> n > 16) \<and>
   (swapInstruction n = Inl InvalidOpcode \<longleftrightarrow> n < 1 \<or> n > 16) \<and>
   (logInstruction n = Inl InvalidOpcode \<longleftrightarrow> n > 4)"
proof -
  have "(pushInstruction n = Inl InvalidOpcode \<longleftrightarrow> n < 1 \<or> n > 32) \<and>
   (dupInstruction n = Inl InvalidOpcode \<longleftrightarrow> n < 1 \<or> n > 16) \<and>
   (swapInstruction n = Inl InvalidOpcode \<longleftrightarrow> n < 1 \<or> n > 16) \<and>
   (logInstruction n = Inl InvalidOpcode \<longleftrightarrow> n > 4)"
    by (auto simp: pushInstruction_def dupInstruction_def swapInstruction_def logInstruction_def
        assertThrow_def not_le)
  then show ?thesis
    by (simp only: pushInstruction_iff dupInstruction_iff swapInstruction_iff logInstruction_iff simp_thms)
qed

text \<open>
  The mnemonic table and the information table describe the same instructions, except that the two
  instructions of synchronous calls have no mnemonic.
\<close>

theorem c_instructions_agree:
  "map_find name c_instructions = Some inst \<longleftrightarrow>
     isValidInstruction inst \<and> info_name (instructionInfo inst) = name \<and>
     inst \<noteq> Instruction_SYNCCALL \<and> inst \<noteq> Instruction_CALLBACKDEST"
proof -
  have "map_find name c_instructions = Some inst \<longleftrightarrow> (name, inst) \<in> set c_instructions"
    using c_instructions_distinct by (simp add: map_find_def)
  also have "\<dots> \<longleftrightarrow> (name, inst) \<in> set info_names \<and> inst \<noteq> Instruction_SYNCCALL \<and> inst \<noteq> Instruction_CALLBACKDEST"
    using c_instructions_new unfolding set_info_names by (auto simp: list_all_iff)
  finally show ?thesis by (simp add: info_names_iff)
qed

text \<open>
  C32. Reading bytecode: on the encoding of any sequence of instructions, \<open>eachInstruction\<close> calls back with
  exactly those instructions and their data, in order, and goes on with the rest of the code.
\<close>

theorem eachInstruction_decodes:
  assumes "list_all encodable is"
  shows "eachInstruction (concat (map instruction_bytes is) @ rest) f s =
     eachInstruction rest f (foldl (\<lambda>s (i, d). f s i d) s is)"
  using assms by (rule eachInstruction_encoded)

theorem eachInstruction_decodes_witness:
  "eachInstruction ([0x60, 7, 0x01, 0x60, 9] @ [0x56]) (\<lambda>s i d. s @ [(i, d)]) [] =
   eachInstruction [0x56] (\<lambda>s i d. s @ [(i, d)]) [(Instruction_PUSH1, 7), (Instruction_ADD, 0), (Instruction_PUSH1, 9)]"
proof -
  let ?is = "[(Instruction_PUSH1, 7), (Instruction_ADD, 0), (Instruction_PUSH1, 9)]"
  have a: "additional Instruction_PUSH1 = Suc 0" "additional Instruction_ADD = 0"
    by code_simp+
  then have e: "list_all encodable ?is" and b: "concat (map instruction_bytes ?is) = [0x60, 7, 0x01, 0x60, 9]"
    by (simp_all add: encodable_def instruction_bytes_def Instruction_PUSH1_def Instruction_ADD_def)
  show ?thesis
    using eachInstruction_decodes [OF e, of "[0x56]" "\<lambda>s i d. s @ [(i, d)]" "[]"] unfolding b by simp
qed

end
