(* ===== verification/EVMVersion.thy ===== *)
theory EVMVersion
  imports Instruction
begin

text \<open>
  The versions of the virtual machine (\<^verbatim>\<open>liblangutil/EVMVersion.h\<close>, \<^verbatim>\<open>EVMVersion.cpp\<close>): their order,
  their names and the opcodes that each of them has.
\<close>

datatype EVMVersion =
    Homestead
  | TangerineWhistle
  | SpuriousDragon
  | Byzantium
  | Constantinople
  | Petersburg
  | Istanbul
  | Berlin

text \<open>The enumerators in order; a version is less than another if it comes first.\<close>

definition EVMVersion_all :: "EVMVersion list" where
  "EVMVersion_all = [Homestead, TangerineWhistle, SpuriousDragon, Byzantium, Constantinople, Petersburg,
     Istanbul, Berlin]"

fun version_index :: "EVMVersion \<Rightarrow> nat" where
  "version_index Homestead = 0"
| "version_index TangerineWhistle = 1"
| "version_index SpuriousDragon = 2"
| "version_index Byzantium = 3"
| "version_index Constantinople = 4"
| "version_index Petersburg = 5"
| "version_index Istanbul = 6"
| "version_index Berlin = 7"

instantiation EVMVersion :: linorder
begin

definition less_eq_EVMVersion :: "EVMVersion \<Rightarrow> EVMVersion \<Rightarrow> bool" where
  "less_eq_EVMVersion a b \<longleftrightarrow> version_index a \<le> version_index b"

definition less_EVMVersion :: "EVMVersion \<Rightarrow> EVMVersion \<Rightarrow> bool" where
  "less_EVMVersion a b \<longleftrightarrow> version_index a < version_index b"

instance
proof
  fix x y z :: EVMVersion
  show "x \<le> y \<Longrightarrow> y \<le> x \<Longrightarrow> x = y"
    by (cases x; cases y) (simp_all add: less_eq_EVMVersion_def)
qed (auto simp: less_eq_EVMVersion_def less_EVMVersion_def)

end

text \<open>The version that a default-constructed object has.\<close>

definition EVMVersion_default :: EVMVersion where "EVMVersion_default = Istanbul"

fun EVMVersion_name :: "EVMVersion \<Rightarrow> string" where
  "EVMVersion_name Homestead = ''homestead''"
| "EVMVersion_name TangerineWhistle = ''tangerineWhistle''"
| "EVMVersion_name SpuriousDragon = ''spuriousDragon''"
| "EVMVersion_name Byzantium = ''byzantium''"
| "EVMVersion_name Constantinople = ''constantinople''"
| "EVMVersion_name Petersburg = ''petersburg''"
| "EVMVersion_name Istanbul = ''istanbul''"
| "EVMVersion_name Berlin = ''berlin''"

definition EVMVersion_fromString :: "string \<Rightarrow> EVMVersion option" where
  "EVMVersion_fromString version = List.find (\<lambda>v. version = EVMVersion_name v) EVMVersion_all"

definition supportsReturndata :: "EVMVersion \<Rightarrow> bool" where
  "supportsReturndata v \<longleftrightarrow> v \<ge> Byzantium"

definition hasStaticCall :: "EVMVersion \<Rightarrow> bool" where
  "hasStaticCall v \<longleftrightarrow> v \<ge> Byzantium"

definition hasBitwiseShifting :: "EVMVersion \<Rightarrow> bool" where
  "hasBitwiseShifting v \<longleftrightarrow> v \<ge> Constantinople"

definition hasCreate2 :: "EVMVersion \<Rightarrow> bool" where
  "hasCreate2 v \<longleftrightarrow> v \<ge> Constantinople"

definition hasExtCodeHash :: "EVMVersion \<Rightarrow> bool" where
  "hasExtCodeHash v \<longleftrightarrow> v \<ge> Constantinople"

definition hasChainID :: "EVMVersion \<Rightarrow> bool" where
  "hasChainID v \<longleftrightarrow> v \<ge> Istanbul"

definition hasSelfBalance :: "EVMVersion \<Rightarrow> bool" where
  "hasSelfBalance v \<longleftrightarrow> v \<ge> Istanbul"

definition canOverchargeGasForCall :: "EVMVersion \<Rightarrow> bool" where
  "canOverchargeGasForCall v \<longleftrightarrow> v \<ge> TangerineWhistle"

definition hasOpcode :: "EVMVersion \<Rightarrow> Instruction \<Rightarrow> bool" where
  "hasOpcode v opcode =
     (if opcode = Instruction_RETURNDATACOPY \<or> opcode = Instruction_RETURNDATASIZE then supportsReturndata v
      else if opcode = Instruction_STATICCALL then hasStaticCall v
      else if opcode = Instruction_SHL \<or> opcode = Instruction_SHR \<or> opcode = Instruction_SAR
        then hasBitwiseShifting v
      else if opcode = Instruction_CREATE2 then hasCreate2 v
      else if opcode = Instruction_EXTCODEHASH then hasExtCodeHash v
      else if opcode = Instruction_CHAINID then hasChainID v
      else if opcode = Instruction_SELFBALANCE then hasSelfBalance v
      else True)"

section \<open>Properties\<close>

text \<open>
  Versions and names: every version is read back from its name, and no other text names a version.
\<close>

theorem EVMVersion_fromString_name:
  "EVMVersion_fromString s = Some v \<longleftrightarrow> s = EVMVersion_name v"
proof
  assume "EVMVersion_fromString s = Some v"
  then show "s = EVMVersion_name v" by (auto simp: EVMVersion_fromString_def find_Some_iff)
next
  assume "s = EVMVersion_name v"
  then show "EVMVersion_fromString s = Some v"
    by (cases v) (simp_all add: EVMVersion_fromString_def EVMVersion_all_def)
qed

text \<open>
  Versions only add opcodes: an opcode of a version is an opcode of every later version, and the newest
  version has every opcode.
\<close>

theorem hasOpcode_mono:
  assumes "v \<le> w" and "hasOpcode v opcode"
  shows "hasOpcode w opcode \<and> hasOpcode Berlin opcode"
proof -
  have b: "x \<le> Berlin" for x by (cases x) (simp_all add: less_eq_EVMVersion_def)
  then show ?thesis
    using assms order_trans [of _ v w] unfolding hasOpcode_def supportsReturndata_def hasStaticCall_def
      hasBitwiseShifting_def hasCreate2_def hasExtCodeHash_def hasChainID_def hasSelfBalance_def
    by (simp split: if_splits)
qed

theorem hasOpcode_mono_witness:
  "hasOpcode Petersburg Instruction_SHL \<and> hasOpcode Berlin Instruction_SHL"
proof -
  have "Byzantium \<le> Petersburg" "Constantinople \<le> Petersburg" "hasOpcode Constantinople Instruction_SHL" by code_simp+
  with hasOpcode_mono [of Constantinople Petersburg Instruction_SHL] show ?thesis by blast
qed

end
