(* ===== verification/ViteAddress.thy ===== *)
theory ViteAddress
  imports FixedHash Blake2
begin

text \<open>
  Checksummed addresses and token ids, from \<^verbatim>\<open>libsolutil/CommonData.cpp\<close>: the Ethereum address
  checksum (upper and lower case driven by Keccak-256, which is defined outside the repository and is
  the parameter \<open>keccak256\<close>), and the Vite checksum of Solidity++, where a hash of the value follows
  it and a complemented hash marks a contract address.
\<close>

section \<open>Characters\<close>

definition tolower :: "char \<Rightarrow> char" where
  "tolower c = (let n = of_char c :: nat in if 0x41 \<le> n \<and> n \<le> 0x5a then char_of (n + 32) else c)"

definition toupper :: "char \<Rightarrow> char" where
  "toupper c = (let n = of_char c :: nat in if 0x61 \<le> n \<and> n \<le> 0x7a then char_of (n - 32) else c)"

text \<open>A \<open>std::string\<close> made again from \<open>data()\<close> ends at the first NUL.\<close>

definition cstr :: "string \<Rightarrow> string" where
  "cstr s = takeWhile (\<lambda>c. c \<noteq> CHR 0x00) s"

section \<open>The Ethereum address checksum\<close>

definition hashNibble :: "bytes \<Rightarrow> nat \<Rightarrow> nat" where
  "hashNibble hash i = unat (hash ! (i div 2)) div 2 ^ (4 * (1 - i mod 2)) mod 16"

definition getChecksummedAddress :: "(bytes \<Rightarrow> bytes) \<Rightarrow> string \<Rightarrow> string result" where
  "getChecksummedAddress keccak256 addr =
     (let s = (if take 2 addr = ''0x'' then drop 2 addr else addr) in
      bindE (assertThrow (length s = 40) InvalidAddress) (\<lambda>_.
      bindE (assertThrow (list_all (\<lambda>c. c \<in> set hexDigits) s) InvalidAddress) (\<lambda>_.
      let hash = keccak256 (asBytes (map tolower s)) in
      Inr (foldl (\<lambda>ret i. ret @ [if hashNibble hash i \<ge> 8 then toupper (s ! i) else tolower (s ! i)])
             ''0x'' [0..<40]))))"

definition passesAddressChecksum :: "(bytes \<Rightarrow> bytes) \<Rightarrow> string \<Rightarrow> bool \<Rightarrow> bool result" where
  "passesAddressChecksum keccak256 str strict =
     (let s = (if take 2 str = ''0x'' then str else ''0x'' @ str) in
      if length s \<noteq> 42 then Inr False
      else if \<not> strict \<and> (list_all (\<lambda>c. c \<notin> set ''abcdef'') s \<or> list_all (\<lambda>c. c \<notin> set ''ABCDEF'') s)
      then Inr True
      else bindE (getChecksummedAddress keccak256 s) (\<lambda>t. Inr (s = t)))"

section \<open>The Vite checksum\<close>

text \<open>
  The hash lives in an \<open>h256\<close> that \<open>blake2b_raw\<close> fills for at most 32 bytes: a longer checksum would
  write and read behind it. For an empty checksum \<open>blake2b_raw\<close> fails and leaves the hash as it was.
\<close>

definition checksum :: "string \<Rightarrow> string \<Rightarrow> int result" where
  "checksum data chk =
     bindE (fromHex (cstr data) DontThrow) (\<lambda>dataBytes.
     bindE (fromHex (cstr chk) DontThrow) (\<lambda>checkSumBytes.
     let n = length checkSumBytes mod 2 ^ 32 in
     if n > 32 then Inl UndefinedBehaviour
     else
       case blake2b_raw (Some (FixedHash_empty 32)) n (Some dataBytes) (length dataBytes) None 0 of
         (_, None) \<Rightarrow> Inl UndefinedBehaviour
       | (_, Some hash) \<Rightarrow>
           let (isSame, isBitwiseNot) =
             foldl (\<lambda>(isSame, isBitwiseNot) i.
                 let b1 = checkSumBytes ! i; b2 = hash ! i; b2n = NOT b2
                 in (isSame \<and> b1 = b2, isBitwiseNot \<and> b1 = b2n))
               (True, True) [0..<n]
           in if isSame then Inr 1 else if isBitwiseNot then Inr (-1) else Inr 0))"

definition passesViteAddressChecksum :: "string \<Rightarrow> bool result" where
  "passesViteAddressChecksum str =
     (if length str \<noteq> 55 then Inr False
      else
        let hex = drop 5 str; value = take 40 hex; checkSum = take 10 (drop 40 hex)
        in bindE (checksum value checkSum) (\<lambda>r. Inr (r \<noteq> 0)))"

definition passesViteTokenIdChecksum :: "string \<Rightarrow> bool result" where
  "passesViteTokenIdChecksum str =
     (if length str \<noteq> 28 then Inr False
      else
        let hex = drop 4 str; value = take 20 hex; checkSum = take 4 (drop 20 hex)
        in bindE (checksum value checkSum) (\<lambda>r. Inr (r \<noteq> 0)))"

text \<open>Both functions return \<open>nullptr\<close> as a \<open>std::string\<close> when the text is not accepted.\<close>

definition getViteAddressHex :: "string \<Rightarrow> string result" where
  "getViteAddressHex addr =
     (if length addr \<noteq> 55 then Inl UndefinedBehaviour
      else
        let hex = drop 5 addr; value = take 40 hex; checkSum = take 10 (drop 40 hex)
        in bindE (checksum value checkSum) (\<lambda>addressType.
             if addressType = 0 then Inl UndefinedBehaviour
             else Inr (''0x'' @ value @ (if addressType > 0 then ''00'' else ''01''))))"

definition getViteTokenIdHex :: "string \<Rightarrow> string result" where
  "getViteTokenIdHex tokenid =
     (if length tokenid \<noteq> 28 then Inl UndefinedBehaviour
      else
        let hex = drop 4 tokenid; value = take 20 hex; checkSum = take 4 (drop 20 hex)
        in bindE (checksum value checkSum) (\<lambda>r.
             if r = 0 then Inl UndefinedBehaviour else Inr (''0x'' @ value)))"

section \<open>Strings or numbers\<close>

text \<open>A \<open>char\<close> is signed: a code above 0x7f is negative, so the first comparison holds for it.\<close>

definition formatAsStringOrNumber :: "string \<Rightarrow> string result" where
  "formatAsStringOrNumber value =
     bindE (assertThrow (length value \<le> 32) StringTooLong) (\<lambda>_.
       if list_ex (\<lambda>c. let n = of_char c :: nat in n \<le> 0x1f \<or> n \<ge> 0x7f \<or> c = CHR 0x22) value
       then bindE (FixedHash_of_string 32 value FromBinary AlignLeft) (\<lambda>h. Inr (''0x'' @ FixedHash_hex h))
       else Inr (escapeAndQuoteString value))"

section \<open>Lemmas\<close>

lemma hexDigit_case:
  assumes "c \<in> set hexDigits"
  shows "tolower c \<in> set hexDigits" "toupper c \<in> set hexDigits"
    "tolower (tolower c) = tolower c" "tolower (toupper c) = tolower c"
    "toupper (tolower c) = toupper c" "toupper (toupper c) = toupper c"
    "c \<noteq> CHR ''x''" "c \<noteq> CHR 0x00"
proof -
  have "\<forall>c \<in> set hexDigits. tolower c \<in> set hexDigits \<and> toupper c \<in> set hexDigits \<and>
    tolower (tolower c) = tolower c \<and> tolower (toupper c) = tolower c \<and>
    toupper (tolower c) = toupper c \<and> toupper (toupper c) = toupper c \<and> c \<noteq> CHR ''x'' \<and> c \<noteq> CHR 0x00"
    by code_simp
  with assms show "tolower c \<in> set hexDigits" "toupper c \<in> set hexDigits"
    "tolower (tolower c) = tolower c" "tolower (toupper c) = tolower c"
    "toupper (tolower c) = toupper c" "toupper (toupper c) = toupper c" "c \<noteq> CHR ''x''" "c \<noteq> CHR 0x00"
    by blast+
qed

lemma foldl_snoc_map: "foldl (\<lambda>ret i. ret @ [f i]) acc xs = acc @ map f xs"
  by (induction xs arbitrary: acc) auto

text \<open>The case pattern that a hash gives to an address.\<close>

definition recase :: "(bytes \<Rightarrow> bytes) \<Rightarrow> string \<Rightarrow> string" where
  "recase K s = map (\<lambda>i. if hashNibble (K (asBytes (map tolower s))) i \<ge> 8 then toupper (s ! i) else tolower (s ! i))
     [0..<length s]"

lemma length_recase [simp]: "length (recase K s) = length s"
  by (simp add: recase_def)

lemma getChecksummedAddress_recase:
  "getChecksummedAddress K a =
     (let s = (if take 2 a = ''0x'' then drop 2 a else a)
      in if length s = 40 \<and> set s \<subseteq> set hexDigits then Inr (''0x'' @ recase K s) else Inl InvalidAddress)"
  by (auto simp: getChecksummedAddress_def Let_def foldl_snoc_map recase_def list_all_iff assertThrow_def
      simp del: upt_rec_numeral)

lemma recase_hex:
  assumes "set s \<subseteq> set hexDigits"
  shows "set (recase K s) \<subseteq> set hexDigits" "map tolower (recase K s) = map tolower s"
    "recase K (recase K s) = recase K s"
proof -
  have d: "s ! i \<in> set hexDigits" if "i < length s" for i using assms that by auto
  then show "set (recase K s) \<subseteq> set hexDigits"
    by (auto simp: recase_def hexDigit_case)
  show l: "map tolower (recase K s) = map tolower s"
    by (rule nth_equalityI) (auto simp: recase_def hexDigit_case d)
  show "recase K (recase K s) = recase K s"
    unfolding recase_def [of K "recase K s"] l
    by (rule nth_equalityI) (auto simp: recase_def hexDigit_case d)
qed

lemma cstr_hex [simp]: "cstr (toHex_loop hc d) = toHex_loop hc d"
proof -
  have "\<forall>c \<in> set (toHex_loop hc d). c \<noteq> CHR 0x00"
    using toHex_loop_digits [of hc d] hexDigit_case(8) by blast
  then show ?thesis unfolding cstr_def by (rule takeWhile_eq_all_conv [THEN iffD2])
qed

lemma checksum_loop:
  assumes "n \<le> length a" and "n \<le> length b"
  shows "foldl (\<lambda>(p, q) i. let b1 = a ! i; b2 = b ! i; b2n = NOT b2 in (p \<and> b1 = b2, q \<and> b1 = b2n))
    (True, True) [0..<n] = (take n a = take n b, take n a = map NOT (take n (b :: bytes)))"
  using assms by (induction n) (simp_all add: take_Suc_conv_app_nth Let_def)

text \<open>What the checksum computes, over the bytes of its arguments.\<close>

lemma checksum_bytes:
  assumes d: "fromHex (cstr ds) DontThrow = Inr d" and c: "fromHex (cstr cs) DontThrow = Inr c"
    and n: "length c \<le> 32"
  shows "checksum ds cs =
    (let h = (if c = [] then [] else rfc_blake2b (length c) [] d)
     in Inr (if c = h then 1 else if c = map NOT h then -1 else 0))"
proof (cases "c = []")
  case True
  then show ?thesis using d c by (simp add: checksum_def blake2b_raw_def)
next
  case False
  let ?m = "overwrite (FixedHash_empty 32) 0 (rfc_blake2b (length c) [] d)"
  have l: "length c mod 2 ^ 32 = length c" using n by simp
  have m: "take (length c) ?m = rfc_blake2b (length c) [] d" "length c \<le> length ?m"
    using n False by (simp_all add: overwrite_def FixedHash_empty_def length_rfc_blake2b)
  have r: "blake2b_raw (Some (FixedHash_empty 32)) (length c) (Some d) (length d) None 0 = (0, Some ?m)"
    using n False by (intro blake2b_raw_unkeyed) auto
  show ?thesis
    using n False unfolding checksum_def d c bindE.simps l Let_def r
    by (simp add: checksum_loop [of "length c" c ?m, unfolded Let_def] m)
qed

lemma checksum_toHex:
  assumes "length c \<le> 32" and "c \<noteq> []"
  shows "checksum (toHex_loop hc d) (toHex_loop hc' c) =
    (let h = rfc_blake2b (length c) [] d in Inr (if c = h then 1 else if c = map NOT h then -1 else 0))"
  using assms fromHex_toHex [of d DontAdd hc DontThrow] fromHex_toHex [of c DontAdd hc' DontThrow]
  by (simp add: toHex_def checksum_bytes [of _ d _ c])

lemma fromHex_loop_length:
  "fromHex_loop s we ret = Inr b \<Longrightarrow> length b \<le> length ret + (length s + 1) div 2"
  by (induction s we ret arbitrary: b rule: fromHex_loop.induct)
     (fastforce simp: result_simps split: if_splits)+

lemma fromHex_char_DontThrow: "\<exists>h. fromHex_char c DontThrow = Inr h"
  by (simp add: fromHex_char_def Let_def)

lemma fromHex_loop_DontThrow: "\<exists>b. fromHex_loop s DontThrow ret = Inr b"
proof (induction s "DontThrow" ret rule: fromHex_loop.induct)
  case (2 c ret)
  then show ?case using fromHex_char_DontThrow [of c] fromHex_char_DontThrow [of "CHR 0x00"] by auto
next
  case (3 c d s ret)
  obtain h l where "fromHex_char c DontThrow = Inr h" "fromHex_char d DontThrow = Inr l"
    using fromHex_char_DontThrow by metis
  with 3 show ?case by (cases "h \<noteq> -1 \<and> l \<noteq> -1") auto
qed simp

lemma fromHex_DontThrow:
  obtains b where "fromHex s DontThrow = Inr b" "length b \<le> (length s + 1) div 2"
proof -
  let ?r = "drop (if take 2 s = ''0x'' then 2 else 0) s"
  have "\<exists>b. fromHex s DontThrow = Inr b"
  proof (cases ?r)
    case Nil
    then show ?thesis using fromHex_char_DontThrow [of "CHR 0x00"] by (auto simp: fromHex_def Let_def)
  next
    case (Cons c s')
    obtain h where h: "fromHex_char c DontThrow = Inr h" using fromHex_char_DontThrow by blast
    obtain b1 b2 where "fromHex_loop s' DontThrow [word_of_int h] = Inr b1" "fromHex_loop ?r DontThrow [] = Inr b2"
      using fromHex_loop_DontThrow by blast
    with Cons h show ?thesis unfolding fromHex_def Let_def by simp
  qed
  then obtain b where b: "fromHex s DontThrow = Inr b" by blast
  moreover have "length b \<le> (length s + 1) div 2"
  proof (cases ?r)
    case Nil
    then show ?thesis using b
      by (auto simp: fromHex_def Let_def result_simps split: if_splits)
  next
    case (Cons c s')
    have l: "length ?r \<le> length s" by simp
    from Cons l have l': "length s' < length s" by simp
    show ?thesis
    proof (cases "odd (length s)")
      case True
      with b Cons have "b = [] \<or> (\<exists>h. fromHex_loop s' DontThrow [word_of_int h] = Inr b)"
        by (auto simp: fromHex_def Let_def result_simps simp del: drop_eq_Nil split: if_splits list.splits)
      with True l' show ?thesis by (auto dest!: fromHex_loop_length)
    next
      case False
      with b Cons have "s = [] \<and> b = [] \<or> fromHex_loop ?r DontThrow [] = Inr b"
        by (auto simp: fromHex_def Let_def split: if_splits)
      with l show ?thesis by (auto dest!: fromHex_loop_length)
    qed
  qed
  ultimately show ?thesis by (rule that)
qed

lemma length_cstr: "length (cstr s) \<le> length s"
  by (simp add: cstr_def length_takeWhile_le)

text \<open>A checksum text of at most 64 characters always gets a verdict.\<close>

lemma checksum_total:
  assumes "length cs \<le> 64"
  obtains r where "checksum ds cs = Inr r" "r \<in> {-1, 0, 1}"
proof -
  obtain d where d: "fromHex (cstr ds) DontThrow = Inr d" by (rule fromHex_DontThrow)
  obtain c where c: "fromHex (cstr cs) DontThrow = Inr c" and l: "length c \<le> (length (cstr cs) + 1) div 2"
    by (rule fromHex_DontThrow)
  from l assms length_cstr [of cs] have "length c \<le> 32" by simp
  from that checksum_bytes [OF d c this] show thesis by (auto simp: Let_def)
qed

lemma toHex_loop_snoc: "toHex_loop Lower (d @ [b]) = toHex_loop Lower d @ toHex_loop Lower [b]"
  by (induction d) (simp_all add: Let_def)

lemma map_NOT_neq:
  assumes "h \<noteq> []"
  shows "map NOT (h :: bytes) \<noteq> h"
proof
  assume eq: "map NOT h = h"
  have "NOT (h ! 0) = h ! 0" using assms by (subst (2) eq [symmetric]) simp
  then have "bit (NOT (h ! 0)) 0 = bit (h ! 0) 0" by (rule arg_cong)
  then show False by (simp add: bit_not_iff)
qed

lemma checksum_own_hash:
  assumes "0 < n" and "n \<le> 32"
  shows "checksum (toHex_loop hc d) (toHex_loop hc' (rfc_blake2b n [] d)) = Inr 1"
    and "checksum (toHex_loop hc d) (toHex_loop hc' (map NOT (rfc_blake2b n [] d))) = Inr (-1)"
proof -
  have l: "length (rfc_blake2b n [] d) = n" using assms by (simp add: length_rfc_blake2b)
  then have ne: "rfc_blake2b n [] d \<noteq> []" using assms by auto
  show "checksum (toHex_loop hc d) (toHex_loop hc' (rfc_blake2b n [] d)) = Inr 1"
    using checksum_toHex [of "rfc_blake2b n [] d" hc d hc'] l ne assms by (simp add: Let_def)
  show "checksum (toHex_loop hc d) (toHex_loop hc' (map NOT (rfc_blake2b n [] d))) = Inr (-1)"
    using checksum_toHex [of "map NOT (rfc_blake2b n [] d)" hc d hc'] l ne assms map_NOT_neq [OF ne]
    by (simp add: Let_def)
qed

lemma vite_address_parts:
  assumes "length pre = 5" and "length v = 40" and "length c = 10"
  shows "passesViteAddressChecksum (pre @ v @ c) = bindE (checksum v c) (\<lambda>r. Inr (r \<noteq> 0))"
    and "getViteAddressHex (pre @ v @ c) = bindE (checksum v c) (\<lambda>t. if t = 0 then Inl UndefinedBehaviour
      else Inr (''0x'' @ v @ (if t > 0 then ''00'' else ''01'')))"
  using assms by (simp_all add: passesViteAddressChecksum_def getViteAddressHex_def Let_def cong: if_cong)

lemma vite_address_split:
  assumes "length s = 55"
  obtains pre v c where "s = pre @ v @ c" "length pre = 5" "length v = 40" "length c = 10"
    "drop 45 s = c"
proof
  have "drop 45 s = drop 40 (drop 5 s)" by simp
  then show "s = take 5 s @ take 40 (drop 5 s) @ drop 45 s" by (simp only: append_take_drop_id)
qed (use assms in simp_all)

section \<open>Properties\<close>

text \<open>
  C36. Ethereum checksums, for every hash function: the checksummed form of an address differs from it in
  letter case only, is its own checksummed form, and passes the strict checksum test.
\<close>

theorem getChecksummedAddress_fixpoint:
  assumes "getChecksummedAddress keccak256 a = Inr s"
  shows "getChecksummedAddress keccak256 s = Inr s \<and> passesAddressChecksum keccak256 s True = Inr True \<and>
    map tolower (drop 2 s) = map tolower (if take 2 a = ''0x'' then drop 2 a else a)"
proof -
  let ?s = "if take 2 a = ''0x'' then drop 2 a else a"
  from assms have s: "s = ''0x'' @ recase keccak256 ?s" "length ?s = 40" "set ?s \<subseteq> set hexDigits"
    by (auto simp: getChecksummedAddress_recase Let_def split: if_splits)
  then have "getChecksummedAddress keccak256 s = Inr s"
    using recase_hex [OF s(3), of keccak256] by (simp add: getChecksummedAddress_recase)
  with s recase_hex [OF s(3), of keccak256] show ?thesis by (simp add: passesAddressChecksum_def)
qed

theorem getChecksummedAddress_fixpoint_witness:
  "getChecksummedAddress (\<lambda>_. replicate 32 0x80) (replicate 40 CHR ''a'') = Inr (''0x'' @ concat (replicate 20 ''Aa'')) \<and>
   passesAddressChecksum (\<lambda>_. replicate 32 0x80) (''0x'' @ concat (replicate 20 ''Aa'')) True = Inr True"
proof -
  have "getChecksummedAddress (\<lambda>_. replicate 32 0x80) (replicate 40 CHR ''a'') =
      Inr (''0x'' @ concat (replicate 20 ''Aa''))"
    by code_simp
  with getChecksummedAddress_fixpoint [OF this] show ?thesis by simp
qed

text \<open>
  The verdict of \<open>checksum\<close> on well-formed texts: 1 if the checksum is the BLAKE2b hash of the value
  with the checksum's length, -1 if it is the complement of that hash, 0 otherwise.
\<close>

theorem checksum_verdict:
  assumes "0 < length c" and "length c \<le> 32"
  shows "checksum (toHex d DontAdd hc) (toHex c DontAdd hc') =
    (let h = rfc_blake2b (length c) [] d in Inr (if c = h then 1 else if c = map NOT h then -1 else 0))"
  using assms by (simp add: toHex_def checksum_toHex)

theorem checksum_verdict_witness:
  "checksum (toHex [1, 2, 3] DontAdd Lower) (toHex [4, 5] DontAdd Upper) =
    (let h = rfc_blake2b 2 [] [1, 2, 3] in Inr (if [4, 5] = h then 1 else if [4, 5] = map NOT h then -1 else 0))"
  using checksum_verdict [of "[4, 5]" "[1, 2, 3]" Lower Upper] by (simp add: numeral_2_eq_2)

text \<open>
  C33. Vite addresses: for every 20-byte value, the address printed with its five-byte hash is accepted and
  read back as the value with the suffix of an account, with the complemented hash as the value
  with the suffix of a contract.
\<close>

theorem viteAddress_roundtrip:
  assumes "length d = 20"
  shows "let h = rfc_blake2b 5 [] d;
             address = (\<lambda>c. ''vite_'' @ toHex d DontAdd Lower @ toHex c DontAdd Lower) in
    passesViteAddressChecksum (address h) = Inr True \<and>
    getViteAddressHex (address h) = Inr (toHex (d @ [0]) Add Lower) \<and>
    passesViteAddressChecksum (address (map NOT h)) = Inr True \<and>
    getViteAddressHex (address (map NOT h)) = Inr (toHex (d @ [1]) Add Lower)"
proof -
  have z: "toHex_loop Lower [0] = ''00''" "toHex_loop Lower [1] = ''01''" by code_simp+
  show ?thesis
    using assms by (simp add: toHex_def vite_address_parts [of "''vite_''", simplified] length_toHex_loop
      length_rfc_blake2b checksum_own_hash toHex_loop_snoc z Let_def del: toHex_loop.simps)
qed

theorem viteAddress_roundtrip_witness:
  "let d = replicate 20 7; h = rfc_blake2b 5 [] d;
       address = (\<lambda>c. ''vite_'' @ toHex d DontAdd Lower @ toHex c DontAdd Lower) in
    passesViteAddressChecksum (address h) = Inr True \<and>
    getViteAddressHex (address h) = Inr (toHex (d @ [0]) Add Lower) \<and>
    passesViteAddressChecksum (address (map NOT h)) = Inr True \<and>
    getViteAddressHex (address (map NOT h)) = Inr (toHex (d @ [1]) Add Lower)"
  using viteAddress_roundtrip [OF length_replicate [of 20 7]] by (simp only: Let_def)

text \<open>
  C34. The checks guard the conversions: testing an address or a token id is defined on every text, and
  converting one to hexadecimal has a defined result exactly on the texts that pass the test.
\<close>

theorem viteHex_defined_iff_passes:
  "passesViteAddressChecksum s \<in> {Inr True, Inr False} \<and> passesViteTokenIdChecksum s \<in> {Inr True, Inr False} \<and>
   ((\<exists>h. getViteAddressHex s = Inr h) \<longleftrightarrow> passesViteAddressChecksum s = Inr True) \<and>
   ((\<exists>h. getViteTokenIdHex s = Inr h) \<longleftrightarrow> passesViteTokenIdChecksum s = Inr True)"
proof -
  obtain r where r: "checksum (take 40 (drop 5 s)) (take 10 (drop 40 (drop 5 s))) = Inr r"
    by (rule checksum_total [of "take 10 (drop 40 (drop 5 s))" "take 40 (drop 5 s)"]) auto
  obtain q where q: "checksum (take 20 (drop 4 s)) (take 4 (drop 20 (drop 4 s))) = Inr q"
    by (rule checksum_total [of "take 4 (drop 20 (drop 4 s))" "take 20 (drop 4 s)"]) auto
  show ?thesis
    unfolding passesViteAddressChecksum_def passesViteTokenIdChecksum_def getViteAddressHex_def
      getViteTokenIdHex_def Let_def r q by simp
qed



end
