(* ===== verification/AssemblyItem.thy ===== *)
theory AssemblyItem
  imports Instruction ViteAddress
begin

text \<open>
  Assembly items (\<^verbatim>\<open>libevmasm/AssemblyItem.h\<close>, \<^verbatim>\<open>AssemblyItem.cpp\<close>): an instruction, a push of some
  kind of value or a jump tag. Sizes are natural numbers; tag and sub-assembly numbers, which are packed
  into one 256-bit word, are 64-bit words, the width of \<open>size_t\<close>.
\<close>

section \<open>Data\<close>

datatype AssemblyItemType =
    UndefinedItem
  | Operation
  | Push
  | PushString
  | PushTag
  | PushSub
  | PushSubSize
  | PushProgramSize
  | Tag
  | PushData
  | PushLibraryAddress
  | PushDeployTimeAddress
  | PushImmutable
  | AssignImmutable

datatype JumpType = Ordinary | IntoFunction | OutOfFunction

text \<open>
  Of a source location the code reads the two offsets and the name of the source, if there is one.
\<close>

record SourceLocation =
  loc_start :: int
  loc_end :: int
  loc_source :: "string option"

definition SourceLocation_default :: SourceLocation where
  "SourceLocation_default = \<lparr>loc_start = -1, loc_end = -1, loc_source = None\<rparr>"

text \<open>
  The instruction of an item is meaningful for an \<open>Operation\<close> only and the data, a shared pointer, for
  the other items only; \<open>it_pushedValue\<close> and \<open>it_immutableOccurrences\<close> are pointers that may be null.
\<close>

record AssemblyItem =
  it_type :: AssemblyItemType
  it_instruction :: Instruction
  it_data :: "u256 option"
  it_location :: SourceLocation
  it_jumpType :: JumpType
  it_pushedValue :: "u256 option"
  it_immutableOccurrences :: "nat option"
  it_debugInfo :: string
  it_modifierDepth :: u64

section \<open>Constructors and accessors\<close>

definition AssemblyItem_of_instruction :: "Instruction \<Rightarrow> SourceLocation \<Rightarrow> AssemblyItem" where
  "AssemblyItem_of_instruction i location =
     \<lparr>it_type = Operation, it_instruction = i, it_data = None, it_location = location,
      it_jumpType = Ordinary, it_pushedValue = None, it_immutableOccurrences = None, it_debugInfo = '''',
      it_modifierDepth = 0\<rparr>"

definition AssemblyItem_make :: "AssemblyItemType \<Rightarrow> u256 \<Rightarrow> SourceLocation \<Rightarrow> string \<Rightarrow> AssemblyItem" where
  "AssemblyItem_make type data location debugInfo =
     \<lparr>it_type = type, it_instruction = (if type = Operation then ucast data else 0),
      it_data = (if type = Operation then None else Some data), it_location = location,
      it_jumpType = Ordinary, it_pushedValue = None, it_immutableOccurrences = None,
      it_debugInfo = debugInfo, it_modifierDepth = 0\<rparr>"

definition AssemblyItem_of_u256 :: "u256 \<Rightarrow> SourceLocation \<Rightarrow> AssemblyItem" where
  "AssemblyItem_of_u256 v location = AssemblyItem_make Push v location ''''"

definition item_data :: "AssemblyItem \<Rightarrow> u256 result" where
  "item_data it =
     bindE (assertThrow (it_type it \<noteq> Operation) Exception) (\<lambda>_.
       case it_data it of None \<Rightarrow> Inl UndefinedBehaviour | Some d \<Rightarrow> Inr d)"

definition item_setData :: "u256 \<Rightarrow> AssemblyItem \<Rightarrow> AssemblyItem result" where
  "item_setData d it =
     bindE (assertThrow (it_type it \<noteq> Operation) Exception) (\<lambda>_. Inr (it\<lparr>it_data := Some d\<rparr>))"

definition item_instruction :: "AssemblyItem \<Rightarrow> Instruction result" where
  "item_instruction it =
     bindE (assertThrow (it_type it = Operation) Exception) (\<lambda>_. Inr (it_instruction it))"

definition item_tag :: "AssemblyItem \<Rightarrow> AssemblyItem result" where
  "item_tag it =
     bindE (assertThrow (it_type it = PushTag \<or> it_type it = Tag) Exception) (\<lambda>_.
     bindE (item_data it) (\<lambda>d. Inr (AssemblyItem_make Tag d SourceLocation_default (it_debugInfo it))))"

definition item_pushTag :: "AssemblyItem \<Rightarrow> AssemblyItem result" where
  "item_pushTag it =
     bindE (assertThrow (it_type it = PushTag \<or> it_type it = Tag) Exception) (\<lambda>_.
     bindE (item_data it) (\<lambda>d. Inr (AssemblyItem_make PushTag d SourceLocation_default (it_debugInfo it))))"

definition item_equal :: "AssemblyItem \<Rightarrow> AssemblyItem \<Rightarrow> bool result" where
  "item_equal a b =
     (if it_type a \<noteq> it_type b then Inr False
      else if it_type a = Operation then
        bindE (item_instruction a) (\<lambda>i. bindE (item_instruction b) (\<lambda>j. Inr (i = j)))
      else bindE (item_data a) (\<lambda>d. bindE (item_data b) (\<lambda>e. Inr (d = e))))"

text \<open>The position of an item type in its enumeration, by which types are compared.\<close>

fun type_index :: "AssemblyItemType \<Rightarrow> nat" where
  "type_index UndefinedItem = 0"
| "type_index Operation = 1"
| "type_index Push = 2"
| "type_index PushString = 3"
| "type_index PushTag = 4"
| "type_index PushSub = 5"
| "type_index PushSubSize = 6"
| "type_index PushProgramSize = 7"
| "type_index Tag = 8"
| "type_index PushData = 9"
| "type_index PushLibraryAddress = 10"
| "type_index PushDeployTimeAddress = 11"
| "type_index PushImmutable = 12"
| "type_index AssignImmutable = 13"

definition item_less :: "AssemblyItem \<Rightarrow> AssemblyItem \<Rightarrow> bool result" where
  "item_less a b =
     (if it_type a \<noteq> it_type b then Inr (type_index (it_type a) < type_index (it_type b))
      else if it_type a = Operation then
        bindE (item_instruction a) (\<lambda>i. bindE (item_instruction b) (\<lambda>j. Inr (i < j)))
      else bindE (item_data a) (\<lambda>d. bindE (item_data b) (\<lambda>e. Inr (d < e))))"

definition item_is_instruction :: "AssemblyItem \<Rightarrow> Instruction \<Rightarrow> bool" where
  "item_is_instruction it i \<longleftrightarrow> it_type it = Operation \<and> it_instruction it = i"

definition setImmutableOccurrences :: "nat \<Rightarrow> AssemblyItem \<Rightarrow> AssemblyItem" where
  "setImmutableOccurrences n it = it\<lparr>it_immutableOccurrences := Some n\<rparr>"

definition setPushedValue :: "u256 \<Rightarrow> AssemblyItem \<Rightarrow> AssemblyItem" where
  "setPushedValue v it = it\<lparr>it_pushedValue := Some v\<rparr>"

section \<open>Tags of sub-assemblies\<close>

definition size_max :: u64 where "size_max = 0xFFFFFFFFFFFFFFFF"

definition setPushTagSubIdAndTag :: "u64 \<Rightarrow> u64 \<Rightarrow> AssemblyItem \<Rightarrow> AssemblyItem result" where
  "setPushTagSubIdAndTag subId tag it =
     bindE (assertThrow (it_type it = PushTag \<or> it_type it = Tag) Exception) (\<lambda>_.
       let data = (ucast tag :: u256);
           data = (if subId \<noteq> size_max then data OR push_bit 64 (ucast subId + 1) else data)
       in item_setData data it)"

definition toSubAssemblyTag :: "u64 \<Rightarrow> AssemblyItem \<Rightarrow> AssemblyItem result" where
  "toSubAssemblyTag subId it =
     bindE (item_data it) (\<lambda>d.
     bindE (assertThrow (d < push_bit 64 1) Exception) (\<lambda>_.
     bindE (assertThrow (it_type it = PushTag \<or> it_type it = Tag) Exception) (\<lambda>_.
       setPushTagSubIdAndTag subId (ucast (d AND 0xFFFFFFFFFFFFFFFF)) (it\<lparr>it_type := PushTag\<rparr>))))"

definition splitForeignPushTag :: "AssemblyItem \<Rightarrow> (u64 \<times> u64) result" where
  "splitForeignPushTag it =
     bindE (assertThrow (it_type it = PushTag \<or> it_type it = Tag) Exception) (\<lambda>_.
     bindE (item_data it) (\<lambda>combined.
       Inr (ucast (drop_bit 64 combined - 1), ucast (combined AND 0xFFFFFFFFFFFFFFFF))))"

section \<open>Sizes and stack behaviour\<close>

definition item_bytesRequired :: "nat \<Rightarrow> AssemblyItem \<Rightarrow> nat result" where
  "item_bytesRequired addressLength it =
     (case it_type it of
        Operation \<Rightarrow> Inr 1
      | Tag \<Rightarrow> Inr 1
      | PushString \<Rightarrow> Inr (1 + 32)
      | Push \<Rightarrow> bindE (item_data it) (\<lambda>d. Inr (1 + max 1 (bytesRequired (unat d))))
      | PushSubSize \<Rightarrow> Inr (1 + 4)
      | PushProgramSize \<Rightarrow> Inr (1 + 4)
      | PushTag \<Rightarrow> Inr (1 + addressLength)
      | PushData \<Rightarrow> Inr (1 + addressLength)
      | PushSub \<Rightarrow> Inr (1 + addressLength)
      | PushLibraryAddress \<Rightarrow> Inr (1 + 21)
      | PushDeployTimeAddress \<Rightarrow> Inr (1 + 21)
      | PushImmutable \<Rightarrow> Inr (1 + 32)
      | AssignImmutable \<Rightarrow>
          (case it_immutableOccurrences it of
             Some n \<Rightarrow> Inr (1 + (3 + 32) * n)
           | None \<Rightarrow> Inr (1 + (3 + 32) * 1024))
      | UndefinedItem \<Rightarrow> Inl InvalidOpcode)"

definition items_bytesRequired :: "AssemblyItem list \<Rightarrow> nat \<Rightarrow> nat result" where
  "items_bytesRequired items addressLength =
     foldE (\<lambda>size it. bindE (item_bytesRequired addressLength it) (\<lambda>n. Inr (size + n))) 0 items"

definition item_arguments :: "AssemblyItem \<Rightarrow> u64" where
  "item_arguments it =
     (if it_type it = Operation then word_of_int (info_args (instructionInfo (it_instruction it)))
      else if it_type it = AssignImmutable then 2
      else 0)"

definition item_returnValues :: "AssemblyItem \<Rightarrow> u64" where
  "item_returnValues it =
     (case it_type it of
        Operation \<Rightarrow> word_of_int (info_ret (instructionInfo (it_instruction it)))
      | Push \<Rightarrow> 1
      | PushString \<Rightarrow> 1
      | PushTag \<Rightarrow> 1
      | PushData \<Rightarrow> 1
      | PushSub \<Rightarrow> 1
      | PushSubSize \<Rightarrow> 1
      | PushProgramSize \<Rightarrow> 1
      | PushLibraryAddress \<Rightarrow> 1
      | PushImmutable \<Rightarrow> 1
      | PushDeployTimeAddress \<Rightarrow> 1
      | Tag \<Rightarrow> 0
      | _ \<Rightarrow> 0)"

definition item_deposit :: "AssemblyItem \<Rightarrow> u64" where
  "item_deposit it = item_returnValues it - item_arguments it"

definition canBeFunctional :: "AssemblyItem \<Rightarrow> bool" where
  "canBeFunctional it =
     (if it_jumpType it \<noteq> Ordinary then False
      else
        case it_type it of
          Operation \<Rightarrow> \<not> isDupInstruction (it_instruction it) \<and> \<not> isSwapInstruction (it_instruction it)
        | Push \<Rightarrow> True
        | PushString \<Rightarrow> True
        | PushTag \<Rightarrow> True
        | PushData \<Rightarrow> True
        | PushSub \<Rightarrow> True
        | PushSubSize \<Rightarrow> True
        | PushProgramSize \<Rightarrow> True
        | PushLibraryAddress \<Rightarrow> True
        | PushDeployTimeAddress \<Rightarrow> True
        | PushImmutable \<Rightarrow> True
        | Tag \<Rightarrow> False
        | _ \<Rightarrow> False)"

section \<open>Text\<close>

fun getJumpTypeAsString :: "JumpType \<Rightarrow> string" where
  "getJumpTypeAsString IntoFunction = ''[in]''"
| "getJumpTypeAsString OutOfFunction = ''[out]''"
| "getJumpTypeAsString Ordinary = ''''"

definition quoted :: "string \<Rightarrow> string" where
  "quoted s = [CHR 0x22] @ s @ [CHR 0x22]"

text \<open>
  The text of an item before the comment on jumps. The numbers of a sub-assembly path come from the
  assembly that the item belongs to (\<open>decodeSubPath\<close>), and \<open>joinHumanReadable\<close> is a function of
  \<^verbatim>\<open>libsolutil/StringUtils.h\<close>, outside the repository: both are parameters.
\<close>

definition item_text ::
    "(u64 \<Rightarrow> u64 list result) \<Rightarrow> (string list \<Rightarrow> string \<Rightarrow> string) \<Rightarrow> AssemblyItem \<Rightarrow> string result" where
  "item_text decodeSubPath joinHumanReadable it =
     (case it_type it of
        Operation \<Rightarrow>
          bindE (assertThrow (isValidInstruction (it_instruction it)) (AssemblyException ''Invalid instruction.'')) (\<lambda>_.
            Inr (map tolower (info_name (instructionInfo (it_instruction it)))))
      | Push \<Rightarrow> bindE (item_data it) (\<lambda>d. Inr (toHex (toCompactBigEndian (unat d) 1) Add Lower))
      | PushString \<Rightarrow> bindE (item_data it) (\<lambda>d. Inr (''data_'' @ toHex_u256 d DontAdd))
      | PushTag \<Rightarrow>
          bindE (splitForeignPushTag it) (\<lambda>(sub, tag).
            if sub = size_max then Inr (''tag_'' @ decimal (unat tag))
            else Inr (''tag_'' @ decimal (unat sub) @ ''_'' @ decimal (unat tag)))
      | Tag \<Rightarrow>
          bindE (item_data it) (\<lambda>d.
          bindE (assertThrow (d < 0x10000) (AssemblyException ''Declaration of sub-assembly tag.'')) (\<lambda>_.
            Inr (''tag_'' @ decimal (unat (ucast d :: u64)) @ '':'')))
      | PushData \<Rightarrow> bindE (item_data it) (\<lambda>d. Inr (''data_'' @ toHex_u256 d DontAdd))
      | PushSub \<Rightarrow>
          bindE (item_data it) (\<lambda>d. bindE (decodeSubPath (ucast d)) (\<lambda>path.
            Inr (''dataOffset'' @ ''('' @
                 joinHumanReadable (map (\<lambda>i. ''sub_'' @ decimal (unat i)) path) ''.'' @ '')'')))
      | PushSubSize \<Rightarrow>
          bindE (item_data it) (\<lambda>d. bindE (decodeSubPath (ucast d)) (\<lambda>path.
            Inr (''dataSize'' @ ''('' @
                 joinHumanReadable (map (\<lambda>i. ''sub_'' @ decimal (unat i)) path) ''.'' @ '')'')))
      | PushProgramSize \<Rightarrow> Inr ''bytecodeSize''
      | PushLibraryAddress \<Rightarrow>
          bindE (item_data it) (\<lambda>d. Inr (''linkerSymbol('' @ quoted (toHex_u256 d DontAdd) @ '')''))
      | PushDeployTimeAddress \<Rightarrow> Inr ''deployTimeAddress()''
      | PushImmutable \<Rightarrow>
          bindE (item_data it) (\<lambda>d.
            Inr (''immutable('' @ quoted (toHex (toCompactBigEndian (unat d) 1) Add Lower) @ '')''))
      | AssignImmutable \<Rightarrow>
          bindE (item_data it) (\<lambda>d.
            Inr (''assignImmutable('' @ quoted (toHex (toCompactBigEndian (unat d) 1) Add Lower) @ '')''))
      | UndefinedItem \<Rightarrow> Inl (AssemblyException ''Invalid assembly item.''))"

definition toAssemblyText ::
    "(u64 \<Rightarrow> u64 list result) \<Rightarrow> (string list \<Rightarrow> string \<Rightarrow> string) \<Rightarrow> AssemblyItem \<Rightarrow> string result" where
  "toAssemblyText decodeSubPath joinHumanReadable it =
     bindE (item_text decodeSubPath joinHumanReadable it) (\<lambda>text.
       Inr (if it_jumpType it = IntoFunction \<or> it_jumpType it = OutOfFunction
            then text @ [CHR 0x09] @ ''//'' @ (if it_jumpType it = IntoFunction then '' in'' else '' out'')
            else text))"

text \<open>Numbers in lower-case hexadecimal, as a stream prints them after \<open>std::hex\<close>.\<close>

fun hexLower :: "nat \<Rightarrow> string" where
  "hexLower n = (if n < 16 then [lowerHexChars ! n] else hexLower (n div 16) @ [lowerHexChars ! (n mod 16)])"

declare hexLower.simps [simp del]

definition item_print :: "AssemblyItem \<Rightarrow> string result" where
  "item_print it =
     (case it_type it of
        Operation \<Rightarrow>
          Inr ('' '' @ info_name (instructionInfo (it_instruction it)) @
               (if it_instruction it = Instruction_JUMP \<or> it_instruction it = Instruction_JUMPI
                then [CHR 0x09] @ getJumpTypeAsString (it_jumpType it) else ''''))
      | Push \<Rightarrow> bindE (item_data it) (\<lambda>d. Inr ('' PUSH '' @ hexLower (unat d)))
      | PushString \<Rightarrow> bindE (item_data it) (\<lambda>d. Inr ('' PushString'' @ hexLower (unat (ucast d :: u32))))
      | PushTag \<Rightarrow>
          bindE (splitForeignPushTag it) (\<lambda>(subId, tag).
            if subId = size_max then Inr ('' PushTag '' @ decimal (unat tag))
            else Inr ('' PushTag '' @ decimal (unat subId) @ '':'' @ decimal (unat tag)))
      | Tag \<Rightarrow> bindE (item_data it) (\<lambda>d. Inr ('' Tag '' @ decimal (unat d)))
      | PushData \<Rightarrow> bindE (item_data it) (\<lambda>d. Inr ('' PushData '' @ hexLower (unat (ucast d :: u32))))
      | PushSub \<Rightarrow> bindE (item_data it) (\<lambda>d. Inr ('' PushSub '' @ hexLower (unat (ucast d :: u64))))
      | PushSubSize \<Rightarrow> bindE (item_data it) (\<lambda>d. Inr ('' PushSubSize '' @ hexLower (unat (ucast d :: u64))))
      | PushProgramSize \<Rightarrow> Inr '' PushProgramSize''
      | PushLibraryAddress \<Rightarrow>
          bindE (item_data it) (\<lambda>d.
            let hash = FixedHash_hex (FixedHash_of_arith 32 (unat d))
            in Inr ('' PushLibraryAddress '' @ take 8 hash @ ''...'' @ drop (length hash - 8) hash))
      | PushDeployTimeAddress \<Rightarrow> Inr '' PushDeployTimeAddress''
      | PushImmutable \<Rightarrow> Inr '' PushImmutable''
      | AssignImmutable \<Rightarrow> Inr '' AssignImmutable''
      | UndefinedItem \<Rightarrow> Inr '' ???'')"

definition items_print :: "AssemblyItem list \<Rightarrow> string result" where
  "items_print items = foldE (\<lambda>out it. bindE (item_print it) (\<lambda>s. Inr (out @ s))) '''' items"

section \<open>Source mappings\<close>

text \<open>The five values that the mapping records of an item.\<close>

record MappingEntry =
  map_start :: int
  map_length :: int
  map_sourceIndex :: int
  map_jump :: char
  map_modifierDepth :: int

text \<open>The conversions of \<open>unsigned\<close> and \<open>size_t\<close> to \<open>int\<close> keep the low 32 bits.\<close>

definition mapping_entry :: "(string \<times> u32) list \<Rightarrow> AssemblyItem \<Rightarrow> MappingEntry" where
  "mapping_entry sourceIndicesMap it =
     (let location = it_location it in
      \<lparr>map_start = loc_start location,
       map_length =
         (if loc_start location \<noteq> -1 \<and> loc_end location \<noteq> -1 then loc_end location - loc_start location else -1),
       map_sourceIndex =
         (case loc_source location of
            None \<Rightarrow> -1
          | Some name \<Rightarrow>
              (case map_find name sourceIndicesMap of None \<Rightarrow> -1 | Some i \<Rightarrow> sint i)),
       map_jump =
         (case it_jumpType it of IntoFunction \<Rightarrow> CHR ''i'' | OutOfFunction \<Rightarrow> CHR ''o'' | Ordinary \<Rightarrow> CHR ''-''),
       map_modifierDepth = sint (ucast (it_modifierDepth it) :: u32)\<rparr>)"

definition mapping_initial :: MappingEntry where
  "mapping_initial = \<lparr>map_start = -1, map_length = -1, map_sourceIndex = -1, map_jump = CHR 0x00,
     map_modifierDepth = -1\<rparr>"

text \<open>How many of the five components have to be written after the previous entry.\<close>

definition mapping_components :: "MappingEntry \<Rightarrow> MappingEntry \<Rightarrow> nat" where
  "mapping_components prev e =
     (if map_modifierDepth e = map_modifierDepth prev then
        (if map_jump e = map_jump prev then
           (if map_sourceIndex e = map_sourceIndex prev then
              (if map_length e = map_length prev then
                 (if map_start e = map_start prev then 0 else 1)
               else 2)
            else 3)
         else 4)
      else 5)"

definition mapping_text :: "MappingEntry \<Rightarrow> MappingEntry \<Rightarrow> string" where
  "mapping_text prev e =
     (let components = mapping_components prev e in
      if components > 0 then
        (if map_start e \<noteq> map_start prev then decimal_int (map_start e) else '''') @
        (if components > 1 then
           '':'' @ (if map_length e \<noteq> map_length prev then decimal_int (map_length e) else '''') @
           (if components > 2 then
              '':'' @ (if map_sourceIndex e \<noteq> map_sourceIndex prev then decimal_int (map_sourceIndex e) else '''') @
              (if components > 3 then
                 '':'' @ (if map_jump e \<noteq> map_jump prev then [map_jump e] else '''') @
                 (if components > 4 then
                    '':'' @ (if map_modifierDepth e \<noteq> map_modifierDepth prev
                             then decimal_int (map_modifierDepth e) else '''')
                  else '''')
               else '''')
            else '''')
         else '''')
      else '''')"

definition computeSourceMapping :: "AssemblyItem list \<Rightarrow> (string \<times> u32) list \<Rightarrow> string" where
  "computeSourceMapping items sourceIndicesMap =
     fst (foldl (\<lambda>(ret, prev) it.
            let e = mapping_entry sourceIndicesMap it;
                ret = (if ret \<noteq> '''' then ret @ '';'' else ret)
            in (ret @ mapping_text prev e, e))
          ('''', mapping_initial) items)"

section \<open>Lemmas on tags\<close>

lemma unat_push_bit_64: "unat (push_bit 64 (y :: u256)) = unat y * 2 ^ 64 mod 2 ^ 256"
  by (simp add: push_bit_eq_mult unat_word_ariths)

lemma unat_drop_bit_64: "unat (drop_bit 64 (y :: u256)) = unat y div 2 ^ 64"
  unfolding unat_drop_bit_eq by (rule drop_bit_eq_div)

lemma drop_bit_64_ucast [simp]: "drop_bit 64 (ucast (t :: u64) :: u256) = 0"
  using unat_less [of t] by (simp add: word_unat_eq_iff unat_drop_bit_64 unsigned_ucast_eq take_bit_eq_mod)

lemma mask_64_ucast [simp]: "ucast (t :: u64) AND (0xFFFFFFFFFFFFFFFF :: u256) = ucast t"
proof -
  have m: "(0xFFFFFFFFFFFFFFFF :: u256) = mask 64" by (simp add: mask_eq_exp_minus_1)
  show ?thesis unfolding m by (rule bit_word_eqI) (auto simp: bit_and_iff bit_mask_iff bit_unsigned_iff dest: bit_imp_le_length)
qed

lemma ucast_u64_u256 [simp]: "ucast (ucast (t :: u64) :: u256) = t"
  by (rule bit_word_eqI) (simp add: bit_unsigned_iff)

lemma size_max_minus_1: "size_max = - 1"
  by (simp add: size_max_def)

lemma tag_pack_split:
  fixes s t :: u64
  assumes "s \<noteq> size_max"
  shows "drop_bit 64 (ucast t OR push_bit 64 (ucast s + 1) :: u256) = ucast s + 1"
    and "(ucast t OR push_bit 64 (ucast s + 1) :: u256) AND 0xFFFFFFFFFFFFFFFF = ucast t"
proof -
  let ?x = "ucast s + 1 :: u256"
  have ux: "unat ?x = unat s + 1"
    using unat_less [of s] by (simp add: unat_word_ariths unsigned_ucast_eq take_bit_eq_mod)
  have upx: "unat (push_bit 64 ?x) = (unat s + 1) * 2 ^ 64"
    using unat_less [of s] unfolding unat_push_bit_64 ux by simp
  have "drop_bit 64 (push_bit 64 ?x) = ?x"
    unfolding word_unat_eq_iff unat_drop_bit_64 upx ux by simp
  then show "drop_bit 64 (ucast t OR push_bit 64 ?x) = ?x" by (simp add: drop_bit_or)
  have m: "(0xFFFFFFFFFFFFFFFF :: u256) = mask 64" by (simp add: mask_eq_exp_minus_1)
  have "push_bit 64 ?x AND mask 64 = 0"
    unfolding take_bit_eq_mask [symmetric] by (simp add: take_bit_push_bit)
  then show "(ucast t OR push_bit 64 ?x) AND 0xFFFFFFFFFFFFFFFF = ucast t"
    using mask_64_ucast [of t] unfolding m by (simp add: bit.conj_disj_distrib2)
qed

lemma split_setPushTagSubIdAndTag:
  assumes "setPushTagSubIdAndTag subId tag it = Inr it'"
  shows "splitForeignPushTag it' = Inr (subId, tag)"
proof -
  let ?d = "if subId \<noteq> size_max then ucast tag OR push_bit 64 (ucast subId + 1) else (ucast tag :: u256)"
  from assms have it': "it' = it\<lparr>it_data := Some ?d\<rparr>" "it_type it = PushTag \<or> it_type it = Tag"
    by (auto simp: setPushTagSubIdAndTag_def item_setData_def result_simps Let_def split: if_splits)
  have "ucast (drop_bit 64 ?d - 1) = subId \<and> ucast (?d AND 0xFFFFFFFFFFFFFFFF) = tag"
  proof (cases "subId = size_max")
    case True
    have "ucast (- 1 :: u256) = size_max" by (rule bit_word_eqI) (simp add: bit_unsigned_iff size_max_minus_1)
    then show ?thesis using True by simp
  next
    case False
    then show ?thesis using tag_pack_split [OF False, of tag] by simp
  qed
  then show ?thesis using it'
    by (auto simp: splitForeignPushTag_def item_data_def simp del: if_not_P split del: if_split)
qed

section \<open>Reading source mappings\<close>

text \<open>
  A reader of the compressed format: entries are separated by semicolons, the components of an entry by
  colons, and an empty or missing component repeats that of the previous entry.
\<close>

fun split_on :: "char \<Rightarrow> string \<Rightarrow> string list" where
  "split_on c [] = [[]]"
| "split_on c (x # xs) =
     (if x = c then [] # split_on c xs
      else case split_on c xs of [] \<Rightarrow> [[x]] | y # ys \<Rightarrow> (x # y) # ys)"

fun intercalate :: "char \<Rightarrow> string list \<Rightarrow> string" where
  "intercalate c [] = []"
| "intercalate c [s] = s"
| "intercalate c (s # t # ss) = s @ c # intercalate c (t # ss)"

definition int_value :: "string \<Rightarrow> int" where
  "int_value s = (if take 1 s = ''-'' then - int (decimal_value (drop 1 s)) else int (decimal_value s))"

definition component :: "(string \<Rightarrow> 'a) \<Rightarrow> string list \<Rightarrow> nat \<Rightarrow> 'a \<Rightarrow> 'a" where
  "component read fs i prev = (if i < length fs \<and> fs ! i \<noteq> [] then read (fs ! i) else prev)"

definition read_entry :: "MappingEntry \<Rightarrow> string \<Rightarrow> MappingEntry" where
  "read_entry prev s =
     (let fs = split_on CHR '':'' s in
      \<lparr>map_start = component int_value fs 0 (map_start prev),
       map_length = component int_value fs 1 (map_length prev),
       map_sourceIndex = component int_value fs 2 (map_sourceIndex prev),
       map_jump = component hd fs 3 (map_jump prev),
       map_modifierDepth = component int_value fs 4 (map_modifierDepth prev)\<rparr>)"

fun read_entries :: "MappingEntry \<Rightarrow> string list \<Rightarrow> MappingEntry list" where
  "read_entries prev [] = []"
| "read_entries prev (s # ss) = (let e = read_entry prev s in e # read_entries e ss)"

definition read_mapping :: "string \<Rightarrow> MappingEntry list" where
  "read_mapping s = read_entries mapping_initial (split_on CHR '';'' s)"

lemma split_on_nonempty [simp]: "split_on c s \<noteq> []"
  by (induction s) (auto split: list.splits)

lemma split_on_prefix: "c \<notin> set s \<Longrightarrow> split_on c (s @ t) = (case split_on c t of [] \<Rightarrow> [s] | y # ys \<Rightarrow> (s @ y) # ys)"
  by (induction s) (auto split: list.splits)

lemma split_on_intercalate:
  "ss \<noteq> [] \<Longrightarrow> \<forall>s \<in> set ss. c \<notin> set s \<Longrightarrow> split_on c (intercalate c ss) = ss"
proof (induction c ss rule: intercalate.induct)
  case (2 c s)
  then show ?case using split_on_prefix [of c s "[]"] by simp
next
  case (3 c s t ss)
  then show ?case by (simp add: split_on_prefix)
qed simp

lemma intercalate_snoc: "ss \<noteq> [] \<Longrightarrow> intercalate c (ss @ [s]) = intercalate c ss @ c # s"
  by (induction c ss rule: intercalate.induct) auto

lemma int_value_decimal_int [simp]: "int_value (decimal_int i) = i"
proof -
  have "take 1 (decimal n) \<noteq> ''-''" for n
  proof -
    have "hd (decimal n) \<in> set decDigits" using decimal_digits [of n] by (cases "decimal n") auto
    moreover have "CHR ''-'' \<notin> set decDigits" by (simp add: decDigits_def)
    ultimately show ?thesis by (cases "decimal n") auto
  qed
  then show ?thesis by (auto simp: int_value_def decimal_int_def decimal_value_decimal)
qed

lemma decimal_int_chars: "decimal_int i \<noteq> []" "set (decimal_int i) \<subseteq> insert CHR ''-'' (set decDigits)"
  using decimal_digits by (auto simp: decimal_int_def)

lemma decimal_int_sep [simp]: "CHR '':'' \<notin> set (decimal_int i)" "CHR '';'' \<notin> set (decimal_int i)"
proof -
  have "CHR '':'' \<notin> insert CHR ''-'' (set decDigits)" "CHR '';'' \<notin> insert CHR ''-'' (set decDigits)"
    by (simp_all add: decDigits_def)
  with decimal_int_chars(2) [of i] show "CHR '':'' \<notin> set (decimal_int i)" "CHR '';'' \<notin> set (decimal_int i)"
    by blast+
qed

lemma decimal_int_not_Nil [simp]: "decimal_int i \<noteq> []"
  by (rule decimal_int_chars)

text \<open>The components of an entry, empty where they repeat the previous one.\<close>

definition mapping_fields :: "MappingEntry \<Rightarrow> MappingEntry \<Rightarrow> string list" where
  "mapping_fields prev e =
     [if map_start e \<noteq> map_start prev then decimal_int (map_start e) else '''',
      if map_length e \<noteq> map_length prev then decimal_int (map_length e) else '''',
      if map_sourceIndex e \<noteq> map_sourceIndex prev then decimal_int (map_sourceIndex e) else '''',
      if map_jump e \<noteq> map_jump prev then [map_jump e] else '''',
      if map_modifierDepth e \<noteq> map_modifierDepth prev then decimal_int (map_modifierDepth e) else '''']"

lemma mapping_text_intercalate:
  "mapping_text prev e = intercalate CHR '':'' (take (mapping_components prev e) (mapping_fields prev e))"
  by (simp add: mapping_text_def mapping_components_def mapping_fields_def Let_def)

definition jump_ok :: "MappingEntry \<Rightarrow> bool" where
  "jump_ok e \<longleftrightarrow> map_jump e \<in> {CHR ''i'', CHR ''o'', CHR ''-''}"

lemma mapping_fields_sep:
  assumes "jump_ok e" and "c \<in> {CHR '':'', CHR '';''}"
  shows "\<forall>s \<in> set (mapping_fields prev e). c \<notin> set s"
  using assms by (auto simp: mapping_fields_def jump_ok_def)

lemma set_intercalate: "set (intercalate c ss) \<subseteq> insert c (\<Union>s \<in> set ss. set s)"
  by (induction c ss rule: intercalate.induct) auto

lemma mapping_text_sep: "jump_ok e \<Longrightarrow> CHR '';'' \<notin> set (mapping_text prev e)"
  using set_intercalate [of "CHR '':''" "take (mapping_components prev e) (mapping_fields prev e)"]
    mapping_fields_sep [of e "CHR '';''" prev]
  by (force simp: mapping_text_intercalate dest: in_set_takeD)

lemma split_mapping_text:
  assumes "jump_ok e"
  shows "split_on CHR '':'' (mapping_text prev e) =
    (if mapping_components prev e = 0 then [[]] else take (mapping_components prev e) (mapping_fields prev e))"
proof (cases "mapping_components prev e = 0")
  case False
  then have "take (mapping_components prev e) (mapping_fields prev e) \<noteq> []"
    by (simp add: mapping_fields_def)
  then show ?thesis
    using False mapping_fields_sep [OF assms, of "CHR '':''" prev]
    by (auto simp: mapping_text_intercalate intro!: split_on_intercalate dest: in_set_takeD)
qed (simp add: mapping_text_intercalate)

lemma read_mapping_text:
  assumes "jump_ok e"
  shows "read_entry prev (mapping_text prev e) = e"
  unfolding read_entry_def split_mapping_text [OF assms] Let_def
  by (cases e; cases prev)
     (auto simp: component_def mapping_components_def mapping_fields_def nth_Cons')

fun mapping_texts :: "MappingEntry \<Rightarrow> MappingEntry list \<Rightarrow> string list" where
  "mapping_texts prev [] = []"
| "mapping_texts prev (e # es) = mapping_text prev e # mapping_texts e es"

lemma read_mapping_texts: "list_all jump_ok es \<Longrightarrow> read_entries prev (mapping_texts prev es) = es"
  by (induction es arbitrary: prev) (auto simp: read_mapping_text Let_def)

lemma mapping_texts_sep: "list_all jump_ok es \<Longrightarrow> \<forall>s \<in> set (mapping_texts prev es). CHR '';'' \<notin> set s"
  by (induction es arbitrary: prev) (auto simp: mapping_text_sep)

lemma jump_ok_entry: "jump_ok (mapping_entry m it)"
  by (auto simp: jump_ok_def mapping_entry_def Let_def split: JumpType.splits)

lemma mapping_text_initial: "jump_ok e \<Longrightarrow> mapping_text mapping_initial e \<noteq> []"
  by (auto simp: mapping_text_def mapping_components_def mapping_initial_def jump_ok_def Let_def)

definition mapping_step :: "(string \<times> u32) list \<Rightarrow> string \<times> MappingEntry \<Rightarrow> AssemblyItem \<Rightarrow> string \<times> MappingEntry" where
  "mapping_step m = (\<lambda>(ret, prev) it.
     let e = mapping_entry m it; ret = (if ret \<noteq> '''' then ret @ '';'' else ret)
     in (ret @ mapping_text prev e, e))"

lemma mapping_step_nonempty:
  "ret \<noteq> [] \<Longrightarrow> mapping_step m (ret, prev) it =
     (ret @ CHR '';'' # mapping_text prev (mapping_entry m it), mapping_entry m it)"
  by (simp add: mapping_step_def Let_def)

lemma intercalate_Cons: "intercalate c (s # ss) = s @ concat (map (\<lambda>t. c # t) ss)"
  by (induction ss arbitrary: s) auto

lemma mapping_fold:
  "ret \<noteq> [] \<Longrightarrow> fst (foldl (mapping_step m) (ret, prev) items) =
     intercalate CHR '';'' (ret # mapping_texts prev (map (mapping_entry m) items))"
proof (induction items arbitrary: ret prev)
  case (Cons it items)
  then show ?case
    by (simp add: mapping_step_nonempty intercalate_Cons)
qed simp

lemma computeSourceMapping_intercalate:
  assumes "items \<noteq> []"
  shows "computeSourceMapping items m =
    intercalate CHR '';'' (mapping_texts mapping_initial (map (mapping_entry m) items))"
proof -
  obtain it rest where items: "items = it # rest" using assms by (cases items) auto
  let ?e = "mapping_entry m it"
  have "computeSourceMapping items m = fst (foldl (mapping_step m) ('''', mapping_initial) items)"
    unfolding computeSourceMapping_def mapping_step_def ..
  also have "\<dots> = fst (foldl (mapping_step m) (mapping_text mapping_initial ?e, ?e) rest)"
    by (simp add: items mapping_step_def Let_def)
  also have "\<dots> = intercalate CHR '';'' (mapping_text mapping_initial ?e # mapping_texts ?e (map (mapping_entry m) rest))"
    using mapping_text_initial [OF jump_ok_entry] by (rule mapping_fold)
  finally show ?thesis by (simp add: items)
qed

section \<open>Well-formed items\<close>

text \<open>What the constructors establish: exactly the items other than operations have data.\<close>

definition item_ok :: "AssemblyItem \<Rightarrow> bool" where
  "item_ok it \<longleftrightarrow> (it_type it = Operation \<longleftrightarrow> it_data it = None)"

lemma item_ok_make [simp]: "item_ok (AssemblyItem_make type d loc txt)"
  by (simp add: item_ok_def AssemblyItem_make_def)

lemma item_ok_instruction [simp]: "item_ok (AssemblyItem_of_instruction i loc)"
  by (simp add: item_ok_def AssemblyItem_of_instruction_def)

lemma item_data_ok:
  assumes "item_ok it"
  shows "item_data it = (if it_type it = Operation then Inl Exception else Inr (the (it_data it)))"
  using assms by (auto simp: item_data_def item_ok_def)

text \<open>The key by which items are compared.\<close>

definition item_key :: "AssemblyItem \<Rightarrow> nat \<times> nat" where
  "item_key it = (type_index (it_type it),
     if it_type it = Operation then unat (it_instruction it) else unat (the (it_data it)))"

lemma type_index_inject: "type_index a = type_index b \<longleftrightarrow> a = b"
  by (cases a; cases b) simp_all

lemma item_compare_key:
  assumes "item_ok a" and "item_ok b"
  shows "item_equal a b = Inr (item_key a = item_key b)"
    and "item_less a b = Inr (fst (item_key a) < fst (item_key b) \<or>
      fst (item_key a) = fst (item_key b) \<and> snd (item_key a) < snd (item_key b))"
  using assms
  by (auto simp: item_equal_def item_less_def item_key_def item_data_ok item_instruction_def type_index_inject
      word_unat_eq_iff word_less_nat_alt)

section \<open>Properties\<close>

text \<open>
  C28. Tags of sub-assemblies: the sub-assembly number and the tag number that are packed into a push tag are
  read back as they were; moving a tag of the assembly itself (with a number below 2^64) to a
  sub-assembly keeps its number, and a tag that already belongs to a sub-assembly is refused.
\<close>

theorem pushTag_roundtrip:
  assumes "it_type it \<in> {PushTag, Tag}" and "item_data it = Inr d"
  shows "(\<exists>it'. setPushTagSubIdAndTag subId tag it = Inr it' \<and> splitForeignPushTag it' = Inr (subId, tag)) \<and>
    (if d < 2 ^ 64
     then \<exists>it'. toSubAssemblyTag subId it = Inr it' \<and> it_type it' = PushTag \<and>
                splitForeignPushTag it' = Inr (subId, ucast d)
     else toSubAssemblyTag subId it = Inl Exception)"
proof -
  have set: "\<exists>x'. setPushTagSubIdAndTag s t x = Inr x' \<and> it_type x' = it_type x \<and>
      splitForeignPushTag x' = Inr (s, t)" if "it_type x \<in> {PushTag, Tag}" for s t x
  proof -
    from that obtain x' where x': "setPushTagSubIdAndTag s t x = Inr x'" "it_type x' = it_type x"
      by (auto simp: setPushTagSubIdAndTag_def item_setData_def Let_def)
    with split_setPushTagSubIdAndTag show ?thesis by blast
  qed
  have "(if d < 2 ^ 64
     then \<exists>it'. toSubAssemblyTag subId it = Inr it' \<and> it_type it' = PushTag \<and>
                splitForeignPushTag it' = Inr (subId, ucast d)
     else toSubAssemblyTag subId it = Inl Exception)"
  proof (cases "d < 2 ^ 64")
    case True
    have m: "(0xFFFFFFFFFFFFFFFF :: u256) = mask 64" by (simp add: mask_eq_exp_minus_1)
    have "ucast (d AND 0xFFFFFFFFFFFFFFFF) = (ucast d :: u64)"
      unfolding m by (intro bit_word_eqI) (auto simp: bit_unsigned_iff bit_and_iff bit_mask_iff)
    with True assms set [of "it\<lparr>it_type := PushTag\<rparr>" subId "ucast d"] show ?thesis
      by (auto simp: toSubAssemblyTag_def)
  next
    case False
    then show ?thesis using assms by (simp add: toSubAssemblyTag_def)
  qed
  with set [OF assms(1)] show ?thesis by blast
qed

theorem pushTag_roundtrip_witness:
  "let it = AssemblyItem_make Tag 7 SourceLocation_default '''' in
   \<exists>it'. toSubAssemblyTag 3 it = Inr it' \<and> it_type it' = PushTag \<and> splitForeignPushTag it' = Inr (3, 7)"
proof -
  let ?it = "AssemblyItem_make Tag 7 SourceLocation_default ''''"
  have "it_type ?it \<in> {PushTag, Tag}" "item_data ?it = Inr 7"
    by (simp_all add: AssemblyItem_make_def item_data_def)
  from pushTag_roundtrip [OF this, of 3] show ?thesis by (simp add: Let_def)
qed

text \<open>
  C29. Source mappings are decoded without loss: reading the compressed text of any non-empty list of items
  gives back the source range, source index, jump kind and modifier depth of every item.
\<close>

theorem computeSourceMapping_roundtrip:
  assumes "items \<noteq> []"
  shows "read_mapping (computeSourceMapping items m) = map (mapping_entry m) items"
proof -
  have ok: "list_all jump_ok (map (mapping_entry m) items)"
    by (simp add: list_all_iff jump_ok_entry)
  have "mapping_texts mapping_initial (map (mapping_entry m) items) \<noteq> []"
    using assms by (cases items) auto
  then show ?thesis
    unfolding computeSourceMapping_intercalate [OF assms] read_mapping_def
    using split_on_intercalate [OF _ mapping_texts_sep [OF ok]] read_mapping_texts [OF ok] by simp
qed

theorem computeSourceMapping_roundtrip_witness:
  "read_mapping (computeSourceMapping [AssemblyItem_make Push 7 SourceLocation_default ''''] []) =
     map (mapping_entry []) [AssemblyItem_make Push 7 SourceLocation_default '''']"
  by (rule computeSourceMapping_roundtrip) simp

text \<open>
  The comparison of items is a strict order that agrees with their equality: two well-formed items are
  equal exactly if neither is less than the other, never both are less, and the order is transitive.
\<close>

theorem item_less_order:
  assumes "item_ok a" and "item_ok b" and "item_ok c"
  shows "(item_equal a b = Inr True \<longleftrightarrow> item_less a b = Inr False \<and> item_less b a = Inr False) \<and>
    \<not> (item_less a b = Inr True \<and> item_less b a = Inr True) \<and>
    (item_less a b = Inr True \<and> item_less b c = Inr True \<longrightarrow> item_less a c = Inr True)"
  using assms by (auto simp: item_compare_key prod_eq_iff)

theorem item_less_order_witness:
  "let a = AssemblyItem_make Push 7 SourceLocation_default '''';
       b = AssemblyItem_make Push 8 SourceLocation_default '''';
       c = AssemblyItem_make Tag 1 SourceLocation_default '''' in
   item_less a b = Inr True \<and> item_less b c = Inr True \<and> item_less a c = Inr True"
proof -
  let ?i = "\<lambda>t d. AssemblyItem_make t d SourceLocation_default ''''"
  have "item_less (?i Push 7) (?i Push 8) = Inr True" "item_less (?i Push 8) (?i Tag 1) = Inr True"
    by (simp_all add: item_less_def AssemblyItem_make_def item_data_def)
  with item_less_order [of "?i Push 7" "?i Push 8" "?i Tag 1"] show ?thesis by (simp add: Let_def)
qed

end
