(* ===== verification/LinkerObject.thy ===== *)
theory LinkerObject
  imports FixedHash
begin

text \<open>
  Bytecode with unresolved library addresses (\<^verbatim>\<open>libevmasm/LinkerObject.h\<close>, \<^verbatim>\<open>LinkerObject.cpp\<close>): the
  code, the map from offsets to library names, and the map from the hashes of immutables to their names
  and offsets. Keccak-256 is defined outside the repository and is the parameter \<open>keccak256\<close>.
\<close>

section \<open>Data and operations\<close>

record LinkerObject =
  bytecode :: bytes
  linkReferences :: "(nat \<times> string) list"
  immutableReferences :: "(u256 \<times> (string \<times> nat list)) list"

definition LinkerObject_empty :: LinkerObject where
  "LinkerObject_empty = \<lparr>bytecode = [], linkReferences = [], immutableReferences = []\<rparr>"

definition LinkerObject_append :: "LinkerObject \<Rightarrow> LinkerObject \<Rightarrow> LinkerObject" where
  "LinkerObject_append self other =
     (let refs = foldl (\<lambda>refs (first, second). map_put (first + length (bytecode self)) second refs)
                   (linkReferences self) (linkReferences other)
      in self\<lparr>bytecode := bytecode self @ bytecode other, linkReferences := refs\<rparr>)"

text \<open>The position of the first colon.\<close>

fun find_colon :: "string \<Rightarrow> nat option" where
  "find_colon [] = None"
| "find_colon (c # s) = (if c = CHR '':'' then Some 0 else map_option Suc (find_colon s))"

definition matchLibrary :: "string \<Rightarrow> (string \<times> bytes) list \<Rightarrow> bytes option" where
  "matchLibrary linkRefName libraryAddresses =
     (case map_find linkRefName libraryAddresses of
        Some a \<Rightarrow> Some a
      | None \<Rightarrow>
          (case find_colon linkRefName of
             None \<Rightarrow> None
           | Some colon \<Rightarrow> map_find (drop (colon + 1) linkRefName) libraryAddresses))"

text \<open>
  The loop of \<open>link\<close> over the references. Only the first 20 bytes of an address are copied; copying
  behind the end of the code has no defined result.
\<close>

definition link_step :: "(string \<times> bytes) list \<Rightarrow> bytes \<times> (nat \<times> string) list \<Rightarrow> nat \<times> string \<Rightarrow>
    (bytes \<times> (nat \<times> string) list) result" where
  "link_step libraryAddresses = (\<lambda>(code, remainingRefs) (first, second).
     case matchLibrary second libraryAddresses of
       Some address \<Rightarrow>
         if first + 20 \<le> length code then Inr (overwrite code first (take 20 address), remainingRefs)
         else Inl UndefinedBehaviour
     | None \<Rightarrow> Inr (code, map_put first second remainingRefs))"

definition LinkerObject_link :: "(string \<times> bytes) list \<Rightarrow> LinkerObject \<Rightarrow> LinkerObject result" where
  "LinkerObject_link libraryAddresses self =
     bindE (foldE (link_step libraryAddresses) (bytecode self, []) (linkReferences self)) (\<lambda>(code, remainingRefs).
       Inr (self\<lparr>bytecode := code, linkReferences := remainingRefs\<rparr>))"

definition libraryPlaceholder :: "(bytes \<Rightarrow> bytes) \<Rightarrow> string \<Rightarrow> string" where
  "libraryPlaceholder keccak256 libraryName =
     ''$'' @ take 34 (FixedHash_hex (keccak256 (asBytes libraryName))) @ ''$''"

text \<open>Writing behind the end of the text has no defined result; \<open>hash.at\<close> throws.\<close>

definition toHex_step :: "(bytes \<Rightarrow> bytes) \<Rightarrow> string \<Rightarrow> nat \<times> string \<Rightarrow> string result" where
  "toHex_step keccak256 hex = (\<lambda>(first, second).
     let pos = first * 2; hash = libraryPlaceholder keccak256 second in
     if pos + 41 \<ge> length hex then Inl UndefinedBehaviour
     else
       let hex = hex[pos := CHR ''_'', pos + 1 := CHR ''_'', pos + 38 := CHR ''_'', pos + 39 := CHR ''_''];
           hex = hex[pos + 40 := CHR ''_'', pos + 41 := CHR ''_'']
       in foldE (\<lambda>hex i. if i < length hash then Inr (hex[pos + 2 + i := hash ! i]) else Inl OutOfRange) hex [0..<36])"

definition LinkerObject_toHex :: "(bytes \<Rightarrow> bytes) \<Rightarrow> LinkerObject \<Rightarrow> string result" where
  "LinkerObject_toHex keccak256 self =
     foldE (toHex_step keccak256) (toHex (bytecode self) DontAdd Lower) (linkReferences self)"

section \<open>Lemmas\<close>

text \<open>The invariant of objects: offsets in order, each followed by room for a 21-byte address.\<close>

definition linker_ok :: "LinkerObject \<Rightarrow> bool" where
  "linker_ok obj \<longleftrightarrow> map_ok (linkReferences obj) \<and>
     (\<forall>(p, name) \<in> set (linkReferences obj). p + 21 \<le> length (bytecode obj))"

text \<open>No reference inside the address of another one.\<close>

definition refs_apart :: "(nat \<times> string) list \<Rightarrow> bool" where
  "refs_apart refs \<longleftrightarrow> (\<forall>(p, n) \<in> set refs. \<forall>(q, m) \<in> set refs. p \<noteq> q \<longrightarrow> p + 21 \<le> q \<or> q + 21 \<le> p)"

lemma linker_okD: "linker_ok obj \<Longrightarrow> (p, name) \<in> set (linkReferences obj) \<Longrightarrow> p + 21 \<le> length (bytecode obj)"
  by (auto simp: linker_ok_def)

lemma map_ok_shift: "map_ok refs \<Longrightarrow> map_ok (foldl (\<lambda>refs (f, s). map_put (f + n) s refs) refs other)"
  by (induction other arbitrary: refs) (auto simp: map_ok_put)

lemma find_shift:
  fixes n :: nat
  assumes "map_ok refs" and "map_ok other"
  shows "map_find k (foldl (\<lambda>refs (f, s). map_put (f + n) s refs) refs other) =
      (if n \<le> k \<and> map_find (k - n) other \<noteq> None then map_find (k - n) other else map_find k refs)"
  using assms
proof (induction other arbitrary: refs)
  case (Cons p other)
  obtain f s where p: "p = (f, s)" by force
  have ok: "map_ok (map_put (f + n) s refs)" "map_ok other" using Cons.prems p by (auto simp: map_ok_put)
  have notin: "map_find f other = None"
    using Cons.prems p by (force simp: map_find_def map_of_eq_None_iff)
  have put: "map_find k (map_put (f + n) s refs) = (if k = f + n then Some s else map_find k refs)"
    using Cons.prems(1) by (simp add: map_find_def map_of_put)
  have other: "map_find j (p # other) = (if j = f then Some s else map_find j other)" for j
    by (simp add: map_find_def p)
  show ?case
  proof (cases "k = f + n")
    case True
    then show ?thesis using Cons.IH [OF ok] notin put other by (simp add: p)
  next
    case False
    then have "n \<le> k \<Longrightarrow> k - n \<noteq> f" by auto
    then show ?thesis using Cons.IH [OF ok] put other False by (auto simp: p)
  qed
qed (simp add: map_find_def)

lemma linker_ok_append:
  assumes a: "linker_ok a" and b: "linker_ok b"
  shows "linker_ok (LinkerObject_append a b)"
proof -
  let ?n = "length (bytecode a)"
  define r where "r = foldl (\<lambda>refs (f, s). map_put (f + ?n) s refs) (linkReferences a) (linkReferences b)"
  have oks: "map_ok (linkReferences a)" "map_ok (linkReferences b)" using a b by (simp_all add: linker_ok_def)
  have ok: "map_ok r" unfolding r_def by (rule map_ok_shift [OF oks(1)])
  have "p + 21 \<le> ?n + length (bytecode b)" if "(p, name) \<in> set r" for p name
  proof -
    have "map_find p r = Some name" using that std_map.find_entries [OF ok, of p name] by simp
    then consider "?n \<le> p" "map_find (p - ?n) (linkReferences b) = Some name" | "map_find p (linkReferences a) = Some name"
      unfolding r_def find_shift [OF oks] by (auto split: if_splits)
    then show ?thesis
    proof cases
      case 1
      then have "(p - ?n, name) \<in> set (linkReferences b)" by (simp add: std_map.find_entries [OF oks(2)])
      from linker_okD [OF b this] 1(1) show ?thesis by simp
    next
      case 2
      then have "(p, name) \<in> set (linkReferences a)" by (simp add: std_map.find_entries [OF oks(1)])
      from linker_okD [OF a this] show ?thesis by simp
    qed
  qed
  with ok show ?thesis by (auto simp: linker_ok_def LinkerObject_append_def Let_def r_def)
qed

text \<open>What linking does to the code, reference by reference.\<close>

fun linked_code :: "(string \<times> bytes) list \<Rightarrow> bytes \<Rightarrow> (nat \<times> string) list \<Rightarrow> bytes" where
  "linked_code libs code [] = code"
| "linked_code libs code ((p, name) # refs) =
     linked_code libs (case matchLibrary name libs of
         Some a \<Rightarrow> overwrite code p (take 20 a) | None \<Rightarrow> code) refs"

definition libs_ok :: "(string \<times> bytes) list \<Rightarrow> bool" where
  "libs_ok libs \<longleftrightarrow> (\<forall>a \<in> snd ` set libs. length a = 21)"

lemma matchLibrary_length: "libs_ok libs \<Longrightarrow> matchLibrary name libs = Some a \<Longrightarrow> length a = 21"
  by (auto simp: matchLibrary_def libs_ok_def map_find_def split: option.splits dest!: map_of_SomeD)

lemma length_linked_step:
  "libs_ok libs \<Longrightarrow> p + 21 \<le> length code \<Longrightarrow>
   length (case matchLibrary name libs of Some a \<Rightarrow> overwrite code p (take 20 a) | None \<Rightarrow> code) = length code"
  by (auto simp: matchLibrary_length split: option.splits)

lemma link_fold:
  assumes "libs_ok libs" and "map_ok (done @ refs)" and "\<forall>(p, n) \<in> set refs. p + 21 \<le> length code"
  shows "foldE (link_step libs) (code, filter (\<lambda>(p, n). matchLibrary n libs = None) done) refs =
    Inr (linked_code libs code refs, filter (\<lambda>(p, n). matchLibrary n libs = None) (done @ refs))"
  using assms(2,3)
proof (induction refs arbitrary: code "done")
  case (Cons r refs)
  obtain p n where r: "r = (p, n)" by force
  let ?f = "filter (\<lambda>(p, n). matchLibrary n libs = None)"
  have last: "\<forall>k \<in> fst ` set (?f done). k < p"
    using Cons.prems(1) by (auto simp: r map_ok_def sorted_wrt_append)
  have "link_step libs (code, ?f done) r =
      Inr (case matchLibrary n libs of Some a \<Rightarrow> overwrite code p (take 20 a) | None \<Rightarrow> code, ?f (done @ [r]))"
    using Cons.prems(2) by (auto simp: r link_step_def map_put_snoc [OF last] split: option.splits)
  moreover have "\<forall>(q, m) \<in> set refs. q + 21 \<le> length
      (case matchLibrary n libs of Some a \<Rightarrow> overwrite code p (take 20 a) | None \<Rightarrow> code)"
    using Cons.prems(2) length_linked_step [OF assms(1), of p code n] by (simp add: r)
  ultimately show ?case
    using Cons.IH [of "done @ [r]"] Cons.prems(1) by (simp add: r)
qed simp

lemma link_eq:
  assumes "libs_ok libs" and "linker_ok obj"
  shows "LinkerObject_link libs obj = Inr (obj\<lparr>bytecode := linked_code libs (bytecode obj) (linkReferences obj),
    linkReferences := filter (\<lambda>(p, n). matchLibrary n libs = None) (linkReferences obj)\<rparr>)"
  using link_fold [OF assms(1), of "[]" "linkReferences obj" "bytecode obj"] assms(2)
  by (simp add: LinkerObject_link_def linker_ok_def)

lemma length_linked_code:
  "libs_ok libs \<Longrightarrow> \<forall>(p, n) \<in> set refs. p + 21 \<le> length code \<Longrightarrow>
   length (linked_code libs code refs) = length code"
  by (induction refs arbitrary: code) (auto simp: length_linked_step)

text \<open>A position outside the first 20 bytes of every linked address keeps its byte.\<close>

lemma linked_code_outside:
  assumes "libs_ok libs" and "\<forall>(p, n) \<in> set refs. p + 21 \<le> length code" and "i < length code"
    and "\<forall>(p, n) \<in> set refs. matchLibrary n libs \<noteq> None \<longrightarrow> i < p \<or> p + 20 \<le> i"
  shows "linked_code libs code refs ! i = code ! i"
  using assms(2-)
proof (induction refs arbitrary: code)
  case (Cons r refs)
  obtain p n where r: "r = (p, n)" by force
  let ?c = "case matchLibrary n libs of Some a \<Rightarrow> overwrite code p (take 20 a) | None \<Rightarrow> code"
  have len: "length ?c = length code"
    using Cons.prems(1) length_linked_step [OF assms(1), of p code n] by (simp add: r)
  have "?c ! i = code ! i"
    using Cons.prems matchLibrary_length [OF assms(1)]
    by (auto simp: r nth_overwrite split: option.splits)
  with Cons.IH [of ?c] Cons.prems len show ?case by (simp add: r)
qed simp

lemma linked_code_inside:
  assumes "libs_ok libs" and "\<forall>(p, n) \<in> set refs. p + 21 \<le> length code" and "map_ok refs" and "refs_apart refs"
    and "(p, name) \<in> set refs" and "matchLibrary name libs = Some a" and "k < 20"
  shows "linked_code libs code refs ! (p + k) = a ! k"
  using assms(2-5)
proof (induction refs arbitrary: code)
  case (Cons r refs)
  obtain q m where r: "r = (q, m)" by force
  let ?c = "case matchLibrary m libs of Some a \<Rightarrow> overwrite code q (take 20 a) | None \<Rightarrow> code"
  have len: "length ?c = length code"
    using Cons.prems(1) length_linked_step [OF assms(1), of q code m] by (simp add: r)
  have bounds: "\<forall>(p, n) \<in> set refs. p + 21 \<le> length ?c" using Cons.prems(1) len by (auto simp: r)
  have apart: "refs_apart refs" using Cons.prems(3) by (auto simp: refs_apart_def)
  show ?case
  proof (cases "(p, name) \<in> set refs")
    case True
    then show ?thesis using Cons.IH [of ?c] bounds Cons.prems(2) apart by (simp add: r)
  next
    case False
    then have qm: "q = p" "m = name" using Cons.prems(4) r by auto
    have la: "length a = 21" by (rule matchLibrary_length [OF assms(1,6)])
    have pl: "p + 21 \<le> length code" using Cons.prems(1) r qm by auto
    have ov: "?c = overwrite code p (take 20 a)" using qm assms(6) by simp
    have "?c ! (p + k) = a ! k"
      unfolding ov using la pl assms(7) by (simp add: nth_overwrite)
    moreover have "linked_code libs ?c refs ! (p + k) = ?c ! (p + k)"
    proof (rule linked_code_outside [OF assms(1) bounds])
      show "p + k < length ?c" using len pl assms(7) by simp
      show "\<forall>(p', n) \<in> set refs. matchLibrary n libs \<noteq> None \<longrightarrow> p + k < p' \<or> p' + 20 \<le> p + k"
      proof (clarify)
        fix p' n y assume in_refs: "(p', n) \<in> set refs" and "\<not> p' + 20 \<le> p + k"
        have "p < p'" using Cons.prems(2) in_refs r qm by (auto simp: map_ok_def)
        moreover from this have "p + 21 \<le> p' \<or> p' + 21 \<le> p"
          using Cons.prems(3) in_refs r qm by (fastforce simp: refs_apart_def)
        ultimately show "p + k < p'" using assms(7) by simp
      qed
    qed
    ultimately show ?thesis by (simp add: r)
  qed
qed simp

lemma write_loop:
  assumes "n \<le> length hash" and "q + n \<le> length hex"
  shows "foldE (\<lambda>hex i. if i < length hash then Inr (hex[q + i := hash ! i]) else Inl OutOfRange) hex [0..<n] =
    Inr (overwrite hex q (take n hash))"
  using assms
proof (induction n)
  case (Suc n)
  have "(overwrite hex q (take n hash))[q + n := hash ! n] = overwrite hex q (take (Suc n) hash)"
    using Suc.prems
    by (intro nth_equalityI) (auto simp: nth_overwrite nth_list_update min_def less_diff_conv2)
  with Suc show ?case by (simp add: foldE_append del: upt_Suc add: upt_Suc_append)
qed simp

lemma length_libraryPlaceholder:
  "length (keccak256 (asBytes name)) = 32 \<Longrightarrow> length (libraryPlaceholder keccak256 name) = 36"
  using length_toHex [of "keccak256 (asBytes name)" DontAdd Lower]
  by (simp add: libraryPlaceholder_def FixedHash_hex_def)

text \<open>The text that stands for an unresolved address of 21 bytes.\<close>

definition placeholder_text :: "(bytes \<Rightarrow> bytes) \<Rightarrow> string \<Rightarrow> string" where
  "placeholder_text keccak256 name = ''__'' @ libraryPlaceholder keccak256 name @ ''____''"

lemma overwrite_frame:
  assumes h: "length h = 36" and q: "q + 42 \<le> length hex"
  shows "overwrite (hex[q := u, q + 1 := u, q + 38 := u, q + 39 := u, q + 40 := u, q + 41 := u]) (q + 2) h =
    overwrite hex q ([u, u] @ h @ [u, u, u, u])" (is "overwrite ?x _ _ = overwrite hex q ?f")
proof (rule nth_equalityI)
  fix i assume "i < length (overwrite ?x (q + 2) h)"
  then have i: "i < length hex" using assms by simp
  have l: "overwrite ?x (q + 2) h ! i = (if q + 2 \<le> i \<and> i < q + 38 then h ! (i - (q + 2)) else ?x ! i)"
    using assms i by (subst nth_overwrite) simp_all
  have r: "overwrite hex q ?f ! i = (if q \<le> i \<and> i < q + 42 then ?f ! (i - q) else hex ! i)"
    using assms i by (subst nth_overwrite) simp_all
  have x: "?x ! i = (if i \<in> {q, q + 1, q + 38, q + 39, q + 40, q + 41} then u else hex ! i)"
    using i by (auto simp: nth_list_update)
  have "i - (q + 2) = i - q - 2" by simp
  moreover have "i \<in> {q, q + 1, q + 38, q + 39, q + 40, q + 41} \<longleftrightarrow>
      q \<le> i \<and> i < q + 2 \<or> q + 38 \<le> i \<and> i < q + 42" by auto
  ultimately show "overwrite ?x (q + 2) h ! i = overwrite hex q ?f ! i"
    unfolding l r x using h by (auto simp: nth_append)
qed (use assms in simp)

lemma toHex_step_overwrite:
  assumes "length (keccak256 (asBytes name)) = 32" and "2 * p + 42 \<le> length hex"
  shows "toHex_step keccak256 hex (p, name) = Inr (overwrite hex (2 * p) (placeholder_text keccak256 name))"
proof -
  let ?h = "libraryPlaceholder keccak256 name" and ?q = "p * 2" and ?u = "CHR ''_''"
  define hex1 where "hex1 = hex[?q := ?u, ?q + 1 := ?u, ?q + 38 := ?u, ?q + 39 := ?u, ?q + 40 := ?u, ?q + 41 := ?u]"
  have lh: "length ?h = 36" using assms(1) by (rule length_libraryPlaceholder)
  have len: "length hex1 = length hex" by (simp add: hex1_def)
  have "\<not> ?q + 41 \<ge> length hex" using assms(2) by simp
  then have "toHex_step keccak256 hex (p, name) = Inr (overwrite hex1 (?q + 2) (take 36 ?h))"
    unfolding toHex_step_def prod.case Let_def hex1_def [symmetric]
    by (rule ssubst [OF if_not_P]) (rule write_loop; use assms(2) lh len in simp)
  also have "overwrite hex1 (?q + 2) (take 36 ?h) = overwrite hex ?q ([?u, ?u] @ ?h @ [?u, ?u, ?u, ?u])"
    using overwrite_frame [OF lh, of ?q hex ?u] assms(2) lh unfolding hex1_def by simp
  finally show ?thesis by (simp add: placeholder_text_def mult.commute)
qed

lemma toHex_fold:
  assumes "\<And>b. length (keccak256 b) = 32" and "\<forall>(p, n) \<in> set refs. 2 * p + 42 \<le> length hex"
  shows "foldE (toHex_step keccak256) hex refs =
    Inr (foldl (\<lambda>hex (p, n). overwrite hex (2 * p) (placeholder_text keccak256 n)) hex refs)"
  using assms(2)
proof (induction refs arbitrary: hex)
  case (Cons r refs)
  obtain p n where r: "r = (p, n)" by force
  have "length (placeholder_text keccak256 n) = 42"
    using length_libraryPlaceholder [of keccak256 n] assms(1) by (simp add: placeholder_text_def)
  then have "length (overwrite hex (2 * p) (placeholder_text keccak256 n)) = length hex"
    using Cons.prems by (simp add: r)
  then show ?case
    using Cons.IH [of "overwrite hex (2 * p) (placeholder_text keccak256 n)"] Cons.prems
      toHex_step_overwrite [of keccak256 n p hex] assms(1) by (simp add: r)
qed simp

section \<open>Properties\<close>

text \<open>
  C8. Appending an object keeps the invariant of link references (they are sorted and lie inside the code) and
  shifts the references of the appended object by the size of the code in front of it.
\<close>

theorem LinkerObject_append_refs:
  assumes "linker_ok a" and "linker_ok b"
  shows "linker_ok (LinkerObject_append a b) \<and>
    bytecode (LinkerObject_append a b) = bytecode a @ bytecode b \<and>
    map_find k (linkReferences (LinkerObject_append a b)) =
      (if length (bytecode a) \<le> k \<and> map_find (k - length (bytecode a)) (linkReferences b) \<noteq> None
       then map_find (k - length (bytecode a)) (linkReferences b) else map_find k (linkReferences a))"
proof -
  have "map_ok (linkReferences a)" "map_ok (linkReferences b)" using assms by (simp_all add: linker_ok_def)
  from find_shift [OF this] linker_ok_append [OF assms] show ?thesis
    by (simp add: LinkerObject_append_def Let_def)
qed

theorem LinkerObject_append_refs_witness:
  "let a = LinkerObject_empty\<lparr>bytecode := [0x60, 0]\<rparr>;
       b = LinkerObject_empty\<lparr>bytecode := replicate 22 0, linkReferences := [(1, ''lib'')]\<rparr>
   in linker_ok (LinkerObject_append a b) \<and> map_find 3 (linkReferences (LinkerObject_append a b)) = Some ''lib''"
proof -
  let ?a = "LinkerObject_empty\<lparr>bytecode := [0x60, 0]\<rparr>" and
    ?b = "LinkerObject_empty\<lparr>bytecode := replicate 22 0, linkReferences := [(1, ''lib'')]\<rparr>"
  have "linker_ok ?a" "linker_ok ?b" by (simp_all add: linker_ok_def LinkerObject_empty_def)
  from LinkerObject_append_refs [OF this, of 3] show ?thesis
    by (simp add: Let_def LinkerObject_empty_def map_find_def)
qed

text \<open>
  C7. Linking resolves exactly the references whose library is known: they disappear, the first 20 bytes at
  their offset become the first 20 bytes of the address, and nothing else of the code changes; the last
  of the 21 bytes reserved for a Vite address keeps its old value.
\<close>

theorem LinkerObject_link_resolves:
  assumes "libs_ok libs" and "linker_ok obj" and "refs_apart (linkReferences obj)"
  shows "\<exists>obj'. LinkerObject_link libs obj = Inr obj' \<and> linker_ok obj' \<and>
    linkReferences obj' = filter (\<lambda>(p, n). matchLibrary n libs = None) (linkReferences obj) \<and>
    length (bytecode obj') = length (bytecode obj) \<and>
    (\<forall>p n a k. (p, n) \<in> set (linkReferences obj) \<and> matchLibrary n libs = Some a \<and> k < 20 \<longrightarrow>
       bytecode obj' ! (p + k) = a ! k) \<and>
    (\<forall>i < length (bytecode obj).
       (\<forall>p n. (p, n) \<in> set (linkReferences obj) \<and> matchLibrary n libs \<noteq> None \<longrightarrow> i < p \<or> p + 20 \<le> i) \<longrightarrow>
       bytecode obj' ! i = bytecode obj ! i)"
proof -
  let ?refs = "linkReferences obj" and ?code = "bytecode obj"
  have b: "\<forall>(p, n) \<in> set ?refs. p + 21 \<le> length ?code" and ok: "map_ok ?refs"
    using assms(2) by (simp_all add: linker_ok_def)
  let ?obj' = "obj\<lparr>bytecode := linked_code libs ?code ?refs,
    linkReferences := filter (\<lambda>(p, n). matchLibrary n libs = None) ?refs\<rparr>"
  have len: "length (linked_code libs ?code ?refs) = length ?code" by (rule length_linked_code [OF assms(1) b])
  have "map_ok (filter P ?refs)" for P
    using ok unfolding map_ok_def by (induction ?refs arbitrary: obj) (auto simp: sorted_wrt_filter sorted_wrt_map)
  then have "linker_ok ?obj'" using b len by (auto simp: linker_ok_def)
  moreover have "linked_code libs ?code ?refs ! i = ?code ! i"
    if "i < length ?code" "\<forall>p n. (p, n) \<in> set ?refs \<and> matchLibrary n libs \<noteq> None \<longrightarrow> i < p \<or> p + 20 \<le> i" for i
    using that by (intro linked_code_outside [OF assms(1) b]) auto
  ultimately show ?thesis
    using link_eq [OF assms(1,2)] len linked_code_inside [OF assms(1) b ok assms(3)] by auto
qed

theorem LinkerObject_link_resolves_witness:
  "let libs = [(''lib'', replicate 21 7)];
       obj = LinkerObject_empty\<lparr>bytecode := replicate 22 0, linkReferences := [(1, ''a.sol:lib'')]\<rparr>
   in \<exists>obj'. LinkerObject_link libs obj = Inr obj' \<and> linkReferences obj' = [] \<and>
        bytecode obj' ! 20 = 7 \<and> bytecode obj' ! 21 = 0"
proof -
  let ?libs = "[(''lib'', replicate 21 7)] :: (string \<times> bytes) list" and
    ?obj = "LinkerObject_empty\<lparr>bytecode := replicate 22 0, linkReferences := [(1, ''a.sol:lib'')]\<rparr>"
  have "libs_ok ?libs" "linker_ok ?obj" "refs_apart (linkReferences ?obj)"
    by (simp_all add: libs_ok_def linker_ok_def refs_apart_def LinkerObject_empty_def)
  from LinkerObject_link_resolves [OF this] obtain obj' where
    o: "LinkerObject_link ?libs ?obj = Inr obj'"
      "linkReferences obj' = filter (\<lambda>(p, n). matchLibrary n ?libs = None) (linkReferences ?obj)"
      "\<forall>p n a k. (p, n) \<in> set (linkReferences ?obj) \<and> matchLibrary n ?libs = Some a \<and> k < 20 \<longrightarrow>
         bytecode obj' ! (p + k) = a ! k"
      "\<forall>i < length (bytecode ?obj).
         (\<forall>p n. (p, n) \<in> set (linkReferences ?obj) \<and> matchLibrary n ?libs \<noteq> None \<longrightarrow> i < p \<or> p + 20 \<le> i) \<longrightarrow>
         bytecode obj' ! i = bytecode ?obj ! i"
    by blast
  have m: "matchLibrary ''a.sol:lib'' ?libs = Some (replicate 21 7)"
    by (simp add: matchLibrary_def map_find_def)
  have "bytecode obj' ! (1 + 19) = 7"
    using o(3) [rule_format, of 1 "''a.sol:lib''" "replicate 21 7" 19] m by (simp add: LinkerObject_empty_def)
  moreover have "bytecode obj' ! 21 = 0"
    using o(4) [rule_format, of 21] by (simp add: LinkerObject_empty_def)
  moreover have "linkReferences obj' = []" using o(2) m by (simp add: LinkerObject_empty_def)
  ultimately show ?thesis using o(1) by (simp add: Let_def)
qed



end
