(* ===== verification/Assembly.thy ===== *)
theory Assembly
  imports AssemblyItem LinkerObject "HOL-Library.List_Lexorder" "HOL-Library.Char_ord"
begin

text \<open>
  The assembly object (\<^verbatim>\<open>libevmasm/Assembly.h\<close>, \<^verbatim>\<open>Assembly.cpp\<close>): its state, the operations that build
  it, sub-assembly paths and the size estimate. Sub-assemblies are a list of assemblies (the shared
  pointers of the code, never null); everything else is a record. Keys of type \<open>h256\<close> are byte strings,
  whose library order is that of \<open>FixedHash::operator<\<close>.

  Some functions that the code calls are defined outside the repository; they are the fields of
  \<open>External\<close>: Keccak-256, two tests on source locations, and the joining of strings.
\<close>

section \<open>State\<close>

record External =
  ext_keccak256 :: "bytes \<Rightarrow> bytes"
  ext_isValid :: "SourceLocation \<Rightarrow> bool"
  ext_hasText :: "SourceLocation \<Rightarrow> bool"
  ext_joinHumanReadable :: "string list \<Rightarrow> string \<Rightarrow> string"

record AssemblyState =
  m_invalid :: bool
  m_usedTags :: u32
  m_namedTags :: "(string \<times> u64) list"
  m_items :: "AssemblyItem list"
  m_data :: "(bytes \<times> bytes) list"
  m_auxiliaryData :: bytes
  m_strings :: "(bytes \<times> string) list"
  m_libraries :: "(bytes \<times> string) list"
  m_immutables :: "(bytes \<times> string) list"
  m_subPaths :: "(nat list \<times> nat) list"
  m_assembledObject :: LinkerObject
  m_tagPositionsInBytecode :: "nat list"
  m_deposit :: int
  m_currentSourceLocation :: SourceLocation
  m_debugInfos :: "(nat \<times> string) list"
  m_currentModifierDepth :: u64

datatype Assembly = Assembly (m_state: AssemblyState) (m_subs: "Assembly list")

definition AssemblyState_default :: AssemblyState where
  "AssemblyState_default =
     \<lparr>m_invalid = False, m_usedTags = 1, m_namedTags = [], m_items = [], m_data = [], m_auxiliaryData = [],
      m_strings = [], m_libraries = [], m_immutables = [], m_subPaths = [],
      m_assembledObject = LinkerObject_empty, m_tagPositionsInBytecode = [], m_deposit = 0,
      m_currentSourceLocation = SourceLocation_default, m_debugInfos = [], m_currentModifierDepth = 0\<rparr>"

definition Assembly_default :: Assembly where
  "Assembly_default = Assembly AssemblyState_default []"

text \<open>Updating the own state of an assembly.\<close>

definition upd :: "(AssemblyState \<Rightarrow> AssemblyState) \<Rightarrow> Assembly \<Rightarrow> Assembly" where
  "upd f a = Assembly (f (m_state a)) (m_subs a)"

lemma upd_sel [simp]: "m_state (upd f a) = f (m_state a)" "m_subs (upd f a) = m_subs a"
  by (simp_all add: upd_def)

section \<open>Sub-assembly paths\<close>

definition decodeSubPath :: "Assembly \<Rightarrow> nat \<Rightarrow> nat list result" where
  "decodeSubPath a subObjectId =
     (if subObjectId < length (m_subs a) then Inr [subObjectId]
      else
        case List.find (\<lambda>(path, i). i = subObjectId) (m_subPaths (m_state a)) of
          None \<Rightarrow> Inl (AssemblyException '''')
        | Some (path, i) \<Rightarrow> Inr path)"

definition encodeSubPath :: "nat list \<Rightarrow> Assembly \<Rightarrow> (nat \<times> Assembly) result" where
  "encodeSubPath subPath a =
     bindE (assertThrow (subPath \<noteq> []) (AssemblyException '''')) (\<lambda>_.
       if length subPath = 1 then
         bindE (assertThrow (subPath ! 0 < length (m_subs a)) (AssemblyException '''')) (\<lambda>_. Inr (subPath ! 0, a))
       else
         case map_find subPath (m_subPaths (m_state a)) of
           Some i \<Rightarrow> Inr (i, a)
         | None \<Rightarrow>
             let objectId = size_t_max - length (m_subPaths (m_state a)) in
             bindE (assertThrow (objectId \<ge> length (m_subs a)) (AssemblyException '''')) (\<lambda>_.
               Inr (objectId, upd (\<lambda>s. s\<lparr>m_subPaths := map_put subPath objectId (m_subPaths s)\<rparr>) a)))"

text \<open>The descent along a path; \<open>at()\<close> throws for a number without a sub-assembly.\<close>

fun sub_at_path :: "Assembly \<Rightarrow> nat list \<Rightarrow> Assembly result" where
  "sub_at_path a [] = Inr a"
| "sub_at_path a (i # path) = (if i < length (m_subs a) then sub_at_path (m_subs a ! i) path else Inl OutOfRange)"

text \<open>
  \<open>currentAssembly != this\<close> fails exactly for an empty path, since no assembly is its own descendant.
\<close>

definition subAssemblyById :: "Assembly \<Rightarrow> nat \<Rightarrow> Assembly result" where
  "subAssemblyById a subId =
     bindE (decodeSubPath a subId) (\<lambda>subIds.
     bindE (sub_at_path a subIds) (\<lambda>s.
     bindE (assertThrow (subIds \<noteq> []) (AssemblyException '''')) (\<lambda>_. Inr s)))"

section \<open>Building assemblies\<close>

text \<open>The text of an item of an assembly, with the paths of that assembly.\<close>

definition Assembly_itemText :: "External \<Rightarrow> Assembly \<Rightarrow> AssemblyItem \<Rightarrow> string result" where
  "Assembly_itemText ext a =
     toAssemblyText (\<lambda>i. bindE (decodeSubPath a (unat i)) (\<lambda>p. Inr (map word_of_nat p))) (ext_joinHumanReadable ext)"

definition Assembly_append :: "External \<Rightarrow> AssemblyItem \<Rightarrow> Assembly \<Rightarrow> (AssemblyItem \<times> Assembly) result" where
  "Assembly_append ext i a =
     (let s = m_state a in
      if m_deposit s < 0 then
        bindE (Assembly_itemText ext a i) (\<lambda>text.
          Inl (AssemblyException (''Stack underflow while appending '' @ [CHR 0x27] @ text @ [CHR 0x27] @
               ''. Deposit should be >=0 but get '' @ decimal_int (m_deposit s))))
      else
        let i1 = (if \<not> ext_isValid ext (it_location i) \<and> ext_isValid ext (m_currentSourceLocation s)
                  then i\<lparr>it_location := m_currentSourceLocation s\<rparr> else i);
            i2 = i1\<lparr>it_modifierDepth := m_currentModifierDepth s\<rparr>
        in Inr (i2, upd (\<lambda>s. s\<lparr>m_deposit := m_deposit s + sint (ucast (item_deposit i) :: u32),
                               m_items := m_items s @ [i2]\<rparr>) a))"

definition Assembly_newTagOf :: "AssemblyItemType \<Rightarrow> string \<Rightarrow> Assembly \<Rightarrow> (AssemblyItem \<times> Assembly) result" where
  "Assembly_newTagOf type description a =
     bindE (assertThrow (m_usedTags (m_state a) < 0xffffffff) (AssemblyException '''')) (\<lambda>_.
       Inr (AssemblyItem_make type (ucast (m_usedTags (m_state a))) SourceLocation_default description,
            upd (\<lambda>s. s\<lparr>m_usedTags := m_usedTags s + 1\<rparr>) a))"

definition newTag :: "string \<Rightarrow> Assembly \<Rightarrow> (AssemblyItem \<times> Assembly) result" where
  "newTag = Assembly_newTagOf Tag"

definition newPushTag :: "string \<Rightarrow> Assembly \<Rightarrow> (AssemblyItem \<times> Assembly) result" where
  "newPushTag = Assembly_newTagOf PushTag"

definition namedTag :: "string \<Rightarrow> Assembly \<Rightarrow> (AssemblyItem \<times> Assembly) result" where
  "namedTag name a =
     bindE (assertThrow (name \<noteq> '''') (AssemblyException ''Empty named tag.'')) (\<lambda>_.
     bindE (case map_find name (m_namedTags (m_state a)) of
              Some _ \<Rightarrow> Inr a
            | None \<Rightarrow>
                bindE (newTag name a) (\<lambda>(t, a). bindE (item_data t) (\<lambda>d.
                  Inr (upd (\<lambda>s. s\<lparr>m_namedTags := map_put name (ucast d) (m_namedTags s)\<rparr>) a)))) (\<lambda>a.
     bindE (map_at name (m_namedTags (m_state a))) (\<lambda>t.
       Inr (AssemblyItem_make Tag (ucast t) SourceLocation_default name, a))))"

definition newData :: "bytes \<Rightarrow> Assembly \<Rightarrow> AssemblyItem \<times> Assembly" where
  "newData d a =
     (let h = blake2b_string (asString d)
      in (AssemblyItem_make PushData (FixedHash_arith h) SourceLocation_default '''',
          upd (\<lambda>s. s\<lparr>m_data := map_put h d (m_data s)\<rparr>) a))"

definition Assembly_data :: "Assembly \<Rightarrow> bytes \<Rightarrow> bytes result" where
  "Assembly_data a i = map_at i (m_data (m_state a))"

definition newSub :: "Assembly \<Rightarrow> Assembly \<Rightarrow> AssemblyItem \<times> Assembly" where
  "newSub sub a =
     (let a' = Assembly (m_state a) (m_subs a @ [sub])
      in (AssemblyItem_make PushSub (word_of_nat (length (m_subs a') - 1)) SourceLocation_default '''', a'))"

definition Assembly_sub :: "Assembly \<Rightarrow> nat \<Rightarrow> Assembly result" where
  "Assembly_sub a i = (if i < length (m_subs a) then Inr (m_subs a ! i) else Inl OutOfRange)"

definition newPushSubSize :: "u256 \<Rightarrow> AssemblyItem" where
  "newPushSubSize subId = AssemblyItem_make PushSubSize subId SourceLocation_default ''''"

definition newPushLibraryAddress :: "External \<Rightarrow> string \<Rightarrow> Assembly \<Rightarrow> AssemblyItem \<times> Assembly" where
  "newPushLibraryAddress ext identifier a =
     (let h = ext_keccak256 ext (asBytes identifier)
      in (AssemblyItem_make PushLibraryAddress (FixedHash_arith h) SourceLocation_default '''',
          upd (\<lambda>s. s\<lparr>m_libraries := map_put h identifier (m_libraries s)\<rparr>) a))"

definition newPushImmutable :: "string \<Rightarrow> Assembly \<Rightarrow> AssemblyItem \<times> Assembly" where
  "newPushImmutable identifier a =
     (let h = blake2b_string identifier
      in (AssemblyItem_make PushImmutable (FixedHash_arith h) SourceLocation_default '''',
          upd (\<lambda>s. s\<lparr>m_immutables := map_put h identifier (m_immutables s)\<rparr>) a))"

definition newImmutableAssignment :: "string \<Rightarrow> Assembly \<Rightarrow> AssemblyItem \<times> Assembly" where
  "newImmutableAssignment identifier a =
     (let h = blake2b_string identifier
      in (AssemblyItem_make AssignImmutable (FixedHash_arith h) SourceLocation_default '''',
          upd (\<lambda>s. s\<lparr>m_immutables := map_put h identifier (m_immutables s)\<rparr>) a))"

definition appendData :: "External \<Rightarrow> bytes \<Rightarrow> Assembly \<Rightarrow> (AssemblyItem \<times> Assembly) result" where
  "appendData ext d a = (let (i, a) = newData d a in Assembly_append ext i a)"

definition appendProgramSize :: "External \<Rightarrow> Assembly \<Rightarrow> (AssemblyItem \<times> Assembly) result" where
  "appendProgramSize ext a = Assembly_append ext (AssemblyItem_make PushProgramSize 0 SourceLocation_default '''') a"

definition appendLibraryAddress :: "External \<Rightarrow> string \<Rightarrow> Assembly \<Rightarrow> (AssemblyItem \<times> Assembly) result" where
  "appendLibraryAddress ext identifier a =
     (let (i, a) = newPushLibraryAddress ext identifier a in Assembly_append ext i a)"

definition appendImmutable :: "External \<Rightarrow> string \<Rightarrow> Assembly \<Rightarrow> (AssemblyItem \<times> Assembly) result" where
  "appendImmutable ext identifier a = (let (i, a) = newPushImmutable identifier a in Assembly_append ext i a)"

definition appendImmutableAssignment :: "External \<Rightarrow> string \<Rightarrow> Assembly \<Rightarrow> (AssemblyItem \<times> Assembly) result" where
  "appendImmutableAssignment ext identifier a =
     (let (i, a) = newImmutableAssignment identifier a in Assembly_append ext i a)"

definition appendInstruction :: "External \<Rightarrow> Instruction \<Rightarrow> Assembly \<Rightarrow> (AssemblyItem \<times> Assembly) result" where
  "appendInstruction ext i a = Assembly_append ext (AssemblyItem_of_instruction i SourceLocation_default) a"

definition appendJump :: "External \<Rightarrow> Assembly \<Rightarrow> (AssemblyItem \<times> Assembly) result" where
  "appendJump ext a =
     bindE (newPushTag '''' a) (\<lambda>(t, a).
     bindE (Assembly_append ext t a) (\<lambda>(ret, a).
     bindE (appendInstruction ext Instruction_JUMP a) (\<lambda>(_, a). Inr (ret, a))))"

definition appendJumpI :: "External \<Rightarrow> string \<Rightarrow> Assembly \<Rightarrow> (AssemblyItem \<times> Assembly) result" where
  "appendJumpI ext description a =
     bindE (newPushTag description a) (\<lambda>(t, a).
     bindE (Assembly_append ext t a) (\<lambda>(ret, a).
     bindE (appendInstruction ext Instruction_JUMPI a) (\<lambda>(_, a). Inr (ret, a))))"

definition appendJumpTo :: "External \<Rightarrow> AssemblyItem \<Rightarrow> Assembly \<Rightarrow> (AssemblyItem \<times> Assembly) result" where
  "appendJumpTo ext tag a =
     bindE (item_pushTag tag) (\<lambda>t.
     bindE (Assembly_append ext t a) (\<lambda>(ret, a).
     bindE (appendInstruction ext Instruction_JUMP a) (\<lambda>(_, a). Inr (ret, a))))"

definition appendJumpITo :: "External \<Rightarrow> AssemblyItem \<Rightarrow> Assembly \<Rightarrow> (AssemblyItem \<times> Assembly) result" where
  "appendJumpITo ext tag a =
     bindE (item_pushTag tag) (\<lambda>t.
     bindE (Assembly_append ext t a) (\<lambda>(ret, a).
     bindE (appendInstruction ext Instruction_JUMPI a) (\<lambda>(_, a). Inr (ret, a))))"

definition appendSubroutine :: "External \<Rightarrow> Assembly \<Rightarrow> Assembly \<Rightarrow> (AssemblyItem \<times> Assembly) result" where
  "appendSubroutine ext sub a =
     (let (s, a) = newSub sub a in
      bindE (item_data s) (\<lambda>d.
      bindE (Assembly_append ext (newPushSubSize (ucast (ucast d :: u64))) a) (\<lambda>(_, a). Inr (s, a))))"

definition pushSubroutineSize :: "External \<Rightarrow> u64 \<Rightarrow> Assembly \<Rightarrow> (AssemblyItem \<times> Assembly) result" where
  "pushSubroutineSize ext subRoutine a = Assembly_append ext (newPushSubSize (ucast subRoutine)) a"

definition pushSubroutineOffset :: "External \<Rightarrow> u64 \<Rightarrow> Assembly \<Rightarrow> (AssemblyItem \<times> Assembly) result" where
  "pushSubroutineOffset ext subRoutine a =
     Assembly_append ext (AssemblyItem_make PushSub (ucast subRoutine) SourceLocation_default '''') a"

definition appendAuxiliaryDataToEnd :: "bytes \<Rightarrow> Assembly \<Rightarrow> Assembly" where
  "appendAuxiliaryDataToEnd d = upd (\<lambda>s. s\<lparr>m_auxiliaryData := m_auxiliaryData s @ d\<rparr>)"

definition appendDebugInfo :: "string \<Rightarrow> Assembly \<Rightarrow> Assembly" where
  "appendDebugInfo debugInfo a =
     (let pos = length (m_items (m_state a));
          message = (case map_find pos (m_debugInfos (m_state a)) of
                       None \<Rightarrow> debugInfo
                     | Some m \<Rightarrow> m @ [CHR 0x0a] @ ''  // '' @ debugInfo)
      in upd (\<lambda>s. s\<lparr>m_debugInfos := map_put pos message (m_debugInfos s)\<rparr>) a)"

text \<open>The deposit is changed before it is checked.\<close>

definition adjustDeposit :: "int \<Rightarrow> Assembly \<Rightarrow> Assembly result" where
  "adjustDeposit adjustment a =
     (let a = upd (\<lambda>s. s\<lparr>m_deposit := m_deposit s + adjustment\<rparr>) a
      in bindE (assertThrow (m_deposit (m_state a) \<ge> 0) InvalidDeposit) (\<lambda>_. Inr a))"

definition setDeposit :: "int \<Rightarrow> Assembly \<Rightarrow> Assembly result" where
  "setDeposit deposit a =
     (let a = upd (\<lambda>s. s\<lparr>m_deposit := deposit\<rparr>) a
      in bindE (assertThrow (m_deposit (m_state a) \<ge> 0) InvalidDeposit) (\<lambda>_. Inr a))"

definition setSourceLocation :: "SourceLocation \<Rightarrow> Assembly \<Rightarrow> Assembly" where
  "setSourceLocation location = upd (\<lambda>s. s\<lparr>m_currentSourceLocation := location\<rparr>)"

definition markAsInvalid :: "Assembly \<Rightarrow> Assembly" where
  "markAsInvalid = upd (\<lambda>s. s\<lparr>m_invalid := True\<rparr>)"

section \<open>The size estimate\<close>

text \<open>
  The estimate grows with the assumed size of a tag, so the loop tries larger and larger sizes. The sum is
  a 64-bit \<open>size_t\<close> and needs at most eight bytes, which bounds the search; the result is cast to
  \<open>unsigned\<close>.
\<close>

definition Assembly_codeSize :: "AssemblyState \<Rightarrow> nat \<Rightarrow> nat result" where
  "Assembly_codeSize s tagSize =
     bindE (items_bytesRequired (m_items s) tagSize) (\<lambda>n.
       Inr ((1 + sum_list (map (\<lambda>(h, d). length d) (m_data s)) + n) mod 2 ^ 64))"

function Assembly_bytesRequired :: "AssemblyState \<Rightarrow> nat \<Rightarrow> nat result" where
  "Assembly_bytesRequired s tagSize =
     bindE (Assembly_codeSize s tagSize) (\<lambda>ret.
       if bytesRequired ret \<le> tagSize then Inr (ret mod 2 ^ 32)
       else Assembly_bytesRequired s (tagSize + 1))"
  by pat_completeness auto

termination
proof (relation "measure (\<lambda>(s, tagSize). 9 - tagSize)", simp)
  fix s tagSize ret
  assume "Assembly_codeSize s tagSize = Inr ret" and t: "\<not> bytesRequired ret \<le> tagSize"
  then have "ret < 256 ^ 8" by (auto simp: Assembly_codeSize_def result_simps)
  then have "bytesRequired ret \<le> 8" by (simp only: bytesRequired_le_iff)
  with t show "((s, tagSize + 1), (s, tagSize)) \<in> measure (\<lambda>(s, tagSize). 9 - tagSize)" by simp
qed

declare Assembly_bytesRequired.simps [simp del]

end
