(* ===== verification/Assemble.thy ===== *)
theory Assemble
  imports Assembly
begin

text \<open>
  The assembler \<open>Assembly::assemble\<close> (\<^verbatim>\<open>libevmasm/Assembly.cpp\<close>). It emits the items in order with empty
  space for values that are not yet known, then fills in the offsets of sub-assemblies, the positions of
  tags, the offsets of data and the program size. The result is cached in the assembly.
\<close>

section \<open>The state of the emission loop\<close>

record EmitState =
  e_ret :: LinkerObject
  e_tagPositions :: "nat list"
  e_tagRef :: "(nat \<times> (u64 \<times> u64)) list"
  e_dataRef :: "(bytes \<times> nat) list"
  e_subRef :: "(nat \<times> nat) list"
  e_sizeRef :: "nat list"
  e_immutables :: "(u256 \<times> (string \<times> nat list)) list"
  e_items :: "AssemblyItem list"

definition h256_of_u256 :: "u256 \<Rightarrow> bytes" where
  "h256_of_u256 v = FixedHash_of_arith 32 (unat v)"

text \<open>\<open>operator[]\<close> of the map of immutables creates an empty entry.\<close>

definition immutables_index :: "u256 \<Rightarrow> (u256 \<times> (string \<times> nat list)) list \<Rightarrow>
    (string \<times> nat list) \<times> (u256 \<times> (string \<times> nat list)) list" where
  "immutables_index k m =
     (case map_find k m of Some v \<Rightarrow> (v, m) | None \<Rightarrow> (('''', []), map_put k ('''', []) m))"

text \<open>A \<open>bytesRef\<close> to \<open>n\<close> bytes from \<open>p\<close> on, filled with a number.\<close>

definition write_be :: "bytes \<Rightarrow> nat \<Rightarrow> nat \<Rightarrow> nat \<Rightarrow> bytes" where
  "write_be code p n v = overwrite code p (toBigEndian v (take n (drop p code)))"

text \<open>Emitting a push of the number \<open>v\<close> in \<open>b\<close> bytes.\<close>

definition push_number :: "nat \<Rightarrow> nat \<Rightarrow> bytes \<Rightarrow> bytes result" where
  "push_number b v code =
     bindE (pushInstruction (word_of_nat b)) (\<lambda>i.
       let code = code @ [i]; code = code @ replicate b 0
       in Inr (write_be code (length code - b) b v))"

fun pushString_loop :: "nat \<Rightarrow> string \<Rightarrow> bytes \<Rightarrow> nat \<times> bytes" where
  "pushString_loop ii [] code = (ii, code)"
| "pushString_loop ii (j # js) code =
     (if ii + 1 > 32 then (ii + 1, code) else pushString_loop (ii + 1) js (code @ [of_char j]))"

definition assignImmutable_step :: "nat list \<Rightarrow> bytes \<Rightarrow> nat \<Rightarrow> bytes result" where
  "assignImmutable_step offsets code i =
     (let code = (if i \<noteq> length offsets - 1 then code @ [Instruction_DUP2, Instruction_DUP2] else code);
          offsetBytes = toCompactBigEndian (unat (word_of_nat (offsets ! i) :: u256)) 0
      in bindE (pushInstruction (word_of_nat (length offsetBytes))) (\<lambda>p.
           Inr (code @ [p] @ offsetBytes @ [Instruction_ADD, Instruction_MSTORE])))"

definition assignImmutable_code :: "nat list \<Rightarrow> bytes \<Rightarrow> bytes result" where
  "assignImmutable_code offsets code =
     bindE (foldE (assignImmutable_step offsets) code [0..<length offsets]) (\<lambda>code.
       Inr (if offsets = [] then code @ [Instruction_POP, Instruction_POP] else code))"

abbreviation e_code :: "EmitState \<Rightarrow> bytes" where
  "e_code e \<equiv> bytecode (e_ret e)"

definition set_code :: "bytes \<Rightarrow> EmitState \<Rightarrow> EmitState" where
  "set_code code e = e\<lparr>e_ret := (e_ret e)\<lparr>bytecode := code\<rparr>\<rparr>"

section \<open>Emitting items\<close>

text \<open>The constants of one assembly: its state, the assembled sub-assemblies, and the two reference sizes.\<close>

record EmitEnv =
  env_self :: Assembly
  env_bytesPerTag :: nat
  env_tagPush :: Instruction
  env_bytesPerDataRef :: nat
  env_dataRefPush :: Instruction

text \<open>
  \<open>subAssemblyById(id)->assemble()\<close>: the sub-assemblies have been assembled before, so that this returns
  their cached object.
\<close>

definition assembledSub :: "EmitEnv \<Rightarrow> nat \<Rightarrow> LinkerObject result" where
  "assembledSub env subId =
     bindE (subAssemblyById (env_self env) subId) (\<lambda>s. Inr (m_assembledObject (m_state s)))"

text \<open>The position of the invalid jump destination is that of the first item that is no tag.\<close>

definition emit_invalidTag :: "AssemblyItem \<Rightarrow> EmitState \<Rightarrow> EmitState result" where
  "emit_invalidTag i e =
     (if it_type i \<noteq> Tag then
        (case e_tagPositions e of
           [] \<Rightarrow> Inl UndefinedBehaviour
         | p # ps \<Rightarrow> Inr (if p = size_t_max then e\<lparr>e_tagPositions := length (e_code e) # ps\<rparr> else e))
      else Inr e)"

definition emit_tag :: "u256 \<Rightarrow> u64 \<Rightarrow> EmitState \<Rightarrow> EmitState result" where
  "emit_tag d subId e =
     bindE (assertThrow (d \<noteq> 0) (AssemblyException ''Invalid tag position.'')) (\<lambda>_.
     bindE (assertThrow (subId = size_max) (AssemblyException ''Foreign tag.'')) (\<lambda>_.
     bindE (assertThrow (length (e_code e) < 0xffffffff) (AssemblyException ''Tag too large.'')) (\<lambda>_.
       let t = unat (ucast d :: u64) in
       if t \<ge> length (e_tagPositions e) then Inl UndefinedBehaviour
       else
         bindE (assertThrow (e_tagPositions e ! t = size_t_max) (AssemblyException ''Duplicate tag position.'')) (\<lambda>_.
           Inr (set_code (e_code e @ [Instruction_JUMPDEST])
                  (e\<lparr>e_tagPositions := (e_tagPositions e)[t := length (e_code e)]\<rparr>))))))"

text \<open>One iteration of the switch; the item is stored back because \<open>setPushedValue\<close> changes it.\<close>

definition emit_switch :: "EmitEnv \<Rightarrow> AssemblyItem \<Rightarrow> EmitState \<Rightarrow> (AssemblyItem \<times> EmitState) result" where
  "emit_switch env i e =
     (let s = m_state (env_self env); code = e_code e; nt = env_bytesPerTag env; nd = env_bytesPerDataRef env in
      case it_type i of
        Operation \<Rightarrow> bindE (item_instruction i) (\<lambda>op. Inr (i, set_code (code @ [op]) e))
      | PushString \<Rightarrow>
          bindE (item_data i) (\<lambda>d. bindE (map_at (h256_of_u256 d) (m_strings s)) (\<lambda>str.
            let (ii, code) = pushString_loop 0 str (code @ [Instruction_PUSH32])
            in Inr (i, set_code (code @ replicate (32 - ii) 0) e)))
      | Push \<Rightarrow>
          bindE (item_data i) (\<lambda>d.
          bindE (push_number (max 1 (bytesRequired (unat d))) (unat d) code) (\<lambda>code. Inr (i, set_code code e)))
      | PushTag \<Rightarrow>
          (let code = code @ [env_tagPush env] in
           bindE (splitForeignPushTag i) (\<lambda>ref.
             Inr (i, set_code (code @ replicate nt 0)
                       (e\<lparr>e_tagRef := map_put (length code) ref (e_tagRef e)\<rparr>))))
      | PushData \<Rightarrow>
          (let code = code @ [env_dataRefPush env] in
           bindE (item_data i) (\<lambda>d.
             Inr (i, set_code (code @ replicate nd 0)
                       (e\<lparr>e_dataRef := multimap_insert (h256_of_u256 d) (length code) (e_dataRef e)\<rparr>))))
      | PushSub \<Rightarrow>
          bindE (item_data i) (\<lambda>d.
          bindE (assertThrow (unat d \<le> size_t_max) (AssemblyException '''')) (\<lambda>_.
            let code = code @ [env_dataRefPush env]
            in Inr (i, set_code (code @ replicate nd 0)
                         (e\<lparr>e_subRef := multimap_insert (unat d) (length code) (e_subRef e)\<rparr>))))
      | PushSubSize \<Rightarrow>
          bindE (item_data i) (\<lambda>d.
          bindE (assertThrow (unat d \<le> size_t_max) (AssemblyException '''')) (\<lambda>_.
          bindE (assembledSub env (unat d)) (\<lambda>obj.
            let n = length (bytecode obj) in
            bindE (push_number (max 1 (bytesRequired n)) n code) (\<lambda>code.
              Inr (setPushedValue (word_of_nat n) i, set_code code e)))))
      | PushProgramSize \<Rightarrow>
          (let code = code @ [env_dataRefPush env]
           in Inr (i, set_code (code @ replicate nd 0) (e\<lparr>e_sizeRef := e_sizeRef e @ [length code]\<rparr>)))
      | PushLibraryAddress \<Rightarrow>
          (let code = code @ [Instruction_PUSH21] in
           bindE (item_data i) (\<lambda>d. bindE (map_at (h256_of_u256 d) (m_libraries s)) (\<lambda>name.
             Inr (i, e\<lparr>e_ret := (e_ret e)\<lparr>bytecode := code @ replicate 21 0,
                        linkReferences := map_put (length code) name (linkReferences (e_ret e))\<rparr>\<rparr>))))
      | PushImmutable \<Rightarrow>
          (let code = code @ [Instruction_PUSH32] in
           bindE (item_data i) (\<lambda>d. bindE (map_at (h256_of_u256 d) (m_immutables s)) (\<lambda>name.
             let ((_, offsets), refs) = immutables_index d (immutableReferences (e_ret e))
             in Inr (i, e\<lparr>e_ret := (e_ret e)\<lparr>bytecode := code @ replicate 32 0,
                           immutableReferences := map_put d (name, offsets @ [length code]) refs\<rparr>\<rparr>))))
      | AssignImmutable \<Rightarrow>
          bindE (item_data i) (\<lambda>d.
            let ((_, offsets), refs) = immutables_index d (e_immutables e) in
            bindE (assignImmutable_code offsets code) (\<lambda>code.
              Inr (i, set_code code (e\<lparr>e_immutables := map_erase d refs\<rparr>))))
      | PushDeployTimeAddress \<Rightarrow> Inr (i, set_code (code @ [Instruction_PUSH21] @ replicate 21 0) e)
      | Tag \<Rightarrow>
          bindE (item_data i) (\<lambda>d. bindE (splitForeignPushTag i) (\<lambda>(subId, _).
          bindE (emit_tag d subId e) (\<lambda>e. Inr (i, e))))
      | UndefinedItem \<Rightarrow> Inl InvalidOpcode)"

definition emit_item :: "EmitEnv \<Rightarrow> EmitState \<Rightarrow> AssemblyItem \<Rightarrow> EmitState result" where
  "emit_item env e i =
     bindE (emit_invalidTag i e) (\<lambda>e.
     bindE (emit_switch env i e) (\<lambda>(i, e). Inr (e\<lparr>e_items := e_items e @ [i]\<rparr>)))"

section \<open>Filling in the references\<close>

definition patch_sub :: "EmitEnv \<Rightarrow> LinkerObject \<Rightarrow> nat \<times> nat \<Rightarrow> LinkerObject result" where
  "patch_sub env ret = (\<lambda>(subIdPath, bytecodeOffset).
     let ret = ret\<lparr>bytecode := write_be (bytecode ret) bytecodeOffset (env_bytesPerDataRef env) (length (bytecode ret))\<rparr>
     in bindE (assembledSub env subIdPath) (\<lambda>obj. Inr (LinkerObject_append ret obj)))"

definition patch_tag :: "EmitEnv \<Rightarrow> nat list \<Rightarrow> LinkerObject \<Rightarrow> nat \<times> (u64 \<times> u64) \<Rightarrow> LinkerObject result" where
  "patch_tag env ownPositions ret = (\<lambda>(first, (subId, tagId)).
     bindE (assertThrow (subId = size_max \<or> unat subId < length (m_subs (env_self env)))
              (AssemblyException (''Invalid sub id: '' @ decimal (unat subId)))) (\<lambda>_.
       let tagPositions =
             (if subId = size_max then ownPositions
              else m_tagPositionsInBytecode (m_state (m_subs (env_self env) ! unat subId)))
       in
       bindE (assertThrow (unat tagId < length tagPositions)
                (AssemblyException (''Reference to non-existing tag: '' @ decimal (unat tagId)))) (\<lambda>_.
         let pos = tagPositions ! unat tagId in
         bindE (assertThrow (pos \<noteq> size_t_max)
                  (AssemblyException (''Reference to tag without position: '' @ decimal (unat tagId)))) (\<lambda>_.
         bindE (assertThrow (bytesRequired pos \<le> env_bytesPerTag env)
                  (AssemblyException ''Tag too large for reserved space.'')) (\<lambda>_.
           Inr (ret\<lparr>bytecode := write_be (bytecode ret) first (env_bytesPerTag env) pos\<rparr>))))))"

definition patch_data :: "EmitEnv \<Rightarrow> (bytes \<times> nat) list \<Rightarrow> LinkerObject \<Rightarrow> bytes \<times> bytes \<Rightarrow> LinkerObject" where
  "patch_data env dataRef ret = (\<lambda>(h, d).
     let references = filter (\<lambda>(h', pos). h' = h) dataRef in
     if references = [] then ret
     else
       let ret = foldl (\<lambda>ret (h', pos).
                   ret\<lparr>bytecode := write_be (bytecode ret) pos (env_bytesPerDataRef env) (length (bytecode ret))\<rparr>)
                   ret references
       in ret\<lparr>bytecode := bytecode ret @ d\<rparr>)"

definition patch_size :: "EmitEnv \<Rightarrow> LinkerObject \<Rightarrow> nat \<Rightarrow> LinkerObject" where
  "patch_size env ret pos =
     ret\<lparr>bytecode := write_be (bytecode ret) pos (env_bytesPerDataRef env) (length (bytecode ret))\<rparr>"

section \<open>The preparation\<close>

text \<open>
  The first loop collects the immutables that the sub-assemblies read, and the start value for the size of
  a tag: the code takes the largest tag position in a sub-assembly for it.
\<close>

definition collect_sub :: "(u256 \<times> (string \<times> nat list)) list \<times> nat \<Rightarrow> LinkerObject \<times> Assembly \<Rightarrow>
    ((u256 \<times> (string \<times> nat list)) list \<times> nat) result" where
  "collect_sub = (\<lambda>(immutableReferencesBySub, subTagSize) (linkerObject, sub).
     bindE (if immutableReferences linkerObject \<noteq> [] then
              bindE (assertThrow (immutableReferencesBySub = [])
                       (AssemblyException ''More than one sub-assembly references immutables.'')) (\<lambda>_.
                Inr (immutableReferences linkerObject))
            else Inr immutableReferencesBySub) (\<lambda>immutableReferencesBySub.
       Inr (immutableReferencesBySub,
            foldl (\<lambda>subTagSize tagPos. if tagPos \<noteq> size_t_max \<and> tagPos > subTagSize then tagPos else subTagSize)
              subTagSize (m_tagPositionsInBytecode (m_state sub)))))"

definition count_immutables :: "(u256 \<times> (string \<times> nat list)) list \<Rightarrow> AssemblyItem \<Rightarrow>
    (AssemblyItem \<times> (u256 \<times> (string \<times> nat list)) list) result" where
  "count_immutables refs i =
     (if it_type i = AssignImmutable then
        bindE (item_data i) (\<lambda>d.
          let ((_, offsets), refs) = immutables_index d refs
          in Inr (setImmutableOccurrences (length offsets) i, refs))
      else Inr (i, refs))"

definition prepare_items :: "(u256 \<times> (string \<times> nat list)) list \<Rightarrow> AssemblyItem list \<Rightarrow>
    (AssemblyItem list \<times> (u256 \<times> (string \<times> nat list)) list) result" where
  "prepare_items refs items =
     bindE (foldE (\<lambda>(done, refs) i. bindE (count_immutables refs i) (\<lambda>(i, refs). Inr (done @ [i], refs)))
              ([], refs) items) (\<lambda>(items, refs).
       let setsImmutables = list_ex (\<lambda>i. it_type i = AssignImmutable) items;
           pushesImmutables = list_ex (\<lambda>i. it_type i = PushImmutable) items
       in if setsImmutables \<or> pushesImmutables then
            bindE (assertThrow (setsImmutables \<noteq> pushesImmutables)
                     (AssemblyException ''Cannot push and assign immutables in the same assembly subroutine.'')) (\<lambda>_.
              Inr (items, refs))
          else Inr (items, refs))"

text \<open>
  The loop over the sub-assemblies: each is assembled in turn (\<open>r\<close> is the outcome of that) and then looked at.
\<close>

definition visit_sub ::
    "((u256 \<times> (string \<times> nat list)) list \<times> nat) \<times> (LinkerObject \<times> Assembly) list \<Rightarrow>
     (LinkerObject \<times> Assembly) result \<Rightarrow>
     (((u256 \<times> (string \<times> nat list)) list \<times> nat) \<times> (LinkerObject \<times> Assembly) list) result" where
  "visit_sub = (\<lambda>(acc, done) r.
     bindE r (\<lambda>sub. bindE (collect_sub acc sub) (\<lambda>acc. Inr (acc, done @ [sub]))))"

section \<open>The assembler\<close>

text \<open>
  What follows the loop over the sub-assemblies; \<open>subs\<close> holds their objects and their states after they have
  been assembled.
\<close>

definition assemble_items :: "AssemblyState \<Rightarrow> (LinkerObject \<times> Assembly) list \<Rightarrow>
    (u256 \<times> (string \<times> nat list)) list \<Rightarrow> nat \<Rightarrow> (EmitEnv \<times> EmitState) result" where
  "assemble_items s subs immutableReferencesBySub subTagSize =
     bindE (prepare_items immutableReferencesBySub (m_items s)) (\<lambda>(items, immutableReferencesBySub).
     let s = s\<lparr>m_items := items\<rparr> in
     bindE (Assembly_bytesRequired s (subTagSize mod 2 ^ 32)) (\<lambda>bytesRequiredForCode.
     let tagPositions = replicate (unat (m_usedTags s)) size_t_max;
         bytesPerTag = bytesRequired bytesRequiredForCode in
     bindE (pushInstruction (word_of_nat bytesPerTag)) (\<lambda>tagPush.
     let bytesRequiredIncludingData =
           foldl (\<lambda>n (obj, sub). (n + length (bytecode obj)) mod 2 ^ 32)
             ((bytesRequiredForCode + 1 + length (m_auxiliaryData s)) mod 2 ^ 32) subs;
         bytesPerDataRef = bytesRequired bytesRequiredIncludingData in
     bindE (pushInstruction (word_of_nat bytesPerDataRef)) (\<lambda>dataRefPush.
     let env = \<lparr>env_self = Assembly s (map snd subs), env_bytesPerTag = bytesPerTag, env_tagPush = tagPush,
                env_bytesPerDataRef = bytesPerDataRef, env_dataRefPush = dataRefPush\<rparr>;
         e0 = \<lparr>e_ret = m_assembledObject s, e_tagPositions = tagPositions, e_tagRef = [], e_dataRef = [],
               e_subRef = [], e_sizeRef = [], e_immutables = immutableReferencesBySub, e_items = []\<rparr> in
     bindE (foldE (emit_item env) e0 items) (\<lambda>e. Inr (env, e))))))"

text \<open>The end of the code, the references, the data and the auxiliary data.\<close>

definition assemble_finish :: "EmitEnv \<Rightarrow> EmitState \<Rightarrow> (LinkerObject \<times> Assembly) result" where
  "assemble_finish env e =
     (let s = m_state (env_self env); subs = m_subs (env_self env) in
      bindE (assertThrow (e_immutables e = []) (CodeGenerationError 1284)) (\<lambda>_.
      let ret = e_ret e;
          ret = (if subs \<noteq> [] \<or> m_data s \<noteq> [] \<or> m_auxiliaryData s \<noteq> []
                 then ret\<lparr>bytecode := bytecode ret @ [Instruction_INVALID]\<rparr> else ret) in
      bindE (foldE (patch_sub env) ret (e_subRef e)) (\<lambda>ret.
      bindE (foldE (patch_tag env (e_tagPositions e)) ret (e_tagRef e)) (\<lambda>ret.
      let ret = foldl (patch_data env (e_dataRef e)) ret (m_data s);
          ret = ret\<lparr>bytecode := bytecode ret @ m_auxiliaryData s\<rparr>;
          ret = foldl (patch_size env) ret (e_sizeRef e)
      in Inr (ret, Assembly (s\<lparr>m_items := e_items e, m_assembledObject := ret,
                               m_tagPositionsInBytecode := e_tagPositions e\<rparr>) subs)))))"

definition assemble_with :: "AssemblyState \<Rightarrow> (LinkerObject \<times> Assembly) result list \<Rightarrow>
    (LinkerObject \<times> Assembly) result" where
  "assemble_with s outcomes =
     bindE (foldE visit_sub (([], 1), []) outcomes) (\<lambda>((immutableReferencesBySub, subTagSize), subs).
     bindE (assemble_items s subs immutableReferencesBySub subTagSize) (\<lambda>(env, e). assemble_finish env e))"

fun assemble :: "Assembly \<Rightarrow> (LinkerObject \<times> Assembly) result" where
  "assemble (Assembly s subs) =
     bindE (assertThrow (\<not> m_invalid s) (AssemblyException ''Attempted to assemble invalid Assembly object.'')) (\<lambda>_.
       if bytecode (m_assembledObject s) \<noteq> [] then Inr (m_assembledObject s, Assembly s subs)
       else
         bindE (assertThrow (linkReferences (m_assembledObject s) = [])
                  (AssemblyException ''Unexpected link references.'')) (\<lambda>_.
         assemble_with s (map assemble subs)))"

end
