(* ===== verification/Emission.thy ===== *)
theory Emission
  imports Assemble "HOL-Library.Multiset"
begin

text \<open>
  The emission loop of the assembler: the encoding of each kind of item, and the invariant that the code
  emitted so far is the concatenation of the encodings of the items, that the reference tables hold the
  operands that were left empty, and that the tags declared so far have the offsets of their items.
\<close>

section \<open>Regions and changes of a byte vector\<close>

definition region :: "nat \<Rightarrow> nat \<Rightarrow> 'a list \<Rightarrow> 'a list" where
  "region p n code = take n (drop p code)"

lemma length_region [simp]: "p + n \<le> length code \<Longrightarrow> length (region p n code) = n"
  by (simp add: region_def)

lemma nth_region: "p + n \<le> length code \<Longrightarrow> i < n \<Longrightarrow> region p n code ! i = code ! (p + i)"
  by (simp add: region_def)

text \<open>\<open>agrees H C F\<close>: \<open>F\<close> extends \<open>C\<close> and differs from it at positions in \<open>H\<close> at most.\<close>

definition agrees :: "nat set \<Rightarrow> 'a list \<Rightarrow> 'a list \<Rightarrow> bool" where
  "agrees H C F \<longleftrightarrow> length C \<le> length F \<and> (\<forall>i < length C. i \<notin> H \<longrightarrow> F ! i = C ! i)"

lemma agrees_refl [simp]: "agrees H C C"
  by (simp add: agrees_def)

lemma agrees_trans: "agrees H A B \<Longrightarrow> agrees K B C \<Longrightarrow> agrees (H \<union> K) A C"
  by (auto simp: agrees_def)

lemma agrees_mono: "agrees H A B \<Longrightarrow> H \<subseteq> K \<Longrightarrow> agrees K A B"
  by (auto simp: agrees_def)

lemma agrees_append [simp]: "agrees H C (C @ zs)"
  by (simp add: agrees_def nth_append)

lemma agrees_overwrite: "p + length ys \<le> length C \<Longrightarrow> agrees {p..<p + length ys} C (overwrite C p ys)"
  by (auto simp: agrees_def nth_overwrite)

lemma agrees_length: "agrees H C F \<Longrightarrow> length C \<le> length F"
  by (simp add: agrees_def)

lemma agrees_nth: "agrees H C F \<Longrightarrow> i < length C \<Longrightarrow> i \<notin> H \<Longrightarrow> F ! i = C ! i"
  by (simp add: agrees_def)

lemma agrees_region:
  assumes "agrees H C F" and "p + n \<le> length C" and "{p..<p + n} \<inter> H = {}"
  shows "region p n F = region p n C"
proof (rule nth_equalityI)
  have len: "p + n \<le> length F" using assms(1,2) by (simp add: agrees_def)
  then show "length (region p n F) = length (region p n C)" using assms(2) by simp
  fix i assume "i < length (region p n F)"
  then have i: "i < n" using len by simp
  then have "p + i \<notin> H" using assms(3) by (metis IntI atLeastLessThan_iff emptyE le_add1 nat_add_left_cancel_less)
  with i len assms(1,2) show "region p n F ! i = region p n C ! i"
    by (simp add: nth_region agrees_nth)
qed

lemma region_overwrite: "p + length ys \<le> length xs \<Longrightarrow> region p (length ys) (overwrite xs p ys) = ys"
  by (simp add: region_def take_drop_overwrite)

lemma region_append: "region (length xs) (length ys) (xs @ ys @ zs) = ys"
  by (simp add: region_def)

lemma write_be_overwrite: "p + n \<le> length code \<Longrightarrow> write_be code p n v = overwrite code p (be n v)"
  by (simp add: write_be_def toBigEndian_be)

lemma agrees_write_be: "p + n \<le> length code \<Longrightarrow> agrees {p..<p + n} code (write_be code p n v)"
  using agrees_overwrite [of p "be n v" code] by (simp add: write_be_overwrite)

lemma region_write_be: "p + n \<le> length code \<Longrightarrow> region p n (write_be code p n v) = be n v"
  using region_overwrite [of p "be n v" code] by (simp add: write_be_overwrite)

lemma length_write_be [simp]: "p + n \<le> length code \<Longrightarrow> length (write_be code p n v) = length code"
  by (simp add: write_be_overwrite)

section \<open>Chunks\<close>

text \<open>The offset of a chunk in the concatenation of all of them.\<close>

definition coff :: "'a list list \<Rightarrow> nat \<Rightarrow> nat" where
  "coff cs k = length (concat (take k cs))"

lemma coff_snoc: "k \<le> length cs \<Longrightarrow> coff (cs @ [c]) k = coff cs k"
  by (simp add: coff_def)

lemma coff_last [simp]: "coff cs (length cs) = length (concat cs)"
  by (simp add: coff_def)

lemma coff_Suc: "k < length cs \<Longrightarrow> coff cs (Suc k) = coff cs k + length (cs ! k)"
  by (simp add: coff_def take_Suc_conv_app_nth)

lemma coff_mono: "k \<le> j \<Longrightarrow> coff cs k \<le> coff cs j"
proof -
  assume "k \<le> j"
  then obtain n where "j = k + n" by (auto simp: le_iff_add)
  then show ?thesis by (simp add: coff_def take_add)
qed

lemma coff_next: "k < j \<Longrightarrow> j \<le> length cs \<Longrightarrow> coff cs k + length (cs ! k) \<le> coff cs j"
  using coff_mono [of "Suc k" j cs] by (simp add: coff_Suc)

lemma coff_bound: "k < length cs \<Longrightarrow> coff cs k + length (cs ! k) \<le> length (concat cs)"
  using coff_next [of k "length cs" cs] by simp

lemma region_chunk: "k < length cs \<Longrightarrow> region (coff cs k) (length (cs ! k)) (concat cs) = cs ! k"
proof -
  assume k: "k < length cs"
  have "concat cs = concat (take k cs) @ cs ! k @ concat (drop (Suc k) cs)"
    using id_take_nth_drop [OF k] by (metis concat.simps(2) concat_append)
  then show ?thesis by (simp add: coff_def region_append)
qed

lemma nth_chunk: "k < length cs \<Longrightarrow> i < length (cs ! k) \<Longrightarrow> concat cs ! (coff cs k + i) = cs ! k ! i"
  using region_chunk [of k cs] coff_bound [of k cs]
  by (metis nth_region)

section \<open>The encoding of one item\<close>

text \<open>
  \<open>encodes env it hole c\<close>: the bytes \<open>c\<close> encode the item. For references to tags, data, sub-assemblies and the
  program size, \<open>hole\<close> is the operand; the other items determine their bytes alone.
\<close>

definition encodes_push :: "nat \<Rightarrow> bytes \<Rightarrow> bool" where
  "encodes_push v c \<longleftrightarrow>
     (\<exists>op. pushInstruction (word_of_nat (max 1 (bytesRequired v))) = Inr op \<and> c = op # be (max 1 (bytesRequired v)) v)"

definition encodes :: "EmitEnv \<Rightarrow> AssemblyItem \<Rightarrow> bytes \<Rightarrow> bytes \<Rightarrow> bool" where
  "encodes env it hole c =
     (case it_type it of
        UndefinedItem \<Rightarrow> False
      | Operation \<Rightarrow> c = [it_instruction it]
      | Push \<Rightarrow> (\<exists>d. item_data it = Inr d \<and> encodes_push (unat d) c)
      | PushString \<Rightarrow>
          (\<exists>d str. item_data it = Inr d \<and>
             map_at (h256_of_u256 d) (m_strings (m_state (env_self env))) = Inr str \<and>
             c = Instruction_PUSH32 # take 32 (asBytes str) @ replicate (32 - length str) 0)
      | PushTag \<Rightarrow> (\<exists>r. splitForeignPushTag it = Inr r) \<and> length hole = env_bytesPerTag env \<and> c = env_tagPush env # hole
      | PushSub \<Rightarrow> (\<exists>d. item_data it = Inr d) \<and> length hole = env_bytesPerDataRef env \<and> c = env_dataRefPush env # hole
      | PushSubSize \<Rightarrow>
          (\<exists>d obj. item_data it = Inr d \<and> assembledSub env (unat d) = Inr obj \<and> encodes_push (length (bytecode obj)) c)
      | PushProgramSize \<Rightarrow> length hole = env_bytesPerDataRef env \<and> c = env_dataRefPush env # hole
      | Tag \<Rightarrow> c = [Instruction_JUMPDEST]
      | PushData \<Rightarrow> (\<exists>d. item_data it = Inr d) \<and> length hole = env_bytesPerDataRef env \<and> c = env_dataRefPush env # hole
      | PushLibraryAddress \<Rightarrow> c = Instruction_PUSH21 # replicate 21 0
      | PushDeployTimeAddress \<Rightarrow> c = Instruction_PUSH21 # replicate 21 0
      | PushImmutable \<Rightarrow> c = Instruction_PUSH32 # replicate 32 0
      | AssignImmutable \<Rightarrow> (\<exists>offsets. assignImmutable_code offsets [] = Inr c))"

text \<open>The size of the operand that is filled in later, if the item has one.\<close>

definition hole_size :: "EmitEnv \<Rightarrow> AssemblyItem \<Rightarrow> nat option" where
  "hole_size env it =
     (case it_type it of
        PushTag \<Rightarrow> Some (env_bytesPerTag env)
      | PushSub \<Rightarrow> Some (env_bytesPerDataRef env)
      | PushProgramSize \<Rightarrow> Some (env_bytesPerDataRef env)
      | PushData \<Rightarrow> Some (env_bytesPerDataRef env)
      | _ \<Rightarrow> None)"

definition zero_hole :: "EmitEnv \<Rightarrow> AssemblyItem \<Rightarrow> bytes" where
  "zero_hole env it = (case hole_size env it of None \<Rightarrow> [] | Some n \<Rightarrow> replicate n 0)"

lemma push_number_eq:
  assumes "push_number b v code = Inr code'"
  shows "\<exists>op. pushInstruction (word_of_nat b) = Inr op \<and> code' = code @ op # be b v"
proof -
  from assms obtain op where op: "pushInstruction (word_of_nat b) = Inr op"
    and c: "code' = write_be (code @ [op] @ replicate b 0) (Suc (length code)) b v"
    by (auto simp: push_number_def result_simps Let_def)
  have "write_be (code @ [op] @ replicate b 0) (Suc (length code)) b v = code @ op # be b v"
    by (simp add: write_be_overwrite overwrite_def)
  with op c show ?thesis by blast
qed

lemma pushString_loop_eq:
  assumes "ii \<le> 32"
  shows "pushString_loop ii str code =
    (ii + min (length str) (Suc 32 - ii), code @ take (32 - ii) (asBytes str))"
  using assms
proof (induction ii str code rule: pushString_loop.induct)
  case (2 ii j js code)
  show ?case
  proof (cases "ii = 32")
    case False
    then have s: "32 - ii = Suc (32 - Suc ii)" using 2(2) by simp
    show ?thesis using 2 False by (simp add: asBytes_def s)
  qed (simp add: asBytes_def)
qed (simp add: asBytes_def)

lemma assignImmutable_fold:
  "foldE (assignImmutable_step offsets) (code @ c) is =
     map_sum id (\<lambda>d. code @ d) (foldE (assignImmutable_step offsets) c is)"
proof (induction "is" arbitrary: c)
  case (Cons i "is")
  have "assignImmutable_step offsets (code @ c) i = map_sum id (\<lambda>d. code @ d) (assignImmutable_step offsets c i)"
    by (cases "pushInstruction (word_of_nat (length (toCompactBigEndian (unat (word_of_nat (offsets ! i) :: u256)) 0)))")
       (auto simp: assignImmutable_step_def Let_def)
  with Cons show ?case by (cases "assignImmutable_step offsets c i") auto
qed simp

lemma assignImmutable_code_eq:
  assumes "assignImmutable_code offsets code = Inr code'"
  shows "\<exists>c. assignImmutable_code offsets [] = Inr c \<and> code' = code @ c"
  using assms assignImmutable_fold [of offsets code "[]" "[0..<length offsets]"]
  by (cases "foldE (assignImmutable_step offsets) [] [0..<length offsets]")
     (auto simp: assignImmutable_code_def)

text \<open>What one iteration of the emission loop does.\<close>

definition tagRef_of :: "AssemblyItem \<Rightarrow> nat \<Rightarrow> (nat \<times> (u64 \<times> u64)) list \<Rightarrow> (nat \<times> (u64 \<times> u64)) list" where
  "tagRef_of it p refs =
     (if it_type it = PushTag then map_put p (projr (splitForeignPushTag it)) refs else refs)"

definition dataRef_of :: "AssemblyItem \<Rightarrow> nat \<Rightarrow> (bytes \<times> nat) list \<Rightarrow> (bytes \<times> nat) list" where
  "dataRef_of it p refs =
     (if it_type it = PushData then multimap_insert (h256_of_u256 (projr (item_data it))) p refs else refs)"

definition subRef_of :: "AssemblyItem \<Rightarrow> nat \<Rightarrow> (nat \<times> nat) list \<Rightarrow> (nat \<times> nat) list" where
  "subRef_of it p refs =
     (if it_type it = PushSub then multimap_insert (unat (projr (item_data it))) p refs else refs)"

definition sizeRef_of :: "AssemblyItem \<Rightarrow> nat \<Rightarrow> nat list \<Rightarrow> nat list" where
  "sizeRef_of it p refs = (if it_type it = PushProgramSize then refs @ [p] else refs)"

definition linkRef_of :: "EmitEnv \<Rightarrow> AssemblyItem \<Rightarrow> nat \<Rightarrow> (nat \<times> string) list \<Rightarrow> (nat \<times> string) list" where
  "linkRef_of env it p refs =
     (if it_type it = PushLibraryAddress
      then map_put p (projr (map_at (h256_of_u256 (projr (item_data it))) (m_libraries (m_state (env_self env))))) refs
      else refs)"

text \<open>The number of a tag that is declared.\<close>

definition tag_id :: "AssemblyItem \<Rightarrow> nat" where
  "tag_id it = unat (ucast (projr (item_data it)) :: u64)"

definition positions_of :: "AssemblyItem \<Rightarrow> nat \<Rightarrow> nat list \<Rightarrow> nat list" where
  "positions_of it p ps = (if it_type it = Tag then ps[tag_id it := p] else ps)"

lemmas emit_simps = emit_switch_def result_simps Let_def set_code_def encodes_def zero_hole_def hole_size_def
  tagRef_of_def dataRef_of_def subRef_of_def sizeRef_of_def linkRef_of_def positions_of_def

lemma emit_switch_eq:
  assumes "emit_switch env it e = Inr (it', e')"
  shows "\<exists>c. encodes env it (zero_hole env it) c \<and> e_code e' = e_code e @ c \<and>
    e_tagRef e' = tagRef_of it (Suc (length (e_code e))) (e_tagRef e) \<and>
    e_dataRef e' = dataRef_of it (Suc (length (e_code e))) (e_dataRef e) \<and>
    e_subRef e' = subRef_of it (Suc (length (e_code e))) (e_subRef e) \<and>
    e_sizeRef e' = sizeRef_of it (Suc (length (e_code e))) (e_sizeRef e) \<and>
    linkReferences (e_ret e') = linkRef_of env it (Suc (length (e_code e))) (linkReferences (e_ret e)) \<and>
    e_tagPositions e' = positions_of it (length (e_code e)) (e_tagPositions e)"
proof (cases "it_type it")
  case PushString
  have "32 - min (length s) 33 = 32 - length s" for s :: string by (simp add: min_def)
  with PushString assms show ?thesis
    by (auto simp: emit_simps pushString_loop_eq)
next
  case Push
  with assms show ?thesis by (auto simp: emit_simps encodes_push_def dest!: push_number_eq)
next
  case PushSubSize
  with assms show ?thesis by (auto simp: emit_simps encodes_push_def dest!: push_number_eq)
next
  case AssignImmutable
  with assms obtain d offsets code where
    a: "assignImmutable_code offsets (e_code e) = Inr code" and
    e': "e' = set_code code (e\<lparr>e_immutables := map_erase d (snd (immutables_index d (e_immutables e)))\<rparr>)"
    by (auto simp: emit_switch_def result_simps Let_def case_prod_beta)
  from assignImmutable_code_eq [OF a] e' AssignImmutable show ?thesis by (auto simp: emit_simps)
next
  case Tag
  with assms show ?thesis by (auto simp: emit_simps emit_tag_def tag_id_def split: if_splits)
next
  case PushImmutable
  with assms obtain refs where
    "e' = e\<lparr>e_ret := (e_ret e)\<lparr>bytecode := e_code e @ Instruction_PUSH32 # replicate 32 0,
       immutableReferences := refs\<rparr>\<rparr>"
    by (auto simp: emit_switch_def result_simps Let_def case_prod_beta)
  with PushImmutable show ?thesis by (simp add: emit_simps)
next
  case Operation
  with assms show ?thesis by (auto simp: emit_simps item_instruction_def)
next
  case PushTag
  with assms show ?thesis by (auto simp: emit_simps)
next
  case PushData
  with assms show ?thesis by (auto simp: emit_simps)
next
  case PushSub
  with assms show ?thesis by (auto simp: emit_simps)
next
  case PushLibraryAddress
  with assms show ?thesis by (auto simp: emit_simps)
qed (use assms in \<open>auto simp: emit_simps\<close>)

lemma emit_switch_item: "emit_switch env it e = Inr (it', e') \<Longrightarrow> e_items e' = e_items e"
  by (cases "it_type it") (auto simp: emit_simps emit_tag_def case_prod_beta split: if_splits)

text \<open>Declaring a tag: it is not zero, it belongs to the assembly, and it had no position yet.\<close>

lemma emit_switch_tag:
  assumes "emit_switch env it e = Inr (it', e')" and "it_type it = Tag"
  shows "tag_id it < length (e_tagPositions e) \<and> e_tagPositions e ! tag_id it = size_t_max \<and>
    length (e_code e) < 0xffffffff \<and> item_data it \<noteq> Inr 0 \<and>
    (\<exists>t. splitForeignPushTag it = Inr (size_max, t))"
  using assms by (auto simp: emit_simps emit_tag_def tag_id_def split: if_splits)

lemma assignImmutable_fold_length:
  "foldE (assignImmutable_step offsets) c is = Inr d \<Longrightarrow> length c + length is \<le> length d"
proof (induction "is" arbitrary: c)
  case (Cons i "is")
  then obtain c' where s: "assignImmutable_step offsets c i = Inr c'" and r: "foldE (assignImmutable_step offsets) c' is = Inr d"
    by (auto simp: result_simps)
  from s have "Suc (length c) \<le> length c'"
    by (auto simp: assignImmutable_step_def result_simps Let_def)
  with Cons.IH [OF r] show ?case by simp
qed simp

lemma encodes_nonempty: "encodes env it h c \<Longrightarrow> c \<noteq> []"
  using assignImmutable_fold_length [of _ "[]" _ "[]"]
  by (fastforce simp: encodes_def encodes_push_def assignImmutable_code_def result_simps
      split: AssemblyItemType.splits if_splits)

lemma encodes_hole:
  assumes "encodes env it h c" and "hole_size env it = Some n"
  shows "\<exists>op. c = op # h \<and> length h = n"
  using assms by (auto simp: encodes_def hole_size_def split: AssemblyItemType.splits)

section \<open>The emission loop\<close>

text \<open>The operand of an item starts one byte behind its chunk.\<close>

abbreviation operand :: "bytes list \<Rightarrow> nat \<Rightarrow> nat" where
  "operand cs k \<equiv> Suc (coff cs k)"

text \<open>The references of all items of one type.\<close>

definition table :: "AssemblyItemType \<Rightarrow> (AssemblyItem \<Rightarrow> nat \<Rightarrow> 'r) \<Rightarrow> AssemblyItem list \<Rightarrow> bytes list \<Rightarrow> 'r set" where
  "table type f items cs = {f (items ! k) (operand cs k) |k. k < length items \<and> it_type (items ! k) = type}"

lemma table_Nil [simp]: "table type f [] cs = {}"
  by (simp add: table_def)

lemma table_snoc:
  assumes "length cs = length items"
  shows "table type f (items @ [it]) (cs @ [c]) =
    table type f items cs \<union> (if it_type it = type then {f it (Suc (length (concat cs)))} else {})"
proof -
  have nth: "(items @ [it]) ! k = items ! k" "operand (cs @ [c]) k = operand cs k" if "k < length items" for k
    using that assms by (simp_all add: nth_append coff_snoc)
  have last: "operand (cs @ [c]) (length items) = Suc (length (concat cs))"
    unfolding assms [symmetric] by (simp add: coff_snoc)
  show ?thesis
  proof (rule set_eqI, rule iffI)
    fix r assume "r \<in> table type f (items @ [it]) (cs @ [c])"
    then obtain k where k: "k < Suc (length items)" "r = f ((items @ [it]) ! k) (operand (cs @ [c]) k)"
      "it_type ((items @ [it]) ! k) = type" by (auto simp: table_def)
    show "r \<in> table type f items cs \<union> (if it_type it = type then {f it (Suc (length (concat cs)))} else {})"
    proof (cases "k = length items")
      case True
      then show ?thesis using k last by simp
    next
      case False
      then show ?thesis using k nth [of k] by (auto simp: table_def)
    qed
  next
    fix r assume "r \<in> table type f items cs \<union> (if it_type it = type then {f it (Suc (length (concat cs)))} else {})"
    then consider k where "k < length items" "r = f (items ! k) (operand cs k)" "it_type (items ! k) = type"
      | "it_type it = type" "r = f it (Suc (length (concat cs)))" by (auto simp: table_def split: if_splits)
    then show "r \<in> table type f (items @ [it]) (cs @ [c])"
    proof cases
      case 1
      then show ?thesis using nth [of k] unfolding table_def by (auto intro!: exI [of _ k])
    next
      case 2
      then show ?thesis using last unfolding table_def by (auto intro!: exI [of _ "length items"])
    qed
  qed
qed

definition positions_inv :: "AssemblyItem list \<Rightarrow> bytes list \<Rightarrow> nat list \<Rightarrow> bool" where
  "positions_inv items cs ps \<longleftrightarrow>
     (\<forall>k < length items. it_type (items ! k) = Tag \<longrightarrow>
        tag_id (items ! k) < length ps \<and> ps ! tag_id (items ! k) = coff cs k \<and> coff cs k < 0xffffffff) \<and>
     (\<forall>t < length ps. ps ! t \<noteq> size_t_max \<longrightarrow>
        (\<exists>k < length items. ps ! t = coff cs k \<and>
           (t \<noteq> 0 \<longrightarrow> it_type (items ! k) = Tag \<and> tag_id (items ! k) = t)))"

text \<open>
  The invariant: \<open>cs\<close> are the chunks of the items with empty operands, the reference tables hold the
  positions of the operands, and the tags that are declared have the offsets of their chunks.
\<close>

definition chunks_inv :: "EmitEnv \<Rightarrow> AssemblyItem list \<Rightarrow> bytes list \<Rightarrow> bool" where
  "chunks_inv env items cs \<longleftrightarrow>
     length cs = length items \<and> (\<forall>k < length items. encodes env (items ! k) (zero_hole env (items ! k)) (cs ! k))"

definition refs_inv :: "EmitEnv \<Rightarrow> AssemblyItem list \<Rightarrow> bytes list \<Rightarrow> EmitState \<Rightarrow> bool" where
  "refs_inv env items cs e \<longleftrightarrow>
     distinct (map fst (e_tagRef e)) \<and> distinct (map snd (e_dataRef e)) \<and> distinct (map snd (e_subRef e)) \<and>
     distinct (e_sizeRef e) \<and>
     set (e_tagRef e) = table PushTag (\<lambda>it p. (p, projr (splitForeignPushTag it))) items cs \<and>
     set (e_dataRef e) = table PushData (\<lambda>it p. (h256_of_u256 (projr (item_data it)), p)) items cs \<and>
     set (e_subRef e) = table PushSub (\<lambda>it p. (unat (projr (item_data it)), p)) items cs \<and>
     set (e_sizeRef e) = table PushProgramSize (\<lambda>it p. p) items cs"

lemma chunks_inv_snoc:
  "chunks_inv env items cs \<Longrightarrow> encodes env it (zero_hole env it) c \<Longrightarrow> chunks_inv env (items @ [it]) (cs @ [c])"
  by (auto simp: chunks_inv_def nth_append less_Suc_eq)

text \<open>Every operand lies inside the code emitted so far.\<close>

lemma table_bound:
  assumes "chunks_inv env items cs" and "\<And>it p. g (f it p) = p" and "r \<in> table type f items cs"
  shows "g r \<le> length (concat cs)"
proof -
  from assms obtain k where k: "k < length items" "g r = operand cs k" by (auto simp: table_def)
  with assms(1) have "k < length cs" "cs ! k \<noteq> []"
    by (auto simp: chunks_inv_def dest: encodes_nonempty)
  then have "coff cs k + 1 \<le> length (concat cs)"
    using coff_bound [of k cs] by (cases "cs ! k") auto
  with k(2) show ?thesis by simp
qed

lemma distinct_multimap_insert:
  "distinct (map snd (multimap_insert k v m)) \<longleftrightarrow> v \<notin> snd ` set m \<and> distinct (map snd m)"
proof -
  have "mset (multimap_insert k v m) = add_mset (k, v) (mset m)"
    by (induction k v m rule: multimap_insert.induct) auto
  then have "mset (map snd (multimap_insert k v m)) = mset (v # map snd m)" by simp
  then have "distinct (map snd (multimap_insert k v m)) \<longleftrightarrow> distinct (v # map snd m)"
    by (rule mset_eq_imp_distinct_iff)
  then show ?thesis by simp
qed

lemma refs_inv_snoc:
  assumes ch: "chunks_inv env items cs" and inv: "refs_inv env items cs e" and code: "e_code e = concat cs"
    and e': "e_tagRef e' = tagRef_of it (Suc (length (e_code e))) (e_tagRef e)"
      "e_dataRef e' = dataRef_of it (Suc (length (e_code e))) (e_dataRef e)"
      "e_subRef e' = subRef_of it (Suc (length (e_code e))) (e_subRef e)"
      "e_sizeRef e' = sizeRef_of it (Suc (length (e_code e))) (e_sizeRef e)"
  shows "refs_inv env (items @ [it]) (cs @ [c]) e'"
proof -
  let ?p = "Suc (length (concat cs))"
  have len: "length cs = length items" using ch by (simp add: chunks_inv_def)
  have b1: "fst r < ?p" if "r \<in> set (e_tagRef e)" for r
    using table_bound [OF ch, of fst "\<lambda>it p. (p, projr (splitForeignPushTag it))" r PushTag] that inv
    by (simp add: refs_inv_def less_Suc_eq_le)
  have b2: "snd r < ?p" if "r \<in> set (e_dataRef e)" for r
    using table_bound [OF ch, of snd "\<lambda>it p. (h256_of_u256 (projr (item_data it)), p)" r PushData] that inv
    by (simp add: refs_inv_def less_Suc_eq_le)
  have b3: "snd r < ?p" if "r \<in> set (e_subRef e)" for r
    using table_bound [OF ch, of snd "\<lambda>it p. (unat (projr (item_data it)), p)" r PushSub] that inv
    by (simp add: refs_inv_def less_Suc_eq_le)
  have b4: "r < ?p" if "r \<in> set (e_sizeRef e)" for r
    using table_bound [OF ch, of id "\<lambda>it p. p" r PushProgramSize] that inv
    by (simp add: refs_inv_def less_Suc_eq_le)
  have put: "map_put ?p v (e_tagRef e) = e_tagRef e @ [(?p, v)]" for v
    by (rule map_put_snoc) (use b1 in auto)
  have n1: "?p \<notin> fst ` set (e_tagRef e)" and n2: "?p \<notin> snd ` set (e_dataRef e)"
    and n3: "?p \<notin> snd ` set (e_subRef e)" and n4: "?p \<notin> set (e_sizeRef e)"
    using b1 b2 b3 b4 by force+
  show ?thesis
    using inv n1 n2 n3 n4
    unfolding refs_inv_def e' code table_snoc [OF len] tagRef_of_def dataRef_of_def subRef_of_def sizeRef_of_def put
    by (simp add: distinct_multimap_insert set_multimap_insert)
qed

lemma positions_inv_snoc:
  assumes len: "length cs = length items" and inv: "positions_inv items cs ps"
    and ps: "ps' = positions_of it (length (concat cs)) ps"
    and tag: "it_type it = Tag \<Longrightarrow> tag_id it < length ps \<and> ps ! tag_id it = size_t_max \<and> length (concat cs) < 0xffffffff"
  shows "positions_inv (items @ [it]) (cs @ [c]) ps'"
proof -
  have nth: "(items @ [it]) ! k = items ! k" "coff (cs @ [c]) k = coff cs k" if "k < length items" for k
    using that len by (simp_all add: nth_append coff_snoc)
  have last: "coff (cs @ [c]) (length items) = length (concat cs)"
    unfolding len [symmetric] by (simp add: coff_snoc)
  have fits: "(0xffffffff :: nat) < size_t_max" by (simp add: size_t_max_def)
  show ?thesis
  proof (cases "it_type it = Tag")
    case True
    let ?t = "tag_id it"
    have ps': "ps' = ps[?t := length (concat cs)]" using ps True by (simp add: positions_of_def)
    have other: "tag_id (items ! k) \<noteq> ?t" if "k < length items" "it_type (items ! k) = Tag" for k
    proof
      assume "tag_id (items ! k) = ?t"
      with that inv have "ps ! ?t < 0xffffffff" by (auto simp: positions_inv_def)
      with tag [OF True] fits show False by simp
    qed
    show ?thesis
      unfolding positions_inv_def
    proof (intro conjI allI impI)
      fix k assume k: "k < length (items @ [it])" and kt: "it_type ((items @ [it]) ! k) = Tag"
      show "tag_id ((items @ [it]) ! k) < length ps'" "ps' ! tag_id ((items @ [it]) ! k) = coff (cs @ [c]) k"
        "coff (cs @ [c]) k < 0xffffffff"
        using k kt nth [of k] last other [of k] inv tag [OF True]
        by (cases "k = length items"; auto simp: ps' positions_inv_def less_Suc_eq)+
    next
      fix t assume t: "t < length ps'" "ps' ! t \<noteq> size_t_max"
      show "\<exists>k<length (items @ [it]). ps' ! t = coff (cs @ [c]) k \<and>
          (t \<noteq> 0 \<longrightarrow> it_type ((items @ [it]) ! k) = Tag \<and> tag_id ((items @ [it]) ! k) = t)"
      proof (cases "t = ?t")
        case eq: True
        then show ?thesis using t last True by (intro exI [of _ "length items"]) (simp add: ps')
      next
        case False
        then obtain k where "k < length items" "ps ! t = coff cs k"
          "t \<noteq> 0 \<longrightarrow> it_type (items ! k) = Tag \<and> tag_id (items ! k) = t"
          using t inv by (auto simp: ps' positions_inv_def)
        then show ?thesis using False nth [of k] by (intro exI [of _ k]) (simp add: ps')
      qed
    qed
  next
    case False
    then have ps': "ps' = ps" using ps by (simp add: positions_of_def)
    show ?thesis
      unfolding positions_inv_def ps'
    proof (intro conjI allI impI)
      fix k assume k: "k < length (items @ [it])" and kt: "it_type ((items @ [it]) ! k) = Tag"
      then have "k < length items" using False by (cases "k = length items") auto
      then show "tag_id ((items @ [it]) ! k) < length ps" "ps ! tag_id ((items @ [it]) ! k) = coff (cs @ [c]) k"
        "coff (cs @ [c]) k < 0xffffffff"
        using kt nth [of k] inv by (auto simp: positions_inv_def)
    next
      fix t assume "t < length ps" "ps ! t \<noteq> size_t_max"
      then obtain k where "k < length items" "ps ! t = coff cs k"
        "t \<noteq> 0 \<longrightarrow> it_type (items ! k) = Tag \<and> tag_id (items ! k) = t"
        using inv by (auto simp: positions_inv_def)
      then show "\<exists>k<length (items @ [it]). ps ! t = coff (cs @ [c]) k \<and>
          (t \<noteq> 0 \<longrightarrow> it_type ((items @ [it]) ! k) = Tag \<and> tag_id ((items @ [it]) ! k) = t)"
        using nth [of k] by (intro exI [of _ k]) simp
    qed
  qed
qed

lemma positions_inv_first:
  assumes len: "length cs = length items" and inv: "positions_inv items cs (p # ps)"
    and it: "it_type it \<noteq> Tag" and p: "p = size_t_max"
  shows "positions_inv (items @ [it]) (cs @ [c]) (length (concat cs) # ps)"
proof -
  have nth: "(items @ [it]) ! k = items ! k" "coff (cs @ [c]) k = coff cs k" if "k < length items" for k
    using that len by (simp_all add: nth_append coff_snoc)
  have last: "coff (cs @ [c]) (length items) = length (concat cs)"
    unfolding len [symmetric] by (simp add: coff_snoc)
  have fits: "(0xffffffff :: nat) < size_t_max" by (simp add: size_t_max_def)
  have pos: "0 < tag_id (items ! k)" if "k < length items" "it_type (items ! k) = Tag" for k
    using that inv fits p by (cases "tag_id (items ! k)") (auto simp: positions_inv_def)
  show ?thesis
    unfolding positions_inv_def
  proof (intro conjI allI impI)
    fix k assume k: "k < length (items @ [it])" and kt: "it_type ((items @ [it]) ! k) = Tag"
    then have k': "k < length items" using it by (cases "k = length items") auto
    then obtain n where n: "tag_id (items ! k) = Suc n" using pos [of k] kt nth [of k] gr0_implies_Suc by auto
    from k' kt show "tag_id ((items @ [it]) ! k) < length (length (concat cs) # ps)"
      "(length (concat cs) # ps) ! tag_id ((items @ [it]) ! k) = coff (cs @ [c]) k" "coff (cs @ [c]) k < 0xffffffff"
      using nth [of k] inv n by (auto simp: positions_inv_def)
  next
    fix t assume t: "t < length (length (concat cs) # ps)" "(length (concat cs) # ps) ! t \<noteq> size_t_max"
    show "\<exists>k<length (items @ [it]). (length (concat cs) # ps) ! t = coff (cs @ [c]) k \<and>
        (t \<noteq> 0 \<longrightarrow> it_type ((items @ [it]) ! k) = Tag \<and> tag_id ((items @ [it]) ! k) = t)"
    proof (cases t)
      case 0
      then show ?thesis using last by (intro exI [of _ "length items"]) simp
    next
      case (Suc n)
      then obtain k where "k < length items" "ps ! n = coff cs k" "it_type (items ! k) = Tag" "tag_id (items ! k) = t"
        using t inv [unfolded positions_inv_def, THEN conjunct2, rule_format, of t] by auto
      then show ?thesis using nth [of k] Suc by (intro exI [of _ k]) simp
    qed
  qed
qed

text \<open>The link references that the loop adds: each has room for an address and no two overlap.\<close>

definition links_inv :: "EmitState \<Rightarrow> bool" where
  "links_inv e \<longleftrightarrow> linker_ok (e_ret e) \<and> refs_apart (linkReferences (e_ret e))"

definition emit_inv :: "EmitEnv \<Rightarrow> AssemblyItem list \<Rightarrow> bytes list \<Rightarrow> EmitState \<Rightarrow> bool" where
  "emit_inv env items cs e \<longleftrightarrow> chunks_inv env items cs \<and> e_code e = concat cs \<and> refs_inv env items cs e \<and>
     positions_inv items cs (e_tagPositions e) \<and> links_inv e"

lemma links_inv_snoc:
  assumes "links_inv e" and enc: "encodes env it (zero_hole env it) c" and code: "e_code e' = e_code e @ c"
    and refs: "linkReferences (e_ret e') = linkRef_of env it (Suc (length (e_code e))) (linkReferences (e_ret e))"
  shows "links_inv e'"
proof -
  let ?p = "Suc (length (e_code e))" and ?r = "linkReferences (e_ret e)"
  have old: "map_ok ?r" "\<forall>(p, n) \<in> set ?r. p + 21 \<le> length (e_code e)" "refs_apart ?r"
    using assms(1) by (simp_all add: links_inv_def linker_ok_def)
  show ?thesis
  proof (cases "it_type it = PushLibraryAddress")
    case True
    then have c: "length c = 22" using enc by (simp add: encodes_def)
    obtain v where "linkReferences (e_ret e') = map_put ?p v ?r" using refs True by (auto simp: linkRef_of_def)
    also have "map_put ?p v ?r = ?r @ [(?p, v)]" by (rule map_put_snoc) (use old(2) in force)
    finally have r': "linkReferences (e_ret e') = ?r @ [(?p, v)]" .
    have "map_ok (?r @ [(?p, v)])"
      using old(1,2) by (auto simp: map_ok_def sorted_wrt_append)
    moreover have "refs_apart (?r @ [(?p, v)])"
      using old(2,3) by (fastforce simp: refs_apart_def)
    ultimately show ?thesis using r' c code old(2) by (auto simp: links_inv_def linker_ok_def)
  next
    case False
    then have "linkReferences (e_ret e') = ?r" using refs by (simp add: linkRef_of_def)
    with old code show ?thesis by (auto simp: links_inv_def linker_ok_def)
  qed
qed

lemma emit_item_inv:
  assumes inv: "emit_inv env items cs e" and step: "emit_item env e it = Inr e'"
  shows "\<exists>c. emit_inv env (items @ [it]) (cs @ [c]) e' \<and> length (e_tagPositions e') = length (e_tagPositions e)"
proof -
  from step obtain e1 it1 e2 where e1: "emit_invalidTag it e = Inr e1"
    and e2: "emit_switch env it e1 = Inr (it1, e2)" and e': "e' = e2\<lparr>e_items := e_items e2 @ [it1]\<rparr>"
    by (auto simp: emit_item_def result_simps)
  have len: "length cs = length items" using inv by (simp add: emit_inv_def chunks_inv_def)
  have same: "e_ret e1 = e_ret e" "e_tagRef e1 = e_tagRef e" "e_dataRef e1 = e_dataRef e"
    "e_subRef e1 = e_subRef e" "e_sizeRef e1 = e_sizeRef e"
    using e1 by (auto simp: emit_invalidTag_def split: if_splits list.splits)
  have code: "e_code e1 = concat cs" using inv same by (simp add: emit_inv_def)
  from emit_switch_eq [OF e2] obtain c where enc: "encodes env it (zero_hole env it) c"
    and c: "e_code e2 = e_code e1 @ c"
    and r: "e_tagRef e2 = tagRef_of it (Suc (length (e_code e1))) (e_tagRef e1)"
      "e_dataRef e2 = dataRef_of it (Suc (length (e_code e1))) (e_dataRef e1)"
      "e_subRef e2 = subRef_of it (Suc (length (e_code e1))) (e_subRef e1)"
      "e_sizeRef e2 = sizeRef_of it (Suc (length (e_code e1))) (e_sizeRef e1)"
    and l: "linkReferences (e_ret e2) = linkRef_of env it (Suc (length (e_code e1))) (linkReferences (e_ret e1))"
    and p: "e_tagPositions e2 = positions_of it (length (e_code e1)) (e_tagPositions e1)" by blast
  have ch: "chunks_inv env items cs" and rf: "refs_inv env items cs e1" and lk: "links_inv e1"
    and ps: "positions_inv items cs (e_tagPositions e)"
    using inv same by (simp_all add: emit_inv_def refs_inv_def links_inv_def)
  have "positions_inv (items @ [it]) (cs @ [c]) (e_tagPositions e2)"
  proof (cases "it_type it = Tag")
    case True
    then have "e1 = e" using e1 by (simp add: emit_invalidTag_def)
    then show ?thesis
      using positions_inv_snoc [OF len ps, of "e_tagPositions e2" it] p emit_switch_tag [OF e2] code by simp
  next
    case False
    then obtain q qs where q: "e_tagPositions e = q # qs" using e1 by (auto simp: emit_invalidTag_def split: list.splits)
    have p2: "e_tagPositions e2 = e_tagPositions e1" using p False by (simp add: positions_of_def)
    show ?thesis
    proof (cases "q = size_t_max")
      case True
      then show ?thesis
        using positions_inv_first [OF len _ False True, of qs] ps p2 e1 q False inv
        by (auto simp: emit_invalidTag_def emit_inv_def)
    next
      case no: False
      then have "e_tagPositions e1 = e_tagPositions e" using e1 q by (auto simp: emit_invalidTag_def split: if_splits)
      then show ?thesis using positions_inv_snoc [OF len ps, of "e_tagPositions e2" it] p2 False
        by (simp add: positions_of_def)
    qed
  qed
  moreover have "length (e_tagPositions e2) = length (e_tagPositions e)"
    using p e1 by (auto simp: positions_of_def emit_invalidTag_def split: if_splits list.splits)
  moreover have "refs_inv env (items @ [it]) (cs @ [c]) e2" by (rule refs_inv_snoc [OF ch rf code r])
  moreover have "links_inv e2" by (rule links_inv_snoc [OF lk enc c l])
  ultimately show ?thesis
    using chunks_inv_snoc [OF ch enc] c code e'
    by (intro exI [of _ c]) (simp add: emit_inv_def refs_inv_def links_inv_def)
qed

lemma emit_items_inv:
  assumes "emit_inv env items cs e" and "foldE (emit_item env) e rest = Inr e'"
  shows "\<exists>cs'. emit_inv env (items @ rest) (cs @ cs') e' \<and> length (e_tagPositions e') = length (e_tagPositions e)"
  using assms
proof (induction rest arbitrary: items cs e)
  case Nil
  then show ?case by (intro exI [of _ "[]"]) simp
next
  case (Cons it rest)
  then obtain e1 where e1: "emit_item env e it = Inr e1" and r: "foldE (emit_item env) e1 rest = Inr e'"
    by (auto simp: result_simps)
  from emit_item_inv [OF Cons.prems(1) e1] obtain c where
    c: "emit_inv env (items @ [it]) (cs @ [c]) e1" "length (e_tagPositions e1) = length (e_tagPositions e)" by blast
  from Cons.IH [OF c(1) r] obtain cs' where
    "emit_inv env ((items @ [it]) @ rest) ((cs @ [c]) @ cs') e'" "length (e_tagPositions e') = length (e_tagPositions e1)"
    by blast
  with c(2) show ?case by (intro exI [of _ "c # cs'"]) simp
qed

end
