(* ===== verification/Layout.thy ===== *)
theory Layout
  imports Emission
begin

text \<open>
  What the assembler produces, stated without its two passes: the code begins with the encodings of the
  items, and the operands of references are the positions of the tags, data and sub-assemblies they
  refer to, which lie where the operands say.
\<close>

section \<open>Patching\<close>

text \<open>
  After the emission the code is changed in two ways only: a number is written into an operand that was left
  empty, or bytes are appended. A list of such changes is a script.
\<close>

datatype Patch = Write nat nat nat | Extend bytes

fun run :: "Patch list \<Rightarrow> bytes \<Rightarrow> bytes" where
  "run [] code = code"
| "run (Write p n v # ps) code = run ps (write_be code p n v)"
| "run (Extend d # ps) code = run ps (code @ d)"

fun written :: "Patch list \<Rightarrow> (nat \<times> nat) list" where
  "written [] = []"
| "written (Write p n v # ps) = (p, n) # written ps"
| "written (Extend d # ps) = written ps"

text \<open>The offsets at which a script puts the bytes it appends, when it starts at length \<open>l\<close>.\<close>

fun placed :: "nat \<Rightarrow> Patch list \<Rightarrow> (nat \<times> bytes) set" where
  "placed l [] = {}"
| "placed l (Write p n v # ps) = placed l ps"
| "placed l (Extend d # ps) = insert (l, d) (placed (l + length d) ps)"

fun growth :: "Patch list \<Rightarrow> nat" where
  "growth [] = 0"
| "growth (Write p n v # ps) = growth ps"
| "growth (Extend d # ps) = length d + growth ps"

lemma run_append: "run (ps @ qs) code = run qs (run ps code)"
  by (induction ps code rule: run.induct) auto

lemma written_append [simp]: "written (ps @ qs) = written ps @ written qs"
  by (induction ps rule: written.induct) auto

lemma growth_append [simp]: "growth (ps @ qs) = growth ps + growth qs"
  by (induction ps rule: growth.induct) auto

lemma placed_append [simp]: "placed l (ps @ qs) = placed l ps \<union> placed (l + growth ps) qs"
  by (induction l ps rule: placed.induct) (auto simp: add.assoc)

lemma placed_growth: "(q, d) \<in> placed l ps \<Longrightarrow> l \<le> q \<and> q + length d \<le> l + growth ps"
  by (induction l ps rule: placed.induct) auto

lemma written_Write: "Write p n v \<in> set ps \<Longrightarrow> (p, n) \<in> set (written ps)"
  by (induction ps rule: written.induct) auto

definition span :: "(nat \<times> nat) set \<Rightarrow> nat set" where
  "span ws = (\<Union>(p, n) \<in> ws. {p..<p + n})"

lemma span_simps [simp]: "span {} = {}" "span (insert (p, n) ws) = {p..<p + n} \<union> span ws"
  by (simp_all add: span_def)

definition apart :: "(nat \<times> nat) list \<Rightarrow> bool" where
  "apart ws \<longleftrightarrow> sorted_wrt (\<lambda>(p, n) (q, m). {p..<p + n} \<inter> {q..<q + m} = {}) ws"

lemma UN_empty_iff: "(\<Union>x \<in> A. f x) = {} \<longleftrightarrow> (\<forall>x \<in> A. f x = {})"
  by blast

lemma apart_Cons: "apart ((p, n) # ws) \<longleftrightarrow> {p..<p + n} \<inter> span (set ws) = {} \<and> apart ws"
  by (simp only: apart_def span_def sorted_wrt.simps Int_UN_distrib UN_empty_iff split_def fst_conv snd_conv)

definition inside :: "nat \<Rightarrow> Patch list \<Rightarrow> bool" where
  "inside l ps \<longleftrightarrow> (\<forall>(p, n) \<in> set (written ps). p + n \<le> l)"

lemma inside_simps [simp]:
  "inside l []" "inside l (Write p n v # ps) \<longleftrightarrow> p + n \<le> l \<and> inside l ps" "inside l (Extend d # ps) \<longleftrightarrow> inside l ps"
  by (simp_all add: inside_def)

lemma inside_append [simp]: "inside l (ps @ qs) \<longleftrightarrow> inside l ps \<and> inside l qs"
  by (auto simp: inside_def)

lemma run_length: "inside l ps \<Longrightarrow> l \<le> length code \<Longrightarrow> length (run ps code) = length code + growth ps"
  by (induction ps code rule: run.induct) auto

lemma run_agrees: "inside l ps \<Longrightarrow> l \<le> length code \<Longrightarrow> agrees (span (set (written ps))) code (run ps code)"
proof (induction ps code rule: run.induct)
  case (2 p n v ps code)
  then have "agrees ({p..<p + n} \<union> span (set (written ps))) code (run ps (write_be code p n v))"
    using agrees_trans [OF agrees_write_be [of p n code v]] by simp
  then show ?case by simp
next
  case (3 d ps code)
  then show ?case using agrees_trans [OF agrees_append [of "{}" code d]] by simp
qed simp

lemma run_written:
  assumes "inside l ps" and "l \<le> length code" and "apart (written ps)" and "Write p n v \<in> set ps"
  shows "region p n (run ps code) = be n v"
  using assms
proof (induction ps code rule: run.induct)
  case (2 q m w ps code)
  show ?case
  proof (cases "Write p n v \<in> set ps")
    case True
    then show ?thesis using 2 by (simp add: apart_Cons)
  next
    case False
    then have eq: "q = p" "m = n" "w = v" using 2(5) by auto
    then have "region p n (run ps (write_be code p n v)) = region p n (write_be code p n v)"
      using 2(2-4) agrees_region [OF run_agrees [of l ps]] by (simp add: apart_Cons)
    then show ?thesis using eq 2(2,3) by (simp add: region_write_be)
  qed
qed auto

lemma run_placed:
  assumes "inside l ps" and "l \<le> length code" and "(q, d) \<in> placed (length code) ps"
  shows "region q (length d) (run ps code) = d"
  using assms
proof (induction ps code rule: run.induct)
  case (3 d' ps code)
  show ?case
  proof (cases "(q, d) \<in> placed (length (code @ d')) ps")
    case True
    then show ?thesis using 3 by simp
  next
    case False
    then have eq: "q = length code" "d' = d" using 3(4) by auto
    have "span (set (written ps)) \<subseteq> {0..<l}" using 3(2) by (auto simp: inside_def span_def)
    then have "region q (length d) (run ps (code @ d)) = region q (length d) (code @ d)"
      using 3(2,3) agrees_region [OF run_agrees [of l ps "code @ d"], of q "length d"] eq by force
    then show ?thesis using eq by (simp add: region_def)
  qed
qed auto

section \<open>The scripts of the four kinds of references\<close>

fun sub_script :: "EmitEnv \<Rightarrow> nat \<Rightarrow> (nat \<times> nat) list \<Rightarrow> Patch list" where
  "sub_script env l [] = []"
| "sub_script env l ((subId, p) # refs) =
     (let code = bytecode (projr (assembledSub env subId))
      in Write p (env_bytesPerDataRef env) l # Extend code # sub_script env (l + length code) refs)"

definition tag_position :: "EmitEnv \<Rightarrow> nat list \<Rightarrow> u64 \<times> u64 \<Rightarrow> nat" where
  "tag_position env ps = (\<lambda>(subId, tagId).
     (if subId = size_max then ps else m_tagPositionsInBytecode (m_state (m_subs (env_self env) ! unat subId))) ! unat tagId)"

text \<open>A reference that is accepted: the sub-assembly and the tag exist, and the position fits its operand.\<close>

definition tag_ok :: "EmitEnv \<Rightarrow> nat list \<Rightarrow> u64 \<times> u64 \<Rightarrow> bool" where
  "tag_ok env ps = (\<lambda>(subId, tagId).
     (subId = size_max \<or> unat subId < length (m_subs (env_self env))) \<and>
     unat tagId < length (if subId = size_max then ps
        else m_tagPositionsInBytecode (m_state (m_subs (env_self env) ! unat subId))) \<and>
     tag_position env ps (subId, tagId) \<noteq> size_t_max \<and>
     bytesRequired (tag_position env ps (subId, tagId)) \<le> env_bytesPerTag env)"

definition tag_script :: "EmitEnv \<Rightarrow> nat list \<Rightarrow> (nat \<times> (u64 \<times> u64)) list \<Rightarrow> Patch list" where
  "tag_script env ps refs = map (\<lambda>(p, r). Write p (env_bytesPerTag env) (tag_position env ps r)) refs"

definition write_all :: "nat \<Rightarrow> nat \<Rightarrow> nat list \<Rightarrow> Patch list" where
  "write_all n v = map (\<lambda>p. Write p n v)"

fun data_script :: "EmitEnv \<Rightarrow> nat \<Rightarrow> (bytes \<times> nat) list \<Rightarrow> (bytes \<times> bytes) list \<Rightarrow> Patch list" where
  "data_script env l refs [] = []"
| "data_script env l refs ((h, d) # ds) =
     (let ps = map snd (filter (\<lambda>(h', p). h' = h) refs)
      in if ps = [] then data_script env l refs ds
         else write_all (env_bytesPerDataRef env) l ps @ Extend d # data_script env (l + length d) refs ds)"

lemma written_write_all [simp]: "written (write_all n v ps) = map (\<lambda>p. (p, n)) ps"
  by (induction ps) (auto simp: write_all_def)

lemma growth_write_all [simp]: "growth (write_all n v ps) = 0"
  by (induction ps) (auto simp: write_all_def)

lemma placed_write_all [simp]: "placed l (write_all n v ps) = {}"
  by (induction ps) (auto simp: write_all_def)

lemma set_write_all: "set (write_all n v ps) = (\<lambda>p. Write p n v) ` set ps"
  by (simp add: write_all_def)

lemma tag_script_simps [simp]:
  "written (tag_script env ps refs) = map (\<lambda>(p, r). (p, env_bytesPerTag env)) refs"
  "growth (tag_script env ps refs) = 0" "placed l (tag_script env ps refs) = {}"
  by (induction refs) (auto simp: tag_script_def)

lemma written_sub_script [simp]: "written (sub_script env l refs) = map (\<lambda>(s, p). (p, env_bytesPerDataRef env)) refs"
  by (induction env l refs rule: sub_script.induct) (auto simp: Let_def)

lemma written_data_script:
  "written (data_script env l refs ds) =
     concat (map (\<lambda>(h, d). map (\<lambda>(h', p). (p, env_bytesPerDataRef env)) (filter (\<lambda>(h', p). h' = h) refs)) ds)"
proof (induction env l refs ds rule: data_script.induct)
  case (2 env l refs h d ds)
  then show ?case by (cases "filter (\<lambda>(h', p). h' = h) refs = []") (simp_all add: Let_def split_def comp_def)
qed simp

text \<open>What the loops do is to run these scripts.\<close>

lemma patch_sub_step:
  "patch_sub env ret (s, p) = Inr ret' \<Longrightarrow> \<exists>obj. assembledSub env s = Inr obj \<and>
     ret' = LinkerObject_append (ret\<lparr>bytecode := write_be (bytecode ret) p (env_bytesPerDataRef env) (length (bytecode ret))\<rparr>) obj"
  by (auto simp: patch_sub_def result_simps Let_def)

lemma patch_tag_step:
  "patch_tag env ps ret (p, (s, t)) = Inr ret' \<Longrightarrow> tag_ok env ps (s, t) \<and>
     ret' = ret\<lparr>bytecode := write_be (bytecode ret) p (env_bytesPerTag env) (tag_position env ps (s, t))\<rparr>"
  by (auto simp: patch_tag_def result_simps Let_def tag_ok_def tag_position_def split: if_splits)

lemma patch_sub_script:
  assumes "foldE (patch_sub env) ret refs = Inr ret'" and "inside (length (bytecode ret)) (sub_script env (length (bytecode ret)) refs)"
  shows "bytecode ret' = run (sub_script env (length (bytecode ret)) refs) (bytecode ret) \<and>
    (\<forall>(s, p) \<in> set refs. \<exists>obj q. assembledSub env s = Inr obj \<and>
       Write p (env_bytesPerDataRef env) q \<in> set (sub_script env (length (bytecode ret)) refs) \<and>
       (q, bytecode obj) \<in> placed (length (bytecode ret)) (sub_script env (length (bytecode ret)) refs))"
  using assms
proof (induction refs arbitrary: ret)
  case (Cons r refs)
  obtain s p where r: "r = (s, p)" by force
  let ?n = "env_bytesPerDataRef env" and ?l = "length (bytecode ret)"
  let ?w = "write_be (bytecode ret) p ?n ?l"
  from Cons.prems(1) r obtain obj where obj: "assembledSub env s = Inr obj"
    and rest: "foldE (patch_sub env) (LinkerObject_append (ret\<lparr>bytecode := ?w\<rparr>) obj) refs = Inr ret'"
    by (auto simp: result_simps dest!: patch_sub_step)
  let ?ret1 = "LinkerObject_append (ret\<lparr>bytecode := ?w\<rparr>) obj"
  have p: "p + ?n \<le> ?l" using Cons.prems(2) by (simp add: r Let_def)
  have code: "bytecode ?ret1 = ?w @ bytecode obj" by (simp add: LinkerObject_append_def)
  have len: "length (bytecode ?ret1) = ?l + length (bytecode obj)" using p code by simp
  have ins: "inside (length (bytecode ?ret1)) (sub_script env (length (bytecode ?ret1)) refs)"
    using Cons.prems(2) unfolding len by (auto simp: r Let_def inside_def obj)
  have step: "sub_script env ?l (r # refs) = Write p ?n ?l # Extend (bytecode obj) # sub_script env (length (bytecode ?ret1)) refs"
    by (simp add: r Let_def obj len)
  show ?case
    using Cons.IH [OF rest ins] unfolding step by (fastforce simp: r code obj len p)
qed simp

lemma patch_tag_script:
  assumes "foldE (patch_tag env ps) ret refs = Inr ret'"
  shows "ret' = ret\<lparr>bytecode := run (tag_script env ps refs) (bytecode ret)\<rparr> \<and> (\<forall>(p, r) \<in> set refs. tag_ok env ps r)"
  using assms
proof (induction refs arbitrary: ret)
  case (Cons r refs)
  obtain p s t where r: "r = (p, (s, t))" by (metis surj_pair)
  from Cons.prems r have ok: "tag_ok env ps (s, t)" and
    rest: "foldE (patch_tag env ps) (ret\<lparr>bytecode := write_be (bytecode ret) p (env_bytesPerTag env) (tag_position env ps (s, t))\<rparr>) refs = Inr ret'"
    by (auto simp: result_simps dest!: patch_tag_step)
  show ?case using Cons.IH [OF rest] ok by (simp add: r tag_script_def)
qed (simp add: tag_script_def)

lemma patch_write_all:
  assumes "\<forall>p \<in> set ps. p + n \<le> length (bytecode ret)"
  shows "foldl (\<lambda>ret p. ret\<lparr>bytecode := write_be (bytecode ret) p n (length (bytecode ret))\<rparr>) ret ps =
    ret\<lparr>bytecode := run (write_all n (length (bytecode ret)) ps) (bytecode ret)\<rparr>"
  using assms by (induction ps arbitrary: ret) (auto simp: write_all_def)

lemma patch_data_step:
  assumes "\<forall>(h', p) \<in> set refs. h' = h \<longrightarrow> p + env_bytesPerDataRef env \<le> length (bytecode ret)"
  shows "patch_data env refs ret (h, d) =
    (let ps = map snd (filter (\<lambda>(h', p). h' = h) refs); l = length (bytecode ret) in
     if ps = [] then ret else ret\<lparr>bytecode := run (write_all (env_bytesPerDataRef env) l ps @ [Extend d]) (bytecode ret)\<rparr>)"
proof -
  let ?ps = "map snd (filter (\<lambda>(h', p). h' = h) refs)" and ?n = "env_bytesPerDataRef env"
  have "foldl (\<lambda>ret (h', p). ret\<lparr>bytecode := write_be (bytecode ret) p ?n (length (bytecode ret))\<rparr>) ret
      (filter (\<lambda>(h', p). h' = h) refs) =
    foldl (\<lambda>ret p. ret\<lparr>bytecode := write_be (bytecode ret) p ?n (length (bytecode ret))\<rparr>) ret ?ps"
    by (simp add: foldl_map split_def)
  also have "\<dots> = ret\<lparr>bytecode := run (write_all ?n (length (bytecode ret)) ?ps) (bytecode ret)\<rparr>"
    by (rule patch_write_all) (use assms in auto)
  finally show ?thesis by (simp add: patch_data_def Let_def run_append)
qed

lemma inside_data_script:
  "inside l (data_script env l' refs (x # ds)) \<Longrightarrow> l \<le> m \<Longrightarrow> inside m (data_script env m' refs ds)"
  unfolding inside_def written_data_script by (simp add: ball_Un) (blast intro: order_trans)

lemma patch_data_script:
  assumes "inside (length (bytecode ret)) (data_script env (length (bytecode ret)) refs ds)"
  shows "foldl (patch_data env refs) ret ds =
    ret\<lparr>bytecode := run (data_script env (length (bytecode ret)) refs ds) (bytecode ret)\<rparr>"
  using assms
proof (induction ds arbitrary: ret)
  case (Cons hd ds)
  obtain h d where hd: "hd = (h, d)" by force
  let ?l = "length (bytecode ret)" and ?ps = "map snd (filter (\<lambda>(h', p). h' = h) refs)"
  have bound: "\<forall>(h', p) \<in> set refs. h' = h \<longrightarrow> p + env_bytesPerDataRef env \<le> ?l"
    using Cons.prems unfolding inside_def written_data_script by (auto simp: hd)
  show ?case
  proof (cases "?ps = []")
    case True
    then show ?thesis using Cons patch_data_step [OF bound, of d] by (simp add: hd Let_def)
  next
    case False
    let ?w = "write_all (env_bytesPerDataRef env) ?l ?ps @ [Extend d]"
    let ?ret1 = "ret\<lparr>bytecode := run ?w (bytecode ret)\<rparr>"
    have "inside ?l ?w" using bound by (auto simp: inside_def)
    then have len: "length (bytecode ?ret1) = ?l + length d" by (simp add: run_length del: inside_append)
    have ins: "inside (length (bytecode ?ret1)) (data_script env (length (bytecode ?ret1)) refs ds)"
      unfolding len by (rule inside_data_script [OF Cons.prems]) simp
    have step: "patch_data env refs ret (h, d) = ?ret1" using patch_data_step [OF bound, of d] False by (simp add: Let_def)
    have script: "data_script env ?l refs (hd # ds) = ?w @ data_script env (length (bytecode ?ret1)) refs ds"
      using False unfolding len by (simp add: hd Let_def)
    have "foldl (patch_data env refs) ret (hd # ds) = foldl (patch_data env refs) ?ret1 ds" by (simp only: hd foldl.simps step)
    also note Cons.IH [OF ins]
    finally show ?thesis by (simp add: script run_append del: data_script.simps foldl.simps)
  qed
qed simp

lemma data_script_finds:
  assumes "(h, p) \<in> set refs" and "(h, d) \<in> set ds" and "distinct (map fst ds)"
  shows "\<exists>q. Write p (env_bytesPerDataRef env) q \<in> set (data_script env l refs ds) \<and>
    (q, d) \<in> placed l (data_script env l refs ds)"
  using assms(2,3)
proof (induction ds arbitrary: l)
  case (Cons hd ds)
  obtain h' d' where hd: "hd = (h', d')" by force
  show ?case
  proof (cases "h' = h")
    case True
    then have d: "d' = d" using Cons.prems by (auto simp: hd image_iff)
    have p: "p \<in> set (map snd (filter (\<lambda>(h', p). h' = h) refs))" using assms(1) by force
    then have "map snd (filter (\<lambda>(h', p). h' = h) refs) \<noteq> []" by fastforce
    then show ?thesis using True d p by (intro exI [of _ l]) (simp add: hd Let_def set_write_all)
  next
    case False
    then have "(h, d) \<in> set ds" "distinct (map fst ds)" using Cons.prems by (auto simp: hd)
    then show ?thesis using Cons.IH by (fastforce simp: hd Let_def)
  qed
qed simp

lemma distinct_data_script:
  assumes "distinct (map snd refs)" and "distinct (map fst ds)"
  shows "distinct (map fst (written (data_script env l refs ds)))"
  using assms(2) unfolding written_data_script
proof (induction ds)
  case (Cons hd ds)
  obtain h d where hd: "hd = (h, d)" by force
  have inj: "h1 = h2" if "(h1, p) \<in> set refs" "(h2, p) \<in> set refs" for h1 h2 p
    using assms(1) that inj_onD [of snd "set refs" "(h1, p)" "(h2, p)"] by (simp add: distinct_map)
  have "distinct (map snd (filter (\<lambda>(h', p). h' = h) refs))" using assms(1) by (rule distinct_map_filter)
  then show ?case using Cons by (force simp: hd comp_def split_def dest: inj)
qed simp

text \<open>Operands of different items do not overlap.\<close>

lemma operand_inj:
  assumes "chunks_inv env items cs" and "j < length items" "k < length items" and "operand cs j = operand cs k"
  shows "j = k"
proof -
  have "coff cs i < coff cs i'" if "i < i'" "i' < length items" for i i'
  proof -
    have "i < length items" using that by simp
    then have "cs ! i \<noteq> []" using assms(1) by (auto simp: chunks_inv_def dest: encodes_nonempty)
    then show ?thesis using that assms(1) coff_next [of i i' cs] by (cases "cs ! i") (auto simp: chunks_inv_def)
  qed
  then show ?thesis using assms(2-4) by (metis nat.inject nat_neq_iff)
qed

lemma operand_region:
  assumes "chunks_inv env items cs" and "k < length items" and "hole_size env (items ! k) = Some n"
  shows "operand cs k + n = coff cs k + length (cs ! k) \<and> operand cs k + n \<le> length (concat cs)"
  using assms coff_bound [of k cs] encodes_hole [of env "items ! k" _ "cs ! k" n]
  by (fastforce simp: chunks_inv_def)

lemma operands_disjoint:
  assumes ch: "chunks_inv env items cs" and "j < length items" "k < length items" and "j \<noteq> k"
    and "hole_size env (items ! j) = Some n" "hole_size env (items ! k) = Some m"
  shows "{operand cs j..<operand cs j + n} \<inter> {operand cs k..<operand cs k + m} = {}"
proof -
  have len: "length cs = length items" using ch by (simp add: chunks_inv_def)
  have "operand cs j + n \<le> coff cs k \<or> operand cs k + m \<le> coff cs j"
    using operand_region [OF ch assms(2,5)] operand_region [OF ch assms(3,6)] assms(2-4) len
      coff_next [of j k cs] coff_next [of k j cs] by (cases j k rule: linorder_cases) auto
  then show ?thesis by auto
qed

definition operands :: "EmitEnv \<Rightarrow> AssemblyItem list \<Rightarrow> bytes list \<Rightarrow> (nat \<times> nat) set" where
  "operands env items cs = {(operand cs k, n) |k n. k < length items \<and> hole_size env (items ! k) = Some n}"

lemma apart_operands:
  assumes ch: "chunks_inv env items cs" and "distinct (map fst ws)" and "set ws \<subseteq> operands env items cs"
  shows "apart ws"
  using assms(2,3)
proof (induction ws)
  case (Cons w ws)
  obtain p n where w: "w = (p, n)" by force
  have "{p..<p + n} \<inter> {q..<q + m} = {}" if "(q, m) \<in> set ws" for q m
  proof -
    from that Cons.prems obtain j k where "j < length items" "hole_size env (items ! j) = Some n" "p = operand cs j"
      and "k < length items" "hole_size env (items ! k) = Some m" "q = operand cs k"
      by (auto simp: w operands_def)
    moreover have "p \<noteq> q" using that Cons.prems(1) by (force simp: w)
    ultimately show ?thesis using operands_disjoint [OF ch, of j k n m] by fast
  qed
  then have "{p..<p + n} \<inter> span (set ws) = {}" unfolding span_def by blast
  with Cons show ?case by (simp add: w apart_Cons)
qed (simp add: apart_def)

section \<open>The script of the assembler\<close>

definition holes :: "AssemblyItemType \<Rightarrow> AssemblyItem list \<Rightarrow> bytes list \<Rightarrow> nat set" where
  "holes type items cs = {operand cs k |k. k < length items \<and> it_type (items ! k) = type}"

lemma holes_disjoint:
  assumes "chunks_inv env items cs" and "type \<noteq> type'"
  shows "holes type items cs \<inter> holes type' items cs = {}"
  using assms operand_inj [OF assms(1)] unfolding holes_def by blast

lemma table_image: "g ` table type f items cs = {g (f (items ! k) (operand cs k)) |k. k < length items \<and> it_type (items ! k) = type}"
  unfolding table_def by blast

lemma refs_holes:
  assumes "refs_inv env items cs e"
  shows "fst ` set (e_tagRef e) = holes PushTag items cs" "snd ` set (e_dataRef e) = holes PushData items cs"
    "snd ` set (e_subRef e) = holes PushSub items cs" "set (e_sizeRef e) = holes PushProgramSize items cs"
  using assms unfolding refs_inv_def holes_def by (simp_all add: table_image) (simp add: table_def)

definition end_script :: "EmitEnv \<Rightarrow> Patch list" where
  "end_script env =
     (let s = m_state (env_self env)
      in if m_subs (env_self env) \<noteq> [] \<or> m_data s \<noteq> [] \<or> m_auxiliaryData s \<noteq> []
         then [Extend [Instruction_INVALID]] else [])"

definition finish_script :: "EmitEnv \<Rightarrow> EmitState \<Rightarrow> Patch list" where
  "finish_script env e =
     (let s = m_state (env_self env);
          s0 = end_script env;
          l0 = length (e_code e) + growth s0;
          s1 = sub_script env l0 (e_subRef e);
          l1 = l0 + growth s1;
          s2 = tag_script env (e_tagPositions e) (e_tagRef e);
          s3 = data_script env l1 (e_dataRef e) (m_data s) @ [Extend (m_auxiliaryData s)];
          l3 = l1 + growth s3
      in s0 @ s1 @ s2 @ s3 @ write_all (env_bytesPerDataRef env) l3 (e_sizeRef e))"

lemma written_end [simp]: "written (end_script env) = []"
  by (simp add: end_script_def Let_def)

lemma written_finish:
  "written (finish_script env e) =
     map (\<lambda>(s, p). (p, env_bytesPerDataRef env)) (e_subRef e) @
     map (\<lambda>(p, r). (p, env_bytesPerTag env)) (e_tagRef e) @
     written (data_script env 0 (e_dataRef e) (m_data (m_state (env_self env)))) @
     map (\<lambda>p. (p, env_bytesPerDataRef env)) (e_sizeRef e)"
  by (simp add: finish_script_def Let_def written_data_script)

lemma data_script_positions:
  "fst ` set (written (data_script env l refs ds)) = snd ` {r \<in> set refs. fst r \<in> fst ` set ds}"
  unfolding written_data_script by (force simp: image_iff)

lemma holes_operands:
  "p \<in> holes PushTag items cs \<Longrightarrow> (p, env_bytesPerTag env) \<in> operands env items cs"
  "p \<in> holes PushSub items cs \<Longrightarrow> (p, env_bytesPerDataRef env) \<in> operands env items cs"
  "p \<in> holes PushData items cs \<Longrightarrow> (p, env_bytesPerDataRef env) \<in> operands env items cs"
  "p \<in> holes PushProgramSize items cs \<Longrightarrow> (p, env_bytesPerDataRef env) \<in> operands env items cs"
  unfolding holes_def operands_def hole_size_def by force+

lemma data_script_sizes: "(p, n) \<in> set (written (data_script env l refs ds)) \<Longrightarrow> n = env_bytesPerDataRef env"
  unfolding written_data_script by auto

lemma finish_operands:
  assumes inv: "refs_inv env items cs e"
  shows "set (written (finish_script env e)) \<subseteq> operands env items cs"
proof -
  have "(p, n) \<in> operands env items cs" if w: "(p, n) \<in> set (written (data_script env 0 (e_dataRef e) (m_data (m_state (env_self env)))))" for p n
  proof -
    have "p \<in> snd ` set (e_dataRef e)" using w data_script_positions [of env 0 "e_dataRef e"] by (metis (no_types, lifting) fst_conv image_eqI imageE mem_Collect_eq)
    then show ?thesis using data_script_sizes [OF w] holes_operands(3) refs_holes(2) [OF inv] by simp
  qed
  moreover have "p \<in> holes PushSub items cs" if "(s, p) \<in> set (e_subRef e)" for s p
    using that refs_holes(3) [OF inv] by force
  moreover have "p \<in> holes PushTag items cs" if "(p, r) \<in> set (e_tagRef e)" for p r
    using that refs_holes(1) [OF inv] by force
  ultimately show ?thesis
    unfolding written_finish using refs_holes(4) [OF inv] by (auto simp: holes_operands)
qed

lemma distinct_append4:
  assumes "distinct a" "distinct b" "distinct c" "distinct d"
    and "set a \<subseteq> f i" "set b \<subseteq> f j" "set c \<subseteq> f k" "set d \<subseteq> f l"
    and "distinct [i, j, k, l]" and "\<And>x y. x \<noteq> y \<Longrightarrow> f x \<inter> f y = {}"
  shows "distinct (a @ b @ c @ d)"
proof -
  have "f i \<inter> f j = {}" "f i \<inter> f k = {}" "f i \<inter> f l = {}" "f j \<inter> f k = {}" "f j \<inter> f l = {}" "f k \<inter> f l = {}"
    using assms(9,10) by simp_all
  with assms(1-8) show ?thesis unfolding distinct_append set_append by blast
qed

lemma finish_distinct:
  assumes ch: "chunks_inv env items cs" and inv: "refs_inv env items cs e"
    and data: "distinct (map fst (m_data (m_state (env_self env))))"
  shows "distinct (map fst (written (finish_script env e)))"
proof -
  let ?d = "data_script env 0 (e_dataRef e) (m_data (m_state (env_self env)))"
  have d: "distinct (map fst (written ?d))"
    using inv data by (intro distinct_data_script) (simp_all add: refs_inv_def)
  have ds: "fst ` set (written ?d) \<subseteq> holes PushData items cs"
    unfolding data_script_positions refs_holes(2) [OF inv, symmetric] by blast
  have eq: "map fst (written (finish_script env e)) = map snd (e_subRef e) @ map fst (e_tagRef e) @ map fst (written ?d) @ e_sizeRef e"
    by (simp add: written_finish comp_def split_def)
  show ?thesis
    unfolding eq
  proof (rule distinct_append4 [where f = "\<lambda>type. holes type items cs" and i = PushSub and j = PushTag and k = PushData and l = PushProgramSize])
    show "distinct (map snd (e_subRef e))" "distinct (map fst (e_tagRef e))" "distinct (e_sizeRef e)"
      using inv by (simp_all add: refs_inv_def)
    show "holes x items cs \<inter> holes y items cs = {}" if "x \<noteq> y" for x y by (rule holes_disjoint [OF ch that])
  qed (use d ds refs_holes [OF inv] in simp_all)
qed

lemma operands_inside:
  assumes "chunks_inv env items cs" and "set (written ps) \<subseteq> operands env items cs"
  shows "inside (length (concat cs)) ps"
  using assms operand_region [OF assms(1)] unfolding inside_def operands_def by fastforce

lemma inside_mono: "inside l ps \<Longrightarrow> l \<le> m \<Longrightarrow> inside m ps"
  unfolding inside_def by (fastforce intro: order_trans)

lemma patch_size_write_all:
  "foldl (patch_size env) ret ps =
     foldl (\<lambda>ret p. ret\<lparr>bytecode := write_be (bytecode ret) p (env_bytesPerDataRef env) (length (bytecode ret))\<rparr>) ret ps"
  by (simp add: patch_size_def [abs_def])

lemma finish_inside:
  assumes "emit_inv env items cs e"
  shows "inside (length (e_code e)) (finish_script env e)"
proof -
  have "chunks_inv env items cs" "refs_inv env items cs e" "e_code e = concat cs" using assms by (simp_all add: emit_inv_def)
  then show ?thesis using operands_inside finish_operands by metis
qed

text \<open>A sub-assembly that is referred to is found, and its code is placed where the operand says.\<close>

definition subs_placed :: "EmitEnv \<Rightarrow> EmitState \<Rightarrow> nat \<Rightarrow> Patch list \<Rightarrow> bool" where
  "subs_placed env e l script \<longleftrightarrow>
     (\<forall>(s, p) \<in> set (e_subRef e). \<exists>obj q. assembledSub env s = Inr obj \<and>
        Write p (env_bytesPerDataRef env) q \<in> set script \<and> (q, bytecode obj) \<in> placed l script)"

lemma assemble_finish_run:
  assumes fin: "assemble_finish env e = Inr (ret, a)" and ins: "inside (length (e_code e)) (finish_script env e)"
  shows "bytecode ret = run (finish_script env e) (e_code e) \<and>
    subs_placed env e (length (e_code e)) (finish_script env e) \<and>
    (\<forall>(p, r) \<in> set (e_tagRef e). tag_ok env (e_tagPositions e) r)"
proof -
  let ?s = "m_state (env_self env)" and ?n = "env_bytesPerDataRef env"
  let ?pE = "end_script env"
  let ?retE = "(e_ret e)\<lparr>bytecode := run ?pE (e_code e)\<rparr>"
  let ?lenE = "length (e_code e) + growth ?pE"
  let ?pS = "sub_script env ?lenE (e_subRef e)"
  let ?lenS = "?lenE + growth ?pS"
  let ?pT = "tag_script env (e_tagPositions e) (e_tagRef e)"
  let ?pD = "data_script env ?lenS (e_dataRef e) (m_data ?s)"
  let ?pA = "[Extend (m_auxiliaryData ?s)]"
  let ?lenD = "?lenS + growth ?pD + length (m_auxiliaryData ?s)"
  let ?pZ = "write_all ?n ?lenD (e_sizeRef e)"
  have script: "finish_script env e = ?pE @ ?pS @ ?pT @ ?pD @ ?pA @ ?pZ"
    by (simp add: finish_script_def Let_def add.assoc)
  have i: "inside (length (e_code e)) ?pE" "inside (length (e_code e)) ?pS" "inside (length (e_code e)) ?pT"
    "inside (length (e_code e)) ?pD" "inside (length (e_code e)) ?pZ" using ins unfolding script by simp_all
  have ret0: "?retE = (if m_subs (env_self env) \<noteq> [] \<or> m_data ?s \<noteq> [] \<or> m_auxiliaryData ?s \<noteq> []
      then (e_ret e)\<lparr>bytecode := e_code e @ [Instruction_INVALID]\<rparr> else e_ret e)"
    by (simp add: end_script_def Let_def)
  from fin obtain ret1 ret2 where r1: "foldE (patch_sub env) ?retE (e_subRef e) = Inr ret1"
    and r2: "foldE (patch_tag env (e_tagPositions e)) ret1 (e_tagRef e) = Inr ret2"
    and r3: "ret = foldl (patch_size env)
      ((foldl (patch_data env (e_dataRef e)) ret2 (m_data ?s))\<lparr>bytecode :=
         bytecode (foldl (patch_data env (e_dataRef e)) ret2 (m_data ?s)) @ m_auxiliaryData ?s\<rparr>) (e_sizeRef e)"
    unfolding assemble_finish_def Let_def ret0 [symmetric] by (auto simp: result_simps)
  have l0: "length (bytecode ?retE) = ?lenE" using run_length [OF i(1)] by simp
  have c1: "bytecode ret1 = run ?pS (bytecode ?retE)" and sub: "subs_placed env e ?lenE ?pS"
    using patch_sub_script [OF r1] inside_mono [OF i(2)] unfolding l0 subs_placed_def by simp_all
  have l1: "length (bytecode ret1) = ?lenS" unfolding c1 using run_length [OF i(2)] l0 by simp
  have c2: "bytecode ret2 = run ?pT (bytecode ret1)" and tags: "\<forall>(p, r) \<in> set (e_tagRef e). tag_ok env (e_tagPositions e) r"
    using patch_tag_script [OF r2] by simp_all
  have l2: "length (bytecode ret2) = ?lenS" unfolding c2 using run_length [OF i(3)] l1 by simp
  have c3: "bytecode (foldl (patch_data env (e_dataRef e)) ret2 (m_data ?s)) = run ?pD (bytecode ret2)"
    using patch_data_script [of ret2] inside_mono [OF i(4)] unfolding l2 by simp
  have l3: "length (run ?pD (bytecode ret2)) = ?lenS + growth ?pD" using run_length [OF i(4)] l2 by simp
  have "\<forall>p \<in> set (e_sizeRef e). p + ?n \<le> length (e_code e)" using i(5) by (simp add: inside_def)
  then have "bytecode ret = run ?pZ (run ?pA (run ?pD (bytecode ret2)))"
    unfolding r3 patch_size_write_all using l3 by (subst patch_write_all) (auto simp: c3)
  then have "bytecode ret = run (finish_script env e) (e_code e)"
    unfolding script run_append c2 c1 by simp
  moreover have "subs_placed env e (length (e_code e)) (finish_script env e)"
    using sub unfolding subs_placed_def script by fastforce
  ultimately show ?thesis using tags by blast
qed

section \<open>The layout\<close>

fun recut :: "'a list list \<Rightarrow> 'a list \<Rightarrow> 'a list list" where
  "recut [] F = []"
| "recut (c # cs) F = take (length c) F # recut cs (drop (length c) F)"

lemma length_recut [simp]: "length (recut cs F) = length cs"
  by (induction cs F rule: recut.induct) auto

lemma concat_recut: "concat (recut cs F) = take (length (concat cs)) F"
  by (induction cs F rule: recut.induct) (auto simp: take_add)

lemma nth_recut: "k < length cs \<Longrightarrow> recut cs F ! k = region (coff cs k) (length (cs ! k)) F"
proof (induction cs F arbitrary: k rule: recut.induct)
  case (2 c cs F)
  then show ?case by (cases k) (auto simp: region_def coff_def add.commute)
qed simp

lemma coff_recut:
  assumes "length (concat cs) \<le> length F"
  shows "coff (recut cs F) k = coff cs k"
proof -
  have "map length (recut cs F) = map length cs"
    using assms by (induction cs F rule: recut.induct) auto
  then have "sum_list (take k (map length (recut cs F))) = sum_list (take k (map length cs))" by simp
  then show ?thesis by (simp add: coff_def length_concat take_map)
qed

lemma encodes_no_hole: "hole_size env it = None \<Longrightarrow> encodes env it h c = encodes env it h' c"
  by (simp add: encodes_def hole_size_def split: AssemblyItemType.splits)

lemma encodes_refill:
  assumes "encodes env it h (op # h)" and "hole_size env it = Some n" and "length h' = n"
  shows "encodes env it h' (op # h')"
  using assms by (auto simp: encodes_def hole_size_def split: AssemblyItemType.splits)

text \<open>Only operands are changed.\<close>

lemma span_operands:
  assumes ch: "chunks_inv env items cs" and k: "k < length items" and i: "i < length (cs ! k)"
    and "hole_size env (items ! k) = None \<or> i = 0"
  shows "coff cs k + i \<notin> span (operands env items cs)"
proof
  assume "coff cs k + i \<in> span (operands env items cs)"
  then obtain j n where j: "j < length items" "hole_size env (items ! j) = Some n"
    and r: "operand cs j \<le> coff cs k + i" "coff cs k + i < operand cs j + n"
    by (auto simp: span_def operands_def)
  have len: "length cs = length items" using ch by (simp add: chunks_inv_def)
  have "j \<noteq> k" using assms(4) j r by auto
  then show False
    using operand_region [OF ch j] r i len j(1) k coff_next [of j k cs] coff_next [of k j cs]
    by (cases j k rule: linorder_cases) auto
qed

lemma operand_outside:
  assumes ch: "chunks_inv env items cs" and k: "k < length items" "hole_size env (items ! k) = Some n"
    and ws: "ws \<subseteq> operands env items cs" and p: "operand cs k \<notin> fst ` ws"
  shows "{operand cs k..<operand cs k + n} \<inter> span ws = {}"
proof -
  have "{operand cs k..<operand cs k + n} \<inter> {q..<q + m} = {}" if "(q, m) \<in> ws" for q m
  proof -
    from that ws obtain j where j: "j < length items" "q = operand cs j" "hole_size env (items ! j) = Some m"
      by (auto simp: operands_def)
    have "j \<noteq> k" using that p j by force
    with j k operands_disjoint [OF ch, of k j n m] show ?thesis by simp
  qed
  then show ?thesis unfolding span_def by blast
qed

text \<open>
  \<open>resolves env ps code l it hole\<close>: the operand of the item is the position of the tag, or the offset behind the
  instructions (which end at \<open>l\<close>) at which the data or the code of the sub-assembly lies, or the size of the whole code. Data
  that is not known to the assembly leaves the operand empty.
\<close>

definition at_offset :: "nat \<Rightarrow> bytes \<Rightarrow> nat \<Rightarrow> bytes \<Rightarrow> bool" where
  "at_offset l code q d \<longleftrightarrow> l \<le> q \<and> q + length d \<le> length code \<and> region q (length d) code = d"

definition resolves :: "EmitEnv \<Rightarrow> nat list \<Rightarrow> bytes \<Rightarrow> nat \<Rightarrow> AssemblyItem \<Rightarrow> bytes \<Rightarrow> bool" where
  "resolves env ps code l it hole =
     (case it_type it of
        PushTag \<Rightarrow> (\<exists>r. splitForeignPushTag it = Inr r \<and> tag_ok env ps r \<and>
          hole = be (env_bytesPerTag env) (tag_position env ps r))
      | PushSub \<Rightarrow> (\<exists>d obj q. item_data it = Inr d \<and> assembledSub env (unat d) = Inr obj \<and>
          hole = be (env_bytesPerDataRef env) q \<and> at_offset l code q (bytecode obj))
      | PushData \<Rightarrow> (\<exists>h. item_data it = Inr h \<and>
          (case map_find (h256_of_u256 h) (m_data (m_state (env_self env))) of
             None \<Rightarrow> hole = replicate (env_bytesPerDataRef env) 0
           | Some d \<Rightarrow> \<exists>q. hole = be (env_bytesPerDataRef env) q \<and> at_offset l code q d))
      | PushProgramSize \<Rightarrow> hole = be (env_bytesPerDataRef env) (length code)
      | _ \<Rightarrow> True)"

definition layout :: "EmitEnv \<Rightarrow> AssemblyItem list \<Rightarrow> nat list \<Rightarrow> bytes \<Rightarrow> bytes list \<Rightarrow> bool" where
  "layout env items ps code cs \<longleftrightarrow>
     length cs = length items \<and> concat cs = take (length (concat cs)) code \<and>
     (\<forall>k < length items. \<exists>hole. encodes env (items ! k) hole (cs ! k) \<and>
        resolves env ps code (length (concat cs)) (items ! k) hole) \<and>
     positions_inv items cs ps"

lemma region_Suc: "p < length code \<Longrightarrow> region p (Suc n) code = code ! p # region (Suc p) n code"
  by (simp add: region_def Cons_nth_drop_Suc [symmetric])

lemma written_hole:
  assumes inv: "emit_inv env items cs e" and data: "distinct (map fst (m_data (m_state (env_self env))))"
    and w: "Write p n v \<in> set (finish_script env e)"
  shows "region p n (run (finish_script env e) (e_code e)) = be n v"
proof (rule run_written [OF finish_inside [OF inv] order_refl _ w])
  have "chunks_inv env items cs" "refs_inv env items cs e" using inv by (simp_all add: emit_inv_def)
  then show "apart (written (finish_script env e))"
    using apart_operands [OF _ finish_distinct finish_operands] data by blast
qed

lemma placed_offset:
  assumes inv: "emit_inv env items cs e" and "(q, d) \<in> placed (length (e_code e)) (finish_script env e)"
  shows "at_offset (length (e_code e)) (run (finish_script env e) (e_code e)) q d"
  using run_placed [OF finish_inside [OF inv] order_refl assms(2)] run_length [OF finish_inside [OF inv] order_refl]
    placed_growth [OF assms(2)] by (simp add: at_offset_def)

lemma table_member:
  "k < length items \<Longrightarrow> it_type (items ! k) = type \<Longrightarrow> f (items ! k) (operand cs k) \<in> table type f items cs"
  unfolding table_def by blast

lemma resolves_tag:
  assumes inv: "emit_inv env items cs e" and data: "distinct (map fst (m_data (m_state (env_self env))))"
    and tags: "\<forall>(p, r) \<in> set (e_tagRef e). tag_ok env (e_tagPositions e) r"
    and k: "k < length items" "it_type (items ! k) = PushTag"
  shows "resolves env (e_tagPositions e) code l (items ! k)
    (region (operand cs k) (env_bytesPerTag env) (run (finish_script env e) (e_code e)))"
proof -
  have inv': "chunks_inv env items cs" "refs_inv env items cs e" using inv by (simp_all add: emit_inv_def)
  then obtain r where r: "splitForeignPushTag (items ! k) = Inr r" using k by (force simp: chunks_inv_def encodes_def)
  have m: "(operand cs k, r) \<in> set (e_tagRef e)"
    using inv'(2) table_member [OF k, of "\<lambda>it p. (p, projr (splitForeignPushTag it))" cs] r by (simp add: refs_inv_def)
  then have "Write (operand cs k) (env_bytesPerTag env) (tag_position env (e_tagPositions e) r) \<in> set (finish_script env e)"
    by (force simp: finish_script_def Let_def tag_script_def)
  from written_hole [OF inv data this] show ?thesis using tags m r k by (auto simp: resolves_def)
qed

lemma resolves_sub:
  assumes inv: "emit_inv env items cs e" and data: "distinct (map fst (m_data (m_state (env_self env))))"
    and subs: "subs_placed env e (length (e_code e)) (finish_script env e)"
    and k: "k < length items" "it_type (items ! k) = PushSub"
  shows "resolves env ps (run (finish_script env e) (e_code e)) (length (e_code e)) (items ! k)
    (region (operand cs k) (env_bytesPerDataRef env) (run (finish_script env e) (e_code e)))"
proof -
  have inv': "chunks_inv env items cs" "refs_inv env items cs e" using inv by (simp_all add: emit_inv_def)
  then obtain d where d: "item_data (items ! k) = Inr d" using k by (force simp: chunks_inv_def encodes_def)
  have "(unat d, operand cs k) \<in> set (e_subRef e)"
    using inv'(2) table_member [OF k, of "\<lambda>it p. (unat (projr (item_data it)), p)" cs] d by (simp add: refs_inv_def)
  with subs obtain obj q where q: "assembledSub env (unat d) = Inr obj"
    "Write (operand cs k) (env_bytesPerDataRef env) q \<in> set (finish_script env e)"
    "(q, bytecode obj) \<in> placed (length (e_code e)) (finish_script env e)" by (auto simp: subs_placed_def)
  show ?thesis
    using written_hole [OF inv data q(2)] placed_offset [OF inv q(3)] q(1) d k by (auto simp: resolves_def)
qed

lemma resolves_size:
  assumes inv: "emit_inv env items cs e" and data: "distinct (map fst (m_data (m_state (env_self env))))"
    and k: "k < length items" "it_type (items ! k) = PushProgramSize"
  shows "resolves env ps (run (finish_script env e) (e_code e)) l (items ! k)
    (region (operand cs k) (env_bytesPerDataRef env) (run (finish_script env e) (e_code e)))"
proof -
  have "operand cs k \<in> set (e_sizeRef e)"
    using inv table_member [OF k, of "\<lambda>it p. p" cs] by (simp add: refs_inv_def emit_inv_def)
  then have "Write (operand cs k) (env_bytesPerDataRef env) (length (e_code e) + growth (finish_script env e)) \<in> set (finish_script env e)"
    by (auto simp: finish_script_def Let_def set_write_all add.assoc)
  from written_hole [OF inv data this] show ?thesis
    using run_length [OF finish_inside [OF inv] order_refl] k by (simp add: resolves_def)
qed

lemma finish_positions:
  assumes "refs_inv env items cs e"
  shows "fst ` set (written (finish_script env e)) = holes PushSub items cs \<union> holes PushTag items cs \<union>
    fst ` set (written (data_script env 0 (e_dataRef e) (m_data (m_state (env_self env))))) \<union> holes PushProgramSize items cs"
proof -
  have "set (map fst (written (finish_script env e))) = snd ` set (e_subRef e) \<union> fst ` set (e_tagRef e) \<union>
    fst ` set (written (data_script env 0 (e_dataRef e) (m_data (m_state (env_self env))))) \<union> set (e_sizeRef e)"
    by (simp add: written_finish comp_def split_def image_Un image_image Un_assoc)
  then show ?thesis by (simp add: refs_holes [OF assms])
qed

lemma resolves_data:
  assumes inv: "emit_inv env items cs e" and data: "distinct (map fst (m_data (m_state (env_self env))))"
    and k: "k < length items" "it_type (items ! k) = PushData"
  shows "resolves env ps (run (finish_script env e) (e_code e)) (length (e_code e)) (items ! k)
    (region (operand cs k) (env_bytesPerDataRef env) (run (finish_script env e) (e_code e)))"
proof -
  let ?ds = "m_data (m_state (env_self env))" and ?n = "env_bytesPerDataRef env"
  have inv': "chunks_inv env items cs" "refs_inv env items cs e" and code: "e_code e = concat cs"
    using inv by (simp_all add: emit_inv_def)
  from inv' k have enc: "encodes env (items ! k) (zero_hole env (items ! k)) (cs ! k)" by (simp add: chunks_inv_def)
  then obtain u where u: "item_data (items ! k) = Inr u" using k by (force simp: encodes_def)
  let ?h = "h256_of_u256 u"
  have m: "(?h, operand cs k) \<in> set (e_dataRef e)"
    using inv'(2) table_member [OF k, of "\<lambda>it p. (h256_of_u256 (projr (item_data it)), p)" cs] u by (simp add: refs_inv_def)
  have size: "hole_size env (items ! k) = Some ?n" using k by (simp add: hole_size_def)
  show ?thesis
  proof (cases "map_find ?h ?ds")
    case (Some d)
    then have "(?h, d) \<in> set ?ds" by (simp add: map_find_def map_of_SomeD)
    from data_script_finds [OF m this data] obtain q where
      "Write (operand cs k) ?n q \<in> set (finish_script env e)" "(q, d) \<in> placed (length (e_code e)) (finish_script env e)"
      by (fastforce simp: finish_script_def Let_def)
    then show ?thesis
      using written_hole [OF inv data] placed_offset [OF inv] Some u k by (auto simp: resolves_def)
  next
    case None
    then have nin: "?h \<notin> fst ` set ?ds" by (simp add: map_find_def map_of_eq_None_iff)
    have "inj_on snd (set (e_dataRef e))" using inv'(2) unfolding refs_inv_def distinct_map by blast
    then have "h = ?h" if "(h, operand cs k) \<in> set (e_dataRef e)" for h
      using m that inj_onD [of snd "set (e_dataRef e)" "(h, operand cs k)" "(?h, operand cs k)"] by simp
    then have "operand cs k \<notin> fst ` set (written (data_script env 0 (e_dataRef e) ?ds))"
      unfolding data_script_positions using nin by force
    moreover have "operand cs k \<in> holes PushData items cs" using k unfolding holes_def by blast
    then have "operand cs k \<notin> holes type items cs" if "type \<noteq> PushData" for type
      using holes_disjoint [OF inv'(1) that] by blast
    ultimately have "operand cs k \<notin> fst ` set (written (finish_script env e))"
      unfolding finish_positions [OF inv'(2)] by simp
    from operand_outside [OF inv'(1) k(1) size finish_operands [OF inv'(2)] this]
    have "region (operand cs k) ?n (run (finish_script env e) (e_code e)) = region (operand cs k) ?n (e_code e)"
      using agrees_region [OF run_agrees [OF finish_inside [OF inv] order_refl]] operand_region [OF inv'(1) k(1) size] code by simp
    also have "\<dots> = replicate ?n 0"
    proof -
      from encodes_hole [OF enc size] size obtain op where op: "cs ! k = op # replicate ?n 0" by (auto simp: zero_hole_def)
      have "region (coff cs k) (Suc ?n) (concat cs) = op # replicate ?n 0"
        using region_chunk [of k cs] op inv'(1) k(1) by (simp add: chunks_inv_def)
      then show ?thesis using operand_region [OF inv'(1) k(1) size] unfolding code by (subst (asm) region_Suc) auto
    qed
    finally show ?thesis using None u k by (simp add: resolves_def)
  qed
qed

lemma finish_layout:
  assumes inv: "emit_inv env items cs e" and data: "distinct (map fst (m_data (m_state (env_self env))))"
    and fin: "assemble_finish env e = Inr (ret, a)"
  shows "\<exists>cs'. layout env items (e_tagPositions e) (bytecode ret) cs' \<and> length (concat cs') = length (e_code e)"
proof -
  let ?F = "run (finish_script env e) (e_code e)" and ?l = "length (e_code e)"
  have inv': "chunks_inv env items cs" "refs_inv env items cs e" and code: "e_code e = concat cs"
    and pos: "positions_inv items cs (e_tagPositions e)"
    using inv by (simp_all add: emit_inv_def)
  have len: "length cs = length items" using inv'(1) by (simp add: chunks_inv_def)
  have F: "bytecode ret = ?F" and subs: "subs_placed env e ?l (finish_script env e)"
    and tags: "\<forall>(p, r) \<in> set (e_tagRef e). tag_ok env (e_tagPositions e) r"
    using assemble_finish_run [OF fin finish_inside [OF inv]] by blast+
  have ag: "agrees (span (operands env items cs)) (concat cs) ?F"
    using run_agrees [OF finish_inside [OF inv] order_refl] finish_operands [OF inv'(2)]
    unfolding code by (elim agrees_mono) (auto simp: span_def)
  have big: "length (concat cs) \<le> length ?F" using agrees_length [OF ag] .
  have item: "\<exists>hole. encodes env (items ! k) hole (recut cs ?F ! k) \<and>
      resolves env (e_tagPositions e) ?F ?l (items ! k) hole" if k: "k < length items" for k
  proof -
    have enc: "encodes env (items ! k) (zero_hole env (items ! k)) (cs ! k)" using inv'(1) k by (simp add: chunks_inv_def)
    have same: "?F ! (coff cs k + i) = cs ! k ! i"
      if "i < length (cs ! k)" "hole_size env (items ! k) = None \<or> i = 0" for i
      using agrees_nth [OF ag _ span_operands [OF inv'(1) k that]] that(1) coff_bound [of k cs] k len nth_chunk [of k cs i] by simp
    show ?thesis
    proof (cases "hole_size env (items ! k)")
      case None
      have "region (coff cs k) (length (cs ! k)) ?F = cs ! k"
        by (rule nth_equalityI) (use None same big coff_bound [of k cs] k len in \<open>auto simp: nth_region\<close>)
      moreover have "resolves env (e_tagPositions e) ?F ?l (items ! k) h" for h
        using None by (auto simp: resolves_def hole_size_def split: AssemblyItemType.splits)
      ultimately show ?thesis using enc k len by (auto simp: nth_recut)
    next
      case (Some n)
      let ?h = "region (operand cs k) n ?F"
      from encodes_hole [OF enc Some] obtain op where op: "cs ! k = op # zero_hole env (items ! k)"
        "length (zero_hole env (items ! k)) = n" by blast
      have hl: "length ?h = n" using operand_region [OF inv'(1) k Some] big by simp
      have "region (coff cs k) (Suc n) ?F = ?F ! coff cs k # ?h"
        using operand_region [OF inv'(1) k Some] big by (intro region_Suc) linarith
      also have "?F ! coff cs k = op" using same [of 0] op by simp
      finally have "recut cs ?F ! k = op # ?h" using k len op by (simp add: nth_recut)
      moreover have "encodes env (items ! k) ?h (op # ?h)"
        using encodes_refill [OF _ Some hl] enc op by simp
      moreover have "resolves env (e_tagPositions e) ?F ?l (items ! k) ?h"
        using Some resolves_tag [OF inv data tags k] resolves_sub [OF inv data subs k] resolves_size [OF inv data k]
          resolves_data [OF inv data k] by (auto simp: hole_size_def split: AssemblyItemType.splits)
      ultimately show ?thesis by auto
    qed
  qed
  have "positions_inv items (recut cs ?F) (e_tagPositions e)"
    using pos by (simp add: positions_inv_def coff_recut [OF big])
  moreover have "length (concat (recut cs ?F)) = ?l" using big code by (simp add: concat_recut)
  ultimately show ?thesis
    using item len F code by (intro exI [of _ "recut cs ?F"]) (simp add: layout_def concat_recut)
qed

end
