(* ===== verification/Assembled.thy ===== *)
theory Assembled
  imports Layout
begin

text \<open>
  The properties of the assembler: the layout of the assembled code, the targets of jumps, the link
  references of the result, caching, the size estimate and the numbers of nested sub-assemblies.
\<close>

section \<open>Preparing the items\<close>

text \<open>The preparation changes nothing but the recorded numbers of occurrences of immutables.\<close>

definition same_code :: "AssemblyItem \<Rightarrow> AssemblyItem \<Rightarrow> bool" where
  "same_code i j \<longleftrightarrow> i = j \<or> (\<exists>n. i = setImmutableOccurrences n j)"

lemma same_code_eqs:
  assumes "same_code i j"
  shows "it_type i = it_type j" "it_instruction i = it_instruction j" "item_data i = item_data j"
    "splitForeignPushTag i = splitForeignPushTag j" "tag_id i = tag_id j"
  using assms unfolding same_code_def setImmutableOccurrences_def item_data_def splitForeignPushTag_def tag_id_def by auto

lemma same_code_encodes: "encodes env i h c = encodes env j h c" if "same_code i j"
  unfolding encodes_def same_code_eqs [OF that] by (rule refl)

lemma same_code_resolves: "resolves env ps code l i h = resolves env ps code l j h" if "same_code i j"
  unfolding resolves_def same_code_eqs [OF that] by (rule refl)

lemma prepare_fold:
  assumes "foldE (\<lambda>(done, refs) i. bindE (count_immutables refs i) (\<lambda>(i, refs). Inr (done @ [i], refs))) (done, refs) items = Inr (items', refs')"
  shows "\<exists>its. items' = done @ its \<and> list_all2 same_code its items"
  using assms
proof (induction items arbitrary: "done" refs)
  case (Cons i items)
  from Cons.prems obtain i' r where i': "count_immutables refs i = Inr (i', r)"
    and rest: "foldE (\<lambda>(done, refs) i. bindE (count_immutables refs i) (\<lambda>(i, refs). Inr (done @ [i], refs))) (done @ [i'], r) items = Inr (items', refs')"
    by (auto simp: result_simps)
  have "same_code i' i"
    using i' unfolding same_code_def by (auto simp: count_immutables_def result_simps Let_def case_prod_beta split: if_splits)
  with Cons.IH [OF rest] show ?case by force
qed simp

lemma prepare_items_same:
  "prepare_items refs items = Inr (items', refs') \<Longrightarrow> list_all2 same_code items' items"
  using prepare_fold [of "[]" refs items]
  by (fastforce simp: prepare_items_def result_simps Let_def split: if_splits)

lemma same_code_layout:
  assumes "list_all2 same_code items items'"
  shows "layout env items ps code cs = layout env items' ps code cs"
proof -
  have len: "length items = length items'" and nth: "\<And>k. k < length items' \<Longrightarrow> same_code (items ! k) (items' ! k)"
    using assms by (auto simp: list_all2_conv_all_nth)
  have eq: "encodes env (items ! k) h c = encodes env (items' ! k) h c"
    "resolves env ps code l (items ! k) h = resolves env ps code l (items' ! k) h"
    "it_type (items ! k) = it_type (items' ! k)" "tag_id (items ! k) = tag_id (items' ! k)" if "k < length items'" for k h c l
    using nth [OF that] by (simp_all add: same_code_encodes same_code_resolves same_code_eqs)
  show ?thesis
    unfolding layout_def positions_inv_def len by (simp add: eq cong: conj_cong all_cong)
qed

section \<open>The assembler\<close>

definition push_opcodes :: "EmitEnv \<Rightarrow> bool" where
  "push_opcodes env \<longleftrightarrow> pushInstruction (word_of_nat (env_bytesPerTag env)) = Inr (env_tagPush env) \<and>
     pushInstruction (word_of_nat (env_bytesPerDataRef env)) = Inr (env_dataRefPush env)"

lemma assemble_items_inv:
  assumes run: "assemble_items s subs refs t = Inr (env, e)"
    and fresh: "bytecode (m_assembledObject s) = []" "linkReferences (m_assembledObject s) = []"
  shows "\<exists>items cs. list_all2 same_code items (m_items s) \<and> emit_inv env items cs e \<and>
    env_self env = Assembly (s\<lparr>m_items := items\<rparr>) (map snd subs) \<and> push_opcodes env \<and>
    length (e_tagPositions e) = unat (m_usedTags s)"
proof -
  from run obtain items irefs e0 where items: "prepare_items refs (m_items s) = Inr (items, irefs)"
    and e: "foldE (emit_item env) e0 items = Inr e"
    and self: "env_self env = Assembly (s\<lparr>m_items := items\<rparr>) (map snd subs)" "push_opcodes env"
    and e0: "e0 = \<lparr>e_ret = m_assembledObject s, e_tagPositions = replicate (unat (m_usedTags s)) size_t_max, e_tagRef = [], e_dataRef = [],
               e_subRef = [], e_sizeRef = [], e_immutables = irefs, e_items = []\<rparr>"
    by (auto simp: assemble_items_def result_simps Let_def push_opcodes_def)
  have "emit_inv env [] [] e0"
    using fresh by (simp add: e0 emit_inv_def chunks_inv_def refs_inv_def positions_inv_def links_inv_def linker_ok_def
        refs_apart_def map_ok_def)
  from emit_items_inv [OF this e] obtain cs where "emit_inv env items cs e" "length (e_tagPositions e) = length (e_tagPositions e0)" by auto
  moreover have "length (e_tagPositions e0) = unat (m_usedTags s)" by (simp add: e0)
  ultimately show ?thesis using prepare_items_same [OF items] self by auto
qed

lemma visit_sub_step:
  assumes "visit_sub (acc, ss) r = Inr st"
  shows "\<exists>acc' sub. r = Inr sub \<and> st = (acc', ss @ [sub])"
proof (cases r)
  case (Inr sub)
  then show ?thesis using assms by (cases "collect_sub acc sub") (auto simp: visit_sub_def)
qed (use assms in \<open>simp add: visit_sub_def\<close>)

lemma visit_subs:
  "foldE visit_sub (acc, ss) outcomes = Inr (acc', ss') \<Longrightarrow> \<exists>rs. ss' = ss @ rs \<and> outcomes = map Inr rs"
proof (induction outcomes arbitrary: acc ss)
  case (Cons r outcomes)
  then obtain st where st: "visit_sub (acc, ss) r = Inr st" "foldE visit_sub st outcomes = Inr (acc', ss')"
    by (auto simp: result_simps)
  from visit_sub_step [OF st(1)] st(2) obtain sub acc1 where "r = Inr sub" "foldE visit_sub (acc1, ss @ [sub]) outcomes = Inr (acc', ss')"
    by blast
  with Cons.IH [of acc1 "ss @ [sub]"] show ?case by auto
qed simp

lemma assemble_cases:
  assumes "assemble a = Inr (obj, a')"
  obtains (cached) "bytecode (m_assembledObject (m_state a)) \<noteq> []" "obj = m_assembledObject (m_state a)" "a' = a"
  | (fresh) rs irefs t env e where "bytecode (m_assembledObject (m_state a)) = []" "linkReferences (m_assembledObject (m_state a)) = []"
      "map assemble (m_subs a) = map Inr rs" "assemble_items (m_state a) rs irefs t = Inr (env, e)"
      "assemble_finish env e = Inr (obj, a')"
proof -
  obtain s subs where a: "a = Assembly s subs" by (cases a)
  show thesis
  proof (cases "bytecode (m_assembledObject s) = []")
    case False
    then have "obj = m_assembledObject s \<and> a' = a" using assms by (simp add: a result_simps)
    then show thesis using False by (intro cached) (simp_all add: a)
  next
    case True
    from assms True have l: "linkReferences (m_assembledObject s) = []" and w: "assemble_with s (map assemble subs) = Inr (obj, a')"
      by (simp_all add: a result_simps)
    from w obtain st where st: "foldE visit_sub (([], 1), []) (map assemble subs) = Inr st"
      and st': "(\<lambda>((irefs, t), rs). bindE (assemble_items s rs irefs t) (\<lambda>(env, e). assemble_finish env e)) st = Inr (obj, a')"
      unfolding assemble_with_def by (auto simp only: bindE_Inr)
    obtain irefs t rs where v: "st = ((irefs, t), rs)" by (metis surj_pair)
    from st' obtain env e where i: "assemble_items s rs irefs t = Inr (env, e)" and f: "assemble_finish env e = Inr (obj, a')"
      by (auto simp: v result_simps)
    from visit_subs [of "([], 1)" "[]" "map assemble subs" "(irefs, t)" rs] st v have subs: "map assemble subs = map Inr rs" by simp
    show thesis by (rule fresh [of rs irefs t env e]) (simp_all add: a True l subs i f)
  qed
qed

section \<open>Link references of assembled objects\<close>

definition object_ok :: "LinkerObject \<Rightarrow> bool" where
  "object_ok obj \<longleftrightarrow> linker_ok obj \<and> refs_apart (linkReferences obj)"

lemma append_refs_from:
  assumes a: "linker_ok a" and b: "linker_ok b" and m: "(p, name) \<in> set (linkReferences (LinkerObject_append a b))"
  shows "(p, name) \<in> set (linkReferences a) \<or>
    (length (bytecode a) \<le> p \<and> (p - length (bytecode a), name) \<in> set (linkReferences b))"
proof -
  have oks: "map_ok (linkReferences a)" "map_ok (linkReferences b)" "map_ok (linkReferences (LinkerObject_append a b))"
    using a b linker_ok_append [OF a b] by (simp_all add: linker_ok_def)
  from m have "map_find p (linkReferences (LinkerObject_append a b)) = Some name"
    by (simp add: std_map.find_entries [OF oks(3)])
  then show ?thesis
    using find_shift [OF oks(1,2), of p "length (bytecode a)"]
    by (auto simp: LinkerObject_append_def Let_def std_map.find_entries [OF oks(1)] std_map.find_entries [OF oks(2)] split: if_splits)
qed

lemma refs_apartD:
  "refs_apart refs \<Longrightarrow> (p, x) \<in> set refs \<Longrightarrow> (q, y) \<in> set refs \<Longrightarrow> p \<noteq> q \<Longrightarrow> p + 21 \<le> q \<or> q + 21 \<le> p"
  unfolding refs_apart_def by fastforce

lemma refs_apartI:
  assumes "\<And>p x q y. (p, x) \<in> set refs \<Longrightarrow> (q, y) \<in> set refs \<Longrightarrow> p \<noteq> q \<Longrightarrow> p + 21 \<le> q \<or> q + 21 \<le> p"
  shows "refs_apart refs"
  unfolding refs_apart_def using assms by fast

lemma object_ok_append:
  assumes "object_ok a" and "object_ok b"
  shows "object_ok (LinkerObject_append a b)"
proof -
  have ok: "linker_ok a" "linker_ok b" and ap: "refs_apart (linkReferences a)" "refs_apart (linkReferences b)"
    using assms by (simp_all add: object_ok_def)
  let ?n = "length (bytecode a)"
  have "p + 21 \<le> q \<or> q + 21 \<le> p"
    if "(p, x) \<in> set (linkReferences (LinkerObject_append a b))" "(q, y) \<in> set (linkReferences (LinkerObject_append a b))" "p \<noteq> q" for p q x y
    using append_refs_from [OF ok that(1)] append_refs_from [OF ok that(2)]
  proof (elim disjE conjE)
    assume "(p, x) \<in> set (linkReferences a)" "(q, y) \<in> set (linkReferences a)"
    from refs_apartD [OF ap(1) this that(3)] show ?thesis .
  next
    assume n: "?n \<le> p" "?n \<le> q" and r: "(p - ?n, x) \<in> set (linkReferences b)" "(q - ?n, y) \<in> set (linkReferences b)"
    have "p - ?n \<noteq> q - ?n" using n that(3) by linarith
    from refs_apartD [OF ap(2) r this] n show ?thesis by linarith
  next
    assume r: "(p, x) \<in> set (linkReferences a)" "?n \<le> q"
    from linker_okD [OF ok(1) r(1)] r(2) show ?thesis by linarith
  next
    assume r: "?n \<le> p" "(q, y) \<in> set (linkReferences a)"
    from linker_okD [OF ok(1) r(2)] r(1) show ?thesis by linarith
  qed
  then have "refs_apart (linkReferences (LinkerObject_append a b))" by (rule refs_apartI)
  then show ?thesis using linker_ok_append [OF ok] by (simp add: object_ok_def)
qed

lemma object_ok_code: "object_ok obj \<Longrightarrow> length (bytecode obj) \<le> length code \<Longrightarrow> object_ok (obj\<lparr>bytecode := code\<rparr>)"
  unfolding object_ok_def linker_ok_def by fastforce

lemma length_write_be_le: "length code \<le> length (write_be code p n v)"
  by (simp add: write_be_def overwrite_def)

text \<open>The cached objects of an assembly and of all its sub-assemblies.\<close>

fun cache_ok :: "Assembly \<Rightarrow> bool" where
  "cache_ok (Assembly s subs) \<longleftrightarrow> object_ok (m_assembledObject s) \<and> list_all cache_ok subs"

lemma cache_ok_path: "cache_ok a \<Longrightarrow> sub_at_path a path = Inr b \<Longrightarrow> cache_ok b"
proof (induction a path rule: sub_at_path.induct)
  case (2 a i path)
  then show ?case by (cases a) (auto simp: list_all_length split: if_splits)
qed simp

lemma cache_ok_assembledSub: "cache_ok (env_self env) \<Longrightarrow> assembledSub env i = Inr obj \<Longrightarrow> object_ok obj"
proof -
  assume c: "cache_ok (env_self env)" and a: "assembledSub env i = Inr obj"
  then obtain path b where "sub_at_path (env_self env) path = Inr b" "obj = m_assembledObject (m_state b)"
    by (auto simp: assembledSub_def subAssemblyById_def result_simps)
  with cache_ok_path [OF c, of path b] show ?thesis by (cases b) auto
qed

lemma patch_sub_ok:
  assumes "cache_ok (env_self env)" and "foldE (patch_sub env) ret refs = Inr ret'" and "object_ok ret"
  shows "object_ok ret'"
proof (rule foldE_invariant [OF assms(2), of object_ok, OF assms(3)])
  fix ret r ret'
  assume ok: "object_ok ret" and "patch_sub env ret r = Inr ret'"
  then obtain s p obj where "assembledSub env s = Inr obj"
    "ret' = LinkerObject_append (ret\<lparr>bytecode := write_be (bytecode ret) p (env_bytesPerDataRef env) (length (bytecode ret))\<rparr>) obj"
    using patch_sub_step by (metis surj_pair)
  then show "object_ok ret'"
    using object_ok_append object_ok_code [OF ok length_write_be_le] cache_ok_assembledSub [OF assms(1)] by metis
qed

lemma patch_size_ok: "object_ok ret \<Longrightarrow> object_ok (foldl (patch_size env) ret ps)"
  by (induction ps arbitrary: ret) (auto simp: patch_size_def intro: object_ok_code length_write_be_le)

lemma data_writes_ok:
  "object_ok ret \<Longrightarrow> object_ok (foldl (\<lambda>ret (h', pos). ret\<lparr>bytecode := write_be (bytecode ret) pos n (length (bytecode ret))\<rparr>) ret refs)"
  by (induction refs arbitrary: ret) (auto intro: object_ok_code length_write_be_le)

lemma patch_data_ok: "object_ok ret \<Longrightarrow> object_ok (foldl (patch_data env refs) ret ds)"
proof (induction ds arbitrary: ret)
  case (Cons hd ds)
  have "object_ok (patch_data env refs ret hd)"
    using Cons.prems
    by (auto simp: patch_data_def Let_def split: prod.split intro!: object_ok_code [OF data_writes_ok])
  with Cons.IH show ?case by simp
qed simp

lemma assemble_finish_ok:
  assumes fin: "assemble_finish env e = Inr (ret, a)" and sub: "list_all cache_ok (m_subs (env_self env))" and ok: "object_ok (e_ret e)"
    and self: "object_ok (m_assembledObject (m_state (env_self env)))"
  shows "object_ok ret \<and> cache_ok a"
proof -
  have c: "cache_ok (env_self env)" using sub self by (cases "env_self env") simp
  let ?s = "m_state (env_self env)"
  let ?r = "if m_subs (env_self env) \<noteq> [] \<or> m_data ?s \<noteq> [] \<or> m_auxiliaryData ?s \<noteq> []
      then (e_ret e)\<lparr>bytecode := e_code e @ [Instruction_INVALID]\<rparr> else e_ret e"
  from fin obtain ret1 ret2 where r1: "foldE (patch_sub env) ?r (e_subRef e) = Inr ret1"
    and r2: "foldE (patch_tag env (e_tagPositions e)) ret1 (e_tagRef e) = Inr ret2"
    and r3: "ret = foldl (patch_size env)
      ((foldl (patch_data env (e_dataRef e)) ret2 (m_data ?s))\<lparr>bytecode :=
         bytecode (foldl (patch_data env (e_dataRef e)) ret2 (m_data ?s)) @ m_auxiliaryData ?s\<rparr>) (e_sizeRef e)"
    and a: "a = Assembly (?s\<lparr>m_items := e_items e, m_assembledObject := ret, m_tagPositionsInBytecode := e_tagPositions e\<rparr>) (m_subs (env_self env))"
    unfolding assemble_finish_def Let_def by (auto simp only: result_simps prod.inject sum.inject)
  have "object_ok ?r" using ok object_ok_code by simp
  from patch_sub_ok [OF c r1 this] have "object_ok ret1" .
  then have "object_ok ret2"
  proof (rule foldE_invariant [OF r2, of object_ok])
    fix ret r ret' assume "object_ok ret" "patch_tag env (e_tagPositions e) ret r = Inr ret'"
    then show "object_ok ret'" using patch_tag_step object_ok_code length_write_be_le by (metis surj_pair)
  qed
  then have "object_ok ret" unfolding r3 by (intro patch_size_ok object_ok_code [OF patch_data_ok]) simp_all
  then show ?thesis using sub a by simp
qed

lemma map_Inr_mem: "map f xs = map Inr rs \<Longrightarrow> y \<in> set rs \<Longrightarrow> \<exists>x \<in> set xs. f x = Inr y"
  by (metis (no_types, lifting) image_iff image_set)

lemma assemble_cache_ok:
  "cache_ok a \<Longrightarrow> assemble a = Inr (obj, a') \<Longrightarrow> object_ok obj \<and> cache_ok a'"
proof (induction a arbitrary: obj a')
  case (Assembly s subs)
  have own: "object_ok (m_assembledObject s)" and old: "\<forall>c \<in> set subs. cache_ok c"
    using Assembly.prems(1) by (simp_all add: list_all_iff)
  from Assembly.prems(2) show ?case
  proof (cases rule: assemble_cases)
    case cached
    with Assembly.prems(1) own show ?thesis by simp
  next
    case (fresh rs irefs t env e)
    have rs: "map assemble subs = map Inr rs" and f: "bytecode (m_assembledObject s) = []" "linkReferences (m_assembledObject s) = []"
      and i: "assemble_items s rs irefs t = Inr (env, e)" using fresh(1-4) by (simp_all only: Assembly.sel)
    have "cache_ok b" if "b \<in> snd ` set rs" for b
    proof -
      from that obtain x where "(x, b) \<in> set rs" by auto
      from map_Inr_mem [OF rs this] obtain c where "c \<in> set subs" "assemble c = Inr (x, b)" by blast
      then show ?thesis using Assembly.IH old by blast
    qed
    then have subs: "list_all cache_ok (map snd rs)" by (simp add: list_all_iff)
    from assemble_items_inv [OF i f] obtain items cs where
      inv: "emit_inv env items cs e" and self: "env_self env = Assembly (s\<lparr>m_items := items\<rparr>) (map snd rs)" by blast
    have "object_ok (e_ret e)" using inv by (simp add: emit_inv_def links_inv_def object_ok_def)
    from assemble_finish_ok [OF fresh(5) _ this] subs own show ?thesis by (simp add: self)
  qed
qed

section \<open>What assembling gives\<close>

lemma assemble_finish_state:
  "assemble_finish env e = Inr (ret, a) \<Longrightarrow>
     a = Assembly ((m_state (env_self env))\<lparr>m_items := e_items e, m_assembledObject := ret,
           m_tagPositionsInBytecode := e_tagPositions e\<rparr>) (m_subs (env_self env)) \<and> e_immutables e = []"
  unfolding assemble_finish_def Let_def by (auto simp only: result_simps prod.inject sum.inject)

lemma assemble_subs: "map assemble subs = map Inr rs \<Longrightarrow> list_all2 (\<lambda>sub sub'. \<exists>o'. assemble sub = Inr (o', sub')) subs (map snd rs)"
  by (induction subs arbitrary: rs) (auto simp: Cons_eq_map_conv)

text \<open>The assembly a sub-assembly is found in when the items of \<open>a\<close> are emitted.\<close>

definition emits :: "Assembly \<Rightarrow> Assembly \<Rightarrow> EmitEnv \<Rightarrow> bool" where
  "emits a a' env \<longleftrightarrow> push_opcodes env \<and> m_subs (env_self env) = m_subs a' \<and>
     (\<exists>items. list_all2 same_code items (m_items (m_state a)) \<and> m_state (env_self env) = (m_state a)\<lparr>m_items := items\<rparr>)"

lemma assemble_layout_full:
  assumes run: "assemble a = Inr (obj, a')" and f: "bytecode (m_assembledObject (m_state a)) = []"
    and data: "map_ok (m_data (m_state a))"
  shows "\<exists>env cs. emits a a' env \<and>
    layout env (m_items (m_state a)) (m_tagPositionsInBytecode (m_state a')) (bytecode obj) cs \<and>
    m_assembledObject (m_state a') = obj \<and> m_invalid (m_state a') = m_invalid (m_state a) \<and>
    length (m_tagPositionsInBytecode (m_state a')) = unat (m_usedTags (m_state a)) \<and>
    list_all2 (\<lambda>sub sub'. \<exists>o'. assemble sub = Inr (o', sub')) (m_subs a) (m_subs a')"
  using run
proof (cases rule: assemble_cases)
  case (fresh rs irefs t env e)
  from assemble_items_inv [OF fresh(4,1,2)] obtain items cs where same: "list_all2 same_code items (m_items (m_state a))"
    and inv: "emit_inv env items cs e" and self: "env_self env = Assembly ((m_state a)\<lparr>m_items := items\<rparr>) (map snd rs)"
    and push: "push_opcodes env" and len: "length (e_tagPositions e) = unat (m_usedTags (m_state a))" by blast
  have a': "a' = Assembly ((m_state (env_self env))\<lparr>m_items := e_items e, m_assembledObject := obj,
      m_tagPositionsInBytecode := e_tagPositions e\<rparr>) (m_subs (env_self env))"
    using assemble_finish_state [OF fresh(5)] by blast
  have "distinct (map fst (m_data (m_state (env_self env))))" using data by (simp add: self map_ok_distinct)
  from finish_layout [OF inv this fresh(5)] obtain cs' where
    "layout env (m_items (m_state a)) (e_tagPositions e) (bytecode obj) cs'"
    using same_code_layout [OF same] by blast
  moreover have "emits a a' env" using push same by (auto simp: emits_def a' self)
  ultimately show ?thesis using assemble_subs [OF fresh(3)] len
    by (intro exI [of _ env] exI [of _ cs']) (simp add: a' self)
qed (use f in simp)

lemma layout_chunk:
  assumes "layout env items ps code cs" and "k < length items"
  shows "region (coff cs k) (length (cs ! k)) code = cs ! k" "coff cs k + length (cs ! k) \<le> length code"
proof -
  have l: "length cs = length items" and pre: "concat cs = take (length (concat cs)) code" using assms(1) by (simp_all add: layout_def)
  have le: "length (concat cs) \<le> length code" using pre by (metis length_take min.cobounded1 nat_le_linear take_all)
  have b: "coff cs k + length (cs ! k) \<le> length (concat cs)" using coff_bound [of k cs] assms(2) l by simp
  then show "coff cs k + length (cs ! k) \<le> length code" using le by linarith
  have "agrees {} (concat cs) code" using pre le by (metis agrees_append append_take_drop_id)
  from agrees_region [OF this b] show "region (coff cs k) (length (cs ! k)) code = cs ! k"
    using region_chunk [of k cs] assms(2) l by simp
qed

lemma layout_tag:
  assumes lay: "layout env items ps code cs" and t: "t < length ps" "ps ! t \<noteq> size_t_max" "t \<noteq> 0"
  shows "\<exists>j < length items. it_type (items ! j) = Tag \<and> tag_id (items ! j) = t \<and> ps ! t = coff cs j \<and>
    ps ! t < length code \<and> code ! (ps ! t) = Instruction_JUMPDEST"
proof -
  from lay t obtain j where j: "j < length items" "it_type (items ! j) = Tag" "tag_id (items ! j) = t" "ps ! t = coff cs j"
    by (auto simp: layout_def positions_inv_def)
  then have "cs ! j = [Instruction_JUMPDEST]" using lay by (auto simp: layout_def encodes_def)
  with layout_chunk [OF lay j(1)] have "region (coff cs j) 1 code = [Instruction_JUMPDEST]" "coff cs j < length code" by simp_all
  then have "code ! coff cs j = Instruction_JUMPDEST" by (simp add: region_Suc)
  then show ?thesis using j \<open>coff cs j < length code\<close> by auto
qed

lemma layout_pushTag:
  assumes lay: "layout env items ps code cs" and push: "push_opcodes env" and k: "k < length items"
    and type: "it_type (items ! k) = PushTag" and own: "splitForeignPushTag (items ! k) = Inr (size_max, t)" and t: "t \<noteq> 0"
  shows "\<exists>q n. pushInstruction (word_of_nat n) = Inr (code ! q) \<and> Suc q + n \<le> length code \<and>
    be_value (region (Suc q) n code) = ps ! unat t \<and> unat t < length ps \<and>
    (\<exists>j < length items. it_type (items ! j) = Tag \<and> tag_id (items ! j) = unat t) \<and>
    ps ! unat t < length code \<and> code ! (ps ! unat t) = Instruction_JUMPDEST"
proof -
  let ?n = "env_bytesPerTag env"
  from lay k obtain h where enc: "encodes env (items ! k) h (cs ! k)" and res: "resolves env ps code (length (concat cs)) (items ! k) h"
    unfolding layout_def by blast
  from enc type have c: "cs ! k = env_tagPush env # h" and h: "length h = ?n" by (simp_all add: encodes_def)
  from res type own have ok: "tag_ok env ps (size_max, t)" and v: "h = be ?n (ps ! unat t)"
    by (simp_all add: resolves_def tag_position_def)
  have t': "unat t < length ps" "ps ! unat t \<noteq> size_t_max" "bytesRequired (ps ! unat t) \<le> ?n"
    using ok by (simp_all add: tag_ok_def tag_position_def)
  have b: "Suc (coff cs k) + ?n \<le> length code" using layout_chunk(2) [OF lay k] c h by simp
  have "code ! coff cs k # region (Suc (coff cs k)) ?n code = env_tagPush env # h"
    using layout_chunk(1) [OF lay k] c h b region_Suc [of "coff cs k" code ?n] by simp
  then have "code ! coff cs k = env_tagPush env" "region (Suc (coff cs k)) ?n code = h" by simp_all
  moreover have "unat t \<noteq> 0" using t by (simp add: unat_eq_0)
  ultimately show ?thesis
    using layout_tag [OF lay t'(1,2)] push v t' b be_value_be_small [OF t'(3)]
    by (intro exI [of _ "coff cs k"] exI [of _ ?n]) (auto simp: push_opcodes_def)
qed

lemma layout_tags_distinct:
  assumes lay: "layout env items ps code cs" and jk: "j < length items" "k < length items"
    and "it_type (items ! j) = Tag" "it_type (items ! k) = Tag" "tag_id (items ! j) = tag_id (items ! k)"
  shows "j = k"
proof -
  have len: "length cs = length items" using lay by (simp add: layout_def)
  have one: "cs ! j = [Instruction_JUMPDEST]" "cs ! k = [Instruction_JUMPDEST]"
    using lay jk assms(4,5) by (auto simp: layout_def encodes_def)
  have "ps ! tag_id (items ! i) = coff cs i" if "i < length items" "it_type (items ! i) = Tag" for i
    using lay that unfolding layout_def positions_inv_def by blast
  then have "coff cs j = coff cs k" using jk assms(4-6) by metis
  then show ?thesis using coff_next [of j k cs] coff_next [of k j cs] jk one len by (cases j k rule: linorder_cases) auto
qed



text \<open>
  C6. Assembling keeps the cached objects of an assembly and all its sub-assemblies in order: link references are
  sorted, lie inside the code and do not overlap, so that the assembled object can be linked and printed.
\<close>

theorem assemble_links:
  assumes "cache_ok a" and "assemble a = Inr (obj, a')"
  shows "linker_ok obj \<and> refs_apart (linkReferences obj) \<and> cache_ok a'"
  using assemble_cache_ok [OF assms] by (simp add: object_ok_def)

text \<open>C14. Assembling again returns the cached object and changes nothing.\<close>

theorem assemble_idempotent:
  assumes "assemble a = Inr (obj, a')" and "bytecode obj \<noteq> []" and "map_ok (m_data (m_state a))"
  shows "assemble a' = Inr (obj, a')"
proof (cases "bytecode (m_assembledObject (m_state a)) = []")
  case True
  have "\<not> m_invalid (m_state a)" using assms(1) by (cases a) (simp add: result_simps)
  with assemble_layout_full [OF assms(1) True assms(3)] assms(2) show ?thesis by (cases a') auto
next
  case False
  have "\<not> m_invalid (m_state a)" using assms(1) by (cases a) (simp add: result_simps)
  with False assms(1) show ?thesis by (cases a) auto
qed

definition sample_sub :: Assembly where
  "sample_sub = Assembly (AssemblyState_default\<lparr>m_items := [AssemblyItem_make PushLibraryAddress 7 SourceLocation_default ''''],
     m_libraries := [(h256_of_u256 7, ''L'')]\<rparr>) []"

definition sample_assembly :: Assembly where
  "sample_assembly = Assembly (AssemblyState_default\<lparr>m_usedTags := 2,
     m_items := [AssemblyItem_make PushTag 1 SourceLocation_default '''', AssemblyItem_of_instruction Instruction_JUMP SourceLocation_default,
       AssemblyItem_make Tag 1 SourceLocation_default '''', AssemblyItem_make PushData 5 SourceLocation_default '''',
       AssemblyItem_make PushSub 0 SourceLocation_default ''''],
     m_data := [(h256_of_u256 5, [1, 2, 3])]\<rparr>) [sample_sub]"

lemma Assembly_bytesRequired_eval:
  "Assembly_bytesRequired s t = (case Assembly_codeSize s t of Inl err \<Rightarrow> Inl err
     | Inr n \<Rightarrow> if bytesRequired n \<le> t then Inr (n mod 2 ^ 32) else Assembly_bytesRequired s (t + 1))"
  by (subst Assembly_bytesRequired.simps) (simp split: sum.split)

lemma replicate_numeral: "replicate (numeral k) x = x # replicate (pred_numeral k) x"
  by (simp add: numeral_eq_Suc)

lemma ucast_minus_1: "(ucast (- 1 :: u256) :: u64) = - 1"
  by (rule bit_word_eqI) (simp add: bit_unsigned_iff)

lemma bindE_weak_cong: "m = m' \<Longrightarrow> bindE m f = bindE m' f"
  by simp

lemma foldE_weak_cong: "s = s' \<Longrightarrow> xs = xs' \<Longrightarrow> foldE f s xs = foldE f s' xs'"
  by simp

lemma foldl_weak_cong: "s = s' \<Longrightarrow> xs = xs' \<Longrightarrow> foldl f s xs = foldl f s' xs'"
  by simp

lemmas assemble_eval = assemble_with_def visit_sub_def collect_sub_def assemble_items_def prepare_items_def count_immutables_def
  assemble_finish_def patch_sub_def patch_tag_def patch_data_def patch_size_def emit_item_def emit_switch_def emit_invalidTag_def
  emit_tag_def set_code_def AssemblyState_default_def LinkerObject_empty_def AssemblyItem_make_def AssemblyItem_of_instruction_def
  Assembly_bytesRequired_eval Assembly_codeSize_def items_bytesRequired_def item_bytesRequired_def item_data_def item_instruction_def
  splitForeignPushTag_def assembledSub_def subAssemblyById_def decodeSubPath_def map_at_def map_find_def LinkerObject_append_def
  write_be_def h256_of_u256_def pushInstruction_def size_max_minus_1 ucast_minus_1 size_t_max_def replicate_numeral Let_def bytesRequired.simps FixedHash_of_arith_def toBigEndian_be

lemma sample_run:
  "\<exists>a'. assemble sample_assembly =
     Inr (\<lparr>bytecode = [0x60, 3, 0x56, 0x5b, 0x60, 31, 0x60, 9, 0xfe, 0x74] @ replicate 21 0 @ [1, 2, 3],
            linkReferences = [(10, ''L'')], immutableReferences = []\<rparr>, a') \<and>
     m_tagPositionsInBytecode (m_state a') = [0, 3]"
  by (simp add: sample_assembly_def sample_sub_def assemble_eval cong: bindE_weak_cong foldE_weak_cong foldl_weak_cong split del: if_split)
    (simp add: overwrite_def Instruction_PUSH1_def Instruction_JUMP_def Instruction_JUMPDEST_def Instruction_INVALID_def
      Instruction_PUSH21_def)


lemma sample_facts:
  "bytecode (m_assembledObject (m_state sample_assembly)) = []" "map_ok (m_data (m_state sample_assembly))" "cache_ok sample_assembly"
  by (simp_all add: sample_assembly_def sample_sub_def AssemblyState_default_def LinkerObject_empty_def map_ok_def object_ok_def
      linker_ok_def refs_apart_def)



theorem assemble_links_witness:
  "\<exists>obj a'. assemble sample_assembly = Inr (obj, a') \<and> linkReferences obj = [(10, ''L'')] \<and> linker_ok obj"
proof -
  obtain obj a' where run: "assemble sample_assembly = Inr (obj, a')" and "linkReferences obj = [(10, ''L'')]" using sample_run by auto
  with assemble_links [OF sample_facts(3) run] show ?thesis by blast
qed

theorem assemble_idempotent_witness:
  "\<exists>obj a'. assemble sample_assembly = Inr (obj, a') \<and> assemble a' = Inr (obj, a')"
proof -
  obtain obj a' where run: "assemble sample_assembly = Inr (obj, a')" and "bytecode obj \<noteq> []" using sample_run by fastforce
  with assemble_idempotent [OF run _ sample_facts(2)] show ?thesis by blast
qed

section \<open>The size estimate\<close>

text \<open>The search finds the smallest tag size from the start value on for which the size of the code needs no more bytes.\<close>

definition fits :: "AssemblyState \<Rightarrow> nat \<Rightarrow> bool" where
  "fits s t \<longleftrightarrow> (\<exists>n. Assembly_codeSize s t = Inr n \<and> bytesRequired n \<le> t)"

lemma codeSize_bound: "Assembly_codeSize s t = Inr n \<Longrightarrow> bytesRequired n \<le> 8"
proof -
  assume "Assembly_codeSize s t = Inr n"
  then have "n < 256 ^ 8" by (auto simp: Assembly_codeSize_def result_simps)
  then show ?thesis by (simp only: bytesRequired_le_iff)
qed

lemma bytesRequired_search:
  assumes "\<And>t'. \<exists>n. Assembly_codeSize s t' = Inr n"
  shows "\<exists>t' n. t \<le> t' \<and> t' \<le> max t 8 \<and> (\<forall>u. t \<le> u \<longrightarrow> u < t' \<longrightarrow> \<not> fits s u) \<and>
    Assembly_codeSize s t' = Inr n \<and> bytesRequired n \<le> t' \<and> Assembly_bytesRequired s t = Inr (n mod 2 ^ 32)"
  using assms
proof (induction s t rule: Assembly_bytesRequired.induct)
  case (1 s t)
  from 1(2) obtain n where n: "Assembly_codeSize s t = Inr n" by blast
  show ?case
  proof (cases "bytesRequired n \<le> t")
    case True
    then have "Assembly_bytesRequired s t = Inr (n mod 2 ^ 32)" by (subst Assembly_bytesRequired.simps) (simp add: n)
    with True n show ?thesis by (intro exI [of _ t] exI [of _ n]) simp
  next
    case False
    have eq: "Assembly_bytesRequired s t = Assembly_bytesRequired s (t + 1)"
      by (subst Assembly_bytesRequired.simps) (simp add: n False)
    have t8: "t < 8" using False codeSize_bound [OF n] by simp
    from 1(1) [OF n False 1(2)] obtain t' m where t': "t + 1 \<le> t'" "t' \<le> max (t + 1) 8"
      "\<forall>u. t + 1 \<le> u \<longrightarrow> u < t' \<longrightarrow> \<not> fits s u" "Assembly_codeSize s t' = Inr m" "bytesRequired m \<le> t'"
      "Assembly_bytesRequired s (t + 1) = Inr (m mod 2 ^ 32)" by blast
    have "\<not> fits s t" using n False by (simp add: fits_def)
    then have "\<forall>u. t \<le> u \<longrightarrow> u < t' \<longrightarrow> \<not> fits s u" using t'(3) by (metis Suc_eq_plus1 le_eq_less_or_eq less_eq_Suc_le)
    with t' t8 eq show ?thesis by (intro exI [of _ t'] exI [of _ m]) simp
  qed
qed

section \<open>Paths of sub-assemblies\<close>

definition paths_ok :: "Assembly \<Rightarrow> bool" where
  "paths_ok a \<longleftrightarrow> (let paths = m_subPaths (m_state a) in map_ok paths \<and> distinct (map snd paths) \<and>
     (\<forall>(path, i) \<in> set paths. length (m_subs a) \<le> i \<and> size_t_max < i + length paths))"

lemma length_map_put_fresh: "map_find k m = None \<Longrightarrow> length (map_put k v m) = Suc (length m)"
  by (induction k v m rule: map_put.induct) (auto simp: map_find_def split: if_splits)

lemma set_map_put_fresh: "map_find k m = None \<Longrightarrow> set (map_put k v m) = insert (k, v) (set m)"
  by (induction k v m rule: map_put.induct) (auto simp: map_find_def split: if_splits)

lemma distinct_map_put: "map_find k m = None \<Longrightarrow> v \<notin> snd ` set m \<Longrightarrow> distinct (map snd m) \<Longrightarrow> distinct (map snd (map_put k v m))"
  by (induction k v m rule: map_put.induct) (auto simp: map_find_def set_map_put_fresh split: if_splits)

lemma find_path:
  assumes "(path, i) \<in> set m" and "distinct (map snd m)"
  shows "List.find (\<lambda>(path, j). j = i) m = Some (path, i)"
  using assms by (induction m) (force split: prod.splits)+

lemma decode_known:
  "paths_ok a \<Longrightarrow> (path, i) \<in> set (m_subPaths (m_state a)) \<Longrightarrow> decodeSubPath a i = Inr path"
  using find_path [of path i "m_subPaths (m_state a)"] by (auto simp: paths_ok_def decodeSubPath_def Let_def)

lemma encode_new:
  assumes ok: "paths_ok a" and room: "length (m_subPaths (m_state a)) \<le> size_t_max - length (m_subs a)" "length (m_subs a) \<le> size_t_max"
    and new: "map_find path (m_subPaths (m_state a)) = None"
    and a': "a' = upd (\<lambda>s. s\<lparr>m_subPaths := map_put path (size_t_max - length (m_subPaths (m_state a))) (m_subPaths s)\<rparr>) a"
  shows "paths_ok a' \<and> set (m_subPaths (m_state a')) = insert (path, size_t_max - length (m_subPaths (m_state a))) (set (m_subPaths (m_state a)))"
proof -
  let ?m = "m_subPaths (m_state a)" and ?i = "size_t_max - length (m_subPaths (m_state a))"
  have old: "size_t_max < j + length ?m" if "(p, j) \<in> set ?m" for p j using ok that by (auto simp: paths_ok_def Let_def)
  have "?i \<notin> snd ` set ?m"
  proof
    assume "?i \<in> snd ` set ?m"
    then obtain p where "(p, ?i) \<in> set ?m" by auto
    from old [OF this] room show False by linarith
  qed
  from distinct_map_put [OF new this] have "distinct (map snd (map_put path ?i ?m))" using ok by (simp add: paths_ok_def Let_def)
  moreover have "length (m_subs a) \<le> ?i" "size_t_max < ?i + Suc (length ?m)" using room by auto
  ultimately show ?thesis
    using ok new old by (auto simp: paths_ok_def Let_def a' set_map_put_fresh length_map_put_fresh map_ok_put less_SucI)
qed

lemma decode_stable:
  assumes "paths_ok a'" and "m_subs a' = m_subs a" and "set (m_subPaths (m_state a)) \<subseteq> set (m_subPaths (m_state a'))"
    and "decodeSubPath a i = Inr p"
  shows "decodeSubPath a' i = Inr p"
proof (cases "i < length (m_subs a)")
  case True
  then show ?thesis using assms by (simp add: decodeSubPath_def)
next
  case False
  with assms(4) have "(p, i) \<in> set (m_subPaths (m_state a))"
    by (auto simp: decodeSubPath_def find_Some_iff split: option.splits) (metis nth_mem)
  then show ?thesis using decode_known [OF assms(1)] assms(3) by blast
qed

lemma encodeSubPath_cases:
  assumes enc: "encodeSubPath path a = Inr (i, a')"
  shows "length path = 1 \<and> path ! 0 < length (m_subs a) \<and> i = path ! 0 \<and> a' = a \<or>
    path \<noteq> [] \<and> length path \<noteq> 1 \<and> map_find path (m_subPaths (m_state a)) = Some i \<and> a' = a \<or>
    path \<noteq> [] \<and> length path \<noteq> 1 \<and> map_find path (m_subPaths (m_state a)) = None \<and>
      i = size_t_max - length (m_subPaths (m_state a)) \<and> a' = upd (\<lambda>s. s\<lparr>m_subPaths := map_put path i (m_subPaths s)\<rparr>) a"
proof (cases "length path = 1")
  case True
  then show ?thesis using enc by (auto simp: encodeSubPath_def bindE_Inr assertThrow_Inr)
next
  case False
  then show ?thesis
  proof (cases "map_find path (m_subPaths (m_state a))")
    case None
    then show ?thesis using False enc by (auto simp: encodeSubPath_def bindE_Inr assertThrow_Inr Let_def)
  next
    case (Some j)
    then show ?thesis using False enc by (simp add: encodeSubPath_def bindE_Inr assertThrow_Inr)
  qed
qed

text \<open>
  C12. The number that stands for the path of a nested sub-assembly is decoded to the path again; encoding the path
  once more gives the same number, and the numbers given out before keep their meaning.
\<close>

theorem subPath_roundtrip:
  assumes ok: "paths_ok a" and enc: "encodeSubPath path a = Inr (i, a')"
    and room: "length (m_subPaths (m_state a)) \<le> size_t_max - length (m_subs a)" "length (m_subs a) \<le> size_t_max"
  shows "decodeSubPath a' i = Inr path \<and> encodeSubPath path a' = Inr (i, a') \<and> paths_ok a' \<and>
    (\<forall>j p. decodeSubPath a j = Inr p \<longrightarrow> decodeSubPath a' j = Inr p)"
proof -
  let ?m = "m_subPaths (m_state a)"
  from encodeSubPath_cases [OF enc] consider (direct) "length path = 1" "path ! 0 < length (m_subs a)" "i = path ! 0" "a' = a"
    | (known) "path \<noteq> []" "length path \<noteq> 1" "map_find path ?m = Some i" "a' = a"
    | (new) "path \<noteq> []" "length path \<noteq> 1" "map_find path ?m = None" "i = size_t_max - length ?m"
        "a' = upd (\<lambda>s. s\<lparr>m_subPaths := map_put path i (m_subPaths s)\<rparr>) a" by (elim disjE conjE) assumption+
  then show ?thesis
  proof cases
    case direct
    then obtain x where "path = [x]" by (auto simp: length_Suc_conv)
    then show ?thesis using direct ok enc by (simp add: decodeSubPath_def)
  next
    case known
    then have "(path, i) \<in> set ?m" by (simp add: map_find_def map_of_SomeD)
    then show ?thesis using decode_known [OF ok] known ok enc by simp
  next
    case new
    from encode_new [OF ok room new(3), of a'] new have ok': "paths_ok a'"
      and m': "set (m_subPaths (m_state a')) = insert (path, i) (set ?m)" by simp_all
    have "map_find path (m_subPaths (m_state a')) = Some i" using new ok by (simp add: map_find_def map_of_put paths_ok_def Let_def)
    then have "encodeSubPath path a' = Inr (i, a')" using new by (simp add: encodeSubPath_def)
    moreover have "decodeSubPath a' i = Inr path" using decode_known [OF ok'] m' by blast
    moreover have "decodeSubPath a' j = Inr p" if "decodeSubPath a j = Inr p" for j p
      by (rule decode_stable [OF ok' _ _ that]) (use new(5) m' in auto)
    ultimately show ?thesis using ok' by blast
  qed
qed

lemma item_bytesRequired_defined:
  "item_ok it \<Longrightarrow> it_type it \<noteq> UndefinedItem \<Longrightarrow> \<exists>n. item_bytesRequired t it = Inr n"
  by (cases "it_type it") (auto simp: item_bytesRequired_def item_data_def item_ok_def split: option.splits)

lemma items_bytesRequired_defined:
  assumes "list_all (\<lambda>it. item_ok it \<and> it_type it \<noteq> UndefinedItem) items"
  shows "\<exists>n. items_bytesRequired items t = Inr n"
proof -
  have "\<exists>n. foldE (\<lambda>size it. bindE (item_bytesRequired t it) (\<lambda>n. Inr (size + n))) k items = Inr n" for k
    using assms
  proof (induction items arbitrary: k)
    case (Cons it items)
    then obtain m where "item_bytesRequired t it = Inr m" using item_bytesRequired_defined [of it t] by auto
    with Cons show ?case by simp
  qed simp
  then show ?thesis by (simp add: items_bytesRequired_def)
qed

text \<open>
  C10. The size estimate returns for every assembly of well-formed items, whatever the start value: it stops at the
  smallest tag size, from the start value on and at most eight, for which the estimated size can be
  addressed by a tag of that size.
\<close>

theorem Assembly_bytesRequired_least:
  assumes "list_all (\<lambda>it. item_ok it \<and> it_type it \<noteq> UndefinedItem) (m_items s)"
  shows "\<exists>t' n. t \<le> t' \<and> t' \<le> max t 8 \<and> (\<forall>u m. t \<le> u \<longrightarrow> u < t' \<longrightarrow> Assembly_codeSize s u = Inr m \<longrightarrow> u < bytesRequired m) \<and>
    Assembly_codeSize s t' = Inr n \<and> bytesRequired n \<le> t' \<and> Assembly_bytesRequired s t = Inr (n mod 2 ^ 32)"
proof -
  have "\<exists>n. Assembly_codeSize s t' = Inr n" for t'
    using items_bytesRequired_defined [OF assms, of t'] by (auto simp: Assembly_codeSize_def)
  from bytesRequired_search [OF this] show ?thesis unfolding fits_def by (metis not_le)
qed

theorem Assembly_bytesRequired_least_witness:
  "\<exists>t' n. 1 \<le> t' \<and> t' \<le> 8 \<and> Assembly_codeSize (m_state sample_assembly) t' = Inr n \<and>
     Assembly_bytesRequired (m_state sample_assembly) 1 = Inr (n mod 2 ^ 32)"
proof -
  have "list_all (\<lambda>it. item_ok it \<and> it_type it \<noteq> UndefinedItem) (m_items (m_state sample_assembly))"
    by (simp add: sample_assembly_def item_ok_def AssemblyItem_make_def AssemblyItem_of_instruction_def)
  from Assembly_bytesRequired_least [OF this, of 1] show ?thesis by auto
qed



theorem subPath_roundtrip_witness:
  "\<exists>i a'. encodeSubPath [0, 1] sample_assembly = Inr (i, a') \<and> decodeSubPath a' i = Inr [0, 1]"
proof -
  obtain i a' where enc: "encodeSubPath [0, 1] sample_assembly = Inr (i, a')"
    by (simp add: encodeSubPath_def sample_assembly_def AssemblyState_default_def map_find_def Let_def size_t_max_def)
  have "paths_ok sample_assembly"
    by (simp add: paths_ok_def sample_assembly_def AssemblyState_default_def map_ok_def)
  from subPath_roundtrip [OF this enc] enc show ?thesis
    by (auto simp: sample_assembly_def AssemblyState_default_def size_t_max_def)
qed

end
