(* ===== verification/AssemblyText.thy ===== *)
theory AssemblyText
  imports Assemble
begin

text \<open>
  The textual and the JSON form of an assembly (\<^verbatim>\<open>libevmasm/Assembly.cpp\<close>): the class \<open>Functionalizer\<close>, which
  nests the texts of instructions into expressions, and the printing functions. The output stream is a
  string. Functions that are defined outside the repository are the fields of \<open>TextExternal\<close>: those of
  \<open>External\<close>, the comparison of source locations, and \<open>toString\<close> of numbers and of hashes.
\<close>

section \<open>Source locations\<close>

record TextExternal =
  tx_base :: External
  tx_sameLocation :: "SourceLocation \<Rightarrow> SourceLocation \<Rightarrow> bool"
  tx_toString_u256 :: "u256 \<Rightarrow> string"
  tx_toString_h256 :: "bytes \<Rightarrow> string"

type_synonym StringMap = "(string \<times> string) list"

definition size_of_int :: "int \<Rightarrow> nat" where
  "size_of_int i = nat (i mod 2 ^ 64)"

definition newline :: string where
  "newline = [CHR 0x0a]"

definition locationFromSources :: "TextExternal \<Rightarrow> StringMap \<Rightarrow> SourceLocation \<Rightarrow> string result" where
  "locationFromSources tx sourceCodes location =
     (if \<not> ext_hasText (tx_base tx) location \<or> sourceCodes = [] then Inr ''''
      else
        case loc_source location of
          None \<Rightarrow> Inl UndefinedBehaviour
        | Some name \<Rightarrow>
            (case map_find name sourceCodes of
               None \<Rightarrow> Inr ''''
             | Some source \<Rightarrow>
                 if size_of_int (loc_start location) \<ge> length source then Inr ''''
                 else
                   let cut = take (size_of_int (loc_end location - loc_start location))
                               (drop (size_of_int (loc_start location)) source)
                   in Inr (if CHR 0x0a \<in> set cut then takeWhile (\<lambda>c. c \<noteq> CHR 0x0a) cut @ ''...'' else cut)))"

definition yulUtilityFileName :: string where
  "yulUtilityFileName = ''#utility.yul''"

section \<open>Functionalizer\<close>

record Functionalizer =
  f_out :: string
  f_pending :: "string list"
  f_location :: SourceLocation

definition Functionalizer_flush :: "string \<Rightarrow> Functionalizer \<Rightarrow> Functionalizer" where
  "Functionalizer_flush prefix f =
     f\<lparr>f_out := f_out f @ concat (map (\<lambda>expression. prefix @ ''  '' @ expression @ newline) (f_pending f)),
       f_pending := []\<rparr>"

definition Functionalizer_printLocation :: "TextExternal \<Rightarrow> string \<Rightarrow> StringMap \<Rightarrow> Functionalizer \<Rightarrow> Functionalizer result" where
  "Functionalizer_printLocation tx prefix sourceCodes f =
     (let location = f_location f in
      if \<not> ext_isValid (tx_base tx) location then Inr f
      else
        case loc_source location of
          None \<Rightarrow> Inl UndefinedBehaviour
        | Some name \<Rightarrow>
            if name = yulUtilityFileName then Inr f
            else
              bindE (locationFromSources tx sourceCodes location) (\<lambda>text.
                Inr (f\<lparr>f_out := f_out f @ prefix @ ''    /*'' @ '' '' @ quoted name @
                         (if ext_hasText (tx_base tx) location
                          then '':'' @ decimal_int (loc_start location) @ '':'' @ decimal_int (loc_end location) else '''') @
                         ''  '' @ text @ '' */'' @ newline\<rparr>)))"

text \<open>
  The arguments are popped one by one from the back of the pending expressions; a missing one would be undefined.
\<close>

fun pop_arguments :: "nat \<Rightarrow> nat \<Rightarrow> string list \<Rightarrow> string \<Rightarrow> (string \<times> string list) result" where
  "pop_arguments i n pending expression =
     (if i < n then
        (if pending = [] then Inl UndefinedBehaviour
         else pop_arguments (i + 1) n (butlast pending)
                (expression @ last pending @ (if i + 1 < n then '', '' else '''')))
      else Inr (expression, pending))"

declare pop_arguments.simps [simp del]

definition Functionalizer_feed :: "TextExternal \<Rightarrow> Assembly \<Rightarrow> string \<Rightarrow> StringMap \<Rightarrow> AssemblyItem \<Rightarrow> Functionalizer \<Rightarrow>
    Functionalizer result" where
  "Functionalizer_feed tx a prefix sourceCodes item f =
     bindE (if ext_isValid (tx_base tx) (it_location item) \<and> \<not> tx_sameLocation tx (it_location item) (f_location f)
            then Functionalizer_printLocation tx prefix sourceCodes
                   ((Functionalizer_flush prefix f)\<lparr>f_location := it_location item\<rparr>)
            else Inr f) (\<lambda>f.
     bindE (Assembly_itemText (tx_base tx) a item) (\<lambda>expression.
       if \<not> (canBeFunctional item \<and> item_returnValues item \<le> 1 \<and> unat (item_arguments item) \<le> length (f_pending f)) then
         (let f = Functionalizer_flush prefix f
          in Inr (f\<lparr>f_out := f_out f @ prefix @ (if it_type item = Tag then '''' else ''  '') @ expression @
                      (if it_debugInfo item \<noteq> '''' then ''  // '' @ it_debugInfo item else '''') @ newline\<rparr>))
       else
         bindE (if item_arguments item > 0 then
                  bindE (pop_arguments 0 (unat (item_arguments item)) (f_pending f) (expression @ ''('')) (\<lambda>(expression, pending).
                    Inr (expression @ '')'', pending))
                else Inr (expression, f_pending f)) (\<lambda>(expression, pending).
           let f = f\<lparr>f_pending := pending @ [expression]\<rparr>
           in Inr (if item_returnValues item \<noteq> 1 then Functionalizer_flush prefix f else f))))"

section \<open>The textual form\<close>

definition assemblyStream_item :: "TextExternal \<Rightarrow> Assembly \<Rightarrow> string \<Rightarrow> StringMap \<Rightarrow> Functionalizer \<Rightarrow> nat \<Rightarrow> Functionalizer result" where
  "assemblyStream_item tx a prefix sourceCodes f i =
     (let f = (case map_find i (m_debugInfos (m_state a)) of
                 None \<Rightarrow> f
               | Some message \<Rightarrow> (let f = Functionalizer_flush prefix f in f\<lparr>f_out := f_out f @ ''  // '' @ message @ newline\<rparr>))
      in Functionalizer_feed tx a prefix sourceCodes (m_items (m_state a) ! i) f)"

text \<open>A data item is printed if its hash, read as a number, cannot be that of a sub-assembly.\<close>

definition data_printed :: "Assembly \<Rightarrow> bytes \<Rightarrow> bool" where
  "data_printed a h \<longleftrightarrow> length (m_subs a) \<le> unat (FixedHash_arith h :: u256)"

definition assemblyStream_data :: "Assembly \<Rightarrow> string \<Rightarrow> string" where
  "assemblyStream_data a prefix =
     concat (map (\<lambda>(h, d). if data_printed a h
                  then prefix @ ''data_'' @ toHex_u256 (FixedHash_arith h) DontAdd @ '' '' @ toHex d DontAdd Lower @ newline else '''')
       (m_data (m_state a)))"

definition assemblyStream_sub :: "string \<Rightarrow> nat \<times> string \<Rightarrow> string" where
  "assemblyStream_sub prefix = (\<lambda>(i, text).
     newline @ prefix @ ''sub_'' @ decimal i @ '': assembly {'' @ newline @ text @ prefix @ ''}'' @ newline)"

fun assemblyStream :: "TextExternal \<Rightarrow> StringMap \<Rightarrow> string \<Rightarrow> Assembly \<Rightarrow> string result" where
  "assemblyStream tx sourceCodes prefix (Assembly s subs) =
     (let a = Assembly s subs in
      bindE (foldE (assemblyStream_item tx a prefix sourceCodes)
               \<lparr>f_out = '''', f_pending = [], f_location = SourceLocation_default\<rparr> [0..<length (m_items s)]) (\<lambda>f.
      let out = f_out (Functionalizer_flush prefix f) in
      bindE (if m_data s \<noteq> [] \<or> subs \<noteq> [] then
               bindE (mapE (\<lambda>r. r) (map (assemblyStream tx sourceCodes (prefix @ ''    '')) subs)) (\<lambda>texts.
                 Inr (out @ prefix @ ''stop'' @ newline @ assemblyStream_data a prefix @
                      concat (map (assemblyStream_sub prefix) (zip [0..<length texts] texts))))
             else Inr out) (\<lambda>out.
        Inr (if m_auxiliaryData s \<noteq> []
             then out @ newline @ prefix @ ''auxdata: 0x'' @ toHex (m_auxiliaryData s) DontAdd Lower @ newline
             else out))))"

definition assemblyString :: "TextExternal \<Rightarrow> StringMap \<Rightarrow> Assembly \<Rightarrow> string result" where
  "assemblyString tx sourceCodes a = assemblyStream tx sourceCodes '''' a"

section \<open>The JSON form\<close>

text \<open>JSON values; the members of an object are sorted by name and a later assignment replaces an earlier one.\<close>

datatype Json = JString string | JInt int | JArray "Json list" | JObject "(string \<times> Json) list"

definition createJsonValue :: "string \<Rightarrow> int \<Rightarrow> int \<Rightarrow> int \<Rightarrow> string \<Rightarrow> string \<Rightarrow> Json" where
  "createJsonValue name source begin' end' value jumpType =
     (let v = map_put ''name'' (JString name) [];
          v = map_put ''source'' (JInt source) v;
          v = map_put ''begin'' (JInt begin') v;
          v = map_put ''end'' (JInt end') v;
          v = (if value \<noteq> '''' then map_put ''value'' (JString value) v else v);
          v = (if jumpType \<noteq> '''' then map_put ''jumpType'' (JString jumpType) v else v)
      in JObject v)"

fun hexUpper :: "nat \<Rightarrow> string" where
  "hexUpper n = (if n < 16 then [upperHexChars ! n] else hexUpper (n div 16) @ [upperHexChars ! (n mod 16)])"

declare hexUpper.simps [simp del]

definition toStringInHex :: "u256 \<Rightarrow> string" where
  "toStringInHex value = hexUpper (unat value)"

definition json_sourceIndex :: "(string \<times> u32) list \<Rightarrow> AssemblyItem \<Rightarrow> int" where
  "json_sourceIndex sourceIndices i =
     (case loc_source (it_location i) of
        None \<Rightarrow> -1
      | Some name \<Rightarrow> (case map_find name sourceIndices of None \<Rightarrow> -1 | Some n \<Rightarrow> sint n))"

text \<open>The entries that one item adds to the collection.\<close>

definition json_item :: "TextExternal \<Rightarrow> AssemblyState \<Rightarrow> (string \<times> u32) list \<Rightarrow> AssemblyItem \<Rightarrow> Json list result" where
  "json_item tx s sourceIndices i =
     (let create = (\<lambda>name. createJsonValue name (json_sourceIndex sourceIndices i)
                             (loc_start (it_location i)) (loc_end (it_location i))) in
      case it_type i of
        Operation \<Rightarrow>
          bindE (item_instruction i) (\<lambda>op.
            Inr [create (info_name (instructionInfo op)) (getJumpTypeAsString (it_jumpType i)) ''''])
      | Push \<Rightarrow>
          bindE (item_data i) (\<lambda>d. Inr [create ''PUSH'' (toStringInHex d) (getJumpTypeAsString (it_jumpType i))])
      | PushString \<Rightarrow>
          bindE (item_data i) (\<lambda>d. bindE (map_at (h256_of_u256 d) (m_strings s)) (\<lambda>str. Inr [create ''PUSH tag'' str '''']))
      | PushTag \<Rightarrow>
          bindE (item_data i) (\<lambda>d.
            Inr [if d = 0 then create ''PUSH [ErrorTag]'' '''' '''' else create ''PUSH [tag]'' (tx_toString_u256 tx d) ''''])
      | PushSub \<Rightarrow> bindE (item_data i) (\<lambda>d. Inr [create ''PUSH [$]'' (tx_toString_h256 tx (h256_of_u256 d)) ''''])
      | PushSubSize \<Rightarrow> bindE (item_data i) (\<lambda>d. Inr [create ''PUSH #[$]'' (tx_toString_h256 tx (h256_of_u256 d)) ''''])
      | PushProgramSize \<Rightarrow> Inr [create ''PUSHSIZE'' '''' '''']
      | PushLibraryAddress \<Rightarrow>
          bindE (item_data i) (\<lambda>d. bindE (map_at (h256_of_u256 d) (m_libraries s)) (\<lambda>name. Inr [create ''PUSHLIB'' name '''']))
      | PushDeployTimeAddress \<Rightarrow> Inr [create ''PUSHDEPLOYADDRESS'' '''' '''']
      | PushImmutable \<Rightarrow>
          bindE (item_data i) (\<lambda>d. bindE (map_at (h256_of_u256 d) (m_immutables s)) (\<lambda>name. Inr [create ''PUSHIMMUTABLE'' name '''']))
      | AssignImmutable \<Rightarrow>
          bindE (item_data i) (\<lambda>d. bindE (map_at (h256_of_u256 d) (m_immutables s)) (\<lambda>name. Inr [create ''ASSIGNIMMUTABLE'' name '''']))
      | Tag \<Rightarrow>
          bindE (item_data i) (\<lambda>d. Inr [create ''tag'' (tx_toString_u256 tx d) '''', create ''JUMPDEST'' '''' ''''])
      | PushData \<Rightarrow> bindE (item_data i) (\<lambda>d. Inr [create ''PUSH data'' (toStringInHex d) ''''])
      | UndefinedItem \<Rightarrow> Inl InvalidOpcode)"

definition json_data :: "Assembly \<Rightarrow> (string \<times> Json) list" where
  "json_data a =
     foldl (\<lambda>m (h, d). if data_printed a h then map_put (toStringInHex (FixedHash_arith h)) (JString (toHex d DontAdd Lower)) m else m)
       [] (m_data (m_state a))"

fun assemblyJSON :: "TextExternal \<Rightarrow> (string \<times> u32) list \<Rightarrow> Assembly \<Rightarrow> Json result" where
  "assemblyJSON tx sourceIndices (Assembly s subs) =
     bindE (mapE (json_item tx s sourceIndices) (m_items s)) (\<lambda>collection.
     let root = map_put ''.code'' (JArray (concat collection)) [] in
     bindE (if m_data s \<noteq> [] \<or> subs \<noteq> [] then
              bindE (mapE (\<lambda>r. r) (map (assemblyJSON tx sourceIndices) subs)) (\<lambda>objects.
                Inr (map_put ''.data''
                       (JObject (foldl (\<lambda>m (i, obj). map_put (hexLower i) obj m) (json_data (Assembly s subs))
                          (zip [0..<length objects] objects))) root))
            else Inr root) (\<lambda>root.
       Inr (JObject (if m_auxiliaryData s \<noteq> [] then map_put ''.auxdata'' (JString (toHex (m_auxiliaryData s) DontAdd Lower)) root
                     else root))))"

text \<open>An instance of the functions from outside, for examples.\<close>

definition sample_text :: TextExternal where
  "sample_text =
     \<lparr>tx_base = \<lparr>ext_keccak256 = (\<lambda>b. b), ext_isValid = (\<lambda>l. False), ext_hasText = (\<lambda>l. False),
                 ext_joinHumanReadable = (\<lambda>ss s. concat ss)\<rparr>,
      tx_sameLocation = (\<lambda>l k. l = k), tx_toString_u256 = (\<lambda>v. decimal (unat v)), tx_toString_h256 = (\<lambda>b. '''')\<rparr>"

section \<open>Nested expressions\<close>

text \<open>
  The specification: executing functional items on a stack of expressions. An item with \<open>n\<close> arguments takes them from the
  top of the stack (the end of the list), the topmost one first.
\<close>

datatype expr = App string "expr list"

fun separated :: "string list \<Rightarrow> string" where
  "separated [] = ''''"
| "separated [s] = s"
| "separated (s # ss) = s @ '', '' @ separated ss"

fun print_expr :: "expr \<Rightarrow> string" where
  "print_expr (App f args) = (if args = [] then f else f @ ''('' @ separated (map print_expr args) @ '')'')"

definition apply_item :: "string \<Rightarrow> nat \<Rightarrow> expr list \<Rightarrow> expr list" where
  "apply_item f n stack = take (length stack - n) stack @ [App f (rev (drop (length stack - n) stack))]"

fun run_items :: "(AssemblyItem \<Rightarrow> string) \<Rightarrow> AssemblyItem list \<Rightarrow> expr list \<Rightarrow> expr list option" where
  "run_items text [] stack = Some stack"
| "run_items text (i # is) stack =
     (if unat (item_arguments i) \<le> length stack
      then run_items text is (apply_item (text i) (unat (item_arguments i)) stack) else None)"

lemma separated_snoc_step:
  "pop_arguments i n pending e =
     (if n \<le> i then Inr (e, pending)
      else if length pending < n - i then Inl UndefinedBehaviour
      else Inr (e @ separated (rev (drop (length pending - (n - i)) pending)), take (length pending - (n - i)) pending))"
proof (induction "n - i" arbitrary: i pending e)
  case 0
  then show ?case by (subst pop_arguments.simps) simp
next
  case (Suc k)
  then have i: "i < n" "n - Suc i = k" by auto
  show ?case
  proof (cases pending rule: rev_cases)
    case Nil
    then show ?thesis using i by (subst pop_arguments.simps) simp
  next
    case (snoc ps p)
    have IH: "pop_arguments (Suc i) n ps e' =
      (if n \<le> Suc i then Inr (e', ps) else if length ps < k then Inl UndefinedBehaviour
       else Inr (e' @ separated (rev (drop (length ps - k) ps)), take (length ps - k) ps))" for e'
      using Suc(1) [of "Suc i" ps e'] i(2) by simp
    have step: "pop_arguments i n pending e = pop_arguments (Suc i) n ps (e @ p @ (if Suc i < n then '', '' else ''''))"
      using i snoc by (subst pop_arguments.simps) simp
    have more: "separated (p # rev (drop (length ps - k) ps)) = p @ '', '' @ separated (rev (drop (length ps - k) ps))"
      if "Suc i < n" "k \<le> length ps"
    proof -
      have "rev (drop (length ps - k) ps) \<noteq> []" using that i by simp
      then show ?thesis by (cases "rev (drop (length ps - k) ps)") auto
    qed
    show ?thesis unfolding step IH using i snoc more Suc(2) by (auto simp: Suc_diff_le not_less)
  qed
qed

lemma separated_args:
  "n \<le> length pending \<Longrightarrow> pop_arguments 0 n pending e =
     Inr (e @ separated (rev (drop (length pending - n) pending)), take (length pending - n) pending)"
  by (subst separated_snoc_step) auto

text \<open>The items that take part in nesting, printed at one source location.\<close>

definition nests :: "TextExternal \<Rightarrow> SourceLocation \<Rightarrow> AssemblyItem \<Rightarrow> bool" where
  "nests tx loc i \<longleftrightarrow> canBeFunctional i \<and> item_returnValues i = 1 \<and>
     (ext_isValid (tx_base tx) (it_location i) \<longrightarrow> tx_sameLocation tx (it_location i) loc)"

lemma feed_nests:
  assumes "nests tx (f_location f) i" and "Assembly_itemText (tx_base tx) a i = Inr t"
    and "f_pending f = map print_expr stack" and "unat (item_arguments i) \<le> length stack"
  shows "Functionalizer_feed tx a prefix sources i f =
    Inr (f\<lparr>f_pending := map print_expr (apply_item t (unat (item_arguments i)) stack)\<rparr>)"
proof -
  let ?n = "unat (item_arguments i)"
  have loc: "\<not> (ext_isValid (tx_base tx) (it_location i) \<and> \<not> tx_sameLocation tx (it_location i) (f_location f))"
    and fn: "canBeFunctional i" "item_returnValues i = 1" using assms(1) by (auto simp: nests_def)
  show ?thesis
  proof (cases "item_arguments i = 0")
    case True
    then show ?thesis
      unfolding Functionalizer_feed_def if_not_P [OF loc] using fn assms(2,3) by (simp add: apply_item_def)
  next
    case False
    then have n: "0 < item_arguments i" "?n \<noteq> 0" by (simp_all add: word_gt_0 unat_eq_0)
    have "drop (length stack - ?n) stack \<noteq> []" using n assms(4) by simp
    then show ?thesis
      unfolding Functionalizer_feed_def if_not_P [OF loc]
      using fn assms(2-4) n separated_args [of ?n "map print_expr stack" "t @ ''(''"]
      by (simp add: apply_item_def Let_def drop_map take_map rev_map)
  qed
qed

text \<open>
  C27. The printed assembly shows the structure of expressions: feeding functional items of one source location
  leaves exactly the texts of the expressions that executing the items on a stack builds, with the
  arguments in the order in which the instruction takes them from the stack.
\<close>

theorem Functionalizer_refines:
  assumes "\<forall>i \<in> set items. nests tx (f_location f) i \<and> Assembly_itemText (tx_base tx) a i = Inr (text i)"
    and "f_pending f = map print_expr stack" and "run_items text items stack = Some stack'"
  shows "foldE (\<lambda>f i. Functionalizer_feed tx a prefix sources i f) f items = Inr (f\<lparr>f_pending := map print_expr stack'\<rparr>)"
  using assms
proof (induction items arbitrary: f stack)
  case (Cons i items)
  let ?n = "unat (item_arguments i)"
  let ?f = "f\<lparr>f_pending := map print_expr (apply_item (text i) ?n stack)\<rparr>"
  from Cons.prems(3) have n: "?n \<le> length stack" and rest: "run_items text items (apply_item (text i) ?n stack) = Some stack'"
    by (simp_all split: if_splits)
  have "Functionalizer_feed tx a prefix sources i f = Inr ?f"
    by (rule feed_nests) (use Cons.prems n in auto)
  then show ?case using Cons.IH [of ?f, OF _ _ rest] Cons.prems(1) by simp
qed simp

theorem Functionalizer_refines_witness:
  "foldE (\<lambda>f i. Functionalizer_feed sample_text Assembly_default '''' [] i f) \<lparr>f_out = '''', f_pending = [], f_location = SourceLocation_default\<rparr>
     [AssemblyItem_make Push 2 SourceLocation_default '''', AssemblyItem_make Push 1 SourceLocation_default '''',
      AssemblyItem_of_instruction Instruction_SUB SourceLocation_default] =
   Inr \<lparr>f_out = '''', f_pending = [''sub(0x01, 0x02)''], f_location = SourceLocation_default\<rparr>"
  (is "foldE (\<lambda>f i. Functionalizer_feed ?tx ?a ?p ?s i f) ?f ?items = _")
proof -
  define name_of where "name_of = (\<lambda>i :: AssemblyItem. case it_type i of Push \<Rightarrow> (if it_data i = Some 2 then ''0x02'' else ''0x01'') | _ \<Rightarrow> ''sub'')"
  have sub: "info_name (instructionInfo Instruction_SUB) = ''SUB''" "info_args (instructionInfo Instruction_SUB) = 2"
    "info_ret (instructionInfo Instruction_SUB) = 1" "isValidInstruction Instruction_SUB" "\<not> isDupInstruction Instruction_SUB" "\<not> isSwapInstruction Instruction_SUB"
    "tolower CHR ''S'' = CHR ''s''" "tolower CHR ''U'' = CHR ''u''" "tolower CHR ''B'' = CHR ''b''" by code_simp+
  have hex: "toHex (toCompactBigEndian 2 (Suc 0)) Add Lower = ''0x02''" "toHex (toCompactBigEndian (Suc 0) (Suc 0)) Add Lower = ''0x01''"
    by code_simp+
  have ok: "\<forall>i \<in> set ?items. nests ?tx (f_location ?f) i \<and> Assembly_itemText (tx_base ?tx) ?a i = Inr (name_of i)"
    by (simp add: sample_text_def name_of_def nests_def canBeFunctional_def AssemblyItem_make_def AssemblyItem_of_instruction_def item_returnValues_def
        Assembly_itemText_def toAssemblyText_def item_text_def item_data_def sub hex)
  have "run_items name_of ?items [] = Some [App ''sub'' [App ''0x01'' [], App ''0x02'' []]]"
    by (simp add: name_of_def AssemblyItem_make_def AssemblyItem_of_instruction_def item_arguments_def apply_item_def sub)
  from Functionalizer_refines [OF ok _ this, of "''''" "[]"] show ?thesis by simp
qed

text \<open>
  In the JSON form the jump type of an operation is stored as its member value and there is no member jumpType, whereas
  for a pushed number the member value is the number in hexadecimal and the member jumpType is the jump type.
\<close>

theorem json_item_jump_type:
  assumes "it_jumpType i \<noteq> Ordinary" and "item_ok i"
  shows "(it_type i = Operation \<longrightarrow> (\<exists>v. json_item tx s sourceIndices i = Inr [JObject v] \<and>
      map_find ''value'' v = Some (JString (getJumpTypeAsString (it_jumpType i))) \<and> map_find ''jumpType'' v = None)) \<and>
    (it_type i = Push \<longrightarrow> (\<exists>v d. item_data i = Inr d \<and> json_item tx s sourceIndices i = Inr [JObject v] \<and>
      map_find ''value'' v = Some (JString (toStringInHex d)) \<and>
      map_find ''jumpType'' v = Some (JString (getJumpTypeAsString (it_jumpType i)))))"
proof -
  have j: "getJumpTypeAsString (it_jumpType i) \<noteq> ''''" using assms(1) by (cases "it_jumpType i") auto
  have h: "toStringInHex d \<noteq> ''''" for d unfolding toStringInHex_def by (subst hexUpper.simps) simp
  show ?thesis
    using j h assms(2)
    by (auto simp: json_item_def item_instruction_def item_data_def item_ok_def createJsonValue_def map_find_def map_of_put map_ok_put Let_def)
qed

theorem json_item_jump_type_witness:
  "\<exists>v. json_item sample_text AssemblyState_default [] ((AssemblyItem_of_instruction Instruction_JUMP SourceLocation_default)\<lparr>it_jumpType := IntoFunction\<rparr>) =
     Inr [JObject v] \<and> map_find ''value'' v = Some (JString ''[in]'') \<and> map_find ''jumpType'' v = None"
  using json_item_jump_type [of "(AssemblyItem_of_instruction Instruction_JUMP SourceLocation_default)\<lparr>it_jumpType := IntoFunction\<rparr>" sample_text AssemblyState_default "[]"]
  by (simp add: AssemblyItem_of_instruction_def item_ok_def)

end
