(* ===== verification/Optimiser.thy ===== *)
theory Optimiser
  imports Assembly EVMVersion
begin

text \<open>
  The driver of the optimiser (\<^verbatim>\<open>libevmasm/Assembly.cpp\<close>, \<open>optimise\<close> and \<open>optimiseInternal\<close>). The passes it
  runs are outside the repository: they are the fields of \<open>OptimiserPasses\<close>, functions on the list of items that
  say whether they changed something. A loop that need not end is a \<open>partial_function\<close> in which \<open>None\<close> is not returning.
\<close>

section \<open>Settings and passes\<close>

record OptimiserSettings =
  isCreation :: bool
  runJumpdestRemover :: bool
  runPeephole :: bool
  runDeduplicate :: bool
  runCSE :: bool
  runConstantOptimiser :: bool
  evmVersion :: EVMVersion
  expectedExecutionsPerDeployment :: nat

definition OptimiserSettings_default :: "EVMVersion \<Rightarrow> OptimiserSettings" where
  "OptimiserSettings_default version =
     \<lparr>isCreation = False, runJumpdestRemover = False, runPeephole = False, runDeduplicate = False, runCSE = False,
      runConstantOptimiser = False, evmVersion = version, expectedExecutionsPerDeployment = 200\<rparr>"

text \<open>
  \<open>jumpdestRemover\<close> takes the tags that are referenced from outside. \<open>deduplicate\<close> also gives the tags
  it replaced. Of the common subexpression eliminator, \<open>feedItems\<close> says how many items of the list it takes, and \<open>optimizedItems\<close> gives
  the items it makes of them: \<open>Inr None\<close> when it throws one of the two exceptions that the driver catches, \<open>Inl\<close> for any other.
\<close>

record OptimiserPasses =
  pass_referencedTags :: "AssemblyItem list \<Rightarrow> nat \<Rightarrow> nat set"
  pass_applyTagReplacement :: "AssemblyItem list \<Rightarrow> (u256 \<times> u256) list \<Rightarrow> nat \<Rightarrow> AssemblyItem list"
  pass_jumpdestRemover :: "nat set \<Rightarrow> AssemblyItem list \<Rightarrow> AssemblyItem list \<times> bool"
  pass_peephole :: "AssemblyItem list \<Rightarrow> AssemblyItem list \<times> bool"
  pass_deduplicate :: "AssemblyItem list \<Rightarrow> AssemblyItem list \<times> bool \<times> (u256 \<times> u256) list"
  pass_feedItems :: "AssemblyItem list \<Rightarrow> bool \<Rightarrow> nat"
  pass_optimizedItems :: "AssemblyItem list \<Rightarrow> bool \<Rightarrow> AssemblyItem list option result"
  pass_optimiseConstants :: "bool \<Rightarrow> nat \<Rightarrow> EVMVersion \<Rightarrow> Assembly \<Rightarrow> Assembly"

section \<open>One round\<close>

text \<open>The counter of a round is an \<open>unsigned\<close>; the peephole optimiser must not change the items too often.\<close>

function peephole_loop :: "OptimiserPasses \<Rightarrow> AssemblyItem list \<Rightarrow> nat \<Rightarrow> (AssemblyItem list \<times> nat) result" where
  "peephole_loop passes items count =
     (let (items, changed) = pass_peephole passes items in
      if changed then
        (if count + 1 < 64000 then peephole_loop passes items (count + 1)
         else Inl (OptimizerException ''Peephole optimizer seems to be stuck.''))
      else Inr (items, count))"
  by pat_completeness auto

termination
  by (relation "measure (\<lambda>(passes, items, count). 64000 - count)") auto

declare peephole_loop.simps [simp del]

definition replacement_step :: "(u256 \<times> u256) list \<times> nat set \<Rightarrow> u256 \<times> u256 \<Rightarrow> ((u256 \<times> u256) list \<times> nat set) result" where
  "replacement_step = (\<lambda>(tagReplacements, tags) (first, second).
     bindE (assertThrow (unat first \<le> size_t_max \<and> unat second \<le> size_t_max) (OptimizerException ''Invalid tag replacement.'')) (\<lambda>_.
     bindE (assertThrow (map_find first tagReplacements = None) (OptimizerException ''Replacement already known.'')) (\<lambda>_.
       Inr (map_put first second tagReplacements,
            if unat first \<in> tags then insert (unat second) (tags - {unat first}) else tags))))"

fun find_item :: "AssemblyItem list \<Rightarrow> AssemblyItem \<Rightarrow> bool result" where
  "find_item [] x = Inr False"
| "find_item (i # items) x = bindE (item_equal i x) (\<lambda>eq. if eq then Inr True else find_item items x)"

text \<open>One chunk of the common subexpression eliminator: what it gives, and whether it is used.\<close>

definition cse_chunk :: "OptimiserPasses \<Rightarrow> bool \<Rightarrow> AssemblyItem list \<Rightarrow> nat \<Rightarrow> (AssemblyItem list \<times> bool) result" where
  "cse_chunk passes usesMSize items n =
     bindE (pass_optimizedItems passes items usesMSize) (\<lambda>chunk.
       Inr (case chunk of
              Some optimisedChunk \<Rightarrow> if length optimisedChunk < n then (optimisedChunk, True) else (take n items, False)
            | None \<Rightarrow> (take n items, False)))"

partial_function (option) cse_loop :: "OptimiserPasses \<Rightarrow> bool \<Rightarrow> AssemblyItem list \<Rightarrow> AssemblyItem list \<Rightarrow> nat \<Rightarrow>
    (AssemblyItem list \<times> nat) result option" where
  "cse_loop passes usesMSize items optimisedItems count =
     (if items = [] then Some (Inr (optimisedItems, count))
      else
        let n = pass_feedItems passes items usesMSize in
        case cse_chunk passes usesMSize items n of
          Inl e \<Rightarrow> Some (Inl e)
        | Inr r \<Rightarrow> cse_loop passes usesMSize (drop n items) (optimisedItems @ fst r) (if snd r then count + 1 else count))"

text \<open>
  The state of the driver: the items, the tags referenced from outside, and the replacements so far.
\<close>

record OptState =
  opt_items :: "AssemblyItem list"
  opt_tags :: "nat set"
  opt_replacements :: "(u256 \<times> u256) list"

definition round_jumpdests :: "OptimiserPasses \<Rightarrow> OptimiserSettings \<Rightarrow> OptState \<Rightarrow> OptState \<times> nat" where
  "round_jumpdests passes settings st =
     (if runJumpdestRemover settings then
        (let (items, changed) = pass_jumpdestRemover passes (opt_tags st) (opt_items st)
         in (st\<lparr>opt_items := items\<rparr>, if changed then 1 else 0))
      else (st, 0))"

definition round_peephole :: "OptimiserPasses \<Rightarrow> OptimiserSettings \<Rightarrow> OptState \<times> nat \<Rightarrow> (OptState \<times> nat) result" where
  "round_peephole passes settings = (\<lambda>(st, count).
     if runPeephole settings then
       bindE (peephole_loop passes (opt_items st) count) (\<lambda>(items, count). Inr (st\<lparr>opt_items := items\<rparr>, count))
     else Inr (st, count))"

definition round_deduplicate :: "OptimiserPasses \<Rightarrow> OptimiserSettings \<Rightarrow> OptState \<times> nat \<Rightarrow> (OptState \<times> nat) result" where
  "round_deduplicate passes settings = (\<lambda>(st, count).
     if runDeduplicate settings then
       (let (items, changed, replaced) = pass_deduplicate passes (opt_items st) in
        if changed then
          bindE (foldE replacement_step (opt_replacements st, opt_tags st) replaced) (\<lambda>(tagReplacements, tags).
            Inr (st\<lparr>opt_items := items, opt_replacements := tagReplacements, opt_tags := tags\<rparr>, count + 1))
        else Inr (st\<lparr>opt_items := items\<rparr>, count))
     else Inr (st, count))"

definition round_cse :: "OptimiserPasses \<Rightarrow> OptimiserSettings \<Rightarrow> OptState \<times> nat \<Rightarrow> (OptState \<times> nat) result option" where
  "round_cse passes settings = (\<lambda>(st, count).
     if runCSE settings then
       (case find_item (opt_items st) (AssemblyItem_of_instruction Instruction_MSIZE SourceLocation_default) of
          Inl e \<Rightarrow> Some (Inl e)
        | Inr usesMSize \<Rightarrow>
            map_option (\<lambda>r. bindE r (\<lambda>(optimisedItems, count).
                Inr (if length optimisedItems < length (opt_items st) then (st\<lparr>opt_items := optimisedItems\<rparr>, count + 1)
                     else (st, count))))
              (cse_loop passes usesMSize (opt_items st) [] count))
     else Some (Inr (st, count)))"

definition optimise_round :: "OptimiserPasses \<Rightarrow> OptimiserSettings \<Rightarrow> OptState \<Rightarrow> (OptState \<times> nat) result option" where
  "optimise_round passes settings st =
     (case bindE (round_peephole passes settings (round_jumpdests passes settings st)) (round_deduplicate passes settings) of
        Inl e \<Rightarrow> Some (Inl e)
      | Inr r \<Rightarrow> round_cse passes settings r)"

section \<open>The driver\<close>

text \<open>Rounds are run until one of them changes nothing.\<close>

partial_function (option) optimise_loop :: "OptimiserPasses \<Rightarrow> OptimiserSettings \<Rightarrow> OptState \<Rightarrow> OptState result option" where
  "optimise_loop passes settings st =
     (case optimise_round passes settings st of
        None \<Rightarrow> None
      | Some r \<Rightarrow>
          (case r of
             Inl e \<Rightarrow> Some (Inl e)
           | Inr p \<Rightarrow> if snd p > 0 then optimise_loop passes settings (fst p) else Some (Inr (fst p))))"

text \<open>
  The loop over the sub-assemblies; \<open>r\<close> is the outcome of a sub-assembly as a function of the tags that are referenced from outside.
\<close>

definition optimise_sub ::
    "OptimiserPasses \<Rightarrow> (AssemblyItem list \<times> Assembly list) result option \<Rightarrow>
     (nat set \<Rightarrow> ((u256 \<times> u256) list \<times> Assembly) result option) \<Rightarrow> (AssemblyItem list \<times> Assembly list) result option" where
  "optimise_sub passes acc r =
     (case acc of
        None \<Rightarrow> None
      | Some (Inl e) \<Rightarrow> Some (Inl e)
      | Some (Inr (items, subs)) \<Rightarrow>
          (let subId = length subs in
           map_option (\<lambda>r. bindE r (\<lambda>(subTagReplacements, sub).
               Inr (pass_applyTagReplacement passes items subTagReplacements subId, subs @ [sub])))
             (r (pass_referencedTags passes items subId))))"

definition optimise_own :: "OptimiserPasses \<Rightarrow> OptimiserSettings \<Rightarrow> AssemblyState \<Rightarrow> nat set \<Rightarrow> AssemblyItem list \<times> Assembly list \<Rightarrow>
    ((u256 \<times> u256) list \<times> Assembly) result option" where
  "optimise_own passes settings s tags = (\<lambda>(items, subs).
     map_option (\<lambda>r. bindE r (\<lambda>st.
         let a = Assembly (s\<lparr>m_items := opt_items st\<rparr>) subs;
             a = (if runConstantOptimiser settings
                  then pass_optimiseConstants passes (isCreation settings)
                         (if isCreation settings then 1 else expectedExecutionsPerDeployment settings) (evmVersion settings) a
                  else a)
         in Inr (opt_replacements st, a)))
       (optimise_loop passes settings \<lparr>opt_items = items, opt_tags = tags, opt_replacements = []\<rparr>))"

fun optimiseInternal :: "OptimiserPasses \<Rightarrow> OptimiserSettings \<Rightarrow> Assembly \<Rightarrow> nat set \<Rightarrow>
    ((u256 \<times> u256) list \<times> Assembly) result option" where
  "optimiseInternal passes settings (Assembly s subs) tags =
     (case foldl (optimise_sub passes) (Some (Inr (m_items s, [])))
             (map (\<lambda>sub. optimiseInternal passes (settings\<lparr>isCreation := False\<rparr>) sub) subs) of
        None \<Rightarrow> None
      | Some (Inl e) \<Rightarrow> Some (Inl e)
      | Some (Inr r) \<Rightarrow> optimise_own passes settings s tags r)"

definition Assembly_optimise_settings :: "OptimiserPasses \<Rightarrow> OptimiserSettings \<Rightarrow> Assembly \<Rightarrow> Assembly result option" where
  "Assembly_optimise_settings passes settings a =
     map_option (\<lambda>r. bindE r (\<lambda>(replacements, a). Inr a)) (optimiseInternal passes settings a {})"

definition Assembly_optimise :: "OptimiserPasses \<Rightarrow> bool \<Rightarrow> EVMVersion \<Rightarrow> bool \<Rightarrow> nat \<Rightarrow> Assembly \<Rightarrow> Assembly result option" where
  "Assembly_optimise passes enable version creation runs a =
     (let settings = OptimiserSettings_default version;
          settings = settings\<lparr>isCreation := creation, runJumpdestRemover := True, runPeephole := True\<rparr>;
          settings = (if enable then settings\<lparr>runDeduplicate := True, runCSE := True, runConstantOptimiser := True\<rparr> else settings);
          settings = settings\<lparr>expectedExecutionsPerDeployment := runs\<rparr>
      in Assembly_optimise_settings passes settings a)"

section \<open>What the passes promise\<close>

text \<open>
  A pass that reports a change makes the items smaller: fewer, or as many with a smaller weight; a pass that reports none leaves
  them alone. The common subexpression eliminator takes at least one item.
\<close>

definition items_smaller :: "(AssemblyItem list \<Rightarrow> nat) \<Rightarrow> AssemblyItem list \<Rightarrow> AssemblyItem list \<Rightarrow> bool" where
  "items_smaller weight items' items \<longleftrightarrow>
     length items' < length items \<or> length items' = length items \<and> weight items' < weight items"

definition pass_ok :: "(AssemblyItem list \<Rightarrow> nat) \<Rightarrow> AssemblyItem list \<Rightarrow> AssemblyItem list \<times> bool \<Rightarrow> bool" where
  "pass_ok weight items = (\<lambda>(items', changed). if changed then items_smaller weight items' items else items' = items)"

definition passes_ok :: "OptimiserPasses \<Rightarrow> (AssemblyItem list \<Rightarrow> nat) \<Rightarrow> bool" where
  "passes_ok passes weight \<longleftrightarrow>
     (\<forall>tags items. pass_ok weight items (pass_jumpdestRemover passes tags items)) \<and>
     (\<forall>items. pass_ok weight items (pass_peephole passes items)) \<and>
     (\<forall>items. pass_ok weight items (fst (pass_deduplicate passes items), fst (snd (pass_deduplicate passes items)))) \<and>
     (\<forall>items m. items \<noteq> [] \<longrightarrow> 0 < pass_feedItems passes items m \<and> pass_feedItems passes items m \<le> length items)"

text \<open>No pass that is switched on changes anything.\<close>

definition quiescent :: "OptimiserPasses \<Rightarrow> OptimiserSettings \<Rightarrow> OptState \<Rightarrow> bool" where
  "quiescent passes settings st \<longleftrightarrow>
     (runJumpdestRemover settings \<longrightarrow> pass_jumpdestRemover passes (opt_tags st) (opt_items st) = (opt_items st, False)) \<and>
     (runPeephole settings \<longrightarrow> pass_peephole passes (opt_items st) = (opt_items st, False)) \<and>
     (runDeduplicate settings \<longrightarrow> fst (snd (pass_deduplicate passes (opt_items st))) = False) \<and>
     (runCSE settings \<longrightarrow> (\<exists>usesMSize. cse_loop passes usesMSize (opt_items st) [] 0 = Some (Inr (opt_items st, 0))))"

lemma items_smaller_trans: "items_smaller w a b \<Longrightarrow> items_smaller w b c \<Longrightarrow> items_smaller w a c"
  by (auto simp: items_smaller_def)

definition items_order :: "(AssemblyItem list \<Rightarrow> nat) \<Rightarrow> (AssemblyItem list \<times> AssemblyItem list) set" where
  "items_order w = inv_image (less_than <*lex*> less_than) (\<lambda>items. (length items, w items))"

lemma items_order_iff: "(a, b) \<in> items_order w \<longleftrightarrow> items_smaller w a b"
  by (auto simp: items_order_def items_smaller_def)

lemma wf_items_order: "wf (items_order w)"
  by (simp add: items_order_def wf_inv_image wf_lex_prod)

text \<open>The outcome of a part of a round: unchanged with the same count, or smaller with a larger count.\<close>

definition advance :: "(AssemblyItem list \<Rightarrow> nat) \<Rightarrow> OptState \<times> nat \<Rightarrow> OptState \<times> nat \<Rightarrow> bool" where
  "advance w = (\<lambda>(st, c) (st', c'). c' = c \<and> st' = st \<or> c < c' \<and> items_smaller w (opt_items st') (opt_items st))"

lemma advance_trans: "advance w a b \<Longrightarrow> advance w b c \<Longrightarrow> advance w a c"
  by (auto simp: advance_def intro: items_smaller_trans)

lemma advance_stop: "advance w (st, c) (st', c') \<Longrightarrow> c' = c \<Longrightarrow> st' = st"
  by (auto simp: advance_def)

lemma advance_count: "advance w (st, c) (st', c') \<Longrightarrow> c \<le> c'"
  by (auto simp: advance_def)

lemma peephole_loop_advance:
  "peephole_loop passes items c = Inr (items', c') \<Longrightarrow> passes_ok passes w \<Longrightarrow>
   c' = c \<and> items' = items \<and> pass_peephole passes items = (items, False) \<or> c < c' \<and> items_smaller w items' items"
proof (induction passes items c rule: peephole_loop.induct)
  case (1 passes items c)
  obtain items1 changed where p: "pass_peephole passes items = (items1, changed)" by force
  have ok: "pass_ok w items (items1, changed)" using 1(3) p by (metis passes_ok_def)
  show ?case
  proof (cases changed)
    case False
    then show ?thesis using 1(2) ok by (subst (asm) peephole_loop.simps) (simp add: p pass_ok_def)
  next
    case True
    then have small: "items_smaller w items1 items" using ok by (simp add: pass_ok_def)
    have "peephole_loop passes items c = (if c + 1 < 64000 then peephole_loop passes items1 (c + 1)
        else Inl (OptimizerException ''Peephole optimizer seems to be stuck.''))"
      by (subst peephole_loop.simps) (simp add: p True)
    with 1(2) have c: "c + 1 < 64000" and l: "peephole_loop passes items1 (c + 1) = Inr (items', c')" by (auto split: if_splits)
    from 1(1) [OF p [symmetric] refl True c l 1(3)]
    have "c < c'" "items_smaller w items' items1 \<or> items' = items1" by auto
    then show ?thesis using small items_smaller_trans [of w items' items1 items] by blast
  qed
qed

lemma cse_chunk_length:
  "cse_chunk passes m items n = Inr (chunk, used) \<Longrightarrow> n \<le> length items \<Longrightarrow>
   if used then length chunk < n else chunk = take n items"
  by (auto simp: cse_chunk_def bindE_Inr split: option.splits if_splits)

text \<open>The eliminator ends; without a used chunk it copies the items, with one it makes the list shorter.\<close>

lemma cse_loop_returns:
  assumes ok: "passes_ok passes w"
  shows "\<exists>r. cse_loop passes m items acc c = Some r \<and>
     (\<forall>out c'. r = Inr (out, c') \<longrightarrow> c' = c \<and> out = acc @ items \<or> c < c' \<and> length out < length (acc @ items))"
proof (induction "length items" arbitrary: items acc c rule: less_induct)
  case less
  show ?case
  proof (cases "items = []")
    case True
    then show ?thesis by (simp add: cse_loop.simps)
  next
    case False
    define n where "n = pass_feedItems passes items m"
    have n: "0 < n" "n \<le> length items" using ok False by (auto simp: passes_ok_def n_def)
    show ?thesis
    proof (cases "cse_chunk passes m items n")
      case (Inl e)
      then show ?thesis using False by (subst cse_loop.simps) (simp add: n_def)
    next
      case (Inr r)
      obtain chunk used where r: "r = (chunk, used)" by force
      let ?c = "if used then c + 1 else c"
      have eq: "cse_loop passes m items acc c = cse_loop passes m (drop n items) (acc @ chunk) ?c"
        using False Inr r by (subst cse_loop.simps) (simp add: n_def [symmetric] Let_def)
      have len: "if used then length chunk < n else chunk = take n items" using cse_chunk_length n(2) Inr r by blast
      have "length (drop n items) < length items" using n False by simp
      from less.hyps [OF this, of "acc @ chunk" ?c] obtain r where r: "cse_loop passes m (drop n items) (acc @ chunk) ?c = Some r"
        and spec: "\<And>out c'. r = Inr (out, c') \<Longrightarrow> c' = ?c \<and> out = (acc @ chunk) @ drop n items \<or>
            ?c < c' \<and> length out < length ((acc @ chunk) @ drop n items)" by blast
      have "c' = c \<and> out = acc @ items \<or> c < c' \<and> length out < length (acc @ items)" if "r = Inr (out, c')" for out c'
      proof (cases used)
        case True
        then show ?thesis using spec [OF that] len n by auto
      next
        case False
        then show ?thesis using spec [OF that] len n by auto
      qed
      then show ?thesis using r eq by auto
    qed
  qed
qed

section \<open>Rounds\<close>

lemma round_jumpdests_advance:
  assumes "passes_ok passes w" "round_jumpdests passes settings st = (st', c)"
  shows "advance w (st, 0) (st', c) \<and>
     (c = 0 \<longrightarrow> runJumpdestRemover settings \<longrightarrow> pass_jumpdestRemover passes (opt_tags st) (opt_items st) = (opt_items st, False))"
proof -
  obtain items changed where p: "pass_jumpdestRemover passes (opt_tags st) (opt_items st) = (items, changed)" by force
  have "pass_ok w (opt_items st) (items, changed)" using assms(1) p by (metis passes_ok_def)
  then show ?thesis using assms(2) by (auto simp: round_jumpdests_def p advance_def pass_ok_def split: if_splits)
qed

lemma round_peephole_advance:
  assumes "passes_ok passes w" "round_peephole passes settings (st, c) = Inr (st', c')"
  shows "advance w (st, c) (st', c') \<and> (c' = c \<longrightarrow> runPeephole settings \<longrightarrow> pass_peephole passes (opt_items st) = (opt_items st, False))"
  using assms(2) peephole_loop_advance [OF _ assms(1), of "opt_items st" c]
  by (auto simp: round_peephole_def bindE_Inr advance_def split: if_splits)

lemma round_deduplicate_advance:
  assumes "passes_ok passes w" "round_deduplicate passes settings (st, c) = Inr (st', c')"
  shows "advance w (st, c) (st', c') \<and> (c' = c \<longrightarrow> runDeduplicate settings \<longrightarrow> fst (snd (pass_deduplicate passes (opt_items st))) = False)"
proof -
  obtain items changed replaced where p: "pass_deduplicate passes (opt_items st) = (items, changed, replaced)" by (metis prod_cases3)
  have "pass_ok w (opt_items st) (items, changed)" using assms(1) p by (metis passes_ok_def fst_conv snd_conv)
  then show ?thesis using assms(2) by (auto simp: round_deduplicate_def p bindE_Inr advance_def pass_ok_def split: if_splits)
qed

lemma round_cse_advance:
  assumes ok: "passes_ok passes w"
  shows "\<exists>r. round_cse passes settings (st, c) = Some r \<and>
     (\<forall>st' c'. r = Inr (st', c') \<longrightarrow> advance w (st, c) (st', c') \<and>
        (c' = c \<longrightarrow> runCSE settings \<longrightarrow> (\<exists>m. cse_loop passes m (opt_items st) [] c = Some (Inr (opt_items st, c)))))"
proof (cases "runCSE settings")
  case False
  then show ?thesis by (simp add: round_cse_def advance_def)
next
  case True
  show ?thesis
  proof (cases "find_item (opt_items st) (AssemblyItem_of_instruction Instruction_MSIZE SourceLocation_default)")
    case (Inl e)
    then show ?thesis using True by (simp add: round_cse_def)
  next
    case (Inr m)
    obtain r where r: "cse_loop passes m (opt_items st) [] c = Some r"
      and spec: "\<And>out c'. r = Inr (out, c') \<Longrightarrow> c' = c \<and> out = opt_items st \<or> c < c' \<and> length out < length (opt_items st)"
      using cse_loop_returns [OF ok, of m "opt_items st" "[]" c] by auto
    then show ?thesis
      using True Inr by (cases r) (auto simp: round_cse_def advance_def items_smaller_def split: if_splits)
  qed
qed

lemma optimise_round_advance:
  assumes ok: "passes_ok passes w"
  shows "\<exists>r. optimise_round passes settings st = Some r \<and>
     (\<forall>st' c. r = Inr (st', c) \<longrightarrow> advance w (st, 0) (st', c) \<and> (c = 0 \<longrightarrow> quiescent passes settings st'))"
proof -
  obtain st1 c1 where 1: "round_jumpdests passes settings st = (st1, c1)" by force
  note a1 = round_jumpdests_advance [OF ok 1]
  show ?thesis
  proof (cases "bindE (round_peephole passes settings (st1, c1)) (round_deduplicate passes settings)")
    case (Inl e)
    then show ?thesis by (simp add: optimise_round_def 1)
  next
    case (Inr r)
    then obtain st2 c2 st3 c3 where 2: "round_peephole passes settings (st1, c1) = Inr (st2, c2)"
      and 3: "round_deduplicate passes settings (st2, c2) = Inr (st3, c3)" and r: "r = (st3, c3)"
      by (cases r) (auto simp: bindE_Inr)
    note a2 = round_peephole_advance [OF ok 2] and a3 = round_deduplicate_advance [OF ok 3]
    obtain r4 where 4: "round_cse passes settings (st3, c3) = Some r4"
      and a4: "\<And>st' c'. r4 = Inr (st', c') \<Longrightarrow> advance w (st3, c3) (st', c') \<and>
        (c' = c3 \<longrightarrow> runCSE settings \<longrightarrow> (\<exists>m. cse_loop passes m (opt_items st3) [] c3 = Some (Inr (opt_items st3, c3))))"
      using round_cse_advance [OF ok] by blast
    have "advance w (st, 0) (st', c) \<and> (c = 0 \<longrightarrow> quiescent passes settings st')" if r4: "r4 = Inr (st', c)" for st' c
    proof
      show "advance w (st, 0) (st', c)" using a1 a2 a3 a4 [OF r4] advance_trans by blast
      show "c = 0 \<longrightarrow> quiescent passes settings st'"
      proof
        assume c: "c = 0"
        have "c3 \<le> c" "c2 \<le> c3" "c1 \<le> c2" using a2 a3 a4 [OF r4] advance_count by blast+
        with c have z: "c1 = 0" "c2 = 0" "c3 = 0" by auto
        then have "st1 = st" "st2 = st1" "st3 = st2" "st' = st3"
          using a1 a2 a3 a4 [OF r4] c by (auto dest: advance_stop)
        then show "quiescent passes settings st'"
          using a1 a2 a3 a4 [OF r4] z c by (simp add: quiescent_def)
      qed
    qed
    then show ?thesis using 4 Inr by (simp add: optimise_round_def 1 r)
  qed
qed

lemma optimise_loop_returns:
  assumes ok: "passes_ok passes w"
  shows "\<exists>r. optimise_loop passes settings st = Some r \<and>
     (\<forall>st'. r = Inr st' \<longrightarrow> quiescent passes settings st' \<and> length (opt_items st') \<le> length (opt_items st))"
proof (induction "opt_items st" arbitrary: st rule: wf_induct_rule [OF wf_items_order [of w]])
  case 1
  obtain r where r: "optimise_round passes settings st = Some r"
    and spec: "\<And>st' c. r = Inr (st', c) \<Longrightarrow> advance w (st, 0) (st', c) \<and> (c = 0 \<longrightarrow> quiescent passes settings st')"
    using optimise_round_advance [OF ok] by blast
  show ?case
  proof (cases r)
    case (Inl e)
    then show ?thesis using r by (subst optimise_loop.simps) simp
  next
    case (Inr p)
    obtain st1 c where p: "p = (st1, c)" by force
    note s = spec [of st1 c, OF Inr [unfolded p]]
    show ?thesis
    proof (cases "c = 0")
      case True
      then show ?thesis using r Inr p s by (subst optimise_loop.simps) (auto simp: advance_def)
    next
      case False
      then have small: "items_smaller w (opt_items st1) (opt_items st)" using s by (auto simp: advance_def)
      have eq: "optimise_loop passes settings st = optimise_loop passes settings st1"
        using r Inr p False by (subst optimise_loop.simps) simp
      have "length (opt_items st1) \<le> length (opt_items st)" using small by (auto simp: items_smaller_def)
      then show ?thesis using 1 [of st1] small unfolding eq items_order_iff by (meson order_trans)
    qed
  qed
qed

section \<open>The tree of assemblies\<close>

lemma optimise_subs_return:
  assumes "\<And>f tags. f \<in> set fs \<Longrightarrow> \<exists>r. f tags = Some r"
  shows "\<exists>r. foldl (optimise_sub passes) (Some acc) fs = Some r"
  using assms
proof (induction fs arbitrary: acc)
  case (Cons f fs)
  have "\<exists>acc'. optimise_sub passes (Some acc) f = Some acc'"
  proof (cases acc)
    case (Inr p)
    then obtain items subs where p: "acc = Inr (items, subs)" by (cases p) auto
    obtain r where "f (pass_referencedTags passes items (length subs)) = Some r" using Cons.prems [of f] by auto
    then show ?thesis by (simp add: p optimise_sub_def Let_def)
  qed (simp add: optimise_sub_def)
  then show ?case using Cons by auto
qed simp

definition optimised_result :: "OptimiserPasses \<Rightarrow> OptimiserSettings \<Rightarrow> AssemblyState \<Rightarrow> (u256 \<times> u256) list \<times> Assembly \<Rightarrow> bool" where
  "optimised_result passes settings s = (\<lambda>(replacements, a).
     \<exists>st subs. quiescent passes settings st \<and> replacements = opt_replacements st \<and>
       a = (if runConstantOptimiser settings
            then pass_optimiseConstants passes (isCreation settings) (if isCreation settings then 1 else expectedExecutionsPerDeployment settings)
                   (evmVersion settings) (Assembly (s\<lparr>m_items := opt_items st\<rparr>) subs)
            else Assembly (s\<lparr>m_items := opt_items st\<rparr>) subs))"

lemma optimise_own_returns:
  assumes "passes_ok passes w"
  shows "\<exists>r. optimise_own passes settings s tags p = Some r \<and> (\<forall>x. r = Inr x \<longrightarrow> optimised_result passes settings s x)"
proof -
  obtain items subs where p: "p = (items, subs)" by force
  let ?st = "\<lparr>opt_items = items, opt_tags = tags, opt_replacements = []\<rparr>"
  obtain r where r: "optimise_loop passes settings ?st = Some r" "\<And>st'. r = Inr st' \<Longrightarrow> quiescent passes settings st'"
    using optimise_loop_returns [OF assms] by blast
  show ?thesis
  proof (cases r)
    case (Inl e)
    then show ?thesis using r by (simp add: optimise_own_def p)
  next
    case (Inr st)
    then show ?thesis using r by (auto simp: optimise_own_def optimised_result_def p Let_def)
  qed
qed

lemma optimiseInternal_returns:
  "passes_ok passes w \<Longrightarrow> \<exists>r. optimiseInternal passes settings a tags = Some r \<and>
     (\<forall>x. r = Inr x \<longrightarrow> optimised_result passes settings (m_state a) x)"
proof (induction passes settings a tags rule: optimiseInternal.induct)
  case (1 passes settings s subs tags)
  let ?fs = "map (\<lambda>sub. optimiseInternal passes (settings\<lparr>isCreation := False\<rparr>) sub) subs"
  obtain r where r: "foldl (optimise_sub passes) (Some (Inr (m_items s, []))) ?fs = Some r"
    using optimise_subs_return [of ?fs passes "Inr (m_items s, [])"] 1 by fastforce
  show ?case
  proof (cases r)
    case (Inl e)
    then show ?thesis using r by simp
  next
    case (Inr p)
    then show ?thesis using r optimise_own_returns [OF 1(2), of settings s tags p] by simp
  qed
qed


text \<open>Passes that satisfy the contract: a peephole optimiser that drops items until one is left, and an eliminator that takes all items.\<close>

definition sample_passes :: OptimiserPasses where
  "sample_passes =
     \<lparr>pass_referencedTags = (\<lambda>items i. {}), pass_applyTagReplacement = (\<lambda>items r i. items),
      pass_jumpdestRemover = (\<lambda>tags items. (items, False)),
      pass_peephole = (\<lambda>items. if length items > 1 then (tl items, True) else (items, False)),
      pass_deduplicate = (\<lambda>items. (items, False, [])), pass_feedItems = (\<lambda>items m. length items),
      pass_optimizedItems = (\<lambda>items m. Inr None), pass_optimiseConstants = (\<lambda>c n v a. a)\<rparr>"


end
