(* ===== verification/Token.thy ===== *)
theory Token
  imports CommonData
begin

text \<open>
  The tokens of \<^verbatim>\<open>liblangutil/Token.h\<close>. \<open>enum class Token : unsigned int\<close> is generated from the
  X-macro \<open>TOKEN_LIST\<close>: a token is its position in that list, and the predicates of \<open>TokenTraits\<close> compare
  positions. The list is kept as data (the enumerator, the text of the token or no text for
  \<open>nullptr\<close>, the precedence), and every enumerator is a constant with its value.
\<close>

type_synonym Token = nat

section \<open>Enumerators\<close>

definition Token_EOS :: Token where "Token_EOS = 0"
definition Token_LParen :: Token where "Token_LParen = 1"
definition Token_RParen :: Token where "Token_RParen = 2"
definition Token_LBrack :: Token where "Token_LBrack = 3"
definition Token_RBrack :: Token where "Token_RBrack = 4"
definition Token_LBrace :: Token where "Token_LBrace = 5"
definition Token_RBrace :: Token where "Token_RBrace = 6"
definition Token_Colon :: Token where "Token_Colon = 7"
definition Token_Semicolon :: Token where "Token_Semicolon = 8"
definition Token_Period :: Token where "Token_Period = 9"
definition Token_Conditional :: Token where "Token_Conditional = 10"
definition Token_DoubleArrow :: Token where "Token_DoubleArrow = 11"
definition Token_RightArrow :: Token where "Token_RightArrow = 12"
definition Token_Assign :: Token where "Token_Assign = 13"
definition Token_AssignBitOr :: Token where "Token_AssignBitOr = 14"
definition Token_AssignBitXor :: Token where "Token_AssignBitXor = 15"
definition Token_AssignBitAnd :: Token where "Token_AssignBitAnd = 16"
definition Token_AssignShl :: Token where "Token_AssignShl = 17"
definition Token_AssignSar :: Token where "Token_AssignSar = 18"
definition Token_AssignShr :: Token where "Token_AssignShr = 19"
definition Token_AssignAdd :: Token where "Token_AssignAdd = 20"
definition Token_AssignSub :: Token where "Token_AssignSub = 21"
definition Token_AssignMul :: Token where "Token_AssignMul = 22"
definition Token_AssignDiv :: Token where "Token_AssignDiv = 23"
definition Token_AssignMod :: Token where "Token_AssignMod = 24"
definition Token_Comma :: Token where "Token_Comma = 25"
definition Token_Or :: Token where "Token_Or = 26"
definition Token_And :: Token where "Token_And = 27"
definition Token_BitOr :: Token where "Token_BitOr = 28"
definition Token_BitXor :: Token where "Token_BitXor = 29"
definition Token_BitAnd :: Token where "Token_BitAnd = 30"
definition Token_SHL :: Token where "Token_SHL = 31"
definition Token_SAR :: Token where "Token_SAR = 32"
definition Token_SHR :: Token where "Token_SHR = 33"
definition Token_Add :: Token where "Token_Add = 34"
definition Token_Sub :: Token where "Token_Sub = 35"
definition Token_Mul :: Token where "Token_Mul = 36"
definition Token_Div :: Token where "Token_Div = 37"
definition Token_Mod :: Token where "Token_Mod = 38"
definition Token_Exp :: Token where "Token_Exp = 39"
definition Token_Equal :: Token where "Token_Equal = 40"
definition Token_NotEqual :: Token where "Token_NotEqual = 41"
definition Token_LessThan :: Token where "Token_LessThan = 42"
definition Token_GreaterThan :: Token where "Token_GreaterThan = 43"
definition Token_LessThanOrEqual :: Token where "Token_LessThanOrEqual = 44"
definition Token_GreaterThanOrEqual :: Token where "Token_GreaterThanOrEqual = 45"
definition Token_Not :: Token where "Token_Not = 46"
definition Token_BitNot :: Token where "Token_BitNot = 47"
definition Token_Inc :: Token where "Token_Inc = 48"
definition Token_Dec :: Token where "Token_Dec = 49"
definition Token_Delete :: Token where "Token_Delete = 50"
definition Token_AssemblyAssign :: Token where "Token_AssemblyAssign = 51"
definition Token_Abstract :: Token where "Token_Abstract = 52"
definition Token_Anonymous :: Token where "Token_Anonymous = 53"
definition Token_As :: Token where "Token_As = 54"
definition Token_Assembly :: Token where "Token_Assembly = 55"
definition Token_Break :: Token where "Token_Break = 56"
definition Token_Catch :: Token where "Token_Catch = 57"
definition Token_Constant :: Token where "Token_Constant = 58"
definition Token_Constructor :: Token where "Token_Constructor = 59"
definition Token_Continue :: Token where "Token_Continue = 60"
definition Token_Contract :: Token where "Token_Contract = 61"
definition Token_Do :: Token where "Token_Do = 62"
definition Token_Else :: Token where "Token_Else = 63"
definition Token_Enum :: Token where "Token_Enum = 64"
definition Token_Emit :: Token where "Token_Emit = 65"
definition Token_Send :: Token where "Token_Send = 66"
definition Token_Event :: Token where "Token_Event = 67"
definition Token_External :: Token where "Token_External = 68"
definition Token_Fallback :: Token where "Token_Fallback = 69"
definition Token_For :: Token where "Token_For = 70"
definition Token_Function :: Token where "Token_Function = 71"
definition Token_Hex :: Token where "Token_Hex = 72"
definition Token_If :: Token where "Token_If = 73"
definition Token_Indexed :: Token where "Token_Indexed = 74"
definition Token_Interface :: Token where "Token_Interface = 75"
definition Token_Internal :: Token where "Token_Internal = 76"
definition Token_Immutable :: Token where "Token_Immutable = 77"
definition Token_Import :: Token where "Token_Import = 78"
definition Token_Is :: Token where "Token_Is = 79"
definition Token_Library :: Token where "Token_Library = 80"
definition Token_Mapping :: Token where "Token_Mapping = 81"
definition Token_Memory :: Token where "Token_Memory = 82"
definition Token_Modifier :: Token where "Token_Modifier = 83"
definition Token_New :: Token where "Token_New = 84"
definition Token_Override :: Token where "Token_Override = 85"
definition Token_Payable :: Token where "Token_Payable = 86"
definition Token_Public :: Token where "Token_Public = 87"
definition Token_Pragma :: Token where "Token_Pragma = 88"
definition Token_Private :: Token where "Token_Private = 89"
definition Token_Pure :: Token where "Token_Pure = 90"
definition Token_Receive :: Token where "Token_Receive = 91"
definition Token_Return :: Token where "Token_Return = 92"
definition Token_Returns :: Token where "Token_Returns = 93"
definition Token_Storage :: Token where "Token_Storage = 94"
definition Token_CallData :: Token where "Token_CallData = 95"
definition Token_Struct :: Token where "Token_Struct = 96"
definition Token_Throw :: Token where "Token_Throw = 97"
definition Token_Try :: Token where "Token_Try = 98"
definition Token_Type :: Token where "Token_Type = 99"
definition Token_Unchecked :: Token where "Token_Unchecked = 100"
definition Token_Unicode :: Token where "Token_Unicode = 101"
definition Token_Using :: Token where "Token_Using = 102"
definition Token_View :: Token where "Token_View = 103"
definition Token_Virtual :: Token where "Token_Virtual = 104"
definition Token_While :: Token where "Token_While = 105"
definition Token_SubWei :: Token where "Token_SubWei = 106"
definition Token_SubGwei :: Token where "Token_SubGwei = 107"
definition Token_SubEther :: Token where "Token_SubEther = 108"
definition Token_SubSecond :: Token where "Token_SubSecond = 109"
definition Token_SubMinute :: Token where "Token_SubMinute = 110"
definition Token_SubHour :: Token where "Token_SubHour = 111"
definition Token_SubDay :: Token where "Token_SubDay = 112"
definition Token_SubWeek :: Token where "Token_SubWeek = 113"
definition Token_SubYear :: Token where "Token_SubYear = 114"
definition Token_SubAttov :: Token where "Token_SubAttov = 115"
definition Token_SubVite :: Token where "Token_SubVite = 116"
definition Token_Int :: Token where "Token_Int = 117"
definition Token_UInt :: Token where "Token_UInt = 118"
definition Token_Bytes :: Token where "Token_Bytes = 119"
definition Token_String :: Token where "Token_String = 120"
definition Token_Address :: Token where "Token_Address = 121"
definition Token_Bool :: Token where "Token_Bool = 122"
definition Token_Fixed :: Token where "Token_Fixed = 123"
definition Token_UFixed :: Token where "Token_UFixed = 124"
definition Token_IntM :: Token where "Token_IntM = 125"
definition Token_UIntM :: Token where "Token_UIntM = 126"
definition Token_BytesM :: Token where "Token_BytesM = 127"
definition Token_FixedMxN :: Token where "Token_FixedMxN = 128"
definition Token_UFixedMxN :: Token where "Token_UFixedMxN = 129"
definition Token_TokenId :: Token where "Token_TokenId = 130"
definition Token_TypesEnd :: Token where "Token_TypesEnd = 131"
definition Token_TrueLiteral :: Token where "Token_TrueLiteral = 132"
definition Token_FalseLiteral :: Token where "Token_FalseLiteral = 133"
definition Token_Number :: Token where "Token_Number = 134"
definition Token_StringLiteral :: Token where "Token_StringLiteral = 135"
definition Token_UnicodeStringLiteral :: Token where "Token_UnicodeStringLiteral = 136"
definition Token_HexStringLiteral :: Token where "Token_HexStringLiteral = 137"
definition Token_CommentLiteral :: Token where "Token_CommentLiteral = 138"
definition Token_Identifier :: Token where "Token_Identifier = 139"
definition Token_After :: Token where "Token_After = 140"
definition Token_Alias :: Token where "Token_Alias = 141"
definition Token_Apply :: Token where "Token_Apply = 142"
definition Token_Auto :: Token where "Token_Auto = 143"
definition Token_Byte :: Token where "Token_Byte = 144"
definition Token_Case :: Token where "Token_Case = 145"
definition Token_CopyOf :: Token where "Token_CopyOf = 146"
definition Token_Default :: Token where "Token_Default = 147"
definition Token_Define :: Token where "Token_Define = 148"
definition Token_Final :: Token where "Token_Final = 149"
definition Token_Implements :: Token where "Token_Implements = 150"
definition Token_In :: Token where "Token_In = 151"
definition Token_Inline :: Token where "Token_Inline = 152"
definition Token_Let :: Token where "Token_Let = 153"
definition Token_Macro :: Token where "Token_Macro = 154"
definition Token_Match :: Token where "Token_Match = 155"
definition Token_Mutable :: Token where "Token_Mutable = 156"
definition Token_NullLiteral :: Token where "Token_NullLiteral = 157"
definition Token_Of :: Token where "Token_Of = 158"
definition Token_Partial :: Token where "Token_Partial = 159"
definition Token_Promise :: Token where "Token_Promise = 160"
definition Token_Reference :: Token where "Token_Reference = 161"
definition Token_Relocatable :: Token where "Token_Relocatable = 162"
definition Token_Sealed :: Token where "Token_Sealed = 163"
definition Token_Sizeof :: Token where "Token_Sizeof = 164"
definition Token_Static :: Token where "Token_Static = 165"
definition Token_Supports :: Token where "Token_Supports = 166"
definition Token_Switch :: Token where "Token_Switch = 167"
definition Token_Typedef :: Token where "Token_Typedef = 168"
definition Token_TypeOf :: Token where "Token_TypeOf = 169"
definition Token_Var :: Token where "Token_Var = 170"
definition Token_Async :: Token where "Token_Async = 171"
definition Token_Await :: Token where "Token_Await = 172"
definition Token_Leave :: Token where "Token_Leave = 173"
definition Token_Illegal :: Token where "Token_Illegal = 174"
definition Token_Whitespace :: Token where "Token_Whitespace = 175"

lemmas Token_defs =
  Token_EOS_def Token_LParen_def Token_RParen_def Token_LBrack_def Token_RBrack_def
  Token_LBrace_def Token_RBrace_def Token_Colon_def Token_Semicolon_def Token_Period_def
  Token_Conditional_def Token_DoubleArrow_def Token_RightArrow_def Token_Assign_def
  Token_AssignBitOr_def Token_AssignBitXor_def Token_AssignBitAnd_def Token_AssignShl_def
  Token_AssignSar_def Token_AssignShr_def Token_AssignAdd_def Token_AssignSub_def
  Token_AssignMul_def Token_AssignDiv_def Token_AssignMod_def Token_Comma_def Token_Or_def
  Token_And_def Token_BitOr_def Token_BitXor_def Token_BitAnd_def Token_SHL_def Token_SAR_def
  Token_SHR_def Token_Add_def Token_Sub_def Token_Mul_def Token_Div_def Token_Mod_def
  Token_Exp_def Token_Equal_def Token_NotEqual_def Token_LessThan_def Token_GreaterThan_def
  Token_LessThanOrEqual_def Token_GreaterThanOrEqual_def Token_Not_def Token_BitNot_def
  Token_Inc_def Token_Dec_def Token_Delete_def Token_AssemblyAssign_def Token_Abstract_def
  Token_Anonymous_def Token_As_def Token_Assembly_def Token_Break_def Token_Catch_def
  Token_Constant_def Token_Constructor_def Token_Continue_def Token_Contract_def Token_Do_def
  Token_Else_def Token_Enum_def Token_Emit_def Token_Send_def Token_Event_def Token_External_def
  Token_Fallback_def Token_For_def Token_Function_def Token_Hex_def Token_If_def
  Token_Indexed_def Token_Interface_def Token_Internal_def Token_Immutable_def Token_Import_def
  Token_Is_def Token_Library_def Token_Mapping_def Token_Memory_def Token_Modifier_def
  Token_New_def Token_Override_def Token_Payable_def Token_Public_def Token_Pragma_def
  Token_Private_def Token_Pure_def Token_Receive_def Token_Return_def Token_Returns_def
  Token_Storage_def Token_CallData_def Token_Struct_def Token_Throw_def Token_Try_def
  Token_Type_def Token_Unchecked_def Token_Unicode_def Token_Using_def Token_View_def
  Token_Virtual_def Token_While_def Token_SubWei_def Token_SubGwei_def Token_SubEther_def
  Token_SubSecond_def Token_SubMinute_def Token_SubHour_def Token_SubDay_def Token_SubWeek_def
  Token_SubYear_def Token_SubAttov_def Token_SubVite_def Token_Int_def Token_UInt_def
  Token_Bytes_def Token_String_def Token_Address_def Token_Bool_def Token_Fixed_def
  Token_UFixed_def Token_IntM_def Token_UIntM_def Token_BytesM_def Token_FixedMxN_def
  Token_UFixedMxN_def Token_TokenId_def Token_TypesEnd_def Token_TrueLiteral_def
  Token_FalseLiteral_def Token_Number_def Token_StringLiteral_def Token_UnicodeStringLiteral_def
  Token_HexStringLiteral_def Token_CommentLiteral_def Token_Identifier_def Token_After_def
  Token_Alias_def Token_Apply_def Token_Auto_def Token_Byte_def Token_Case_def Token_CopyOf_def
  Token_Default_def Token_Define_def Token_Final_def Token_Implements_def Token_In_def
  Token_Inline_def Token_Let_def Token_Macro_def Token_Match_def Token_Mutable_def
  Token_NullLiteral_def Token_Of_def Token_Partial_def Token_Promise_def Token_Reference_def
  Token_Relocatable_def Token_Sealed_def Token_Sizeof_def Token_Static_def Token_Supports_def
  Token_Switch_def Token_Typedef_def Token_TypeOf_def Token_Var_def Token_Async_def
  Token_Await_def Token_Leave_def Token_Illegal_def Token_Whitespace_def

section \<open>The token list\<close>

text \<open>The rows before and from the keywords on.\<close>

definition TOKEN_LIST_operators :: "(string \<times> string option \<times> int) list" where
  "TOKEN_LIST_operators = [
     (''EOS'', Some ''EOS'', 0),
     (''LParen'', Some ''('', 0),
     (''RParen'', Some '')'', 0),
     (''LBrack'', Some ''['', 0),
     (''RBrack'', Some '']'', 0),
     (''LBrace'', Some ''{'', 0),
     (''RBrace'', Some ''}'', 0),
     (''Colon'', Some '':'', 0),
     (''Semicolon'', Some '';'', 0),
     (''Period'', Some ''.'', 0),
     (''Conditional'', Some ''?'', 3),
     (''DoubleArrow'', Some ''=>'', 0),
     (''RightArrow'', Some ''->'', 0),
     (''Assign'', Some ''='', 2),
     (''AssignBitOr'', Some ''|='', 2),
     (''AssignBitXor'', Some ''^='', 2),
     (''AssignBitAnd'', Some ''&='', 2),
     (''AssignShl'', Some ''<<='', 2),
     (''AssignSar'', Some ''>>='', 2),
     (''AssignShr'', Some ''>>>='', 2),
     (''AssignAdd'', Some ''+='', 2),
     (''AssignSub'', Some ''-='', 2),
     (''AssignMul'', Some ''*='', 2),
     (''AssignDiv'', Some ''/='', 2),
     (''AssignMod'', Some ''%='', 2),
     (''Comma'', Some '','', 1),
     (''Or'', Some ''||'', 4),
     (''And'', Some ''&&'', 5),
     (''BitOr'', Some ''|'', 8),
     (''BitXor'', Some ''^'', 9),
     (''BitAnd'', Some ''&'', 10),
     (''SHL'', Some ''<<'', 11),
     (''SAR'', Some ''>>'', 11),
     (''SHR'', Some ''>>>'', 11),
     (''Add'', Some ''+'', 12),
     (''Sub'', Some ''-'', 12),
     (''Mul'', Some ''*'', 13),
     (''Div'', Some ''/'', 13),
     (''Mod'', Some ''%'', 13),
     (''Exp'', Some ''**'', 14),
     (''Equal'', Some ''=='', 6),
     (''NotEqual'', Some ''!='', 6),
     (''LessThan'', Some ''<'', 7),
     (''GreaterThan'', Some ''>'', 7),
     (''LessThanOrEqual'', Some ''<='', 7),
     (''GreaterThanOrEqual'', Some ''>='', 7),
     (''Not'', Some ''!'', 0),
     (''BitNot'', Some ''~'', 0),
     (''Inc'', Some ''++'', 0),
     (''Dec'', Some ''--'', 0),
     (''Delete'', Some ''delete'', 0),
     (''AssemblyAssign'', Some '':='', 2)]"

definition TOKEN_LIST_keywords :: "(string \<times> string option \<times> int) list" where
  "TOKEN_LIST_keywords = [
     (''Abstract'', Some ''abstract'', 0),
     (''Anonymous'', Some ''anonymous'', 0),
     (''As'', Some ''as'', 0),
     (''Assembly'', Some ''assembly'', 0),
     (''Break'', Some ''break'', 0),
     (''Catch'', Some ''catch'', 0),
     (''Constant'', Some ''constant'', 0),
     (''Constructor'', Some ''constructor'', 0),
     (''Continue'', Some ''continue'', 0),
     (''Contract'', Some ''contract'', 0),
     (''Do'', Some ''do'', 0),
     (''Else'', Some ''else'', 0),
     (''Enum'', Some ''enum'', 0),
     (''Emit'', Some ''emit'', 0),
     (''Send'', Some ''send'', 0),
     (''Event'', Some ''event'', 0),
     (''External'', Some ''external'', 0),
     (''Fallback'', Some ''fallback'', 0),
     (''For'', Some ''for'', 0),
     (''Function'', Some ''function'', 0),
     (''Hex'', Some ''hex'', 0),
     (''If'', Some ''if'', 0),
     (''Indexed'', Some ''indexed'', 0),
     (''Interface'', Some ''interface'', 0),
     (''Internal'', Some ''internal'', 0),
     (''Immutable'', Some ''immutable'', 0),
     (''Import'', Some ''import'', 0),
     (''Is'', Some ''is'', 0),
     (''Library'', Some ''library'', 0),
     (''Mapping'', Some ''mapping'', 0),
     (''Memory'', Some ''memory'', 0),
     (''Modifier'', Some ''modifier'', 0),
     (''New'', Some ''new'', 0),
     (''Override'', Some ''override'', 0),
     (''Payable'', Some ''payable'', 0),
     (''Public'', Some ''public'', 0),
     (''Pragma'', Some ''pragma'', 0),
     (''Private'', Some ''private'', 0),
     (''Pure'', Some ''pure'', 0),
     (''Receive'', Some ''receive'', 0),
     (''Return'', Some ''return'', 0),
     (''Returns'', Some ''returns'', 0),
     (''Storage'', Some ''storage'', 0),
     (''CallData'', Some ''calldata'', 0),
     (''Struct'', Some ''struct'', 0),
     (''Throw'', Some ''throw'', 0),
     (''Try'', Some ''try'', 0),
     (''Type'', Some ''type'', 0),
     (''Unchecked'', Some ''unchecked'', 0),
     (''Unicode'', Some ''unicode'', 0),
     (''Using'', Some ''using'', 0),
     (''View'', Some ''view'', 0),
     (''Virtual'', Some ''virtual'', 0),
     (''While'', Some ''while'', 0),
     (''SubWei'', Some ''wei'', 0),
     (''SubGwei'', Some ''gwei'', 0),
     (''SubEther'', Some ''ether'', 0),
     (''SubSecond'', Some ''seconds'', 0),
     (''SubMinute'', Some ''minutes'', 0),
     (''SubHour'', Some ''hours'', 0),
     (''SubDay'', Some ''days'', 0),
     (''SubWeek'', Some ''weeks'', 0),
     (''SubYear'', Some ''years'', 0),
     (''SubAttov'', Some ''attov'', 0),
     (''SubVite'', Some ''vite'', 0),
     (''Int'', Some ''int'', 0),
     (''UInt'', Some ''uint'', 0),
     (''Bytes'', Some ''bytes'', 0),
     (''String'', Some ''string'', 0),
     (''Address'', Some ''address'', 0),
     (''Bool'', Some ''bool'', 0),
     (''Fixed'', Some ''fixed'', 0),
     (''UFixed'', Some ''ufixed'', 0),
     (''IntM'', Some ''intM'', 0),
     (''UIntM'', Some ''uintM'', 0),
     (''BytesM'', Some ''bytesM'', 0),
     (''FixedMxN'', Some ''fixedMxN'', 0),
     (''UFixedMxN'', Some ''ufixedMxN'', 0),
     (''TokenId'', Some ''vitetoken'', 0),
     (''TypesEnd'', None, 0),
     (''TrueLiteral'', Some ''true'', 0),
     (''FalseLiteral'', Some ''false'', 0),
     (''Number'', None, 0),
     (''StringLiteral'', None, 0),
     (''UnicodeStringLiteral'', None, 0),
     (''HexStringLiteral'', None, 0),
     (''CommentLiteral'', None, 0),
     (''Identifier'', None, 0),
     (''After'', Some ''after'', 0),
     (''Alias'', Some ''alias'', 0),
     (''Apply'', Some ''apply'', 0),
     (''Auto'', Some ''auto'', 0),
     (''Byte'', Some ''byte'', 0),
     (''Case'', Some ''case'', 0),
     (''CopyOf'', Some ''copyof'', 0),
     (''Default'', Some ''default'', 0),
     (''Define'', Some ''define'', 0),
     (''Final'', Some ''final'', 0),
     (''Implements'', Some ''implements'', 0),
     (''In'', Some ''in'', 0),
     (''Inline'', Some ''inline'', 0),
     (''Let'', Some ''let'', 0),
     (''Macro'', Some ''macro'', 0),
     (''Match'', Some ''match'', 0),
     (''Mutable'', Some ''mutable'', 0),
     (''NullLiteral'', Some ''null'', 0),
     (''Of'', Some ''of'', 0),
     (''Partial'', Some ''partial'', 0),
     (''Promise'', Some ''promise'', 0),
     (''Reference'', Some ''reference'', 0),
     (''Relocatable'', Some ''relocatable'', 0),
     (''Sealed'', Some ''sealed'', 0),
     (''Sizeof'', Some ''sizeof'', 0),
     (''Static'', Some ''static'', 0),
     (''Supports'', Some ''supports'', 0),
     (''Switch'', Some ''switch'', 0),
     (''Typedef'', Some ''typedef'', 0),
     (''TypeOf'', Some ''typeof'', 0),
     (''Var'', Some ''var'', 0),
     (''Async'', Some ''async'', 0),
     (''Await'', Some ''await'', 0),
     (''Leave'', Some ''leave'', 0),
     (''Illegal'', Some ''ILLEGAL'', 0),
     (''Whitespace'', None, 0)]"

definition TOKEN_LIST :: "(string \<times> string option \<times> int) list" where
  "TOKEN_LIST = TOKEN_LIST_operators @ TOKEN_LIST_keywords"

definition Token_NUM_TOKENS :: Token where "Token_NUM_TOKENS = length TOKEN_LIST"

definition TokenTraits_count :: nat where "TokenTraits_count = Token_NUM_TOKENS"

section \<open>Predicates\<close>

definition isElementaryTypeName :: "Token \<Rightarrow> bool" where
  "isElementaryTypeName tok \<longleftrightarrow> Token_Int \<le> tok \<and> tok < Token_TypesEnd"

definition isAssignmentOp :: "Token \<Rightarrow> bool" where
  "isAssignmentOp tok \<longleftrightarrow> Token_Assign \<le> tok \<and> tok \<le> Token_AssignMod"

definition isBinaryOp :: "Token \<Rightarrow> bool" where
  "isBinaryOp op \<longleftrightarrow> Token_Comma \<le> op \<and> op \<le> Token_Exp"

definition isCommutativeOp :: "Token \<Rightarrow> bool" where
  "isCommutativeOp op \<longleftrightarrow> op = Token_BitOr \<or> op = Token_BitXor \<or> op = Token_BitAnd \<or>
     op = Token_Add \<or> op = Token_Mul \<or> op = Token_Equal \<or> op = Token_NotEqual"

definition isArithmeticOp :: "Token \<Rightarrow> bool" where
  "isArithmeticOp op \<longleftrightarrow> Token_Add \<le> op \<and> op \<le> Token_Exp"

definition isCompareOp :: "Token \<Rightarrow> bool" where
  "isCompareOp op \<longleftrightarrow> Token_Equal \<le> op \<and> op \<le> Token_GreaterThanOrEqual"

definition isBitOp :: "Token \<Rightarrow> bool" where
  "isBitOp op \<longleftrightarrow> Token_BitOr \<le> op \<and> op \<le> Token_BitAnd \<or> op = Token_BitNot"

definition isBooleanOp :: "Token \<Rightarrow> bool" where
  "isBooleanOp op \<longleftrightarrow> Token_Or \<le> op \<and> op \<le> Token_And \<or> op = Token_Not"

definition isUnaryOp :: "Token \<Rightarrow> bool" where
  "isUnaryOp op \<longleftrightarrow> Token_Not \<le> op \<and> op \<le> Token_Delete \<or> op = Token_Add \<or> op = Token_Sub"

definition isCountOp :: "Token \<Rightarrow> bool" where
  "isCountOp op \<longleftrightarrow> op = Token_Inc \<or> op = Token_Dec"

definition isShiftOp :: "Token \<Rightarrow> bool" where
  "isShiftOp op \<longleftrightarrow> Token_SHL \<le> op \<and> op \<le> Token_SHR"

definition isVariableVisibilitySpecifier :: "Token \<Rightarrow> bool" where
  "isVariableVisibilitySpecifier op \<longleftrightarrow> op = Token_Public \<or> op = Token_Private \<or> op = Token_Internal"

definition isVisibilitySpecifier :: "Token \<Rightarrow> bool" where
  "isVisibilitySpecifier op \<longleftrightarrow> isVariableVisibilitySpecifier op \<or> op = Token_External"

definition isLocationSpecifier :: "Token \<Rightarrow> bool" where
  "isLocationSpecifier op \<longleftrightarrow> op = Token_Memory \<or> op = Token_Storage \<or> op = Token_CallData"

definition isStateMutabilitySpecifier :: "Token \<Rightarrow> bool" where
  "isStateMutabilitySpecifier op \<longleftrightarrow> op = Token_Pure \<or> op = Token_View \<or> op = Token_Payable"

definition isExecutionBehaviorSpecifier :: "Token \<Rightarrow> bool" where
  "isExecutionBehaviorSpecifier op \<longleftrightarrow> op = Token_Async"

definition isEtherSubdenomination :: "Token \<Rightarrow> bool" where
  "isEtherSubdenomination op \<longleftrightarrow> op \<ge> Token_SubWei \<and> op \<le> Token_SubEther"

definition isViteSubdenomination :: "Token \<Rightarrow> bool" where
  "isViteSubdenomination op \<longleftrightarrow> op \<ge> Token_SubAttov \<and> op \<le> Token_SubVite"

definition isTimeSubdenomination :: "Token \<Rightarrow> bool" where
  "isTimeSubdenomination op \<longleftrightarrow> op = Token_SubSecond \<or> op = Token_SubMinute \<or> op = Token_SubHour \<or>
     op = Token_SubDay \<or> op = Token_SubWeek \<or> op = Token_SubYear"

definition isReservedKeyword :: "Token \<Rightarrow> bool" where
  "isReservedKeyword op \<longleftrightarrow> Token_After \<le> op \<and> op \<le> Token_Var"

definition isYulKeyword :: "Token \<Rightarrow> bool" where
  "isYulKeyword tok \<longleftrightarrow> tok = Token_Function \<or> tok = Token_Let \<or> tok = Token_If \<or> tok = Token_Switch \<or>
     tok = Token_Case \<or> tok = Token_Default \<or> tok = Token_For \<or> tok = Token_Break \<or>
     tok = Token_Continue \<or> tok = Token_Leave \<or> tok = Token_TrueLiteral \<or> tok = Token_FalseLiteral \<or>
     tok = Token_HexStringLiteral \<or> tok = Token_Hex"

section \<open>Operators\<close>

text \<open>The distance is computed in \<open>int\<close> and cast back.\<close>

definition AssignmentToBinaryOp :: "Token \<Rightarrow> Token result" where
  "AssignmentToBinaryOp op =
     (if isAssignmentOp op \<and> op \<noteq> Token_Assign
      then Inr (nat (int op + (int Token_BitOr - int Token_AssignBitOr)))
      else Inl InternalCompilerError)"

definition precs :: "int list" where
  "precs = map (\<lambda>(name, text, precedence). precedence) TOKEN_LIST"

text \<open>Indexing the table past its end has no defined result.\<close>

definition precedence :: "Token \<Rightarrow> int result" where
  "precedence tok = (if tok < length precs then Inr (precs ! tok) else Inl UndefinedBehaviour)"

definition hasExpHighestPrecedence :: bool where
  "hasExpHighestPrecedence \<longleftrightarrow>
     (let expPrecedence = precs ! Token_Exp
      in list_all (\<lambda>(tok, name, text, p). tok = Token_Exp \<or> p < expPrecedence) (List.enumerate 0 TOKEN_LIST))"

section \<open>Elementary type names\<close>

text \<open>
  \<open>TokenTraits::toString(Token)\<close> is declared in the header and defined outside the repository: it is the
  parameter \<open>text\<close>. Building a \<open>std::string\<close> from the null pointer has no defined result.
\<close>

record ElementaryTypeNameToken =
  m_token :: Token
  m_firstNumber :: u32
  m_secondNumber :: u32

definition ElementaryTypeNameToken_toString ::
    "(Token \<Rightarrow> string option) \<Rightarrow> ElementaryTypeNameToken \<Rightarrow> bool \<Rightarrow> string result" where
  "ElementaryTypeNameToken_toString text t tokenValue =
     (case text (m_token t) of
        None \<Rightarrow> Inl UndefinedBehaviour
      | Some name \<Rightarrow>
          if tokenValue \<or> m_firstNumber t = 0 \<and> m_secondNumber t = 0 then Inr name
          else bindE (assertThrow (length name \<ge> 3) InternalCompilerError) (\<lambda>_.
            if m_token t = Token_FixedMxN \<or> m_token t = Token_UFixedMxN
            then Inr (take (length name - 3) name @ decimal (unat (m_firstNumber t)) @ ''x'' @
                      decimal (unat (m_secondNumber t)))
            else Inr (take (length name - 1) name @ decimal (unat (m_firstNumber t)))))"

section \<open>Lemmas\<close>

text \<open>The text of a token, as the list gives it.\<close>

definition token_text :: "Token \<Rightarrow> string option" where
  "token_text tok = fst (snd (TOKEN_LIST ! tok))"

lemma count_TOKEN_LIST [simp]: "TokenTraits_count = 176" "Token_NUM_TOKENS = 176" "length TOKEN_LIST = 176"
  by (simp_all add: TokenTraits_count_def Token_NUM_TOKENS_def TOKEN_LIST_def TOKEN_LIST_operators_def
      TOKEN_LIST_keywords_def)

lemma all_tokens: "list_all P [0..<176] \<Longrightarrow> tok < TokenTraits_count \<Longrightarrow> P tok"
  by (simp add: list_all_iff)

section \<open>Properties\<close>

text \<open>
  The order of the enumerators is right: \<open>AssignmentToBinaryOp\<close> rejects exactly the tokens that are
  no compound assignment, and maps a compound assignment to the binary operator whose text it extends
  by an equals sign.
\<close>

theorem AssignmentToBinaryOp_text:
  "case AssignmentToBinaryOp tok of
     Inl e \<Rightarrow> e = InternalCompilerError \<and> \<not> (isAssignmentOp tok \<and> tok \<noteq> Token_Assign)
   | Inr op \<Rightarrow> isAssignmentOp tok \<and> isBinaryOp op \<and> token_text tok = map_option (\<lambda>t. t @ ''='') (token_text op)"
proof (cases "isAssignmentOp tok")
  case True
  then have "tok \<in> set [13..<25]"
    unfolding set_upt by (simp add: isAssignmentOp_def Token_Assign_def Token_AssignMod_def)
  moreover have "list_all (\<lambda>tok. case AssignmentToBinaryOp tok of
     Inl e \<Rightarrow> e = InternalCompilerError \<and> \<not> (isAssignmentOp tok \<and> tok \<noteq> Token_Assign)
   | Inr op \<Rightarrow> isAssignmentOp tok \<and> isBinaryOp op \<and> token_text tok = map_option (\<lambda>t. t @ ''='') (token_text op))
     [13..<25]"
    by code_simp
  ultimately show ?thesis unfolding list_all_iff by blast
qed (simp add: AssignmentToBinaryOp_def)

text \<open>
  The tokens with a precedence above zero are the binary, comparison and assignment operators, the
  conditional and the assembly assignment, and no other token binds as tightly as exponentiation.
\<close>

theorem precedence_operators:
  assumes "tok < TokenTraits_count"
  shows "\<exists>p. precedence tok = Inr p \<and>
     (p > 0 \<longleftrightarrow> isBinaryOp tok \<or> isCompareOp tok \<or> isAssignmentOp tok \<or>
                tok = Token_Conditional \<or> tok = Token_AssemblyAssign) \<and>
     (tok \<noteq> Token_Exp \<longrightarrow> p < 14) \<and> precedence Token_Exp = Inr 14"
proof -
  have "list_all (\<lambda>tok. case precedence tok of Inl _ \<Rightarrow> False | Inr p \<Rightarrow>
     (p > 0 \<longleftrightarrow> isBinaryOp tok \<or> isCompareOp tok \<or> isAssignmentOp tok \<or>
                tok = Token_Conditional \<or> tok = Token_AssemblyAssign) \<and>
     (tok \<noteq> Token_Exp \<longrightarrow> p < 14)) [0..<176]"
    by code_simp
  moreover have "precedence Token_Exp = Inr 14" by code_simp
  ultimately show ?thesis using all_tokens [OF _ assms] by (fastforce split: sum.splits)
qed

theorem precedence_operators_witness:
  "\<exists>p. precedence Token_Mul = Inr p \<and>
     (p > 0 \<longleftrightarrow> isBinaryOp Token_Mul \<or> isCompareOp Token_Mul \<or> isAssignmentOp Token_Mul \<or>
                Token_Mul = Token_Conditional \<or> Token_Mul = Token_AssemblyAssign) \<and>
     (Token_Mul \<noteq> Token_Exp \<longrightarrow> p < 14) \<and> precedence Token_Exp = Inr 14"
  by (rule precedence_operators) (simp add: Token_Mul_def)

end
