(* ===== verification/Types.thy ===== *)
theory Types
  imports Complex_Main "HOL-Library.Signed_Division" FunctionSelector Token ViteAddress
begin

text \<open>
  The types of the language (\<^verbatim>\<open>libsolidity/ast/Types.h\<close>, \<^verbatim>\<open>Types.cpp\<close>): the value types, literals, contracts,
  enumerations and arrays, with equality, implicit and explicit conversion, the results of operators, and
  sizes in storage and call data. Structs, mappings, functions, tuples and the types of magic objects are left
  out; a result that is the empty tuple is the value \<open>EmptyTuple\<close> of a \<open>TypeResult\<close>. A failed \<open>solAssert\<close> is \<open>InternalCompilerError\<close>.
\<close>

section \<open>The types\<close>

datatype StateMutability = Pure | View | NonPayable | Payable

fun mutability_index :: "StateMutability \<Rightarrow> nat" where
  "mutability_index Pure = 0"
| "mutability_index View = 1"
| "mutability_index NonPayable = 2"
| "mutability_index Payable = 3"

fun stateMutabilityToString :: "StateMutability \<Rightarrow> string" where
  "stateMutabilityToString Pure = ''pure''"
| "stateMutabilityToString View = ''view''"
| "stateMutabilityToString NonPayable = ''nonpayable''"
| "stateMutabilityToString Payable = ''payable''"

datatype DataLocation = Storage | CallData | Memory

datatype IntegerModifier = Unsigned | Signed | Address_modifier | TokenId_modifier

datatype FixedModifier = FixedUnsigned | FixedSigned

datatype ArrayKind = Ordinary_array | Bytes_array | String_array

text \<open>
  Of a contract the types read its identity, names, kind, whether it has a receive function, whether its
  fallback function (if any) is payable, and its linearised base contracts (by identity); of an enumeration its identity, names and members.
\<close>

record ContractDefinition =
  contract_id :: nat
  contract_name :: string
  contract_canonicalName :: string
  contract_isLibrary :: bool
  contract_hasReceive :: bool
  contract_fallbackPayable :: "bool option"
  contract_linearizedBaseContracts :: "nat list"

record EnumDefinition =
  enum_id :: nat
  enum_name :: string
  enum_canonicalName :: string
  enum_members :: "string list"

text \<open>
  A rational number type may carry a compatible type of fixed bytes. An array has a location, a pointer flag (which counts for
  storage only), a kind, the type of its elements, and a length unless it is dynamically sized.
\<close>

datatype Type =
    AddressType StateMutability
  | ViteTokenIdType
  | IntegerType nat IntegerModifier
  | FixedPointType nat nat FixedModifier
  | RationalNumberType rat "Type option"
  | StringLiteralType string
  | FixedBytesType nat
  | BoolType
  | ContractType ContractDefinition bool
  | EnumType EnumDefinition
  | ArrayType DataLocation bool ArrayKind Type "nat option"

datatype Category =
    Category_Address | Category_Integer | Category_RationalNumber | Category_StringLiteral | Category_Bool
  | Category_FixedPoint | Category_Array | Category_FixedBytes | Category_Contract | Category_Enum | Category_ViteTokenId

fun category :: "Type \<Rightarrow> Category" where
  "category (AddressType _) = Category_Address"
| "category ViteTokenIdType = Category_ViteTokenId"
| "category (IntegerType _ _) = Category_Integer"
| "category (FixedPointType _ _ _) = Category_FixedPoint"
| "category (RationalNumberType _ _) = Category_RationalNumber"
| "category (StringLiteralType _) = Category_StringLiteral"
| "category (FixedBytesType _) = Category_FixedBytes"
| "category BoolType = Category_Bool"
| "category (ContractType _ _) = Category_Contract"
| "category (EnumType _) = Category_Enum"
| "category (ArrayType _ _ _ _ _) = Category_Array"

text \<open>What the constructors assert.\<close>

fun type_ok :: "Type \<Rightarrow> bool" where
  "type_ok (AddressType m) \<longleftrightarrow> m = Payable \<or> m = NonPayable"
| "type_ok ViteTokenIdType \<longleftrightarrow> True"
| "type_ok (IntegerType bits _) \<longleftrightarrow> 0 < bits \<and> bits \<le> 256 \<and> bits mod 8 = 0"
| "type_ok (FixedPointType bits digits _) \<longleftrightarrow> 8 \<le> bits \<and> bits \<le> 256 \<and> bits mod 8 = 0 \<and> digits \<le> 80"
| "type_ok (RationalNumberType _ b) \<longleftrightarrow> (case b of None \<Rightarrow> True | Some t \<Rightarrow> (case t of FixedBytesType n \<Rightarrow> 0 < n \<and> n \<le> 32 | _ \<Rightarrow> False))"
| "type_ok (StringLiteralType _) \<longleftrightarrow> True"
| "type_ok (FixedBytesType n) \<longleftrightarrow> 0 < n \<and> n \<le> 32"
| "type_ok BoolType \<longleftrightarrow> True"
| "type_ok (ContractType _ _) \<longleftrightarrow> True"
| "type_ok (EnumType _) \<longleftrightarrow> True"
| "type_ok (ArrayType _ _ _ base _) \<longleftrightarrow> type_ok base"

text \<open>
  The results of queries: a truth value or a type, with a message for the user when it is refused.
\<close>

text \<open>
  Functions from outside the repository: the printing of a number, the validation of UTF-8 (which returns the
  position of an invalid sequence), the reading of a big number (which may throw), the check of precision, and
  the evaluation of operators on constants.
\<close>

record TypesExternal =
  ty_toString :: "nat \<Rightarrow> string"
  ty_validateUTF8 :: "string \<Rightarrow> nat option"
  ty_bigint :: "string \<Rightarrow> int option"
  ty_fitsPrecisionBaseX :: "int \<Rightarrow> rat \<Rightarrow> nat \<Rightarrow> bool"
  ty_evaluateUnaryOperator :: "Token \<Rightarrow> rat \<Rightarrow> rat option"
  ty_evaluateBinaryOperator :: "Token \<Rightarrow> rat \<Rightarrow> rat \<Rightarrow> rat option"

datatype BoolResult = BoolOk bool | BoolErr string

fun holds :: "BoolResult \<Rightarrow> bool" where
  "holds (BoolOk b) = b"
| "holds (BoolErr _) = False"

datatype TypeResult = TypeOk Type | EmptyTuple | NoType string

section \<open>Integers and fixed point numbers\<close>

definition IntegerType_minValue :: "nat \<Rightarrow> bool \<Rightarrow> int" where
  "IntegerType_minValue bits isSigned = (if isSigned then - (2 ^ (bits - 1)) else 0)"

definition IntegerType_maxValue :: "nat \<Rightarrow> bool \<Rightarrow> int" where
  "IntegerType_maxValue bits isSigned = (if isSigned then 2 ^ (bits - 1) - 1 else 2 ^ bits - 1)"

definition IntegerType_min :: "nat \<Rightarrow> bool \<Rightarrow> u256" where
  "IntegerType_min bits isSigned = word_of_int (IntegerType_minValue bits isSigned)"

definition IntegerType_max :: "nat \<Rightarrow> bool \<Rightarrow> u256" where
  "IntegerType_max bits isSigned = word_of_int (IntegerType_maxValue bits isSigned)"

definition FixedPointType_maxIntegerValue :: "nat \<Rightarrow> nat \<Rightarrow> bool \<Rightarrow> int" where
  "FixedPointType_maxIntegerValue totalBits fractionalDigits isSigned =
     (2 ^ (totalBits - (if isSigned then 1 else 0)) - 1) sdiv 10 ^ fractionalDigits"

definition FixedPointType_minIntegerValue :: "nat \<Rightarrow> nat \<Rightarrow> bool \<Rightarrow> int" where
  "FixedPointType_minIntegerValue totalBits fractionalDigits isSigned =
     (if isSigned then (- (2 ^ (totalBits - 1))) sdiv 10 ^ fractionalDigits else 0)"

definition IntegerType_toString :: "TypesExternal \<Rightarrow> nat \<Rightarrow> bool \<Rightarrow> string" where
  "IntegerType_toString ext bits isSigned = (if isSigned then ''int'' else ''uint'') @ ty_toString ext bits"

definition fitsIntegerType :: "TypesExternal \<Rightarrow> int \<Rightarrow> nat \<Rightarrow> bool \<Rightarrow> BoolResult" where
  "fitsIntegerType ext value bits isSigned =
     (if value < 0 \<and> \<not> isSigned then BoolErr ''Cannot implicitly convert signed literal to unsigned type.''
      else if IntegerType_minValue bits isSigned > value \<or> value > IntegerType_maxValue bits isSigned
      then BoolErr (''Literal is too large to fit in '' @ IntegerType_toString ext bits isSigned @ ''.'')
      else BoolOk True)"

definition fitsIntoBits :: "TypesExternal \<Rightarrow> int \<Rightarrow> nat \<Rightarrow> bool \<Rightarrow> bool" where
  "fitsIntoBits ext value bits isSigned = holds (fitsIntegerType ext value bits isSigned)"

section \<open>Rational numbers\<close>

definition numerator :: "rat \<Rightarrow> int" where
  "numerator r = fst (quotient_of r)"

definition denominator :: "rat \<Rightarrow> int" where
  "denominator r = snd (quotient_of r)"

definition isFractional :: "rat \<Rightarrow> bool" where
  "isFractional r \<longleftrightarrow> denominator r \<noteq> 1"

definition isNegative :: "rat \<Rightarrow> bool" where
  "isNegative r \<longleftrightarrow> r < 0"

text \<open>
  \<open>integerType\<close> asserts that the number is not fractional; \<open>Inr None\<close> is a null pointer.
\<close>

definition RationalNumberType_integerType :: "rat \<Rightarrow> Type option result" where
  "RationalNumberType_integerType r =
     bindE (assertThrow (\<not> isFractional r) InternalCompilerError) (\<lambda>_.
       let negative = numerator r < 0;
           value = (if negative then ((0 - numerator r) - 1) * 2 else numerator r)
       in Inr (if value > 2 ^ 256 - 1 then None
               else Some (IntegerType (max (bytesRequired (nat value)) 1 * 8) (if negative then Signed else Unsigned))))"

text \<open>The loop scales the value until it is integral, at most eighty times.\<close>

function fixedPoint_loop :: "rat \<Rightarrow> rat \<Rightarrow> nat \<Rightarrow> rat \<times> nat" where
  "fixedPoint_loop maxValue value fractionalDigits =
     (if value * 10 \<le> maxValue \<and> denominator value \<noteq> 1 \<and> fractionalDigits < 80
      then fixedPoint_loop maxValue (value * 10) (fractionalDigits + 1)
      else (value, fractionalDigits))"
  by pat_completeness auto

termination
  by (relation "measure (\<lambda>(m, v, d). 80 - d)") auto

declare fixedPoint_loop.simps [simp del]

definition RationalNumberType_fixedPointType :: "rat \<Rightarrow> Type option result" where
  "RationalNumberType_fixedPointType r =
     (let negative = r < 0;
          maxValue = (if negative then 2 ^ 255 else 2 ^ 256 - 1);
          (value, fractionalDigits) = fixedPoint_loop maxValue \<bar>r\<bar> 0
      in if value > maxValue then Inr None
         else
           let v = numerator value sdiv denominator value;
               v = (if negative \<and> v \<noteq> 0 then (v - 1) * 2 else v)
           in if v > 2 ^ 256 - 1 then Inr None
              else
                let totalBits = max (bytesRequired (nat v)) 1 * 8
                in bindE (assertThrow (totalBits \<le> 256) InternalCompilerError) (\<lambda>_.
                     Inr (Some (FixedPointType totalBits fractionalDigits (if negative then FixedSigned else FixedUnsigned)))))"

definition RationalNumberType_mobileType :: "rat \<Rightarrow> Type option result" where
  "RationalNumberType_mobileType r =
     (if \<not> isFractional r then RationalNumberType_integerType r else RationalNumberType_fixedPointType r)"

section \<open>Equality and locations\<close>

definition array_isPointer :: "DataLocation \<Rightarrow> bool \<Rightarrow> bool" where
  "array_isPointer location isPointer = (if location = Storage then isPointer else True)"

fun Type_eq :: "Type \<Rightarrow> Type \<Rightarrow> bool" where
  "Type_eq (AddressType m) other = (case other of AddressType m' \<Rightarrow> m' = m | _ \<Rightarrow> False)"
| "Type_eq ViteTokenIdType other = (category other = Category_ViteTokenId)"
| "Type_eq (IntegerType b m) other = (case other of IntegerType b' m' \<Rightarrow> b' = b \<and> m' = m | _ \<Rightarrow> False)"
| "Type_eq (FixedPointType b d m) other =
     (case other of FixedPointType b' d' m' \<Rightarrow> b' = b \<and> d' = d \<and> m' = m | _ \<Rightarrow> False)"
| "Type_eq (RationalNumberType v c) other = (case other of RationalNumberType v' c' \<Rightarrow> v = v' | _ \<Rightarrow> False)"
| "Type_eq (StringLiteralType s) other = (case other of StringLiteralType s' \<Rightarrow> s = s' | _ \<Rightarrow> False)"
| "Type_eq (FixedBytesType n) other = (case other of FixedBytesType n' \<Rightarrow> n' = n | _ \<Rightarrow> False)"
| "Type_eq BoolType other = (category other = Category_Bool)"
| "Type_eq (ContractType c s) other =
     (case other of ContractType c' s' \<Rightarrow> contract_id c' = contract_id c \<and> s' = s | _ \<Rightarrow> False)"
| "Type_eq (EnumType d) other = (case other of EnumType d' \<Rightarrow> enum_id d' = enum_id d | _ \<Rightarrow> False)"
| "Type_eq (ArrayType loc ptr kind base len) other =
     (case other of
        ArrayType loc' ptr' kind' base' len' \<Rightarrow>
          loc' = loc \<and> array_isPointer loc' ptr' = array_isPointer loc ptr \<and> kind' = kind \<and>
          (len' = None \<longleftrightarrow> len = None) \<and> Type_eq base base' \<and> (len = None \<or> len = len')
      | _ \<Rightarrow> False)"

text \<open>\<open>withLocationIfReference\<close>; the elements of a copy move to the new location too.\<close>

fun withLocationIfReference :: "DataLocation \<Rightarrow> bool \<Rightarrow> Type \<Rightarrow> Type" where
  "withLocationIfReference location isPointer (ArrayType loc ptr kind base len) =
     (if loc = location \<and> array_isPointer loc ptr = isPointer then ArrayType loc ptr kind base len
      else ArrayType location (if location = Storage then isPointer else True) kind
             (withLocationIfReference location False base) len)"
| "withLocationIfReference location isPointer t = t"

section \<open>Implicit conversion\<close>

definition AddressType_isImplicitlyConvertibleTo :: "StateMutability \<Rightarrow> Type \<Rightarrow> BoolResult" where
  "AddressType_isImplicitlyConvertibleTo m other =
     BoolOk (case other of AddressType m' \<Rightarrow> mutability_index m' \<le> mutability_index m | _ \<Rightarrow> False)"

definition IntegerType_isImplicitlyConvertibleTo :: "nat \<Rightarrow> bool \<Rightarrow> Type \<Rightarrow> BoolResult" where
  "IntegerType_isImplicitlyConvertibleTo bits isSigned convertTo =
     BoolOk (case convertTo of
        IntegerType bits' m' \<Rightarrow>
          (if isSigned \<noteq> (m' = Signed) then False else if bits' < bits then False else True)
      | FixedPointType bits' digits' m' \<Rightarrow>
          IntegerType_maxValue bits isSigned \<le> FixedPointType_maxIntegerValue bits' digits' (m' = FixedSigned) \<and>
          IntegerType_minValue bits isSigned \<ge> FixedPointType_minIntegerValue bits' digits' (m' = FixedSigned)
      | _ \<Rightarrow> False)"

definition FixedPointType_isImplicitlyConvertibleTo :: "nat \<Rightarrow> nat \<Rightarrow> bool \<Rightarrow> Type \<Rightarrow> BoolResult" where
  "FixedPointType_isImplicitlyConvertibleTo totalBits fractionalDigits isSigned convertTo =
     (case convertTo of
        FixedPointType bits' digits' m' \<Rightarrow>
          (if digits' < fractionalDigits then BoolErr ''Too many fractional digits.''
           else if bits' < totalBits then BoolOk False
           else BoolOk (FixedPointType_maxIntegerValue bits' digits' (m' = FixedSigned) \<ge>
                          FixedPointType_maxIntegerValue totalBits fractionalDigits isSigned \<and>
                        FixedPointType_minIntegerValue bits' digits' (m' = FixedSigned) \<le>
                          FixedPointType_minIntegerValue totalBits fractionalDigits isSigned))
      | _ \<Rightarrow> BoolOk False)"

definition RationalNumberType_isImplicitlyConvertibleTo :: "TypesExternal \<Rightarrow> rat \<Rightarrow> Type option \<Rightarrow> Type \<Rightarrow> BoolResult" where
  "RationalNumberType_isImplicitlyConvertibleTo ext value compatibleBytesType convertTo =
     (case convertTo of
        IntegerType bits m \<Rightarrow>
          (if isFractional value then BoolOk False else fitsIntegerType ext (numerator value) bits (m = Signed))
      | FixedPointType bits digits m \<Rightarrow>
          (if isNegative value \<and> m \<noteq> FixedSigned then BoolOk False
           else if \<not> isFractional value then
             BoolOk (of_int (FixedPointType_minIntegerValue bits digits (m = FixedSigned)) \<le> value \<and>
                     value \<le> of_int (FixedPointType_maxIntegerValue bits digits (m = FixedSigned)))
           else
             let v = value * 10 ^ digits in
             if denominator v \<noteq> 1 then BoolOk False
             else BoolOk (fitsIntoBits ext (numerator v) bits (m = FixedSigned)))
      | FixedBytesType n \<Rightarrow>
          BoolOk (value = 0 \<or> (case compatibleBytesType of None \<Rightarrow> False | Some t \<Rightarrow> Type_eq t convertTo))
      | _ \<Rightarrow> BoolOk False)"

definition StringLiteralType_isImplicitlyConvertibleTo :: "TypesExternal \<Rightarrow> string \<Rightarrow> Type \<Rightarrow> BoolResult" where
  "StringLiteralType_isImplicitlyConvertibleTo ext value convertTo =
     (case convertTo of
        FixedBytesType n \<Rightarrow>
          (if n < length value then BoolErr ''Literal is larger than the type.'' else BoolOk True)
      | ArrayType loc ptr kind base len \<Rightarrow>
          (case (if kind = String_array then ty_validateUTF8 ext value else None) of
             Some invalidSequence \<Rightarrow>
               BoolErr (''Contains invalid UTF-8 sequence at position '' @ ty_toString ext invalidSequence @ ''.'')
           | None \<Rightarrow>
               BoolOk (loc \<noteq> CallData \<and> kind \<noteq> Ordinary_array \<and> \<not> (loc = Storage \<and> array_isPointer loc ptr)))
      | _ \<Rightarrow> BoolOk False)"

definition ContractType_isImplicitlyConvertibleTo :: "ContractDefinition \<Rightarrow> bool \<Rightarrow> Type \<Rightarrow> BoolResult" where
  "ContractType_isImplicitlyConvertibleTo c super convertTo =
     (if super then BoolOk False
      else if Type_eq (ContractType c super) convertTo then BoolOk True
      else
        case convertTo of
          ContractType c' super' \<Rightarrow>
            (if super' then BoolOk False else BoolOk (contract_id c' \<in> set (contract_linearizedBaseContracts c)))
        | _ \<Rightarrow> BoolOk False)"

fun isImplicitlyConvertibleTo :: "TypesExternal \<Rightarrow> Type \<Rightarrow> Type \<Rightarrow> BoolResult" where
  "isImplicitlyConvertibleTo ext (AddressType m) convertTo = AddressType_isImplicitlyConvertibleTo m convertTo"
| "isImplicitlyConvertibleTo ext (IntegerType bits m) convertTo = IntegerType_isImplicitlyConvertibleTo bits (m = Signed) convertTo"
| "isImplicitlyConvertibleTo ext (FixedPointType bits digits m) convertTo =
     FixedPointType_isImplicitlyConvertibleTo bits digits (m = FixedSigned) convertTo"
| "isImplicitlyConvertibleTo ext (RationalNumberType v b) convertTo = RationalNumberType_isImplicitlyConvertibleTo ext v b convertTo"
| "isImplicitlyConvertibleTo ext (StringLiteralType s) convertTo = StringLiteralType_isImplicitlyConvertibleTo ext s convertTo"
| "isImplicitlyConvertibleTo ext (FixedBytesType n) convertTo =
     BoolOk (case convertTo of FixedBytesType n' \<Rightarrow> n \<le> n' | _ \<Rightarrow> False)"
| "isImplicitlyConvertibleTo ext (ContractType c super) convertTo = ContractType_isImplicitlyConvertibleTo c super convertTo"
| "isImplicitlyConvertibleTo ext (ArrayType loc ptr kind base len) convertTo =
     BoolOk (case convertTo of
        ArrayType loc' ptr' kind' base' len' \<Rightarrow>
          (if (kind' \<noteq> Ordinary_array) \<noteq> (kind \<noteq> Ordinary_array) \<or> (kind' = String_array) \<noteq> (kind = String_array) then False
           else if loc' = Storage \<and> loc \<noteq> Storage \<and> array_isPointer loc' ptr' then False
           else if loc' = CallData \<and> loc \<noteq> loc' then False
           else if loc' = Storage \<and> \<not> array_isPointer loc' ptr' then
             (if \<not> holds (isImplicitlyConvertibleTo ext base base') then False
              else case len' of None \<Rightarrow> True | Some n' \<Rightarrow> (case len of None \<Rightarrow> False | Some n \<Rightarrow> n \<le> n'))
           else
             (if \<not> Type_eq (withLocationIfReference loc False base) (withLocationIfReference loc False base') then False
              else if (len = None) \<noteq> (len' = None) then False
              else if len \<noteq> None \<and> len \<noteq> len' then False
              else True))
      | _ \<Rightarrow> False)"
| "isImplicitlyConvertibleTo ext t convertTo = BoolOk (Type_eq t convertTo)"

section \<open>Explicit conversion\<close>

definition ContractType_isPayable :: "ContractDefinition \<Rightarrow> bool" where
  "ContractType_isPayable c \<longleftrightarrow>
     contract_hasReceive c \<or> (case contract_fallbackPayable c of None \<Rightarrow> False | Some p \<Rightarrow> p)"

definition AddressType_isExplicitlyConvertibleTo :: "StateMutability \<Rightarrow> Type \<Rightarrow> bool" where
  "AddressType_isExplicitlyConvertibleTo m convertTo =
     (if category convertTo = Category_Address \<or> holds (AddressType_isImplicitlyConvertibleTo m convertTo) then True
      else
        case convertTo of
          ContractType c super \<Rightarrow> mutability_index m \<ge> mutability_index Payable \<or> \<not> ContractType_isPayable c
        | IntegerType bits i \<Rightarrow> m = NonPayable \<and> i \<noteq> Signed \<and> bits = 168
        | FixedBytesType n \<Rightarrow> m = NonPayable \<and> n = 21
        | _ \<Rightarrow> False)"

definition IntegerType_isExplicitlyConvertibleTo :: "nat \<Rightarrow> bool \<Rightarrow> Type \<Rightarrow> bool" where
  "IntegerType_isExplicitlyConvertibleTo bits isSigned convertTo =
     (if holds (IntegerType_isImplicitlyConvertibleTo bits isSigned convertTo) then True
      else
        case convertTo of
          IntegerType bits' m' \<Rightarrow> bits = bits' \<or> isSigned = (m' = Signed)
        | AddressType m \<Rightarrow> m \<noteq> Payable \<and> \<not> isSigned \<and> bits = 168
        | FixedBytesType n \<Rightarrow> \<not> isSigned \<and> bits = n * 8
        | EnumType d \<Rightarrow> True
        | FixedPointType bits' digits' m' \<Rightarrow> isSigned = (m' = FixedSigned) \<and> bits = bits'
        | _ \<Rightarrow> False)"

definition FixedPointType_isExplicitlyConvertibleTo :: "Type \<Rightarrow> bool" where
  "FixedPointType_isExplicitlyConvertibleTo convertTo \<longleftrightarrow>
     category convertTo = Category_FixedPoint \<or> category convertTo = Category_Integer"

definition RationalNumberType_isExplicitlyConvertibleTo :: "TypesExternal \<Rightarrow> rat \<Rightarrow> Type option \<Rightarrow> Type \<Rightarrow> bool result" where
  "RationalNumberType_isExplicitlyConvertibleTo ext value compatibleBytesType convertTo =
     (let viaMobileType =
            bindE (RationalNumberType_mobileType value) (\<lambda>mobType.
              Inr (case mobType of
                     Some (IntegerType bits m) \<Rightarrow> IntegerType_isExplicitlyConvertibleTo bits (m = Signed) convertTo
                   | Some (FixedPointType bits digits m) \<Rightarrow> FixedPointType_isExplicitlyConvertibleTo convertTo
                   | _ \<Rightarrow> False))
      in
      if holds (RationalNumberType_isImplicitlyConvertibleTo ext value compatibleBytesType convertTo) then Inr True
      else
        case convertTo of
          FixedBytesType n \<Rightarrow> Inr False
        | AddressType m \<Rightarrow>
            (if value = 0 then Inr True
             else if m = Payable \<or> isNegative value \<or> isFractional value then Inr False
             else bindE (RationalNumberType_integerType value) (\<lambda>i.
                    Inr (case i of Some (IntegerType bits m') \<Rightarrow> bits \<le> 168 | _ \<Rightarrow> False)))
        | IntegerType bits m \<Rightarrow> Inr False
        | EnumType d \<Rightarrow>
            (if isNegative value \<or> isFractional value \<or> value \<ge> of_nat (length (enum_members d)) then Inr False else viaMobileType)
        | _ \<Rightarrow> viaMobileType)"

fun isExplicitlyConvertibleTo :: "TypesExternal \<Rightarrow> Type \<Rightarrow> Type \<Rightarrow> bool result" where
  "isExplicitlyConvertibleTo ext (AddressType m) convertTo = Inr (AddressType_isExplicitlyConvertibleTo m convertTo)"
| "isExplicitlyConvertibleTo ext (IntegerType bits m) convertTo = Inr (IntegerType_isExplicitlyConvertibleTo bits (m = Signed) convertTo)"
| "isExplicitlyConvertibleTo ext (FixedPointType bits digits m) convertTo = Inr (FixedPointType_isExplicitlyConvertibleTo convertTo)"
| "isExplicitlyConvertibleTo ext (RationalNumberType v b) convertTo = RationalNumberType_isExplicitlyConvertibleTo ext v b convertTo"
| "isExplicitlyConvertibleTo ext (FixedBytesType n) convertTo =
     Inr (case convertTo of
        FixedBytesType n' \<Rightarrow> True
      | IntegerType bits m \<Rightarrow> m \<noteq> Signed \<and> bits = n * 8
      | AddressType m \<Rightarrow> m \<noteq> Payable \<and> n = 21
      | FixedPointType bits digits m \<Rightarrow> bits = n * 8
      | _ \<Rightarrow> False)"
| "isExplicitlyConvertibleTo ext (ContractType c super) convertTo =
     Inr (if super then False
          else case convertTo of
                 AddressType m \<Rightarrow> ContractType_isPayable c \<or> mutability_index m < mutability_index Payable
               | _ \<Rightarrow> holds (ContractType_isImplicitlyConvertibleTo c super convertTo))"
| "isExplicitlyConvertibleTo ext (EnumType d) convertTo =
     Inr (if Type_eq convertTo (EnumType d) then True
          else case convertTo of IntegerType bits m \<Rightarrow> m \<noteq> Signed | _ \<Rightarrow> False)"
| "isExplicitlyConvertibleTo ext (ArrayType loc ptr kind base len) convertTo =
     Inr (if holds (isImplicitlyConvertibleTo ext (ArrayType loc ptr kind base len) convertTo) then True
          else case convertTo of
                 ArrayType loc' ptr' kind' base' len' \<Rightarrow>
                   (if loc' \<noteq> loc then False
                    else if kind = Ordinary_array \<or> kind' = Ordinary_array then False
                    else True)
               | _ \<Rightarrow> False)"
| "isExplicitlyConvertibleTo ext t convertTo = Inr (holds (isImplicitlyConvertibleTo ext t convertTo))"

section \<open>Common types and operators\<close>

definition stringMemory :: Type where
  "stringMemory = ArrayType Memory True String_array (FixedBytesType 1) None"

text \<open>The type of a literal moves to a type that can be stored; \<open>Inr None\<close> is a null pointer.\<close>

fun mobileType :: "Type \<Rightarrow> Type option result" where
  "mobileType (RationalNumberType v b) = RationalNumberType_mobileType v"
| "mobileType (StringLiteralType s) = Inr (Some stringMemory)"
| "mobileType (ArrayType loc ptr kind base len) = Inr (Some (withLocationIfReference loc True (ArrayType loc ptr kind base len)))"
| "mobileType t = Inr (Some t)"

definition commonType :: "TypesExternal \<Rightarrow> Type \<Rightarrow> Type \<Rightarrow> Type option result" where
  "commonType ext a b =
     bindE (mobileType a) (\<lambda>ma.
     bindE (mobileType b) (\<lambda>mb.
       Inr (case ma of
              Some t \<Rightarrow>
                (if holds (isImplicitlyConvertibleTo ext b t) then Some t
                 else (case mb of
                         Some u \<Rightarrow> if holds (isImplicitlyConvertibleTo ext a u) then Some u else None
                       | None \<Rightarrow> None))
            | None \<Rightarrow>
                (case mb of
                   Some u \<Rightarrow> if holds (isImplicitlyConvertibleTo ext a u) then Some u else None
                 | None \<Rightarrow> None))))"

definition isValidShiftAndAmountType :: "Token \<Rightarrow> Type \<Rightarrow> bool result" where
  "isValidShiftAndAmountType op shiftAmountType =
     (if op = Token_SHR then Inr False
      else
        case shiftAmountType of
          IntegerType bits m \<Rightarrow> Inr (m \<noteq> Signed)
        | RationalNumberType v b \<Rightarrow>
            (if isFractional v then Inr False
             else bindE (RationalNumberType_integerType v) (\<lambda>i.
                    Inr (case i of Some (IntegerType bits m) \<Rightarrow> m \<noteq> Signed | _ \<Rightarrow> False)))
        | _ \<Rightarrow> Inr False)"

definition IntegerType_unaryOperatorResult :: "nat \<Rightarrow> IntegerModifier \<Rightarrow> Token \<Rightarrow> TypeResult" where
  "IntegerType_unaryOperatorResult bits m op =
     (if op = Token_Delete then EmptyTuple
      else if op = Token_Sub then
        (if m = Signed then TypeOk (IntegerType bits m)
         else NoType ''Unary negation is only allowed for signed integers.'')
      else if op = Token_Inc \<or> op = Token_Dec \<or> op = Token_BitNot then TypeOk (IntegerType bits m)
      else NoType '''')"

text \<open>\<open>delete\<close> on references: not in call data and not through a storage pointer.\<close>

definition ReferenceType_unaryOperatorResult :: "DataLocation \<Rightarrow> bool \<Rightarrow> Token \<Rightarrow> TypeResult" where
  "ReferenceType_unaryOperatorResult loc ptr op =
     (if op \<noteq> Token_Delete then NoType ''''
      else
        case loc of
          CallData \<Rightarrow> NoType ''''
        | Memory \<Rightarrow> EmptyTuple
        | Storage \<Rightarrow> if array_isPointer loc ptr then NoType '''' else EmptyTuple)"

fun unaryOperatorResult :: "TypesExternal \<Rightarrow> Type \<Rightarrow> Token \<Rightarrow> TypeResult" where
  "unaryOperatorResult ext (AddressType m) op = (if op = Token_Delete then EmptyTuple else NoType '''')"
| "unaryOperatorResult ext ViteTokenIdType op = NoType ''''"
| "unaryOperatorResult ext (IntegerType bits m) op = IntegerType_unaryOperatorResult bits m op"
| "unaryOperatorResult ext (FixedPointType bits digits m) op =
     (if op = Token_Delete then EmptyTuple
      else if op = Token_Add \<or> op = Token_Sub \<or> op = Token_Inc \<or> op = Token_Dec then TypeOk (FixedPointType bits digits m)
      else NoType '''')"
| "unaryOperatorResult ext (RationalNumberType v b) op =
     (case ty_evaluateUnaryOperator ext op v of
        Some value \<Rightarrow> TypeOk (RationalNumberType value None)
      | None \<Rightarrow> NoType '''')"
| "unaryOperatorResult ext (StringLiteralType s) op = NoType ''''"
| "unaryOperatorResult ext (FixedBytesType n) op =
     (if op = Token_Delete then EmptyTuple else if op = Token_BitNot then TypeOk (FixedBytesType n) else NoType '''')"
| "unaryOperatorResult ext BoolType op =
     (if op = Token_Delete then EmptyTuple else if op = Token_Not then TypeOk BoolType else NoType '''')"
| "unaryOperatorResult ext (ContractType c super) op =
     (if super then NoType '''' else if op = Token_Delete then EmptyTuple else NoType '''')"
| "unaryOperatorResult ext (EnumType d) op = (if op = Token_Delete then EmptyTuple else NoType '''')"
| "unaryOperatorResult ext (ArrayType loc ptr kind base len) op = ReferenceType_unaryOperatorResult loc ptr op"

definition ofTypePointer :: "Type option \<Rightarrow> TypeResult" where
  "ofTypePointer t = (case t of None \<Rightarrow> NoType '''' | Some t \<Rightarrow> TypeOk t)"

definition IntegerType_binaryOperatorResult :: "TypesExternal \<Rightarrow> nat \<Rightarrow> IntegerModifier \<Rightarrow> Token \<Rightarrow> Type \<Rightarrow> TypeResult result" where
  "IntegerType_binaryOperatorResult ext bits m op other =
     (if category other \<noteq> Category_RationalNumber \<and> category other \<noteq> Category_FixedPoint \<and> category other \<noteq> Category_Integer
      then Inr (NoType '''')
      else if isShiftOp op then
        bindE (isValidShiftAndAmountType op other) (\<lambda>ok. Inr (if ok then TypeOk (IntegerType bits m) else NoType ''''))
      else if op = Token_Exp then
        (case other of
           IntegerType bits' m' \<Rightarrow>
             Inr (if m' = Signed then NoType ''Exponentiation power is not allowed to be a signed integer type.''
                  else TypeOk (IntegerType bits m))
         | FixedPointType bits' digits' m' \<Rightarrow> Inr (NoType '''')
         | RationalNumberType v b \<Rightarrow>
             (if isFractional v then Inr (NoType ''Exponent is fractional.'')
              else bindE (RationalNumberType_integerType v) (\<lambda>i.
                     Inr (if i = None then NoType ''Exponent too large.''
                          else if isNegative v
                          then NoType ''Exponentiation power is not allowed to be a negative integer literal.''
                          else TypeOk (IntegerType bits m))))
         | _ \<Rightarrow> Inr (TypeOk (IntegerType bits m)))
      else
        bindE (commonType ext (IntegerType bits m) other) (\<lambda>common.
          Inr (case common of
                 None \<Rightarrow> NoType ''''
               | Some t \<Rightarrow>
                   if isCompareOp op then TypeOk t else if isBooleanOp op then NoType '''' else TypeOk t)))"

definition FixedPointType_binaryOperatorResult :: "TypesExternal \<Rightarrow> nat \<Rightarrow> nat \<Rightarrow> FixedModifier \<Rightarrow> Token \<Rightarrow> Type \<Rightarrow> TypeResult result" where
  "FixedPointType_binaryOperatorResult ext bits digits m op other =
     bindE (commonType ext (FixedPointType bits digits m) other) (\<lambda>common.
       Inr (case common of
              None \<Rightarrow> NoType ''''
            | Some t \<Rightarrow>
                if isCompareOp op then TypeOk t
                else if isBitOp op \<or> isBooleanOp op \<or> op = Token_Exp then NoType ''''
                else TypeOk t))"

fun msb :: "nat \<Rightarrow> nat" where
  "msb n = (if n < 2 then 0 else 1 + msb (n div 2))"

declare msb.simps [simp del]

definition int256 :: Type where
  "int256 = IntegerType 256 Signed"

definition uint256 :: Type where
  "uint256 = IntegerType 256 Unsigned"

text \<open>The operators of integer and fixed point types, to which rational numbers are converted.\<close>

definition mobile_binaryOperatorResult :: "TypesExternal \<Rightarrow> Type \<Rightarrow> Token \<Rightarrow> Type \<Rightarrow> TypeResult result" where
  "mobile_binaryOperatorResult ext t op other =
     (case t of
        IntegerType bits m \<Rightarrow> IntegerType_binaryOperatorResult ext bits m op other
      | FixedPointType bits digits m \<Rightarrow> FixedPointType_binaryOperatorResult ext bits digits m op other
      | _ \<Rightarrow> Inr (NoType ''''))"

definition RationalNumberType_binaryOperatorResult :: "TypesExternal \<Rightarrow> rat \<Rightarrow> Type option \<Rightarrow> Token \<Rightarrow> Type \<Rightarrow> TypeResult result" where
  "RationalNumberType_binaryOperatorResult ext value b op other =
     (if category other = Category_Integer \<or> category other = Category_FixedPoint then
        (if isFractional value then Inr (NoType ''Fractional literals not supported.'')
         else bindE (RationalNumberType_integerType value) (\<lambda>i.
           if i = None then Inr (NoType ''Literal too large.'')
           else if isShiftOp op then
             bindE (isValidShiftAndAmountType op other) (\<lambda>ok.
               Inr (if \<not> ok then NoType '''' else TypeOk (if isNegative value then int256 else uint256)))
           else if op = Token_Exp then
             Inr (case other of
                    IntegerType bits m \<Rightarrow>
                      if m = Signed then NoType ''Exponentiation power is not allowed to be a signed integer type.''
                      else TypeOk (if isNegative value then int256 else uint256)
                  | FixedPointType bits digits m \<Rightarrow> NoType ''Exponent is fractional.''
                  | _ \<Rightarrow> TypeOk (if isNegative value then int256 else uint256))
           else
             bindE (commonType ext (RationalNumberType value b) other) (\<lambda>common.
               case common of
                 None \<Rightarrow> Inr (NoType '''')
               | Some t \<Rightarrow> mobile_binaryOperatorResult ext t op other)))
      else
        case other of
          RationalNumberType value' b' \<Rightarrow>
            (if isCompareOp op then
               bindE (RationalNumberType_mobileType value) (\<lambda>thisMobile.
               bindE (RationalNumberType_mobileType value') (\<lambda>otherMobile.
                 case thisMobile of
                   None \<Rightarrow> Inr (NoType '''')
                 | Some t \<Rightarrow>
                     (case otherMobile of
                        None \<Rightarrow> Inr (NoType '''')
                      | Some u \<Rightarrow> mobile_binaryOperatorResult ext t op u)))
             else
               Inr (case ty_evaluateBinaryOperator ext op value value' of
                      Some v \<Rightarrow>
                        if numerator v \<noteq> 0 \<and> max (msb (nat \<bar>numerator v\<bar>)) (msb (nat \<bar>denominator v\<bar>)) > 4096
                        then NoType ''Precision of rational constants is limited to 4096 bits.''
                        else TypeOk (RationalNumberType v None)
                    | None \<Rightarrow> NoType ''''))
        | _ \<Rightarrow> Inr (NoType ''''))"

definition binaryOperatorResult :: "TypesExternal \<Rightarrow> Type \<Rightarrow> Token \<Rightarrow> Type \<Rightarrow> TypeResult result" where
  "binaryOperatorResult ext t op other =
     (case t of
        AddressType m \<Rightarrow>
          (if \<not> isCompareOp op
           then Inr (NoType ''Arithmetic operations on addresses are not supported. Convert to integer first before using them.'')
           else bindE (commonType ext t other) (\<lambda>c. Inr (ofTypePointer c)))
      | IntegerType bits m \<Rightarrow> IntegerType_binaryOperatorResult ext bits m op other
      | FixedPointType bits digits m \<Rightarrow> FixedPointType_binaryOperatorResult ext bits digits m op other
      | RationalNumberType v b \<Rightarrow> RationalNumberType_binaryOperatorResult ext v b op other
      | StringLiteralType s \<Rightarrow> Inr (NoType '''')
      | FixedBytesType n \<Rightarrow>
          (if isShiftOp op then
             bindE (isValidShiftAndAmountType op other) (\<lambda>ok. Inr (if ok then TypeOk t else NoType ''''))
           else
             bindE (commonType ext t other) (\<lambda>c.
               Inr (case c of
                      Some (FixedBytesType n') \<Rightarrow> if isCompareOp op \<or> isBitOp op then TypeOk (FixedBytesType n') else NoType ''''
                    | _ \<Rightarrow> NoType '''')))
      | BoolType \<Rightarrow>
          Inr (if category other \<noteq> Category_Bool then NoType ''''
               else if op = Token_Equal \<or> op = Token_NotEqual \<or> op = Token_And \<or> op = Token_Or then TypeOk other
               else NoType '''')
      | ArrayType loc ptr kind base len \<Rightarrow> Inr (NoType '''')
      | _ \<Rightarrow> if isCompareOp op then bindE (commonType ext t other) (\<lambda>c. Inr (ofTypePointer c)) else Inr (NoType ''''))"

section \<open>Sizes\<close>

definition EnumType_numberOfMembers :: "EnumDefinition \<Rightarrow> nat" where
  "EnumType_numberOfMembers d = length (enum_members d)"

fun isDynamicallySized :: "Type \<Rightarrow> bool" where
  "isDynamicallySized (ArrayType loc ptr kind base len) = (len = None)"
| "isDynamicallySized t = False"

fun isDynamicallyEncoded :: "Type \<Rightarrow> bool" where
  "isDynamicallyEncoded (ArrayType loc ptr kind base len) = (len = None \<or> isDynamicallyEncoded base)"
| "isDynamicallyEncoded t = False"

fun canBeStored :: "Type \<Rightarrow> bool" where
  "canBeStored (RationalNumberType v b) = False"
| "canBeStored (StringLiteralType s) = False"
| "canBeStored t = True"

fun storageBytes :: "Type \<Rightarrow> nat result" where
  "storageBytes (AddressType m) = Inr (168 div 8)"
| "storageBytes ViteTokenIdType = Inr (80 div 8)"
| "storageBytes (IntegerType bits m) = Inr (bits div 8)"
| "storageBytes (FixedPointType bits digits m) = Inr (bits div 8)"
| "storageBytes (FixedBytesType n) = Inr n"
| "storageBytes BoolType = Inr 1"
| "storageBytes (ContractType c super) = bindE (assertThrow (\<not> super) InternalCompilerError) (\<lambda>_. Inr 21)"
| "storageBytes (EnumType d) = bindE (assertThrow (EnumType_numberOfMembers d \<le> 256) InternalCompilerError) (\<lambda>_. Inr 1)"
| "storageBytes t = Inr 32"

fun storageSizeUpperBound :: "Type \<Rightarrow> nat" where
  "storageSizeUpperBound (ArrayType loc ptr kind base len) =
     (case len of None \<Rightarrow> 1 | Some n \<Rightarrow> n * storageSizeUpperBound base)"
| "storageSizeUpperBound t = 1"

fun storageSize :: "Type \<Rightarrow> nat result" where
  "storageSize (ArrayType loc ptr kind base len) =
     (case len of
        None \<Rightarrow> Inr 1
      | Some n \<Rightarrow>
          bindE (storageBytes base) (\<lambda>baseBytes.
          bindE (if baseBytes = 0 then Inr 1
                 else if baseBytes < 32 then
                   (let itemsPerSlot = 32 div baseBytes in Inr ((n + (itemsPerSlot - 1)) div itemsPerSlot))
                 else bindE (storageSize base) (\<lambda>s. Inr (n * s))) (\<lambda>size.
          bindE (assertThrow (size < 2 ^ 256) InternalCompilerError) (\<lambda>_. Inr (max 1 size)))))"
| "storageSize t = Inr 1"

text \<open>\<open>unsigned\<close> sizes are checked against the largest value of that type where the code does so.\<close>

definition unsigned_max :: nat where
  "unsigned_max = 2 ^ 32 - 1"

definition round_up_32 :: "nat \<Rightarrow> nat" where
  "round_up_32 n = (n + 31) div 32 * 32"

fun calldataEncodedSize :: "bool \<Rightarrow> Type \<Rightarrow> nat result" where
  "calldataEncodedSize padded (AddressType m) = Inr (if padded then 32 else 168 div 8)"
| "calldataEncodedSize padded ViteTokenIdType = Inr (if padded then 32 else 80 div 8)"
| "calldataEncodedSize padded (IntegerType bits m) = Inr (if padded then 32 else bits div 8)"
| "calldataEncodedSize padded (FixedPointType bits digits m) = Inr (if padded then 32 else bits div 8)"
| "calldataEncodedSize padded (FixedBytesType n) = Inr (if padded \<and> n > 0 then 32 else n)"
| "calldataEncodedSize padded BoolType = Inr (if padded then 32 else 1)"
| "calldataEncodedSize padded (ContractType c super) =
     bindE (assertThrow (\<not> super) InternalCompilerError) (\<lambda>_. Inr (if padded then 32 else 168 div 8))"
| "calldataEncodedSize padded (EnumType d) =
     bindE (assertThrow (EnumType_numberOfMembers d \<le> 256) InternalCompilerError) (\<lambda>_. Inr (if padded then 32 else 8 div 8))"
| "calldataEncodedSize padded (RationalNumberType v b) = Inl InternalCompilerError"
| "calldataEncodedSize padded (StringLiteralType s) = Inl InternalCompilerError"
| "calldataEncodedSize padded (ArrayType loc ptr kind base len) =
     (if isDynamicallyEncoded (ArrayType loc ptr kind base len) then Inl InternalCompilerError
      else
        case len of
          None \<Rightarrow> Inl InternalCompilerError
        | Some n \<Rightarrow>
            bindE (if kind \<noteq> Ordinary_array then Inr 1
                   else if isDynamicallyEncoded base then Inr 32 else calldataEncodedSize True base) (\<lambda>stride.
              let size = (if padded then round_up_32 (n * stride) else n * stride)
              in bindE (assertThrow (size \<le> unsigned_max) InternalCompilerError) (\<lambda>_. Inr size)))"

definition calldataHeadSize :: "Type \<Rightarrow> nat result" where
  "calldataHeadSize t = (if isDynamicallyEncoded t then Inr 32 else calldataEncodedSize True t)"

definition calldataStride :: "ArrayKind \<Rightarrow> Type \<Rightarrow> nat result" where
  "calldataStride kind base = (if kind \<noteq> Ordinary_array then Inr 1 else calldataHeadSize base)"

definition unlimitedStaticCalldataSize :: "bool \<Rightarrow> ArrayKind \<Rightarrow> Type \<Rightarrow> nat option \<Rightarrow> nat result" where
  "unlimitedStaticCalldataSize padded kind base len =
     (case len of
        None \<Rightarrow> Inl InternalCompilerError
      | Some n \<Rightarrow>
          bindE (calldataStride kind base) (\<lambda>stride. Inr (if padded then round_up_32 (n * stride) else n * stride)))"

definition ArrayType_calldataEncodedTailSize :: "ArrayKind \<Rightarrow> Type \<Rightarrow> nat option \<Rightarrow> nat result" where
  "ArrayType_calldataEncodedTailSize kind base len =
     bindE (assertThrow (len = None \<or> isDynamicallyEncoded base) InternalCompilerError) (\<lambda>_.
       if len = None then Inr 32
       else bindE (unlimitedStaticCalldataSize False kind base len) (\<lambda>size.
              bindE (assertThrow (size \<le> unsigned_max) InternalCompilerError) (\<lambda>_. Inr size)))"

fun memoryHeadSize :: "Type \<Rightarrow> nat result" where
  "memoryHeadSize (ArrayType loc ptr kind base len) = Inr 32"
| "memoryHeadSize t = calldataEncodedSize True t"

fun memoryDataSize :: "Type \<Rightarrow> nat result" where
  "memoryDataSize (ArrayType loc ptr kind base len) =
     (case len of
        None \<Rightarrow> Inl InternalCompilerError
      | Some n \<Rightarrow>
          if loc \<noteq> Memory \<or> kind \<noteq> Ordinary_array then Inl InternalCompilerError
          else bindE (memoryHeadSize base) (\<lambda>head.
                 bindE (assertThrow (n * head \<le> 2 ^ 256 - 1) InternalCompilerError) (\<lambda>_. Inr (n * head))))"
| "memoryDataSize t = calldataEncodedSize True t"

text \<open>The loop of \<open>validForLocation\<close> that multiplies the lengths of nested arrays of static size.\<close>

fun static_elements :: "nat \<Rightarrow> Type \<Rightarrow> nat \<times> Type" where
  "static_elements acc (ArrayType loc ptr kind base len) =
     (case len of None \<Rightarrow> (acc, ArrayType loc ptr kind base len) | Some n \<Rightarrow> static_elements (acc * n) base)"
| "static_elements acc t = (acc, t)"

fun validForLocation :: "DataLocation \<Rightarrow> Type \<Rightarrow> BoolResult result" where
  "validForLocation location (ArrayType loc ptr kind base len) =
     bindE (if category base = Category_Array then validForLocation location base else Inr (BoolOk True)) (\<lambda>r.
       if \<not> holds r then Inr r
       else
         case len of
           None \<Rightarrow> Inr (BoolOk True)
         | Some n \<Rightarrow>
             (case location of
                Memory \<Rightarrow>
                  (let (size, type) = static_elements n base in
                   bindE (if isDynamicallySized type then memoryHeadSize type else memoryDataSize type) (\<lambda>s.
                     Inr (if size * s \<ge> unsigned_max then BoolErr ''Type too large for memory.'' else BoolOk True)))
              | CallData \<Rightarrow>
                  bindE (unlimitedStaticCalldataSize True kind base len) (\<lambda>size.
                    Inr (if size \<ge> unsigned_max then BoolErr ''Type too large for calldata.'' else BoolOk True))
              | Storage \<Rightarrow>
                  Inr (if storageSizeUpperBound (ArrayType loc ptr kind base len) \<ge> 2 ^ 256
                       then BoolErr ''Type too large for storage.'' else BoolOk True)))"
| "validForLocation location t = Inr (BoolOk True)"

fun finalBaseType :: "bool \<Rightarrow> Type \<Rightarrow> Type" where
  "finalBaseType breakIfDynamicArrayType (ArrayType loc ptr kind base len) =
     (if breakIfDynamicArrayType \<and> len = None then ArrayType loc ptr kind base len
      else finalBaseType breakIfDynamicArrayType base)"
| "finalBaseType breakIfDynamicArrayType t = t"

section \<open>Storage offsets\<close>

record StorageOffsets =
  m_storageSize :: nat
  m_offsets :: "(nat \<times> (nat \<times> nat)) list"

text \<open>One member: its slot and byte offset, and where the next one starts.\<close>

definition computeOffsets_step :: "(nat \<times> nat) \<times> (nat \<times> (nat \<times> nat)) list \<Rightarrow> nat \<times> Type \<Rightarrow>
    ((nat \<times> nat) \<times> (nat \<times> (nat \<times> nat)) list) result" where
  "computeOffsets_step = (\<lambda>((slotOffset, byteOffset), offsets) (i, type).
     if \<not> canBeStored type then Inr ((slotOffset, byteOffset), offsets)
     else
       bindE (storageBytes type) (\<lambda>bytes.
         let (slotOffset, byteOffset) =
               (if byteOffset + bytes > 32 then (slotOffset + 1, 0) else (slotOffset, byteOffset)) in
         bindE (assertThrow (slotOffset < 2 ^ 256) InternalCompilerError) (\<lambda>_.
           let offsets = map_put i (slotOffset, byteOffset) offsets in
           bindE (storageSize type) (\<lambda>size.
           bindE (assertThrow (size \<ge> 1) InternalCompilerError) (\<lambda>_.
             if size = 1 \<and> byteOffset + bytes \<le> 32 then Inr ((slotOffset, byteOffset + bytes), offsets)
             else Inr ((slotOffset + size, 0), offsets))))))"

definition computeOffsets :: "Type list \<Rightarrow> StorageOffsets result" where
  "computeOffsets types =
     bindE (foldE computeOffsets_step ((0, 0), []) (zip [0..<length types] types)) (\<lambda>((slotOffset, byteOffset), offsets).
       let slotOffset = (if byteOffset > 0 then slotOffset + 1 else slotOffset)
       in bindE (assertThrow (slotOffset < 2 ^ 256) InternalCompilerError) (\<lambda>_.
            Inr \<lparr>m_storageSize = slotOffset, m_offsets = offsets\<rparr>))"

definition StorageOffsets_offset :: "StorageOffsets \<Rightarrow> nat \<Rightarrow> (nat \<times> nat) option" where
  "StorageOffsets_offset s index = map_find index (m_offsets s)"

end
