(* ===== verification/Literal.thy ===== *)
theory Literal
  imports ViteAddress Token
begin

text \<open>
  Literals of the syntax tree (\<^verbatim>\<open>libsolidity/ast/AST.h\<close>, \<^verbatim>\<open>AST.cpp\<close> and
  \<^verbatim>\<open>SolidityppAST.cpp\<close>): their denominations, and the tests that recognise Ethereum addresses, Vite
  addresses and Vite token ids. \<open>solAssert\<close> throws \<open>InternalCompilerError\<close>.
\<close>

section \<open>Denominations\<close>

text \<open>The enumerators of \<open>Literal::SubDenomination\<close> have the values of tokens.\<close>

type_synonym SubDenomination = Token

definition SubDenomination_None :: SubDenomination where "SubDenomination_None = Token_Illegal"

definition SubDenomination_Wei :: SubDenomination where "SubDenomination_Wei = Token_SubWei"

definition SubDenomination_Gwei :: SubDenomination where "SubDenomination_Gwei = Token_SubGwei"

definition SubDenomination_Ether :: SubDenomination where "SubDenomination_Ether = Token_SubEther"

definition SubDenomination_Second :: SubDenomination where "SubDenomination_Second = Token_SubSecond"

definition SubDenomination_Minute :: SubDenomination where "SubDenomination_Minute = Token_SubMinute"

definition SubDenomination_Hour :: SubDenomination where "SubDenomination_Hour = Token_SubHour"

definition SubDenomination_Day :: SubDenomination where "SubDenomination_Day = Token_SubDay"

definition SubDenomination_Week :: SubDenomination where "SubDenomination_Week = Token_SubWeek"

definition SubDenomination_Year :: SubDenomination where "SubDenomination_Year = Token_SubYear"

definition SubDenomination_Attov :: SubDenomination where "SubDenomination_Attov = Token_SubAttov"

definition SubDenomination_Vite :: SubDenomination where "SubDenomination_Vite = Token_SubVite"

record Literal =
  lit_token :: Token
  lit_value :: string
  lit_subDenomination :: SubDenomination

section \<open>Operations\<close>

definition starts_with :: "string \<Rightarrow> string \<Rightarrow> bool" where
  "starts_with s pre \<longleftrightarrow> take (length pre) s = pre"

definition Literal_valueWithoutUnderscores :: "Literal \<Rightarrow> string" where
  "Literal_valueWithoutUnderscores l = filter (\<lambda>c. c \<noteq> CHR ''_'') (lit_value l)"

definition Literal_isHexNumber :: "Literal \<Rightarrow> bool" where
  "Literal_isHexNumber l = (if lit_token l \<noteq> Token_Number then False else starts_with (lit_value l) ''0x'')"

definition Literal_looksLikeAddress :: "Literal \<Rightarrow> bool" where
  "Literal_looksLikeAddress l =
     (if lit_subDenomination l \<noteq> SubDenomination_None then False
      else if \<not> Literal_isHexNumber l then False
      else \<bar>int (length (Literal_valueWithoutUnderscores l)) - 42\<bar> \<le> 1)"

definition Literal_passesAddressChecksum :: "(bytes \<Rightarrow> bytes) \<Rightarrow> Literal \<Rightarrow> bool result" where
  "Literal_passesAddressChecksum keccak256 l =
     bindE (assertThrow (Literal_isHexNumber l) InternalCompilerError) (\<lambda>_.
       passesAddressChecksum keccak256 (Literal_valueWithoutUnderscores l) True)"

text \<open>\<open>substr(2)\<close> throws when fewer than two characters are left, which a hexadecimal number always has.\<close>

definition Literal_getChecksummedAddress :: "(bytes \<Rightarrow> bytes) \<Rightarrow> Literal \<Rightarrow> string result" where
  "Literal_getChecksummedAddress keccak256 l =
     bindE (assertThrow (Literal_isHexNumber l) InternalCompilerError) (\<lambda>_.
       let v = Literal_valueWithoutUnderscores l in
       bindE (assertThrow (2 \<le> length v) OutOfRange) (\<lambda>_.
         let address = drop 2 v in
         if length address > 40 then Inr ''''
         else getChecksummedAddress keccak256 (replicate (40 - length address) CHR ''0'' @ address)))"

definition Literal_looksLikeViteAddress :: "Literal \<Rightarrow> bool" where
  "Literal_looksLikeViteAddress l =
     (if \<not> starts_with (lit_value l) ''vite_'' then False
      else if lit_subDenomination l \<noteq> SubDenomination_None then False
      else True)"

definition Literal_looksLikeViteTokenId :: "Literal \<Rightarrow> bool" where
  "Literal_looksLikeViteTokenId l =
     (if \<not> starts_with (lit_value l) ''tti_'' then False
      else if lit_subDenomination l \<noteq> SubDenomination_None then False
      else True)"

definition Literal_passesViteAddressChecksum :: "Literal \<Rightarrow> bool result" where
  "Literal_passesViteAddressChecksum l = passesViteAddressChecksum (lit_value l)"

definition Literal_passesViteTokenIdChecksum :: "Literal \<Rightarrow> bool result" where
  "Literal_passesViteTokenIdChecksum l = passesViteTokenIdChecksum (lit_value l)"

definition Literal_getViteAddressHex :: "Literal \<Rightarrow> string result" where
  "Literal_getViteAddressHex l = getViteAddressHex (lit_value l)"

definition Literal_getViteTokenIdHex :: "Literal \<Rightarrow> string result" where
  "Literal_getViteTokenIdHex l = getViteTokenIdHex (lit_value l)"

section \<open>Lemmas\<close>

lemma hexNumber_digits:
  assumes "Literal_isHexNumber l"
  shows "Literal_valueWithoutUnderscores l = ''0x'' @ drop 2 (Literal_valueWithoutUnderscores l)"
proof -
  from assms have "take 2 (lit_value l) = ''0x''"
    unfolding Literal_isHexNumber_def starts_with_def by (simp add: numeral_2_eq_2 split: if_splits)
  then obtain rest where "lit_value l = ''0x'' @ rest"
    using append_take_drop_id [of 2 "lit_value l"] by metis
  then show ?thesis by (simp add: Literal_valueWithoutUnderscores_def)
qed

section \<open>Properties\<close>

text \<open>
  The address test agrees with the correction that is suggested to the user: on a hexadecimal literal of
  40 digits the test passes if and only if the corrected address is the literal's own text without
  underscores.
\<close>

theorem Literal_checksum_correction:
  assumes "Literal_isHexNumber l" and "length (Literal_valueWithoutUnderscores l) = 42"
    and "Literal_passesAddressChecksum keccak256 l = Inr b"
  shows "b \<longleftrightarrow> Literal_getChecksummedAddress keccak256 l = Inr (Literal_valueWithoutUnderscores l)"
proof -
  let ?v = "Literal_valueWithoutUnderscores l"
  have v: "?v = ''0x'' @ drop 2 ?v" by (rule hexNumber_digits [OF assms(1)])
  have t: "take 2 ?v = ''0x''" by (subst v) simp
  have n: "take 2 (drop 2 ?v) \<noteq> ''0x''" if "getChecksummedAddress keccak256 ?v = Inr r" for r
  proof
    assume "take 2 (drop 2 ?v) = ''0x''"
    then have "CHR ''x'' \<in> set (drop 2 ?v)"
      by (metis in_set_takeD list.set_intros(1) list.set_intros(2))
    with that t show False
      by (auto simp: getChecksummedAddress_recase Let_def hexDigits_def split: if_splits)
  qed
  from assms(3) obtain r where r: "getChecksummedAddress keccak256 ?v = Inr r" and b: "b \<longleftrightarrow> ?v = r"
    by (auto simp: Literal_passesAddressChecksum_def assms(1,2) passesAddressChecksum_def t result_simps Let_def)
  have "getChecksummedAddress keccak256 (drop 2 ?v) = getChecksummedAddress keccak256 ?v"
    using n [OF r] t by (simp add: getChecksummedAddress_def)
  with r b show ?thesis using assms(1,2) by (auto simp: Literal_getChecksummedAddress_def)
qed

theorem Literal_checksum_correction_witness:
  "let l = \<lparr>lit_token = Token_Number, lit_value = ''0x'' @ replicate 20 CHR ''a'' @ ''_'' @ replicate 20 CHR ''b'',
            lit_subDenomination = SubDenomination_None\<rparr>
   in Literal_passesAddressChecksum (\<lambda>_. replicate 32 0) l = Inr True \<and>
      (True \<longleftrightarrow> Literal_getChecksummedAddress (\<lambda>_. replicate 32 0) l = Inr (Literal_valueWithoutUnderscores l))"
proof -
  let ?l = "\<lparr>lit_token = Token_Number, lit_value = ''0x'' @ replicate 20 CHR ''a'' @ ''_'' @ replicate 20 CHR ''b'',
            lit_subDenomination = SubDenomination_None\<rparr>"
  have p: "Literal_passesAddressChecksum (\<lambda>_. replicate 32 0) ?l = Inr True" by code_simp
  have "Literal_isHexNumber ?l" "length (Literal_valueWithoutUnderscores ?l) = 42" by code_simp+
  from Literal_checksum_correction [OF this p] p show ?thesis by (simp only: Let_def simp_thms)
qed

end
