(* ===== verification/TypeNames.thy ===== *)
theory TypeNames
  imports Types Literal
begin

text \<open>
  The names of types (\<^verbatim>\<open>libsolidity/ast/Types.cpp\<close>): identifiers, texts for the user and signatures, the types by which
  values cross contract boundaries, and the values of literals. The big integers of the code are mathematical integers, and their
  texts are decimal.
\<close>

section \<open>Identifiers\<close>

definition parenthesizeIdentifier :: "string \<Rightarrow> string" where
  "parenthesizeIdentifier s = ''('' @ s @ '')''"

definition identifierLocationSuffix :: "DataLocation \<Rightarrow> bool \<Rightarrow> string" where
  "identifierLocationSuffix loc ptr =
     (case loc of Storage \<Rightarrow> ''_storage'' | Memory \<Rightarrow> ''_memory'' | CallData \<Rightarrow> ''_calldata'') @
     (if array_isPointer loc ptr then ''_ptr'' else '''')"

fun richIdentifier :: "Type \<Rightarrow> string" where
  "richIdentifier (AddressType m) = (if m = Payable then ''t_address_payable'' else ''t_address'')"
| "richIdentifier ViteTokenIdType = ''t_tokenId''"
| "richIdentifier (IntegerType bits m) = ''t_'' @ (if m = Signed then '''' else ''u'') @ ''int'' @ decimal bits"
| "richIdentifier (FixedPointType bits digits m) =
     ''t_'' @ (if m = FixedSigned then '''' else ''u'') @ ''fixed'' @ decimal bits @ ''x'' @ decimal digits"
| "richIdentifier (RationalNumberType v b) =
     (if v < 0 then ''t_rational_minus_'' else ''t_rational_'') @ decimal_int \<bar>numerator v\<bar> @ ''_by_'' @ decimal_int \<bar>denominator v\<bar>"
| "richIdentifier (StringLiteralType s) = ''t_stringliteral_'' @ toHex (blake2b_string s) DontAdd Lower"
| "richIdentifier (FixedBytesType n) = ''t_bytes'' @ decimal n"
| "richIdentifier BoolType = ''t_bool''"
| "richIdentifier (ContractType c super) =
     (if super then ''t_super'' else ''t_contract'') @ parenthesizeIdentifier (contract_name c) @ decimal (contract_id c)"
| "richIdentifier (EnumType d) = ''t_enum'' @ parenthesizeIdentifier (enum_name d) @ decimal (enum_id d)"
| "richIdentifier (ArrayType loc ptr kind base len) =
     (case kind of
        String_array \<Rightarrow> ''t_string''
      | Bytes_array \<Rightarrow> ''t_bytes''
      | Ordinary_array \<Rightarrow> ''t_array'' @ parenthesizeIdentifier (richIdentifier base) @ (case len of None \<Rightarrow> ''dyn'' | Some n \<Rightarrow> decimal n)) @
     identifierLocationSuffix loc ptr"

definition replace_all :: "char \<Rightarrow> string \<Rightarrow> string \<Rightarrow> string" where
  "replace_all c r s = concat (map (\<lambda>x. if x = c then r else [x]) s)"

definition escapeIdentifier :: "string \<Rightarrow> string" where
  "escapeIdentifier identifier =
     (let ret = replace_all CHR ''$'' ''$$$'' identifier;
          ret = replace_all CHR '','' ''_$_'' ret;
          ret = replace_all CHR ''('' ''$_'' ret;
          ret = replace_all CHR '')'' ''_$'' ret
      in ret)"

definition identifier_chars :: string where
  "identifier_chars = ''0123456789abcdefghijklmnopqrstuvwxyzABCDEFGHIJKLMONPQRSTUVWXYZ_$''"

definition Type_identifier :: "Type \<Rightarrow> string result" where
  "Type_identifier t =
     (let ret = escapeIdentifier (richIdentifier t) in
      bindE (assertThrow (ret = '''' \<or> hd ret \<notin> set ''0123456789'') InternalCompilerError) (\<lambda>_.
      bindE (assertThrow (list_all (\<lambda>c. c \<in> set identifier_chars) ret) InternalCompilerError) (\<lambda>_. Inr ret)))"

section \<open>Texts\<close>

definition stringForReferencePart :: "DataLocation \<Rightarrow> bool \<Rightarrow> string" where
  "stringForReferencePart loc ptr =
     (case loc of
        Storage \<Rightarrow> ''storage '' @ (if array_isPointer loc ptr then ''pointer'' else ''ref'')
      | CallData \<Rightarrow> ''calldata''
      | Memory \<Rightarrow> ''memory'')"

definition bigintToReadableString :: "int \<Rightarrow> string" where
  "bigintToReadableString num =
     (let str = decimal_int num in
      if length str > 32
      then take 4 str @ ''...('' @ decimal (length str - 8) @ '' digits omitted)...'' @ take 4 (drop (length str - 4) str)
      else str)"

text \<open>The characters of a printable text; a negative \<open>char\<close> becomes a large number.\<close>

definition isPrintableASCII :: "string \<Rightarrow> bool" where
  "isPrintableASCII s = list_all (\<lambda>c. \<not> ((of_char c :: nat) \<le> 0x1f \<or> (of_char c :: nat) \<ge> 0x7f)) s"

fun Type_toString :: "TypesExternal \<Rightarrow> bool \<Rightarrow> Type \<Rightarrow> string" where
  "Type_toString ext short (AddressType m) = (if m = Payable then ''address payable'' else ''address'')"
| "Type_toString ext short ViteTokenIdType = ''tokenId''"
| "Type_toString ext short (IntegerType bits m) = IntegerType_toString ext bits (m = Signed)"
| "Type_toString ext short (FixedPointType bits digits m) =
     (if m = FixedSigned then ''fixed'' else ''ufixed'') @ ty_toString ext bits @ ''x'' @ ty_toString ext digits"
| "Type_toString ext short (RationalNumberType v b) =
     (if \<not> isFractional v then ''int_const '' @ bigintToReadableString (numerator v)
      else ''rational_const '' @ bigintToReadableString (numerator v) @ '' / '' @ bigintToReadableString (denominator v))"
| "Type_toString ext short (StringLiteralType s) =
     (if isPrintableASCII s then ''literal_string '' @ [CHR 0x22] @ s @ [CHR 0x22]
      else ''literal_string hex'' @ [CHR 0x22] @ toHex (asBytes s) DontAdd Lower @ [CHR 0x22])"
| "Type_toString ext short (FixedBytesType n) = ''bytes'' @ ty_toString ext n"
| "Type_toString ext short BoolType = ''bool''"
| "Type_toString ext short (ContractType c super) =
     (if contract_isLibrary c then ''library '' else ''contract '') @ (if super then ''super '' else '''') @ contract_name c"
| "Type_toString ext short (EnumType d) = ''enum '' @ enum_canonicalName d"
| "Type_toString ext short (ArrayType loc ptr kind base len) =
     (case kind of
        String_array \<Rightarrow> ''string''
      | Bytes_array \<Rightarrow> ''bytes''
      | Ordinary_array \<Rightarrow> Type_toString ext short base @ ''['' @ (case len of None \<Rightarrow> '''' | Some n \<Rightarrow> decimal n) @ '']'') @
     (if \<not> short then '' '' @ stringForReferencePart loc ptr else '''')"

fun canonicalName :: "TypesExternal \<Rightarrow> Type \<Rightarrow> string" where
  "canonicalName ext (AddressType m) = ''address''"
| "canonicalName ext (ContractType c super) = contract_canonicalName c"
| "canonicalName ext (EnumType d) = enum_canonicalName d"
| "canonicalName ext (ArrayType loc ptr kind base len) =
     (case kind of
        String_array \<Rightarrow> ''string''
      | Bytes_array \<Rightarrow> ''bytes''
      | Ordinary_array \<Rightarrow> canonicalName ext base @ ''['' @ (case len of None \<Rightarrow> '''' | Some n \<Rightarrow> decimal n) @ '']'')"
| "canonicalName ext t = Type_toString ext True t"

fun signatureInExternalFunction :: "TypesExternal \<Rightarrow> Type \<Rightarrow> string" where
  "signatureInExternalFunction ext (ArrayType loc ptr kind base len) =
     (if kind \<noteq> Ordinary_array then canonicalName ext (ArrayType loc ptr kind base len)
      else signatureInExternalFunction ext base @ ''['' @ (case len of None \<Rightarrow> '''' | Some n \<Rightarrow> decimal n) @ '']'')"
| "signatureInExternalFunction ext t = canonicalName ext t"

section \<open>Crossing contract boundaries\<close>

fun encodingType :: "Type \<Rightarrow> Type option result" where
  "encodingType (RationalNumberType v b) = Inr None"
| "encodingType (StringLiteralType s) = Inr None"
| "encodingType (ContractType c super) =
     Inr (if super then None else Some (AddressType (if ContractType_isPayable c then Payable else NonPayable)))"
| "encodingType (EnumType d) =
     bindE (assertThrow (EnumType_numberOfMembers d \<le> 256) InternalCompilerError) (\<lambda>_. Inr (Some (IntegerType 8 Unsigned)))"
| "encodingType (ArrayType loc ptr kind base len) =
     Inr (Some (if loc = Storage then uint256 else withLocationIfReference Memory True (ArrayType loc ptr kind base len)))"
| "encodingType t = Inr (Some t)"

fun decodingType :: "Type \<Rightarrow> Type option result" where
  "decodingType (ArrayType loc ptr kind base len) =
     Inr (Some (if loc = Storage then uint256 else ArrayType loc ptr kind base len))"
| "decodingType t = encodingType t"

text \<open>
  The constructor of an array moves the type of the elements to the location of the array. An array asserts that a
  refused element type comes with a message, which types without an interface type do not give.
\<close>

fun interfaceType :: "bool \<Rightarrow> Type \<Rightarrow> TypeResult result" where
  "interfaceType inLibrary (RationalNumberType v b) = Inr (NoType '''')"
| "interfaceType inLibrary (StringLiteralType s) = Inr (NoType '''')"
| "interfaceType inLibrary (ContractType c super) =
     (if super then Inr (NoType '''')
      else if inLibrary then Inr (TypeOk (ContractType c super))
      else bindE (encodingType (ContractType c super)) (\<lambda>t. Inr (ofTypePointer t)))"
| "interfaceType inLibrary (EnumType d) =
     (if inLibrary then Inr (TypeOk (EnumType d)) else bindE (encodingType (EnumType d)) (\<lambda>t. Inr (ofTypePointer t)))"
| "interfaceType inLibrary (ArrayType loc ptr kind base len) =
     bindE (interfaceType inLibrary base) (\<lambda>r.
       case r of
         TypeOk t \<Rightarrow>
           Inr (TypeOk (if inLibrary \<and> loc = Storage then ArrayType loc ptr kind base len
                        else if kind \<noteq> Ordinary_array then withLocationIfReference Memory True (ArrayType loc ptr kind base len)
                        else ArrayType Memory True Ordinary_array (withLocationIfReference Memory False t) len))
       | EmptyTuple \<Rightarrow> Inl InternalCompilerError
       | NoType message \<Rightarrow> bindE (assertThrow (message \<noteq> '''') InternalCompilerError) (\<lambda>_. Inr (NoType message)))"
| "interfaceType inLibrary t = Inr (TypeOk t)"

section \<open>Values of literals\<close>

definition fitsPrecisionBase10 :: "TypesExternal \<Rightarrow> int \<Rightarrow> nat \<Rightarrow> bool" where
  "fitsPrecisionBase10 ext mantissa expBase10 = ty_fitsPrecisionBaseX ext mantissa 3.3219280948873624 expBase10"

definition isdigit :: "char \<Rightarrow> bool" where
  "isdigit c \<longleftrightarrow> c \<in> set ''0123456789''"

text \<open>An exception while a number is read makes the literal invalid.\<close>

definition parseRational :: "TypesExternal \<Rightarrow> string \<Rightarrow> rat option" where
  "parseRational ext value =
     (if CHR ''.'' \<in> set value then
        (let whole = takeWhile (\<lambda>c. c \<noteq> CHR ''.'') value; fraction = drop (length whole + 1) value in
         if \<not> list_all isdigit fraction \<or> \<not> list_all isdigit whole then None
         else
           case ty_bigint ext (dropWhile (\<lambda>c. c = CHR ''0'') fraction) of
             None \<Rightarrow> None
           | Some f \<Rightarrow>
               (case ty_bigint ext whole of
                  None \<Rightarrow> None
                | Some n \<Rightarrow> Some (of_int n + of_int f / 10 ^ length fraction)))
      else map_option of_int (ty_bigint ext value))"

definition subDenomination_factor :: "SubDenomination \<Rightarrow> rat" where
  "subDenomination_factor d =
     (if d = SubDenomination_None \<or> d = SubDenomination_Wei \<or> d = SubDenomination_Second then 1
      else if d = SubDenomination_Gwei then 1000000000
      else if d = SubDenomination_Ether then 1000000000000000000
      else if d = SubDenomination_Minute then 60
      else if d = SubDenomination_Hour then 3600
      else if d = SubDenomination_Day then 86400
      else if d = SubDenomination_Week then 604800
      else if d = SubDenomination_Year then 31536000
      else if d = SubDenomination_Attov then 1
      else if d = SubDenomination_Vite then 1000000000000000000
      else 1)"

definition scale10 :: "TypesExternal \<Rightarrow> rat \<Rightarrow> int \<Rightarrow> rat option" where
  "scale10 ext value exponent =
     (if exponent > 2 ^ 31 - 1 \<or> exponent < - (2 ^ 31) then None
      else
        let expAbs = nat \<bar>exponent\<bar> in
        if exponent < 0 then
          (if \<not> fitsPrecisionBase10 ext \<bar>denominator value\<bar> expAbs then None else Some (value / 10 ^ expAbs))
        else if exponent > 0 then
          (if \<not> fitsPrecisionBase10 ext \<bar>numerator value\<bar> expAbs then None else Some (value * 10 ^ expAbs))
        else Some value)"

text \<open>The position of the exponent is that of the first \<open>e\<close>, or of the first \<open>E\<close> if there is no \<open>e\<close>.\<close>

definition exponent_char :: "string \<Rightarrow> char" where
  "exponent_char s = (if CHR ''e'' \<in> set s then CHR ''e'' else CHR ''E'')"

text \<open>\<open>None\<close> is the pair of \<open>false\<close> and zero; a value zero before an exponent is returned at once.\<close>

definition isValidLiteral :: "TypesExternal \<Rightarrow> Literal \<Rightarrow> rat option" where
  "isValidLiteral ext literal =
     (let valueString = Literal_valueWithoutUnderscores literal; e = exponent_char valueString;
          scaled = (\<lambda>value. Some (value * subDenomination_factor (lit_subDenomination literal))) in
      if starts_with valueString ''0x'' then
        (case ty_bigint ext valueString of None \<Rightarrow> None | Some v \<Rightarrow> scaled (of_int v))
      else if e \<in> set valueString then
        (let mantissa = takeWhile (\<lambda>c. c \<noteq> e) valueString in
         case parseRational ext mantissa of
           None \<Rightarrow> None
         | Some value \<Rightarrow>
             if value = 0 then Some 0
             else
               case ty_bigint ext (drop (length mantissa + 1) valueString) of
                 None \<Rightarrow> None
               | Some exponent \<Rightarrow> (case scale10 ext value exponent of None \<Rightarrow> None | Some v \<Rightarrow> scaled v))
      else
        case parseRational ext valueString of None \<Rightarrow> None | Some v \<Rightarrow> scaled v)"

definition RationalNumberType_literalValue :: "rat \<Rightarrow> u256 result" where
  "RationalNumberType_literalValue value =
     bindE (if \<not> isFractional value then Inr (numerator value)
            else bindE (RationalNumberType_fixedPointType value) (\<lambda>fixed.
                   case fixed of
                     Some (FixedPointType bits fractionalDigits m) \<Rightarrow>
                       Inr ((numerator value * 10 ^ fractionalDigits) sdiv denominator value)
                   | _ \<Rightarrow> Inl InternalCompilerError)) (\<lambda>shiftedValue.
     bindE (assertThrow (shiftedValue \<le> 2 ^ 256 - 1) InternalCompilerError) (\<lambda>_.
     bindE (assertThrow (shiftedValue \<ge> - (2 ^ 255)) InternalCompilerError) (\<lambda>_.
       Inr (word_of_int shiftedValue))))"

definition BoolType_literalValue :: "Literal \<Rightarrow> u256 result" where
  "BoolType_literalValue literal =
     (if lit_token literal = Token_TrueLiteral then Inr 1
      else if lit_token literal = Token_FalseLiteral then Inr 0
      else Inl InternalCompilerError)"

fun EnumType_memberValue :: "string list \<Rightarrow> nat \<Rightarrow> string \<Rightarrow> nat result" where
  "EnumType_memberValue [] index member = Inl InternalCompilerError"
| "EnumType_memberValue (m # ms) index member =
     (if m = member then Inr index else EnumType_memberValue ms (index + 1) member)"

end
