(* ===== verification/CompilerContext.thy ===== *)
theory CompilerContext
  imports Optimiser TypeNames
begin

text \<open>
  The context of the code generator (\<^verbatim>\<open>libsolidity/codegen/CompilerContext.h\<close>, \<^verbatim>\<open>CompilerContext.cpp\<close>): the assembly under
  construction, where variables lie on the stack, in storage and in memory, the queue of functions that still need code, and the
  low-level functions. Declarations are identified by a number in place of their address. The generator of a
  low-level function is a value of the type parameter, which the function that generates the missing ones interprets. Messages of the verbose mode are left out.

  The Yul compiler and the template engine are outside the repository: \<open>cg_inlineAssembly\<close> appends the code of an inline assembly block
  with the given local variables to an assembly, and \<open>cg_render\<close> fills a template.
\<close>

section \<open>Types on the stack\<close>

fun isValueType :: "Type \<Rightarrow> bool" where
  "isValueType (RationalNumberType v b) = False"
| "isValueType (StringLiteralType s) = False"
| "isValueType (ContractType c super) = (\<not> super)"
| "isValueType (ArrayType loc ptr kind base len) = False"
| "isValueType t = True"

text \<open>The stack items of an array are of type \<open>uint256\<close>, one slot each.\<close>

fun sizeOnStack :: "Type \<Rightarrow> nat" where
  "sizeOnStack (StringLiteralType s) = 0"
| "sizeOnStack (ContractType c super) = (if super then 0 else 1)"
| "sizeOnStack (ArrayType loc ptr kind base len) = (if loc = CallData \<and> len = None then 2 else 1)"
| "sizeOnStack t = 1"

section \<open>State\<close>

record CodegenExternal =
  cg_external :: External
  cg_types :: TypesExternal
  cg_inlineAssembly :: "string \<Rightarrow> string list \<Rightarrow> Assembly \<Rightarrow> Assembly result"
  cg_render :: "string \<Rightarrow> (string \<times> string) list \<Rightarrow> string"
  cg_revertReasonIfDebug :: "string \<Rightarrow> string"
  cg_panicCode :: "string \<Rightarrow> nat"

record Declaration =
  decl_id :: nat
  decl_name :: string

record VariableDeclaration = Declaration +
  var_type :: Type
  var_immutable :: bool
  var_location :: SourceLocation

record FunctionCompilationQueue =
  m_entryLabels :: "(nat \<times> AssemblyItem) list"
  m_alreadyCompiledFunctions :: "nat set"
  m_functionsToCompile :: "nat list"

datatype Arithmetic = Checked | Wrapping

record 'g CompilerContext =
  m_functionCompilationQueue :: FunctionCompilationQueue
  m_asm :: Assembly
  m_evmVersion :: EVMVersion
  m_useABICoderV2 :: bool
  m_stateVariables :: "(nat \<times> (u256 \<times> nat)) list"
  m_immutableVariables :: "(nat \<times> nat) list"
  m_reservedMemory :: "nat option"
  m_localVariables :: "(nat \<times> nat list) list"
  m_arithmetic :: Arithmetic
  m_visitedNodes :: "SourceLocation list"
  m_runtimeContext :: bool
  m_runtimeSub :: nat
  m_lowLevelFunctions :: "(string \<times> AssemblyItem) list"
  m_awaitCallbacks :: "(nat \<times> AssemblyItem) list"
  m_externallyUsedYulFunctions :: "string set"
  m_lowLevelFunctionGenerationQueue :: "(string \<times> nat \<times> nat \<times> 'g) list"

text \<open>Operations on the assembly of a context, with and without a result; a sequence of operations.\<close>

definition on_asm :: "(Assembly \<Rightarrow> Assembly result) \<Rightarrow> 'g CompilerContext \<Rightarrow> 'g CompilerContext result" where
  "on_asm f c = bindE (f (m_asm c)) (\<lambda>a. Inr (c\<lparr>m_asm := a\<rparr>))"

definition from_asm :: "(Assembly \<Rightarrow> ('a \<times> Assembly) result) \<Rightarrow> 'g CompilerContext \<Rightarrow> ('a \<times> 'g CompilerContext) result" where
  "from_asm f c = bindE (f (m_asm c)) (\<lambda>(x, a). Inr (x, c\<lparr>m_asm := a\<rparr>))"

definition run_ops :: "('s \<Rightarrow> 's result) list \<Rightarrow> 's \<Rightarrow> 's result" where
  "run_ops fs c = foldE (\<lambda>c f. f c) c fs"

section \<open>Appending code\<close>

definition append_item :: "CodegenExternal \<Rightarrow> AssemblyItem \<Rightarrow> 'g CompilerContext \<Rightarrow> 'g CompilerContext result" where
  "append_item ext i = on_asm (\<lambda>a. bindE (Assembly_append (cg_external ext) i a) (\<lambda>(_, a). Inr a))"

definition append_op :: "CodegenExternal \<Rightarrow> Instruction \<Rightarrow> 'g CompilerContext \<Rightarrow> 'g CompilerContext result" where
  "append_op ext i = append_item ext (AssemblyItem_of_instruction i SourceLocation_default)"

definition append_value :: "CodegenExternal \<Rightarrow> u256 \<Rightarrow> 'g CompilerContext \<Rightarrow> 'g CompilerContext result" where
  "append_value ext v = append_item ext (AssemblyItem_of_u256 v SourceLocation_default)"

definition append_debug :: "string \<Rightarrow> 'g CompilerContext \<Rightarrow> 'g CompilerContext result" where
  "append_debug debugInfo = on_asm (\<lambda>a. Inr (appendDebugInfo debugInfo a))"

definition stackHeight :: "'g CompilerContext \<Rightarrow> nat result" where
  "stackHeight c =
     bindE (assertThrow (m_deposit (m_state (m_asm c)) \<ge> 0) InternalCompilerError) (\<lambda>_. Inr (nat (m_deposit (m_state (m_asm c)))))"

definition setStackOffset :: "int \<Rightarrow> 'g CompilerContext \<Rightarrow> 'g CompilerContext result" where
  "setStackOffset offset = on_asm (setDeposit offset)"

definition adjustStackOffset :: "int \<Rightarrow> 'g CompilerContext \<Rightarrow> 'g CompilerContext result" where
  "adjustStackOffset adjustment = on_asm (adjustDeposit adjustment)"

definition CompilerContext_newTag :: "string \<Rightarrow> 'g CompilerContext \<Rightarrow> (AssemblyItem \<times> 'g CompilerContext) result" where
  "CompilerContext_newTag description = from_asm (newTag description)"

definition CompilerContext_namedTag :: "string \<Rightarrow> 'g CompilerContext \<Rightarrow> (AssemblyItem \<times> 'g CompilerContext) result" where
  "CompilerContext_namedTag name = from_asm (namedTag name)"

definition pushNewTag :: "CodegenExternal \<Rightarrow> string \<Rightarrow> 'g CompilerContext \<Rightarrow> (AssemblyItem \<times> 'g CompilerContext) result" where
  "pushNewTag ext description c =
     bindE (from_asm (newPushTag description) c) (\<lambda>(t, c).
     bindE (from_asm (Assembly_append (cg_external ext) t) c) (\<lambda>(t, c).
     bindE (item_tag t) (\<lambda>t. Inr (t, c))))"

definition CompilerContext_appendJump :: "CodegenExternal \<Rightarrow> JumpType \<Rightarrow> 'g CompilerContext \<Rightarrow> 'g CompilerContext result" where
  "CompilerContext_appendJump ext jumpType =
     append_item ext ((AssemblyItem_of_instruction Instruction_JUMP SourceLocation_default)\<lparr>it_jumpType := jumpType\<rparr>)"

definition CompilerContext_appendJumpTo :: "CodegenExternal \<Rightarrow> AssemblyItem \<Rightarrow> JumpType \<Rightarrow> 'g CompilerContext \<Rightarrow> 'g CompilerContext result" where
  "CompilerContext_appendJumpTo ext tag jumpType c =
     bindE (item_pushTag tag) (\<lambda>t. run_ops [append_item ext t, CompilerContext_appendJump ext jumpType] c)"

definition appendConditionalJump :: "CodegenExternal \<Rightarrow> string \<Rightarrow> 'g CompilerContext \<Rightarrow> (AssemblyItem \<times> 'g CompilerContext) result" where
  "appendConditionalJump ext description c =
     bindE (from_asm (appendJumpI (cg_external ext) description) c) (\<lambda>(t, c). bindE (item_tag t) (\<lambda>t. Inr (t, c)))"

definition appendConditionalJumpTo :: "CodegenExternal \<Rightarrow> AssemblyItem \<Rightarrow> 'g CompilerContext \<Rightarrow> 'g CompilerContext result" where
  "appendConditionalJumpTo ext tag c = bindE (from_asm (appendJumpITo (cg_external ext) tag) c) (\<lambda>(_, c). Inr c)"

definition appendJumpToNew :: "CodegenExternal \<Rightarrow> 'g CompilerContext \<Rightarrow> (AssemblyItem \<times> 'g CompilerContext) result" where
  "appendJumpToNew ext c = bindE (from_asm (appendJump (cg_external ext)) c) (\<lambda>(t, c). bindE (item_tag t) (\<lambda>t. Inr (t, c)))"

definition updateSourceLocation :: "'g CompilerContext \<Rightarrow> 'g CompilerContext" where
  "updateSourceLocation c =
     c\<lparr>m_asm := setSourceLocation (case m_visitedNodes c of [] \<Rightarrow> SourceLocation_default | l # _ \<Rightarrow> l) (m_asm c)\<rparr>"

definition pushVisitedNodes :: "SourceLocation \<Rightarrow> 'g CompilerContext \<Rightarrow> 'g CompilerContext" where
  "pushVisitedNodes node c = updateSourceLocation (c\<lparr>m_visitedNodes := node # m_visitedNodes c\<rparr>)"

text \<open>Popping an empty stack of nodes is undefined.\<close>

definition popVisitedNodes :: "'g CompilerContext \<Rightarrow> 'g CompilerContext result" where
  "popVisitedNodes c =
     (case m_visitedNodes c of [] \<Rightarrow> Inl UndefinedBehaviour | _ # ns \<Rightarrow> Inr (updateSourceLocation (c\<lparr>m_visitedNodes := ns\<rparr>)))"

definition resetVisitedNodes :: "SourceLocation \<Rightarrow> 'g CompilerContext \<Rightarrow> 'g CompilerContext" where
  "resetVisitedNodes node c = updateSourceLocation (c\<lparr>m_visitedNodes := [node]\<rparr>)"

definition appendInlineAssembly :: "CodegenExternal \<Rightarrow> string \<Rightarrow> string list \<Rightarrow> 'g CompilerContext \<Rightarrow> 'g CompilerContext result" where
  "appendInlineAssembly ext assembly localVariables c =
     bindE (stackHeight c) (\<lambda>_.
     bindE (on_asm (cg_inlineAssembly ext assembly localVariables) c) (\<lambda>c. Inr (updateSourceLocation c)))"

text \<open>
  The code of a panic is the number of an enumerator outside the repository. The text of an inline assembly block is indented with tabs.
\<close>

definition nl :: "nat \<Rightarrow> string" where
  "nl tabs = CHR 0x0A # replicate tabs (CHR 0x09)"

definition appendPanic :: "CodegenExternal \<Rightarrow> string \<Rightarrow> 'g CompilerContext \<Rightarrow> 'g CompilerContext result" where
  "appendPanic ext code =
     appendInlineAssembly ext
       (cg_render ext (''{'' @ nl 2 @ ''mstore(0, <selector>)'' @ nl 2 @ ''mstore(4, <code>)'' @ nl 2 @ ''revert(0, 0x24)'' @ nl 1 @ ''}'')
          [(''selector'', decimal (unat (selectorFromSignature ''Panic(uint256)''))),
           (''code'', decimal (cg_panicCode ext code))]) []"

definition appendConditionalPanic :: "CodegenExternal \<Rightarrow> string \<Rightarrow> 'g CompilerContext \<Rightarrow> 'g CompilerContext result" where
  "appendConditionalPanic ext code c =
     bindE (append_op ext Instruction_ISZERO c) (\<lambda>c.
     bindE (appendConditionalJump ext '''' c) (\<lambda>(afterTag, c).
     run_ops [appendPanic ext code, append_item ext afterTag] c))"

definition appendRevert :: "CodegenExternal \<Rightarrow> string \<Rightarrow> 'g CompilerContext \<Rightarrow> 'g CompilerContext result" where
  "appendRevert ext message = appendInlineAssembly ext (''{ '' @ cg_revertReasonIfDebug ext message @ '' }'') []"

definition appendConditionalRevert :: "CodegenExternal \<Rightarrow> bool \<Rightarrow> string \<Rightarrow> 'g CompilerContext \<Rightarrow> 'g CompilerContext result" where
  "appendConditionalRevert ext forwardReturnData message c =
     run_ops
       [if forwardReturnData \<and> supportsReturndata (m_evmVersion c)
        then appendInlineAssembly ext
               (''{'' @ nl 3 @ ''if condition {'' @ nl 4 @ ''returndatacopy(0, 0, returndatasize())'' @ nl 4 @
                ''revert(0, returndatasize())'' @ nl 3 @ ''}'' @ nl 2 @ ''}'') [''condition'']
        else appendInlineAssembly ext (''{ if condition { '' @ cg_revertReasonIfDebug ext message @ '' } }'') [''condition''],
        append_op ext Instruction_POP] c"

section \<open>Variables\<close>

definition addStateVariable :: "'a Declaration_scheme \<Rightarrow> u256 \<Rightarrow> nat \<Rightarrow> 'g CompilerContext \<Rightarrow> 'g CompilerContext" where
  "addStateVariable d storageOffset byteOffset c =
     c\<lparr>m_stateVariables := map_put (decl_id d) (storageOffset, byteOffset) (m_stateVariables c)\<rparr>"

definition storageLocationOfVariable :: "'a Declaration_scheme \<Rightarrow> 'g CompilerContext \<Rightarrow> (u256 \<times> nat) result" where
  "storageLocationOfVariable d c =
     (case map_find (decl_id d) (m_stateVariables c) of None \<Rightarrow> Inl InternalCompilerError | Some p \<Rightarrow> Inr p)"

definition freeMemoryPointer :: nat where
  "freeMemoryPointer = 64"

definition zeroPointer :: nat where
  "zeroPointer = freeMemoryPointer + 32"

definition generalPurposeMemoryStart :: nat where
  "generalPurposeMemoryStart = zeroPointer + 32"

text \<open>The reserved memory is read through an optional, which is undefined when it was taken before.\<close>

definition addImmutable :: "VariableDeclaration \<Rightarrow> 'g CompilerContext \<Rightarrow> 'g CompilerContext result" where
  "addImmutable v c =
     bindE (assertThrow (var_immutable v) InternalCompilerError) (\<lambda>_.
     bindE (assertThrow (isValueType (var_type v)) UnimplementedFeatureError) (\<lambda>_.
     bindE (assertThrow (m_runtimeContext c) InternalCompilerError) (\<lambda>_.
       case m_reservedMemory c of
         None \<Rightarrow> Inl UndefinedBehaviour
       | Some bytes \<Rightarrow>
           bindE (memoryHeadSize (var_type v)) (\<lambda>head.
           bindE (assertThrow (head = 32) InternalCompilerError) (\<lambda>_.
             Inr (c\<lparr>m_immutableVariables := map_put (decl_id v) (generalPurposeMemoryStart + bytes) (m_immutableVariables c),
                    m_reservedMemory := Some (bytes + head)\<rparr>))))))"

definition immutableMemoryOffset :: "VariableDeclaration \<Rightarrow> 'g CompilerContext \<Rightarrow> nat result" where
  "immutableMemoryOffset v c =
     bindE (assertThrow (map_find (decl_id v) (m_immutableVariables c) \<noteq> None) InternalCompilerError) (\<lambda>_.
     bindE (assertThrow (m_runtimeContext c) InternalCompilerError) (\<lambda>_. map_at (decl_id v) (m_immutableVariables c)))"

definition reservedMemory :: "'g CompilerContext \<Rightarrow> (nat \<times> 'g CompilerContext) result" where
  "reservedMemory c =
     (case m_reservedMemory c of
        None \<Rightarrow> Inl InternalCompilerError
      | Some bytes \<Rightarrow> Inr (bytes, c\<lparr>m_reservedMemory := None\<rparr>))"

definition addVariable :: "VariableDeclaration \<Rightarrow> nat \<Rightarrow> 'g CompilerContext \<Rightarrow> 'g CompilerContext result" where
  "addVariable v offsetToCurrent c =
     (let deposit = m_deposit (m_state (m_asm c)) in
      bindE (assertThrow (deposit \<ge> 0 \<and> nat deposit \<ge> offsetToCurrent) InternalCompilerError) (\<lambda>_.
      bindE (assertThrow (sizeOnStack (var_type v) = 1 \<or> sizeOnStack (var_type v) = 2) InternalCompilerError) (\<lambda>_.
        let offsets = (case map_find (decl_id v) (m_localVariables c) of None \<Rightarrow> [] | Some os \<Rightarrow> os)
        in Inr (c\<lparr>m_localVariables := map_put (decl_id v) (offsets @ [nat deposit - offsetToCurrent]) (m_localVariables c)\<rparr>))))"

definition removeVariable :: "nat \<Rightarrow> 'g CompilerContext \<Rightarrow> 'g CompilerContext result" where
  "removeVariable d c =
     (case map_find d (m_localVariables c) of
        None \<Rightarrow> Inl InternalCompilerError
      | Some os \<Rightarrow>
          bindE (assertThrow (os \<noteq> []) InternalCompilerError) (\<lambda>_.
            Inr (c\<lparr>m_localVariables :=
                     (if butlast os = [] then map_erase d (m_localVariables c) else map_put d (butlast os) (m_localVariables c))\<rparr>)))"

definition removeVariablesAboveStackHeight :: "nat \<Rightarrow> 'g CompilerContext \<Rightarrow> 'g CompilerContext result" where
  "removeVariablesAboveStackHeight height c =
     bindE (foldE (\<lambda>toRemove (d, os).
              bindE (assertThrow (os \<noteq> []) InternalCompilerError) (\<lambda>_.
              bindE (stackHeight c) (\<lambda>h.
              bindE (assertThrow (last os \<le> h) InternalCompilerError) (\<lambda>_.
                Inr (if last os \<ge> height then toRemove @ [d] else toRemove))))) [] (m_localVariables c)) (\<lambda>toRemove.
       foldE (\<lambda>c d. removeVariable d c) c toRemove)"

definition numberOfLocalVariables :: "'g CompilerContext \<Rightarrow> nat" where
  "numberOfLocalVariables c = length (m_localVariables c)"

definition isLocalVariable :: "'a Declaration_scheme \<Rightarrow> 'g CompilerContext \<Rightarrow> bool" where
  "isLocalVariable d c \<longleftrightarrow> map_find (decl_id d) (m_localVariables c) \<noteq> None"

definition isStateVariable :: "'a Declaration_scheme \<Rightarrow> 'g CompilerContext \<Rightarrow> bool" where
  "isStateVariable d c \<longleftrightarrow> map_find (decl_id d) (m_stateVariables c) \<noteq> None"

definition baseStackOffsetOfVariable :: "'a Declaration_scheme \<Rightarrow> 'g CompilerContext \<Rightarrow> nat result" where
  "baseStackOffsetOfVariable d c =
     (case map_find (decl_id d) (m_localVariables c) of
        None \<Rightarrow> Inl InternalCompilerError
      | Some os \<Rightarrow> bindE (assertThrow (os \<noteq> []) InternalCompilerError) (\<lambda>_. Inr (last os)))"

text \<open>Differences of \<open>unsigned\<close> numbers wrap around.\<close>

definition baseToCurrentStackOffset :: "nat \<Rightarrow> 'g CompilerContext \<Rightarrow> nat" where
  "baseToCurrentStackOffset baseOffset c = nat ((m_deposit (m_state (m_asm c)) - int baseOffset - 1) mod 2 ^ 32)"

definition currentToBaseStackOffset :: "nat \<Rightarrow> 'g CompilerContext \<Rightarrow> nat" where
  "currentToBaseStackOffset offset c = nat ((m_deposit (m_state (m_asm c)) - int offset - 1) mod 2 ^ 32)"

section \<open>Functions to compile\<close>

definition entryLabel :: "'a Declaration_scheme \<Rightarrow> 'g CompilerContext \<Rightarrow> (AssemblyItem \<times> 'g CompilerContext) result" where
  "entryLabel d c =
     (case map_find (decl_id d) (m_entryLabels (m_functionCompilationQueue c)) of
        None \<Rightarrow>
          bindE (CompilerContext_newTag (''declaration of function '' @ decl_name d) c) (\<lambda>(tag, c).
            let q = m_functionCompilationQueue c;
                q = q\<lparr>m_entryLabels := map_put (decl_id d) tag (m_entryLabels q),
                      m_functionsToCompile := m_functionsToCompile q @ [decl_id d]\<rparr>
            in bindE (item_tag tag) (\<lambda>t. Inr (t, c\<lparr>m_functionCompilationQueue := q\<rparr>)))
      | Some tag \<Rightarrow> bindE (item_tag tag) (\<lambda>t. Inr (t, c)))"

definition entryLabelIfExists :: "'a Declaration_scheme \<Rightarrow> 'g CompilerContext \<Rightarrow> AssemblyItem result" where
  "entryLabelIfExists d c =
     (case map_find (decl_id d) (m_entryLabels (m_functionCompilationQueue c)) of
        None \<Rightarrow> Inr (AssemblyItem_make UndefinedItem 0 SourceLocation_default '''')
      | Some tag \<Rightarrow> item_tag tag)"

text \<open>The loop drops functions that have been compiled already; the queue is mutable, so that they are gone afterwards.\<close>

definition nextFunctionToCompile :: "'g CompilerContext \<Rightarrow> nat option \<times> 'g CompilerContext" where
  "nextFunctionToCompile c =
     (let q = m_functionCompilationQueue c;
          rest = dropWhile (\<lambda>d. d \<in> m_alreadyCompiledFunctions q) (m_functionsToCompile q)
      in (case rest of [] \<Rightarrow> None | d # _ \<Rightarrow> Some d,
          c\<lparr>m_functionCompilationQueue := q\<lparr>m_functionsToCompile := rest\<rparr>\<rparr>))"

definition FunctionCompilationQueue_startFunction :: "nat \<Rightarrow> FunctionCompilationQueue \<Rightarrow> FunctionCompilationQueue" where
  "FunctionCompilationQueue_startFunction d q =
     (let q = (case m_functionsToCompile q of
                 [] \<Rightarrow> q
               | d' # rest \<Rightarrow> if d' = d then q\<lparr>m_functionsToCompile := rest\<rparr> else q)
      in q\<lparr>m_alreadyCompiledFunctions := insert d (m_alreadyCompiledFunctions q)\<rparr>)"

definition startFunction :: "CodegenExternal \<Rightarrow> 'a Declaration_scheme \<Rightarrow> 'g CompilerContext \<Rightarrow> 'g CompilerContext result" where
  "startFunction ext d c =
     bindE (entryLabel d (c\<lparr>m_functionCompilationQueue :=
                FunctionCompilationQueue_startFunction (decl_id d) (m_functionCompilationQueue c)\<rparr>)) (\<lambda>(tag, c).
       append_item ext tag c)"

text \<open>A callback of an asynchronous call gets a label with an instruction that restores its context.\<close>

definition addCallbackDest :: "CodegenExternal \<Rightarrow> nat \<Rightarrow> 'g CompilerContext \<Rightarrow> 'g CompilerContext result" where
  "addCallbackDest ext callbackId c =
     (case map_find callbackId (m_awaitCallbacks c) of
        Some _ \<Rightarrow> Inr c
      | None \<Rightarrow>
          bindE (CompilerContext_newTag (''callback dest of '' @ decimal callbackId) c) (\<lambda>(tag, c).
            run_ops [append_item ext tag, append_op ext Instruction_CALLBACKDEST]
              (c\<lparr>m_awaitCallbacks := map_put callbackId tag (m_awaitCallbacks c)\<rparr>)))"

definition translateOptimiserSettings :: "OptimiserSettings \<Rightarrow> 'g CompilerContext \<Rightarrow> OptimiserSettings" where
  "translateOptimiserSettings settings c =
     \<lparr>isCreation = True, runJumpdestRemover = runJumpdestRemover settings, runPeephole = runPeephole settings,
      runDeduplicate = runDeduplicate settings, runCSE = runCSE settings, runConstantOptimiser = runConstantOptimiser settings,
      evmVersion = m_evmVersion c, expectedExecutionsPerDeployment = expectedExecutionsPerDeployment settings\<rparr>"

section \<open>The stack\<close>

text \<open>
  From \<^verbatim>\<open>libsolidity/codegen/CompilerUtils.cpp\<close>. The comparison \<open>_items - 1 <= 16\<close> is one of \<open>unsigned\<close> numbers, so that zero items are too many.
\<close>

definition append_swap :: "CodegenExternal \<Rightarrow> nat \<Rightarrow> 'g CompilerContext \<Rightarrow> 'g CompilerContext result" where
  "append_swap ext n c = bindE (swapInstruction (word_of_nat n)) (\<lambda>i. append_op ext i c)"

definition append_dup :: "CodegenExternal \<Rightarrow> nat \<Rightarrow> 'g CompilerContext \<Rightarrow> 'g CompilerContext result" where
  "append_dup ext n c = bindE (dupInstruction (word_of_nat n)) (\<lambda>i. append_op ext i c)"

definition unsigned_minus_1 :: "nat \<Rightarrow> nat" where
  "unsigned_minus_1 n = (n + (2 ^ 32 - 1)) mod 2 ^ 32"

definition rotateStackUp :: "CodegenExternal \<Rightarrow> nat \<Rightarrow> 'g CompilerContext \<Rightarrow> 'g CompilerContext result" where
  "rotateStackUp ext items c =
     bindE (assertThrow (unsigned_minus_1 items \<le> 16) StackTooDeepError) (\<lambda>_.
       run_ops (append_debug (''CompilerUtils::rotateStackUp('' @ decimal items @ '')'') #
                map (\<lambda>i. append_swap ext (items - i)) [1..<items] @
                [append_debug ''end of CompilerUtils::rotateStackUp()'']) c)"

definition rotateStackDown :: "CodegenExternal \<Rightarrow> nat \<Rightarrow> 'g CompilerContext \<Rightarrow> 'g CompilerContext result" where
  "rotateStackDown ext items c =
     bindE (assertThrow (unsigned_minus_1 items \<le> 16) StackTooDeepError) (\<lambda>_.
       run_ops (append_debug (''CompilerUtils::rotateStackDown('' @ decimal items @ '')'') #
                map (append_swap ext) [1..<items] @
                [append_debug ''end of CompilerUtils::rotateStackDown()'']) c)"

definition moveIntoStack :: "CodegenExternal \<Rightarrow> nat \<Rightarrow> nat \<Rightarrow> 'g CompilerContext \<Rightarrow> 'g CompilerContext result" where
  "moveIntoStack ext stackDepth itemSize c =
     run_ops (append_debug (''CompilerUtils::moveIntoStack('' @ decimal stackDepth @ '', '' @ decimal itemSize @ '')'') #
       (if stackDepth \<le> itemSize then replicate stackDepth (rotateStackDown ext (stackDepth + itemSize))
        else replicate itemSize (rotateStackUp ext (stackDepth + itemSize)))) c"

definition moveToStackTop :: "CodegenExternal \<Rightarrow> nat \<Rightarrow> nat \<Rightarrow> 'g CompilerContext \<Rightarrow> 'g CompilerContext result" where
  "moveToStackTop ext stackDepth itemSize =
     run_ops [append_debug (''CompilerUtils::moveToStackTop('' @ decimal stackDepth @ '', '' @ decimal itemSize @ '')''),
              moveIntoStack ext itemSize stackDepth]"

definition copyToStackTop :: "CodegenExternal \<Rightarrow> nat \<Rightarrow> nat \<Rightarrow> 'g CompilerContext \<Rightarrow> 'g CompilerContext result" where
  "copyToStackTop ext stackDepth itemSize c =
     bindE (assertThrow (stackDepth \<le> 16) StackTooDeepError) (\<lambda>_.
       run_ops (append_debug (''CompilerUtils::copyToStackTop('' @ decimal stackDepth @ '', '' @ decimal itemSize @ '')'') #
                replicate itemSize (append_dup ext stackDepth)) c)"

definition popStackSlots :: "CodegenExternal \<Rightarrow> nat \<Rightarrow> 'g CompilerContext \<Rightarrow> 'g CompilerContext result" where
  "popStackSlots ext amount =
     run_ops (append_debug (''CompilerUtils::popStackSlots('' @ decimal amount @ '')'') #
              replicate amount (append_op ext Instruction_POP) @ [append_debug ''end of CompilerUtils::popStackSlots()''])"

definition popStackElement :: "CodegenExternal \<Rightarrow> Type \<Rightarrow> 'g CompilerContext \<Rightarrow> 'g CompilerContext result" where
  "popStackElement ext type = popStackSlots ext (sizeOnStack type)"

definition popAndJump :: "CodegenExternal \<Rightarrow> nat \<Rightarrow> AssemblyItem \<Rightarrow> 'g CompilerContext \<Rightarrow> 'g CompilerContext result" where
  "popAndJump ext toHeight jumpTo c =
     bindE (stackHeight c) (\<lambda>height.
     bindE (assertThrow (height \<ge> toHeight) InternalCompilerError) (\<lambda>_.
     bindE (Assembly_itemText (cg_external ext) (m_asm c) jumpTo) (\<lambda>itemText.
       run_ops
         [append_debug (''CompilerUtils::popAndJump(toHeight='' @ decimal toHeight @ '', jumpTo='' @ itemText @ '')''),
          popStackSlots ext (height - toHeight),
          CompilerContext_appendJumpTo ext jumpTo Ordinary,
          adjustStackOffset (int (height - toHeight)),
          append_debug ''end of CompilerUtils::popAndJump()''] c)))"

definition moveToStackVariable :: "CodegenExternal \<Rightarrow> VariableDeclaration \<Rightarrow> 'g CompilerContext \<Rightarrow> 'g CompilerContext result" where
  "moveToStackVariable ext v c =
     bindE (append_debug (''CompilerUtils::moveToStackVariable('' @ decl_name v @ '')'') c) (\<lambda>c.
     bindE (baseStackOffsetOfVariable v c) (\<lambda>base.
       let stackPosition = baseToCurrentStackOffset base c; size = sizeOnStack (var_type v) in
       bindE (assertThrow (stackPosition \<ge> size) InternalCompilerError) (\<lambda>_.
       bindE (assertThrow (stackPosition - size + 1 \<le> 16) StackTooDeepError) (\<lambda>_.
         run_ops (concat (replicate size [append_swap ext (stackPosition - size + 1), append_op ext Instruction_POP])) c))))"

section \<open>Low-level functions\<close>

definition lowLevelFunctionTag :: "string \<Rightarrow> nat \<Rightarrow> nat \<Rightarrow> 'g \<Rightarrow> 'g CompilerContext \<Rightarrow> (AssemblyItem \<times> 'g CompilerContext) result" where
  "lowLevelFunctionTag name inArgs outArgs generator c =
     (case map_find name (m_lowLevelFunctions c) of
        Some tag \<Rightarrow> Inr (tag, c)
      | None \<Rightarrow>
          bindE (CompilerContext_newTag name c) (\<lambda>(t, c).
          bindE (item_pushTag t) (\<lambda>tag.
            Inr (tag, c\<lparr>m_lowLevelFunctions := map_put name tag (m_lowLevelFunctions c),
                        m_lowLevelFunctionGenerationQueue := m_lowLevelFunctionGenerationQueue c @ [(name, inArgs, outArgs, generator)]\<rparr>))))"

definition callLowLevelFunction :: "CodegenExternal \<Rightarrow> string \<Rightarrow> nat \<Rightarrow> nat \<Rightarrow> 'g \<Rightarrow> 'g CompilerContext \<Rightarrow> 'g CompilerContext result" where
  "callLowLevelFunction ext name inArgs outArgs generator c =
     bindE (append_debug (''CompilerContext::callLowLevelFunction('' @ name @ '')'') c) (\<lambda>c.
     bindE (pushNewTag ext '''' c) (\<lambda>(retTag, c).
     bindE (moveIntoStack ext inArgs 1 c) (\<lambda>c.
     bindE (lowLevelFunctionTag name inArgs outArgs generator c) (\<lambda>(tag, c).
     bindE (item_tag retTag) (\<lambda>ret.
       run_ops [append_item ext tag, CompilerContext_appendJump ext IntoFunction,
                adjustStackOffset (int outArgs - 1 - int inArgs), append_item ext ret] c)))))"

definition callYulFunction :: "CodegenExternal \<Rightarrow> string \<Rightarrow> nat \<Rightarrow> nat \<Rightarrow> 'g CompilerContext \<Rightarrow> 'g CompilerContext result" where
  "callYulFunction ext name inArgs outArgs c =
     bindE (append_debug (''CompilerContext::callYulFunction(name='' @ name @ '', _inArgs='' @ decimal inArgs @ '', _outArgs='' @
              decimal outArgs @ '')'') c) (\<lambda>c.
     bindE (pushNewTag ext (''return of Yul function '' @ name)
              (c\<lparr>m_externallyUsedYulFunctions := insert name (m_externallyUsedYulFunctions c)\<rparr>)) (\<lambda>(retTag, c).
     bindE (moveIntoStack ext inArgs 1 c) (\<lambda>c.
     bindE (CompilerContext_namedTag name c) (\<lambda>(tag, c).
     bindE (item_tag retTag) (\<lambda>ret.
       run_ops [CompilerContext_appendJumpTo ext tag IntoFunction,
                adjustStackOffset (int outArgs - 1 - int inArgs), append_item ext ret] c)))))"

text \<open>
  The loop over the missing low-level functions: a generator may request further ones, so that the loop need not end.
  \<open>generate\<close> interprets a generator.
\<close>

definition appendLowLevelFunction :: "CodegenExternal \<Rightarrow> ('g \<Rightarrow> 'g CompilerContext \<Rightarrow> 'g CompilerContext result) \<Rightarrow>
    string \<times> nat \<times> nat \<times> 'g \<Rightarrow> 'g CompilerContext \<Rightarrow> 'g CompilerContext result" where
  "appendLowLevelFunction ext generate = (\<lambda>(name, inArgs, outArgs, generator) c.
     bindE (setStackOffset (int inArgs + 1) c) (\<lambda>c.
     bindE (map_at name (m_lowLevelFunctions c)) (\<lambda>pushTag.
     bindE (item_tag pushTag) (\<lambda>tag.
     bindE (run_ops [append_item ext tag, generate generator, moveToStackTop ext outArgs 1,
                     CompilerContext_appendJump ext OutOfFunction] c) (\<lambda>c.
     bindE (stackHeight c) (\<lambda>height.
     bindE (assertThrow (height = outArgs) InternalCompilerError) (\<lambda>_. Inr c)))))))"

partial_function (option) appendMissingLowLevelFunctions ::
    "CodegenExternal \<Rightarrow> ('g \<Rightarrow> 'g CompilerContext \<Rightarrow> 'g CompilerContext result) \<Rightarrow> 'g CompilerContext \<Rightarrow> 'g CompilerContext result option" where
  "appendMissingLowLevelFunctions ext generate c =
     (case m_lowLevelFunctionGenerationQueue c of
        [] \<Rightarrow> Some (Inr c)
      | entry # rest \<Rightarrow>
          (case appendLowLevelFunction ext generate entry (c\<lparr>m_lowLevelFunctionGenerationQueue := rest\<rparr>) of
             Inl e \<Rightarrow> Some (Inl e)
           | Inr c' \<Rightarrow> appendMissingLowLevelFunctions ext generate c'))"

end
