(* ===== verification/CompilerUtils.thy ===== *)
theory CompilerUtils
  imports CompilerContext
begin

text \<open>
  The code that expressions and statements share (\<^verbatim>\<open>libsolidity/codegen/CompilerUtils.cpp\<close>): the free memory pointer,
  loading and storing values, conversions between types, zero values, and external functions as stack items. Arrays are handled by functions
  outside the repository (\<open>ArrayUtils\<close>, \<open>StorageItem\<close>), and the names of Yul functions come from a part that is not modelled: they are
  the fields of \<open>ArrayCode\<close>.
\<close>

record ArrayCode =
  ac_retrieveLength :: "Type \<Rightarrow> Assembly \<Rightarrow> Assembly result"
  ac_convertLengthToSize :: "Type \<Rightarrow> Assembly \<Rightarrow> Assembly result"
  ac_copyArrayToMemory :: "Type \<Rightarrow> bool \<Rightarrow> Assembly \<Rightarrow> Assembly result"
  ac_accessIndex :: "Type \<Rightarrow> Assembly \<Rightarrow> Assembly result"
  ac_retrieveValue :: "Type \<Rightarrow> Assembly \<Rightarrow> Assembly result"
  ac_conversionFunction :: "Type \<Rightarrow> Type \<Rightarrow> string"

text \<open>The generators of low-level functions.\<close>

datatype Generator = GenPushZeroValue Type

type_synonym ctx = "Generator CompilerContext"

section \<open>Numbers on the stack\<close>

definition cleanHigherOrderBits :: "CodegenExternal \<Rightarrow> nat \<Rightarrow> bool \<Rightarrow> 'g CompilerContext \<Rightarrow> 'g CompilerContext result" where
  "cleanHigherOrderBits ext numBits isSigned c =
     (if numBits = 256 then Inr c
      else if isSigned then run_ops [append_value ext (word_of_nat (numBits div 8 - 1)), append_op ext Instruction_SIGNEXTEND] c
      else run_ops [append_value ext (push_bit numBits 1 - 1), append_op ext Instruction_AND] c)"

definition leftShiftNumberOnStack :: "CodegenExternal \<Rightarrow> nat \<Rightarrow> 'g CompilerContext \<Rightarrow> 'g CompilerContext result" where
  "leftShiftNumberOnStack ext bits c =
     bindE (assertThrow (bits < 256) InternalCompilerError) (\<lambda>_.
       run_ops
         ([append_debug (''CompilerUtils::leftShiftNumberOnStack(bits='' @ decimal bits @ '')'')] @
          (if hasBitwiseShifting (m_evmVersion c)
           then [append_value ext (word_of_nat bits), append_op ext Instruction_SHL]
           else [append_value ext (push_bit bits 1), append_op ext Instruction_MUL]) @
          [append_debug ''end of CompilerUtils::leftShiftNumberOnStack()'']) c)"

definition rightShiftNumberOnStack :: "CodegenExternal \<Rightarrow> nat \<Rightarrow> 'g CompilerContext \<Rightarrow> 'g CompilerContext result" where
  "rightShiftNumberOnStack ext bits c =
     bindE (assertThrow (bits < 256) InternalCompilerError) (\<lambda>_.
       run_ops
         ([append_debug (''CompilerUtils::rightShiftNumberOnStack(bits='' @ decimal bits @ '')'')] @
          (if hasBitwiseShifting (m_evmVersion c)
           then [append_value ext (word_of_nat bits), append_op ext Instruction_SHR]
           else [append_value ext (push_bit bits 1), append_op ext Instruction_SWAP1, append_op ext Instruction_DIV]) @
          [append_debug ''end of CompilerUtils::rightShiftNumberOnStack()'']) c)"

definition splitExternalFunctionType :: "CodegenExternal \<Rightarrow> bool \<Rightarrow> 'g CompilerContext \<Rightarrow> 'g CompilerContext result" where
  "splitExternalFunctionType ext leftAligned =
     run_ops
       ((if leftAligned then
           [append_op ext Instruction_DUP1, rightShiftNumberOnStack ext (64 + 32), append_op ext Instruction_SWAP1,
            rightShiftNumberOnStack ext 64]
         else
           [append_op ext Instruction_DUP1, rightShiftNumberOnStack ext 32, append_value ext (push_bit 168 1 - 1),
            append_op ext Instruction_AND, append_op ext Instruction_SWAP1]) @
        [append_value ext 0xffffffff, append_op ext Instruction_AND])"

definition bool_digit :: "bool \<Rightarrow> string" where
  "bool_digit b = (if b then ''1'' else ''0'')"

definition combineExternalFunctionType :: "CodegenExternal \<Rightarrow> bool \<Rightarrow> 'g CompilerContext \<Rightarrow> 'g CompilerContext result" where
  "combineExternalFunctionType ext leftAligned =
     run_ops
       ([append_debug (''CompilerUtils::combineExternalFunctionType(leftAligned='' @ bool_digit leftAligned @ '')''),
         append_value ext 0xffffffff, append_op ext Instruction_AND, append_op ext Instruction_SWAP1] @
        (if \<not> leftAligned then [append_value ext (push_bit 168 1 - 1), append_op ext Instruction_AND] else []) @
        [leftShiftNumberOnStack ext 32, append_op ext Instruction_OR] @
        (if leftAligned then [leftShiftNumberOnStack ext 64] else []) @
        [append_debug ''end of CompilerUtils::combineExternalFunctionType()''])"

section \<open>The free memory pointer\<close>

definition fetchFreeMemoryPointer :: "CodegenExternal \<Rightarrow> 'g CompilerContext \<Rightarrow> 'g CompilerContext result" where
  "fetchFreeMemoryPointer ext =
     run_ops [append_debug ''CompilerUtils::fetchFreeMemoryPointer()'',
              append_value ext (word_of_nat freeMemoryPointer), append_op ext Instruction_MLOAD,
              append_debug ''end of CompilerUtils::fetchFreeMemoryPointer()'']"

definition storeFreeMemoryPointer :: "CodegenExternal \<Rightarrow> 'g CompilerContext \<Rightarrow> 'g CompilerContext result" where
  "storeFreeMemoryPointer ext =
     run_ops [append_debug ''CompilerUtils::storeFreeMemoryPointer()'',
              append_value ext (word_of_nat freeMemoryPointer), append_op ext Instruction_MSTORE,
              append_debug ''end of CompilerUtils::storeFreeMemoryPointer()'']"

definition initialiseFreeMemoryPointer :: "CodegenExternal \<Rightarrow> 'g CompilerContext \<Rightarrow> 'g CompilerContext result" where
  "initialiseFreeMemoryPointer ext c =
     bindE (reservedMemory c) (\<lambda>(bytes, c).
     bindE (assertThrow (generalPurposeMemoryStart + bytes < 2 ^ 63) InternalCompilerError) (\<lambda>_.
       run_ops [append_value ext (word_of_nat generalPurposeMemoryStart + word_of_nat bytes), storeFreeMemoryPointer ext] c))"

definition allocateMemory :: "CodegenExternal \<Rightarrow> 'g CompilerContext \<Rightarrow> 'g CompilerContext result" where
  "allocateMemory ext =
     run_ops [append_debug ''CompilerUtils::allocateMemory()'', fetchFreeMemoryPointer ext,
              append_op ext Instruction_SWAP1, append_op ext Instruction_DUP2, append_op ext Instruction_ADD,
              storeFreeMemoryPointer ext, append_debug ''end of CompilerUtils::allocateMemory()'']"

definition allocateMemory_size :: "CodegenExternal \<Rightarrow> u256 \<Rightarrow> 'g CompilerContext \<Rightarrow> 'g CompilerContext result" where
  "allocateMemory_size ext bytes =
     run_ops [fetchFreeMemoryPointer ext, append_op ext Instruction_DUP1, append_value ext bytes, append_op ext Instruction_ADD,
              storeFreeMemoryPointer ext]"

definition toSizeAfterFreeMemoryPointer :: "CodegenExternal \<Rightarrow> 'g CompilerContext \<Rightarrow> 'g CompilerContext result" where
  "toSizeAfterFreeMemoryPointer ext =
     run_ops [fetchFreeMemoryPointer ext, append_op ext Instruction_DUP1, append_op ext Instruction_SWAP2, append_op ext Instruction_SUB,
              append_op ext Instruction_SWAP1]"

definition pushZeroPointer :: "CodegenExternal \<Rightarrow> 'g CompilerContext \<Rightarrow> 'g CompilerContext result" where
  "pushZeroPointer ext =
     run_ops [append_debug ''CompilerUtils::pushZeroPointer()'', append_value ext (word_of_nat zeroPointer)]"

definition CompilerUtils_sizeOnStack :: "Type list \<Rightarrow> nat" where
  "CompilerUtils_sizeOnStack types = sum_list (map sizeOnStack types)"

definition sizeOnCalldata :: "Type list \<Rightarrow> nat result" where
  "sizeOnCalldata types = foldE (\<lambda>n t. bindE (calldataHeadSize t) (\<lambda>k. Inr (n + k))) 0 types"

section \<open>Conversions of values\<close>

definition is_number_type :: "Type \<Rightarrow> bool" where
  "is_number_type t \<longleftrightarrow>
     category t = Category_Address \<or> category t = Category_Integer \<or> category t = Category_Contract \<or> category t = Category_RationalNumber"

text \<open>The integer type as which a number, an address or a contract is handled: its bits and sign.\<close>

definition as_integer :: "Type \<Rightarrow> nat \<times> bool" where
  "as_integer t = (case t of IntegerType bits m \<Rightarrow> (bits, m = Signed) | _ \<Rightarrow> (168, False))"

text \<open>The conversion of numbers to integers, addresses and contracts. Reading the bits of a null pointer is undefined.\<close>

definition convert_number :: "CodegenExternal \<Rightarrow> Type \<Rightarrow> Type \<Rightarrow> bool \<Rightarrow> bool \<Rightarrow> 'g CompilerContext \<Rightarrow> (bool \<times> 'g CompilerContext) result" where
  "convert_number ext typeOnStack targetType cleanupNeeded chopSignBitsPending c =
     bindE (assertThrow (category targetType = Category_Integer \<or> category targetType = Category_Contract \<or>
              category targetType = Category_Address) InternalCompilerError) (\<lambda>_.
     let (targetBits, targetSigned) = as_integer targetType in
     case typeOnStack of
       RationalNumberType v b \<Rightarrow>
         bindE (assertThrow (\<not> isFractional v) UnimplementedFeatureError) (\<lambda>_.
         bindE (RationalNumberType_integerType v) (\<lambda>i.
           case i of
             Some (IntegerType bits m) \<Rightarrow>
               bindE (if targetBits < bits \<and> cleanupNeeded then cleanHigherOrderBits ext targetBits targetSigned c else Inr c) (\<lambda>c.
                 Inr (chopSignBitsPending, c))
           | _ \<Rightarrow> Inl UndefinedBehaviour))
     | _ \<Rightarrow>
         (let (bits, isSigned) = as_integer typeOnStack in
          bindE (if targetBits > bits then cleanHigherOrderBits ext bits isSigned c
                 else if cleanupNeeded then cleanHigherOrderBits ext targetBits targetSigned c else Inr c) (\<lambda>c.
          bindE (if chopSignBitsPending \<and> targetBits < 256
                 then run_ops [append_value ext (push_bit targetBits 1 - 1), append_op ext Instruction_AND] c else Inr c) (\<lambda>c.
            Inr (False, c)))))"

text \<open>
  What surrounds every conversion: \<open>body\<close> gets the two checks that are pending and returns those that still are.
\<close>

definition convert_frame :: "CodegenExternal \<Rightarrow> Type \<Rightarrow> Type \<Rightarrow> bool \<Rightarrow> bool \<Rightarrow>
    (bool \<Rightarrow> bool \<Rightarrow> 'g CompilerContext \<Rightarrow> ((bool \<times> bool) \<times> 'g CompilerContext) result) \<Rightarrow> 'g CompilerContext \<Rightarrow> 'g CompilerContext result" where
  "convert_frame ext typeOnStack targetType cleanupNeeded chopSignBits body c =
     (if Type_eq typeOnStack targetType \<and> \<not> cleanupNeeded then Inr c
      else
        bindE (append_debug (''CompilerUtils::convertType(): '' @ Type_toString (cg_types ext) False typeOnStack @ '' -> '' @
                 Type_toString (cg_types ext) False targetType) c) (\<lambda>c.
        bindE (assertThrow (case typeOnStack of ContractType d super \<Rightarrow> \<not> super | _ \<Rightarrow> True) InternalCompilerError) (\<lambda>_.
        let enumOverflowCheckPending = (category targetType = Category_Enum \<or> category typeOnStack = Category_Enum);
            chopSignBitsPending = (chopSignBits \<and> (case targetType of IntegerType bits m \<Rightarrow> m = Signed | _ \<Rightarrow> False)) in
        bindE (assertThrow (category targetType \<noteq> Category_FixedPoint) UnimplementedFeatureError) (\<lambda>_.
        bindE (body enumOverflowCheckPending chopSignBitsPending c) (\<lambda>((enumOverflowCheckPending, chopSignBitsPending), c).
        bindE (append_debug ''end of CompilerUtils::convertType()'' c) (\<lambda>c.
        bindE (assertThrow (\<not> enumOverflowCheckPending) InternalCompilerError) (\<lambda>_.
        bindE (assertThrow (\<not> chopSignBitsPending) InternalCompilerError) (\<lambda>_. Inr c))))))))"

text \<open>The two conversions that a conversion of a value asks for itself: from a number to an integer, an address or a contract.\<close>

definition convertType_number :: "CodegenExternal \<Rightarrow> Type \<Rightarrow> Type \<Rightarrow> bool \<Rightarrow> 'g CompilerContext \<Rightarrow> 'g CompilerContext result" where
  "convertType_number ext typeOnStack targetType cleanupNeeded =
     convert_frame ext typeOnStack targetType cleanupNeeded False (\<lambda>enumPending chopPending c.
       bindE (convert_number ext typeOnStack targetType cleanupNeeded chopPending c) (\<lambda>(chopPending, c).
         Inr ((enumPending, chopPending), c)))"

definition enum_check :: "CodegenExternal \<Rightarrow> EnumDefinition \<Rightarrow> bool \<Rightarrow> 'g CompilerContext \<Rightarrow> 'g CompilerContext result" where
  "enum_check ext d asPartOfArgumentDecoding c =
     bindE (assertThrow (EnumType_numberOfMembers d > 0) InternalCompilerError) (\<lambda>_.
       run_ops [append_value ext (word_of_nat (EnumType_numberOfMembers d - 1)), append_op ext Instruction_DUP2, append_op ext Instruction_GT,
                if asPartOfArgumentDecoding then appendConditionalRevert ext False ''Enum out of range''
                else appendConditionalPanic ext ''EnumConversionError''] c)"

definition convert_fixedBytes :: "CodegenExternal \<Rightarrow> nat \<Rightarrow> Type \<Rightarrow> bool \<Rightarrow> 'g CompilerContext \<Rightarrow> 'g CompilerContext result" where
  "convert_fixedBytes ext numBytes targetType cleanupNeeded c =
     (case targetType of
        IntegerType bits m \<Rightarrow>
          bindE (rightShiftNumberOnStack ext (256 - numBytes * 8) c) (\<lambda>c.
            if bits < numBytes * 8 then convertType_number ext (IntegerType (numBytes * 8) Unsigned) targetType cleanupNeeded c
            else Inr c)
      | AddressType m \<Rightarrow>
          bindE (assertThrow (numBytes * 8 = 168) InternalCompilerError) (\<lambda>_. rightShiftNumberOnStack ext (256 - 168) c)
      | FixedBytesType targetBytes \<Rightarrow>
          (if numBytes = 0 \<or> targetBytes = 0 then run_ops [append_op ext Instruction_POP, append_value ext 0] c
           else if targetBytes > numBytes \<or> cleanupNeeded then
             run_ops [append_value ext (push_bit (256 - min numBytes targetBytes * 8) 1 - 1), append_op ext Instruction_NOT,
                      append_op ext Instruction_AND] c
           else Inr c)
      | _ \<Rightarrow> Inl InternalCompilerError)"

definition convert_to_fixedBytes :: "CodegenExternal \<Rightarrow> Type \<Rightarrow> nat \<Rightarrow> 'g CompilerContext \<Rightarrow> 'g CompilerContext result" where
  "convert_to_fixedBytes ext typeOnStack targetBytes c =
     bindE (assertThrow (category typeOnStack = Category_Address \<or> category typeOnStack = Category_Integer \<or>
              category typeOnStack = Category_RationalNumber) InternalCompilerError) (\<lambda>_.
     bindE (case typeOnStack of
              IntegerType bits m \<Rightarrow> if targetBytes * 8 > bits then cleanHigherOrderBits ext bits (m = Signed) c else Inr c
            | AddressType m \<Rightarrow> bindE (assertThrow (targetBytes * 8 = 168) InternalCompilerError) (\<lambda>_. Inr c)
            | _ \<Rightarrow> Inr c) (\<lambda>c.
       leftShiftNumberOnStack ext (256 - targetBytes * 8) c))"

definition convert_to_enum :: "CodegenExternal \<Rightarrow> Type \<Rightarrow> EnumDefinition \<Rightarrow> 'g CompilerContext \<Rightarrow> 'g CompilerContext result" where
  "convert_to_enum ext typeOnStack d c =
     bindE (assertThrow (category typeOnStack \<noteq> Category_Address) InternalCompilerError) (\<lambda>_.
     bindE (mobileType typeOnStack) (\<lambda>mobile.
       case mobile of
         None \<Rightarrow> Inl InternalCompilerError
       | Some t \<Rightarrow> run_ops [convertType_number ext typeOnStack t True, enum_check ext d False] c))"

definition stringLiteral_word :: "string \<Rightarrow> nat \<Rightarrow> u256" where
  "stringLiteral_word s numBytes =
     and (FixedHash_arith (FixedHash_of_bytes 32 (asBytes s) AlignLeft)) (not (drop_bit (8 * numBytes) (- 1)))"

text \<open>
  All conversions but those that build an array in memory, which are \<open>copyArray\<close> and \<open>copyString\<close>.
\<close>

definition convert_body :: "CodegenExternal \<Rightarrow> ('g CompilerContext \<Rightarrow> 'g CompilerContext result) \<Rightarrow>
    ('g CompilerContext \<Rightarrow> 'g CompilerContext result) \<Rightarrow> Type \<Rightarrow> Type \<Rightarrow> bool \<Rightarrow> bool \<Rightarrow> bool \<Rightarrow> bool \<Rightarrow>
    'g CompilerContext \<Rightarrow> ((bool \<times> bool) \<times> 'g CompilerContext) result" where
  "convert_body ext copyArray copyString typeOnStack targetType cleanupNeeded asPartOfArgumentDecoding enumPending chopPending c =
     (case typeOnStack of
        FixedBytesType numBytes \<Rightarrow>
          bindE (convert_fixedBytes ext numBytes targetType cleanupNeeded c) (\<lambda>c. Inr ((enumPending, chopPending), c))
      | EnumType d \<Rightarrow>
          bindE (assertThrow (Type_eq targetType typeOnStack \<or> category targetType = Category_Integer) InternalCompilerError) (\<lambda>_.
          bindE (enum_check ext d asPartOfArgumentDecoding c) (\<lambda>c. Inr ((False, chopPending), c)))
      | FixedPointType bits digits m \<Rightarrow> Inl UnimplementedFeatureError
      | StringLiteralType s \<Rightarrow>
          (case targetType of
             FixedBytesType numBytes \<Rightarrow>
               bindE (assertThrow (length s \<le> 32) InternalCompilerError) (\<lambda>_.
               bindE (append_value ext (stringLiteral_word s numBytes) c) (\<lambda>c. Inr ((enumPending, chopPending), c)))
           | ArrayType loc ptr kind base len \<Rightarrow>
               bindE (assertThrow (kind \<noteq> Ordinary_array) InternalCompilerError) (\<lambda>_.
               bindE (copyString c) (\<lambda>c. Inr ((enumPending, chopPending), c)))
           | _ \<Rightarrow> Inl InternalCompilerError)
      | ArrayType loc ptr kind base len \<Rightarrow>
          (case targetType of
             ArrayType loc' ptr' kind' base' len' \<Rightarrow>
               (case loc' of
                  Storage \<Rightarrow>
                    bindE (assertThrow ((array_isPointer loc' ptr' \<or> kind \<noteq> Ordinary_array \<and> kind' \<noteq> Ordinary_array) \<and> loc = Storage)
                             InternalCompilerError) (\<lambda>_. Inr ((enumPending, chopPending), c))
                | Memory \<Rightarrow>
                    bindE (if loc \<noteq> Memory then copyArray c else Inr c) (\<lambda>c. Inr ((enumPending, chopPending), c))
                | CallData \<Rightarrow>
                    bindE (assertThrow (kind' \<noteq> Ordinary_array \<and> kind \<noteq> Ordinary_array \<and> loc = CallData) InternalCompilerError) (\<lambda>_.
                      Inr ((enumPending, chopPending), c)))
           | _ \<Rightarrow> Inl InternalCompilerError)
      | BoolType \<Rightarrow>
          bindE (assertThrow (Type_eq targetType typeOnStack) InternalCompilerError) (\<lambda>_.
          bindE (if cleanupNeeded then run_ops [append_op ext Instruction_ISZERO, append_op ext Instruction_ISZERO] c else Inr c) (\<lambda>c.
            Inr ((enumPending, chopPending), c)))
      | ViteTokenIdType \<Rightarrow>
          bindE (assertThrow (Type_eq typeOnStack targetType) InternalCompilerError) (\<lambda>_.
          bindE (storageBytes targetType) (\<lambda>bytes.
          bindE (if cleanupNeeded \<and> canBeStored targetType \<and> bytes < 32
                 then run_ops [append_value ext (push_bit (8 * bytes) 1 - 1), append_op ext Instruction_AND] c else Inr c) (\<lambda>c.
            Inr ((enumPending, chopPending), c))))
      | _ \<Rightarrow>
          (case targetType of
             FixedBytesType targetBytes \<Rightarrow>
               bindE (convert_to_fixedBytes ext typeOnStack targetBytes c) (\<lambda>c. Inr ((enumPending, chopPending), c))
           | EnumType d \<Rightarrow> bindE (convert_to_enum ext typeOnStack d c) (\<lambda>c. Inr ((False, chopPending), c))
           | _ \<Rightarrow>
               bindE (convert_number ext typeOnStack targetType cleanupNeeded chopPending c) (\<lambda>(chopPending, c).
                 Inr ((enumPending, chopPending), c))))"

text \<open>The conversion of a type to itself, which only cleans up and never copies.\<close>

definition cleanupType :: "CodegenExternal \<Rightarrow> Type \<Rightarrow> bool \<Rightarrow> bool \<Rightarrow> 'g CompilerContext \<Rightarrow> 'g CompilerContext result" where
  "cleanupType ext t cleanupNeeded asPartOfArgumentDecoding =
     convert_frame ext t t cleanupNeeded False
       (convert_body ext (\<lambda>c. Inl UndefinedBehaviour) (\<lambda>c. Inl UndefinedBehaviour) t t cleanupNeeded asPartOfArgumentDecoding)"

section \<open>Memory\<close>

definition loadFromMemoryHelper :: "CodegenExternal \<Rightarrow> Type \<Rightarrow> bool \<Rightarrow> bool \<Rightarrow> 'g CompilerContext \<Rightarrow> (nat \<times> 'g CompilerContext) result" where
  "loadFromMemoryHelper ext type fromCalldata padToWords c =
     bindE (assertThrow (isValueType type) InternalCompilerError) (\<lambda>_.
     bindE (append_debug ''CompilerUtils::loadFromMemoryHelper()'' c) (\<lambda>c.
     bindE (calldataEncodedSize padToWords type) (\<lambda>numBytes.
       if numBytes = 0 then bindE (run_ops [append_op ext Instruction_POP, append_value ext 0] c) (\<lambda>c. Inr (numBytes, c))
       else
         bindE (assertThrow (numBytes \<le> 32) InternalCompilerError) (\<lambda>_.
         bindE (append_op ext (if fromCalldata then Instruction_CALLDATALOAD else Instruction_MLOAD) c) (\<lambda>c.
         let shiftFactor = (32 - numBytes) * 8;
             leftAligned = (category type = Category_FixedBytes);
             cleanupNeeded = (if numBytes = 32 then True
                              else if leftAligned then False
                              else case type of IntegerType bits m \<Rightarrow> m = Signed | _ \<Rightarrow> True) in
         bindE (if numBytes \<noteq> 32 then rightShiftNumberOnStack ext shiftFactor c else Inr c) (\<lambda>c.
         bindE (if numBytes \<noteq> 32 \<and> leftAligned then leftShiftNumberOnStack ext shiftFactor c else Inr c) (\<lambda>c.
         bindE (if fromCalldata then cleanupType ext type cleanupNeeded True c else Inr c) (\<lambda>c.
           Inr (numBytes, c)))))))))"

definition loadFromMemory :: "CodegenExternal \<Rightarrow> nat \<Rightarrow> Type \<Rightarrow> bool \<Rightarrow> bool \<Rightarrow> 'g CompilerContext \<Rightarrow> (nat \<times> 'g CompilerContext) result" where
  "loadFromMemory ext offset type fromCalldata padToWordBoundaries c =
     bindE (assertThrow (category type \<noteq> Category_Array) InternalCompilerError) (\<lambda>_.
     bindE (append_debug (''CompilerUtils::loadFromMemory(offset='' @ decimal offset @ '', type='' @ Type_toString (cg_types ext) False type @
              '', fromCalldata='' @ bool_digit fromCalldata @ '', padToWordBoundaries='' @ bool_digit padToWordBoundaries @ '')'') c) (\<lambda>c.
     bindE (append_value ext (word_of_nat offset) c) (\<lambda>c.
       loadFromMemoryHelper ext type fromCalldata padToWordBoundaries c)))"

definition loadFromMemoryDynamic :: "CodegenExternal \<Rightarrow> Type \<Rightarrow> bool \<Rightarrow> bool \<Rightarrow> bool \<Rightarrow> 'g CompilerContext \<Rightarrow> 'g CompilerContext result" where
  "loadFromMemoryDynamic ext type fromCalldata padToWordBoundaries keepUpdatedMemoryOffset c =
     bindE (if keepUpdatedMemoryOffset then append_op ext Instruction_DUP1 c else Inr c) (\<lambda>c.
       case type of
         ArrayType loc ptr kind base len \<Rightarrow>
           bindE (assertThrow (\<not> isDynamicallySized type) InternalCompilerError) (\<lambda>_.
           bindE (assertThrow (\<not> fromCalldata) InternalCompilerError) (\<lambda>_.
           bindE (assertThrow padToWordBoundaries InternalCompilerError) (\<lambda>_.
             if keepUpdatedMemoryOffset then
               bindE (memoryDataSize type) (\<lambda>n. run_ops [append_value ext (word_of_nat n), append_op ext Instruction_ADD] c)
             else Inr c)))
       | _ \<Rightarrow>
           bindE (loadFromMemoryHelper ext type fromCalldata padToWordBoundaries c) (\<lambda>(numBytes, c).
             if keepUpdatedMemoryOffset then
               run_ops [moveToStackTop ext (sizeOnStack type) 1, append_value ext (word_of_nat numBytes), append_op ext Instruction_ADD] c
             else Inr c))"

definition prepareMemoryStore :: "CodegenExternal \<Rightarrow> Type \<Rightarrow> bool \<Rightarrow> bool \<Rightarrow> 'g CompilerContext \<Rightarrow> (nat \<times> 'g CompilerContext) result" where
  "prepareMemoryStore ext type padToWords cleanup c =
     bindE (assertThrow (sizeOnStack type = 1) InternalCompilerError) (\<lambda>_.
     bindE (assertThrow (\<not> isDynamicallyEncoded type) InternalCompilerError) (\<lambda>_.
     bindE (calldataEncodedSize padToWords type) (\<lambda>numBytes.
     bindE (append_debug (''CompilerUtils::prepareMemoryStore(type='' @ Type_toString (cg_types ext) False type @ '', ...)'') c) (\<lambda>c.
     bindE (assertThrow (numBytes > 0) InternalCompilerError) (\<lambda>_.
     bindE (assertThrow (numBytes \<le> 32) InternalCompilerError) (\<lambda>_.
     bindE (if cleanup then cleanupType ext type True False c else Inr c) (\<lambda>c.
     bindE (if numBytes \<noteq> 32 \<and> category type \<noteq> Category_FixedBytes \<and> \<not> padToWords
            then leftShiftNumberOnStack ext ((32 - numBytes) * 8) c else Inr c) (\<lambda>c.
     bindE (append_debug ''end of CompilerUtils::prepareMemoryStore()'' c) (\<lambda>c. Inr (numBytes, c))))))))))"

definition storeInMemory :: "CodegenExternal \<Rightarrow> nat \<Rightarrow> 'g CompilerContext \<Rightarrow> 'g CompilerContext result" where
  "storeInMemory ext offset c =
     bindE (append_debug (''CompilerUtils::storeInMemory(offset='' @ decimal offset @ '')'') c) (\<lambda>c.
     bindE (prepareMemoryStore ext uint256 True True c) (\<lambda>(numBytes, c).
       run_ops ((if numBytes > 0 then [append_value ext (word_of_nat offset), append_op ext Instruction_MSTORE] else []) @
                [append_debug ''end of CompilerUtils::storeInMemory()'']) c))"

text \<open>The store of a value, the last case but one of \<open>storeInMemoryDynamic\<close>.\<close>

definition storeValueInMemory :: "CodegenExternal \<Rightarrow> Type \<Rightarrow> bool \<Rightarrow> bool \<Rightarrow> 'g CompilerContext \<Rightarrow> 'g CompilerContext result" where
  "storeValueInMemory ext type padToWordBoundaries cleanup c =
     bindE (prepareMemoryStore ext type padToWordBoundaries cleanup c) (\<lambda>(numBytes, c).
       run_ops [append_op ext Instruction_DUP2, append_op ext Instruction_MSTORE,
                append_debug (''bytes of type '' @ Type_toString (cg_types ext) False type @ '': '' @ decimal numBytes),
                append_value ext (word_of_nat numBytes), append_op ext Instruction_ADD] c)"

definition storeInMemoryDynamic_frame :: "CodegenExternal \<Rightarrow> Type \<Rightarrow> bool \<Rightarrow> bool \<Rightarrow> ('g CompilerContext \<Rightarrow> 'g CompilerContext result) \<Rightarrow>
    'g CompilerContext \<Rightarrow> 'g CompilerContext result" where
  "storeInMemoryDynamic_frame ext type padToWordBoundaries cleanup body =
     run_ops [append_debug (''CompilerUtils::storeInMemoryDynamic(type='' @ Type_toString (cg_types ext) False type @
                '', _padToWordBoundaries='' @ bool_digit padToWordBoundaries @ '', _cleanup='' @ bool_digit cleanup @ '')''),
              body, append_debug ''end of CompilerUtils::storeInMemoryDynamic()'']"

definition storeWord :: "CodegenExternal \<Rightarrow> bool \<Rightarrow> bool \<Rightarrow> 'g CompilerContext \<Rightarrow> 'g CompilerContext result" where
  "storeWord ext padToWordBoundaries cleanup =
     storeInMemoryDynamic_frame ext uint256 padToWordBoundaries cleanup (storeValueInMemory ext uint256 padToWordBoundaries cleanup)"

text \<open>The loop over chunks of 32 bytes runs at most once.\<close>

definition storeStringData :: "CodegenExternal \<Rightarrow> bytes \<Rightarrow> 'g CompilerContext \<Rightarrow> 'g CompilerContext result" where
  "storeStringData ext data c =
     bindE (append_debug ''CompilerUtils::storeStringData()'' c) (\<lambda>c.
       if length data \<le> 32 then
         run_ops
           ((if data \<noteq> [] then [append_value ext (FixedHash_arith (FixedHash_of_bytes 32 data AlignLeft)), storeWord ext True True] else []) @
            [append_op ext Instruction_POP]) c
       else
         bindE (from_asm (appendData (cg_external ext) data) c) (\<lambda>(_, c).
           run_ops [append_value ext (word_of_nat (length data)), append_op ext Instruction_SWAP2, append_op ext Instruction_CODECOPY] c))"

definition storeInMemoryDynamic :: "CodegenExternal \<Rightarrow> Type \<Rightarrow> bool \<Rightarrow> bool \<Rightarrow> 'g CompilerContext \<Rightarrow> 'g CompilerContext result" where
  "storeInMemoryDynamic ext type padToWordBoundaries cleanup =
     storeInMemoryDynamic_frame ext type padToWordBoundaries cleanup
       (case type of
          ArrayType loc ptr kind base len \<Rightarrow>
            (\<lambda>c. bindE (assertThrow (loc = Memory) UnimplementedFeatureError) (\<lambda>_. storeWord ext padToWordBoundaries cleanup c))
        | StringLiteralType s \<Rightarrow>
            run_ops
              [append_op ext Instruction_DUP1, storeStringData ext (asBytes s),
               append_value ext (word_of_nat (if padToWordBoundaries then max 32 ((length s + 31) div 32 * 32) else length s)),
               append_op ext Instruction_ADD]
        | _ \<Rightarrow>
            if isValueType type then storeValueInMemory ext type padToWordBoundaries cleanup
            else (\<lambda>c. Inl InternalCompilerError))"

definition computeHashStatic :: "CodegenExternal \<Rightarrow> 'g CompilerContext \<Rightarrow> 'g CompilerContext result" where
  "computeHashStatic ext =
     run_ops [storeInMemory ext 0, append_value ext 32, append_value ext 0, append_op ext Instruction_BLAKE2B]"

definition nl_tabs :: "(nat \<times> string) list \<Rightarrow> string" where
  "nl_tabs lines = concat (map (\<lambda>(tabs, l). nl tabs @ l) lines)"

definition memoryCopy32 :: "CodegenExternal \<Rightarrow> 'g CompilerContext \<Rightarrow> 'g CompilerContext result" where
  "memoryCopy32 ext =
     run_ops
       [appendInlineAssembly ext
          (nl_tabs [(2, ''{''), (3, ''for { let i := 0 } lt(i, len) { i := add(i, 32) } {''),
                    (4, ''mstore(add(dst, i), mload(add(src, i)))''), (3, ''}''), (2, ''}''), (1, '''')])
          [''len'', ''dst'', ''src''],
        append_op ext Instruction_POP, append_op ext Instruction_POP, append_op ext Instruction_POP]"

definition memoryCopy :: "CodegenExternal \<Rightarrow> 'g CompilerContext \<Rightarrow> 'g CompilerContext result" where
  "memoryCopy ext =
     run_ops
       [appendInlineAssembly ext
          (nl_tabs [(2, ''{''), (3, ''// copy 32 bytes at once''), (3, ''for''), (4, ''{}''), (4, ''iszero(lt(len, 32))''), (4, ''{''),
                    (5, ''dst := add(dst, 32)''), (5, ''src := add(src, 32)''), (5, ''len := sub(len, 32)''), (4, ''}''),
                    (4, ''{ mstore(dst, mload(src)) }''), (0, ''''), (3, ''// copy the remainder (0 < len < 32)''),
                    (3, ''let mask := sub(exp(256, sub(32, len)), 1)''), (3, ''let srcpart := and(mload(src), not(mask))''),
                    (3, ''let dstpart := and(mload(dst), mask)''), (3, ''mstore(dst, or(srcpart, dstpart))''), (2, ''}''), (1, '''')])
          [''len'', ''dst'', ''src''],
        append_op ext Instruction_POP, append_op ext Instruction_POP, append_op ext Instruction_POP]"

section \<open>Conversions that build arrays\<close>

definition hasSimpleZeroValueInMemory :: "Type \<Rightarrow> bool" where
  "hasSimpleZeroValueInMemory t \<longleftrightarrow> category t \<noteq> Category_Array"

definition memoryStride :: "ArrayKind \<Rightarrow> Type \<Rightarrow> nat result" where
  "memoryStride kind base = (if kind \<noteq> Ordinary_array then Inr 1 else memoryHeadSize base)"

definition string_to_memory :: "CodegenExternal \<Rightarrow> string \<Rightarrow> 'g CompilerContext \<Rightarrow> 'g CompilerContext result" where
  "string_to_memory ext s =
     run_ops [allocateMemory_size ext (word_of_nat (32 + (length s + 31) div 32 * 32)), append_op ext Instruction_DUP1,
              append_value ext (word_of_nat (length s)), storeWord ext True True, storeStringData ext (asBytes s)]"

text \<open>
  The copy of an array from storage or call data to memory; \<open>convertBase\<close> converts an element. An array in call data with dynamically encoded elements
  needs the second version of the encoder.
\<close>

definition copy_elements :: "CodegenExternal \<Rightarrow> ArrayCode \<Rightarrow> ('g CompilerContext \<Rightarrow> 'g CompilerContext result) \<Rightarrow> Type \<Rightarrow> DataLocation \<Rightarrow> Type \<Rightarrow> nat \<Rightarrow>
    'g CompilerContext \<Rightarrow> 'g CompilerContext result" where
  "copy_elements ext ac convertBase typeOnStack location targetBase stackSize c =
     bindE (run_ops [append_value ext 0, append_op ext Instruction_SWAP1] c) (\<lambda>c.
     bindE (CompilerContext_newTag '''' c) (\<lambda>(repeat, c).
     bindE (run_ops [append_item ext repeat, append_op ext Instruction_DUP3, append_op ext Instruction_DUP3,
                     append_op ext Instruction_LT, append_op ext Instruction_ISZERO] c) (\<lambda>c.
     bindE (appendConditionalJump ext '''' c) (\<lambda>(loopEnd, c).
     bindE (run_ops
       ([copyToStackTop ext (3 + stackSize) stackSize, copyToStackTop ext (2 + stackSize) 1, on_asm (ac_accessIndex ac typeOnStack)] @
        (case typeOnStack of
           ArrayType loc ptr kind base len \<Rightarrow> if loc = Storage then [on_asm (ac_retrieveValue ac base)] else []
         | _ \<Rightarrow> []) @
        [convertBase, storeInMemoryDynamic ext targetBase True True, append_op ext Instruction_SWAP1, append_value ext 1,
         append_op ext Instruction_ADD, append_op ext Instruction_SWAP1, CompilerContext_appendJumpTo ext repeat Ordinary,
         append_item ext loopEnd, append_op ext Instruction_POP]) c) (\<lambda>c. Inr c)))))"

definition copy_array :: "CodegenExternal \<Rightarrow> ArrayCode \<Rightarrow> ('g CompilerContext \<Rightarrow> 'g CompilerContext result) \<Rightarrow> Type \<Rightarrow> Type \<Rightarrow>
    'g CompilerContext \<Rightarrow> 'g CompilerContext result" where
  "copy_array ext ac convertBase typeOnStack targetType c =
     (case (typeOnStack, targetType) of
        (ArrayType loc ptr kind base len, ArrayType loc' ptr' kind' base' len') \<Rightarrow>
          (let stackSize = sizeOnStack typeOnStack in
           if loc = CallData \<and> isDynamicallyEncoded base then
             bindE (assertThrow (m_useABICoderV2 c) InternalCompilerError) (\<lambda>_.
             bindE (assertThrow (stackSize = (if isDynamicallySized typeOnStack then 2 else 1)) InternalCompilerError) (\<lambda>_.
               run_ops
                 ((if isDynamicallySized typeOnStack then [append_op ext Instruction_SWAP1] else []) @
                  [callYulFunction ext (ac_conversionFunction ac typeOnStack targetType) (if isDynamicallySized typeOnStack then 2 else 1) 1]) c))
           else
             run_ops
               ([on_asm (ac_retrieveLength ac typeOnStack), append_op ext Instruction_DUP1, on_asm (ac_convertLengthToSize ac targetType)] @
                (if isDynamicallySized targetType then [append_value ext 0x20, append_op ext Instruction_ADD] else []) @
                [allocateMemory ext, append_op ext Instruction_DUP1, moveIntoStack ext (2 + stackSize) 1] @
                (if isDynamicallySized targetType then [append_op ext Instruction_DUP2, storeWord ext True True] else []) @
                (if isValueType base' then
                   [copyToStackTop ext (2 + stackSize) stackSize, on_asm (ac_copyArrayToMemory ac typeOnStack True)]
                 else [copy_elements ext ac convertBase typeOnStack loc base' stackSize]) @
                [popStackSlots ext (2 + stackSize)]) c)
      | _ \<Rightarrow> Inl InternalCompilerError)"

fun convertType :: "CodegenExternal \<Rightarrow> ArrayCode \<Rightarrow> Type \<Rightarrow> Type \<Rightarrow> bool \<Rightarrow> bool \<Rightarrow> bool \<Rightarrow> 'g CompilerContext \<Rightarrow> 'g CompilerContext result" where
  "convertType ext ac (ArrayType loc ptr kind base len) targetType cleanupNeeded chopSignBits asPartOfArgumentDecoding =
     convert_frame ext (ArrayType loc ptr kind base len) targetType cleanupNeeded chopSignBits
       (convert_body ext
          (copy_array ext ac
             (\<lambda>c. case targetType of
                    ArrayType loc' ptr' kind' base' len' \<Rightarrow> convertType ext ac base base' cleanupNeeded False False c
                  | _ \<Rightarrow> Inl InternalCompilerError)
             (ArrayType loc ptr kind base len) targetType)
          (\<lambda>c. Inl UndefinedBehaviour) (ArrayType loc ptr kind base len) targetType cleanupNeeded asPartOfArgumentDecoding)"
| "convertType ext ac typeOnStack targetType cleanupNeeded chopSignBits asPartOfArgumentDecoding =
     convert_frame ext typeOnStack targetType cleanupNeeded chopSignBits
       (convert_body ext (\<lambda>c. Inl UndefinedBehaviour)
          (case typeOnStack of StringLiteralType s \<Rightarrow> string_to_memory ext s | _ \<Rightarrow> (\<lambda>c. Inl UndefinedBehaviour))
          typeOnStack targetType cleanupNeeded asPartOfArgumentDecoding)"

section \<open>Zero values\<close>

text \<open>The zero value of a static array in memory comes from a low-level function, which is generated later.\<close>

definition pushZeroValue :: "CodegenExternal \<Rightarrow> Type \<Rightarrow> ctx \<Rightarrow> ctx result" where
  "pushZeroValue ext type =
     (case type of
        ArrayType loc ptr kind base len \<Rightarrow>
          (case loc of
             Storage \<Rightarrow> run_ops (replicate (sizeOnStack type) (append_value ext 0))
           | CallData \<Rightarrow> run_ops (append_op ext Instruction_CALLDATASIZE # (if sizeOnStack type = 2 then [append_value ext 0] else []))
           | Memory \<Rightarrow>
               if isDynamicallySized type then pushZeroPointer ext
               else (\<lambda>c. bindE (Type_identifier type) (\<lambda>name.
                      callLowLevelFunction ext (''$pushZeroValue_'' @ name) 0 1 (GenPushZeroValue type) c)))
      | _ \<Rightarrow> run_ops (replicate (sizeOnStack type) (append_value ext 0)))"

definition zeroInitialiseMemoryArray :: "CodegenExternal \<Rightarrow> ArrayKind \<Rightarrow> Type \<Rightarrow> ctx \<Rightarrow> ctx result" where
  "zeroInitialiseMemoryArray ext kind base c =
     bindE
       (if hasSimpleZeroValueInMemory base then
          bindE (assertThrow (isValueType base) InternalCompilerError) (\<lambda>_.
          bindE (memoryStride kind base) (\<lambda>stride.
            appendInlineAssembly ext
              (cg_render ext
                 (''{'' @ nl_tabs [(3, ''let size := mul(length, <element_size>)''), (3, ''// cheap way of zero-initializing a memory range''),
                    (3, ''calldatacopy(memptr, calldatasize(), size)''), (3, ''memptr := add(memptr, size)''), (2, ''}'')])
                 [(''element_size'', decimal stride)]) [''length'', ''memptr''] c))
        else
          bindE (CompilerContext_newTag '''' c) (\<lambda>(repeat, c).
            run_ops
              [append_item ext repeat, pushZeroValue ext base, storeInMemoryDynamic ext base True True,
               append_op ext Instruction_SWAP1, append_value ext 1, append_op ext Instruction_SWAP1, append_op ext Instruction_SUB,
               append_op ext Instruction_SWAP1, append_op ext Instruction_DUP2, appendConditionalJumpTo ext repeat] c))
       (run_ops [append_op ext Instruction_SWAP1, append_op ext Instruction_POP])"

fun generate :: "CodegenExternal \<Rightarrow> Generator \<Rightarrow> ctx \<Rightarrow> ctx result" where
  "generate ext (GenPushZeroValue type) c =
     bindE (memoryDataSize type) (\<lambda>bytes.
     bindE (run_ops [allocateMemory_size ext (max 32 (word_of_nat bytes)), append_op ext Instruction_DUP1] c) (\<lambda>c.
     bindE (case type of
              ArrayType loc ptr kind base len \<Rightarrow>
                (case len of
                   None \<Rightarrow> Inl InternalCompilerError
                 | Some n \<Rightarrow>
                     if n > 0 then
                       run_ops [append_value ext (word_of_nat n), append_op ext Instruction_SWAP1, zeroInitialiseMemoryArray ext kind base] c
                     else Inr c)
            | _ \<Rightarrow> Inl InternalCompilerError) (\<lambda>c.
       append_op ext Instruction_POP c)))"

end
