(* ===== verification/StackMachine.thy ===== *)
theory StackMachine
  imports CompilerUtils
begin

text \<open>
  A reference for the code that the code generator appends: a machine with a stack and a memory that executes assembly items, with jumps to labels. It
  gives the documented meaning of the instructions that this code uses, and no meaning to others. The relation \<open>does\<close> says that an operation of the code
  generator appends code that takes one state of the machine to another, while the tracked height of the stack stays the real one;
  \<open>labelled\<close> also counts the labels that the code defines.
\<close>

section \<open>The machine\<close>

record VM =
  vm_stack :: "u256 list"
  vm_memory :: "nat \<Rightarrow> byte"

definition signextend :: "u256 \<Rightarrow> u256 \<Rightarrow> u256" where
  "signextend k x = (if k < 31 then word_of_int (signed_take_bit (8 * unat k + 7) (uint x)) else x)"

definition binary_op :: "Instruction \<Rightarrow> (u256 \<Rightarrow> u256 \<Rightarrow> u256) option" where
  "binary_op = map_of
     [(Instruction_ADD, (+)), (Instruction_MUL, (*)), (Instruction_SUB, (-)), (Instruction_DIV, (div)),
      (Instruction_EXP, \<lambda>a b. a ^ unat b),
      (Instruction_AND, and), (Instruction_OR, or), (Instruction_XOR, xor),
      (Instruction_EQ, \<lambda>a b. of_bool (a = b)),
      (Instruction_LT, \<lambda>a b. of_bool (a < b)), (Instruction_GT, \<lambda>a b. of_bool (a > b)),
      (Instruction_SLT, \<lambda>a b. of_bool (sint a < sint b)), (Instruction_SGT, \<lambda>a b. of_bool (sint a > sint b)),
      (Instruction_SIGNEXTEND, signextend),
      (Instruction_SHL, \<lambda>s v. push_bit (unat s) v), (Instruction_SHR, \<lambda>s v. drop_bit (unat s) v),
      (Instruction_SAR, \<lambda>s v. signed_drop_bit (unat s) v)]"

definition unary_op :: "Instruction \<Rightarrow> (u256 \<Rightarrow> u256) option" where
  "unary_op = map_of [(Instruction_ISZERO, \<lambda>a. of_bool (a = 0)), (Instruction_NOT, not)]"

definition mem_load :: "(nat \<Rightarrow> byte) \<Rightarrow> nat \<Rightarrow> u256" where
  "mem_load m a = word_of_nat (be_value (map m [a..<a + 32]))"

definition mem_store :: "(nat \<Rightarrow> byte) \<Rightarrow> nat \<Rightarrow> u256 \<Rightarrow> nat \<Rightarrow> byte" where
  "mem_store m a w = (\<lambda>k. if a \<le> k \<and> k < a + 32 then be 32 (unat w) ! (k - a) else m k)"

definition swap_top :: "nat \<Rightarrow> 'a list \<Rightarrow> 'a list" where
  "swap_top k st = st[0 := st ! k, k := st ! 0]"

lemma length_swap_top [simp]: "length (swap_top k st) = length st"
  by (simp add: swap_top_def)

definition exec_op :: "Instruction \<Rightarrow> VM \<Rightarrow> VM option" where
  "exec_op i vm =
     (let st = vm_stack vm; n = unat (getDupNumber i); k = unat (getSwapNumber i) in
      case binary_op i of
        Some f \<Rightarrow> (case st of a # b # st \<Rightarrow> Some (vm\<lparr>vm_stack := f a b # st\<rparr>) | _ \<Rightarrow> None)
      | None \<Rightarrow>
          (case unary_op i of
             Some f \<Rightarrow> (case st of a # st \<Rightarrow> Some (vm\<lparr>vm_stack := f a # st\<rparr>) | _ \<Rightarrow> None)
           | None \<Rightarrow>
               if i = Instruction_POP then (case st of a # st \<Rightarrow> Some (vm\<lparr>vm_stack := st\<rparr>) | _ \<Rightarrow> None)
               else if isDupInstruction i then (if n \<le> length st then Some (vm\<lparr>vm_stack := st ! (n - 1) # st\<rparr>) else None)
               else if isSwapInstruction i then
                 (if k < length st then Some (vm\<lparr>vm_stack := swap_top k st\<rparr>) else None)
               else if i = Instruction_MLOAD then
                 (case st of a # st \<Rightarrow> Some (vm\<lparr>vm_stack := mem_load (vm_memory vm) (unat a) # st\<rparr>) | _ \<Rightarrow> None)
               else if i = Instruction_MSTORE then
                 (case st of a # w # st \<Rightarrow> Some (vm\<lparr>vm_stack := st, vm_memory := mem_store (vm_memory vm) (unat a) w\<rparr>) | _ \<Rightarrow> None)
               else None))"

definition exec_item :: "AssemblyItem \<Rightarrow> VM \<Rightarrow> VM option" where
  "exec_item it vm =
     (case it_type it of
        Push \<Rightarrow> (case it_data it of Some d \<Rightarrow> Some (vm\<lparr>vm_stack := d # vm_stack vm\<rparr>) | None \<Rightarrow> None)
      | PushTag \<Rightarrow> (case it_data it of Some d \<Rightarrow> Some (vm\<lparr>vm_stack := d # vm_stack vm\<rparr>) | None \<Rightarrow> None)
      | Operation \<Rightarrow> exec_op (it_instruction it) vm
      | _ \<Rightarrow> None)"

text \<open>A jump goes to the label with the number on the stack; a label in the program has no other effect.\<close>

fun labels :: "AssemblyItem list \<Rightarrow> u256 list" where
  "labels [] = []"
| "labels (i # is) = (case it_data i of Some d \<Rightarrow> if it_type i = Tag then d # labels is else labels is | None \<Rightarrow> labels is)"

fun label_position :: "AssemblyItem list \<Rightarrow> u256 \<Rightarrow> nat option" where
  "label_position [] l = None"
| "label_position (i # is) l =
     (if it_type i = Tag \<and> it_data i = Some l then Some 0 else map_option Suc (label_position is l))"

definition machine_step :: "AssemblyItem list \<Rightarrow> nat \<times> VM \<Rightarrow> (nat \<times> VM) option" where
  "machine_step P = (\<lambda>(pc, vm).
     if pc < length P then
       let i = P ! pc; jump = (\<lambda>l vm. map_option (\<lambda>k. (k, vm)) (label_position P l)) in
       if it_type i = Tag then Some (pc + 1, vm)
       else if it_type i = Operation \<and> it_instruction i = Instruction_JUMP then
         (case vm_stack vm of l # st \<Rightarrow> jump l (vm\<lparr>vm_stack := st\<rparr>) | _ \<Rightarrow> None)
       else if it_type i = Operation \<and> it_instruction i = Instruction_JUMPI then
         (case vm_stack vm of
            l # b # st \<Rightarrow> if b \<noteq> 0 then jump l (vm\<lparr>vm_stack := st\<rparr>) else Some (pc + 1, vm\<lparr>vm_stack := st\<rparr>)
          | _ \<Rightarrow> None)
       else map_option (\<lambda>vm. (pc + 1, vm)) (exec_item i vm)
     else None)"

definition runs :: "AssemblyItem list \<Rightarrow> nat \<times> VM \<Rightarrow> nat \<times> VM \<Rightarrow> bool" where
  "runs P = (\<lambda>x y. machine_step P x = Some y)\<^sup>*\<^sup>*"

text \<open>What a piece of code does wherever it stands in a program that defines no label twice.\<close>

definition executes :: "AssemblyItem list \<Rightarrow> VM \<Rightarrow> VM \<Rightarrow> bool" where
  "executes code vm vm' \<longleftrightarrow>
     (\<forall>pre post. distinct (labels (pre @ code @ post)) \<longrightarrow>
        runs (pre @ code @ post) (length pre, vm) (length pre + length code, vm'))"

lemma runs_refl [simp]: "runs P x x"
  by (simp add: runs_def)

lemma runs_trans: "runs P x y \<Longrightarrow> runs P y z \<Longrightarrow> runs P x z"
  unfolding runs_def by (rule rtranclp_trans)

lemma runs_step: "machine_step P x = Some y \<Longrightarrow> runs P x y"
  unfolding runs_def by (rule r_into_rtranclp)

lemma executes_Nil: "executes [] vm vm"
  by (simp add: executes_def)

lemma executes_append: "executes xs vm vm1 \<Longrightarrow> executes ys vm1 vm2 \<Longrightarrow> executes (xs @ ys) vm vm2"
  unfolding executes_def
proof (intro allI impI)
  fix pre post
  assume x: "\<forall>pre post. distinct (labels (pre @ xs @ post)) \<longrightarrow> runs (pre @ xs @ post) (length pre, vm) (length pre + length xs, vm1)"
    and y: "\<forall>pre post. distinct (labels (pre @ ys @ post)) \<longrightarrow> runs (pre @ ys @ post) (length pre, vm1) (length pre + length ys, vm2)"
    and d: "distinct (labels (pre @ (xs @ ys) @ post))"
  show "runs (pre @ (xs @ ys) @ post) (length pre, vm) (length pre + length (xs @ ys), vm2)"
    using runs_trans [of "pre @ xs @ ys @ post" "(length pre, vm)" "(length pre + length xs, vm1)"]
      x [rule_format, of pre "ys @ post"] y [rule_format, of "pre @ xs" post] d by (simp add: add.assoc)
qed

lemma exec_no_jump: "exec_item i vm = Some vm' \<Longrightarrow> it_type i \<noteq> Tag \<and>
    \<not> (it_type i = Operation \<and> (it_instruction i = Instruction_JUMP \<or> it_instruction i = Instruction_JUMPI))"
  by (auto simp: exec_item_def exec_op_def binary_op_def unary_op_def Let_def Instruction_defs isDupInstruction_def isSwapInstruction_def
      split: AssemblyItemType.splits if_splits)

lemma executes_item: "exec_item i vm = Some vm' \<Longrightarrow> executes [i] vm vm'"
  unfolding executes_def using exec_no_jump [of i vm vm']
  by (auto intro!: runs_step simp: machine_step_def Let_def nth_append)

lemma labels_append [simp]: "labels (xs @ ys) = labels xs @ labels ys"
  by (induction xs) (auto split: option.splits)

section \<open>Stack effects\<close>

definition op_effect :: "Instruction \<Rightarrow> int option" where
  "op_effect i =
     (if binary_op i \<noteq> None then Some (- 1) else if unary_op i \<noteq> None then Some 0 else if i = Instruction_POP then Some (- 1)
      else if isDupInstruction i then Some 1 else if isSwapInstruction i then Some 0
      else if i = Instruction_MLOAD then Some 0 else if i = Instruction_MSTORE then Some (- 2) else None)"

lemma exec_op_effect: "exec_op i vm = Some vm' \<Longrightarrow> op_effect i = Some (int (length (vm_stack vm')) - int (length (vm_stack vm)))"
  by (auto simp: exec_op_def op_effect_def Let_def split: option.splits list.splits if_splits)

lemma binary_op_dom: "binary_op i \<noteq> None \<longleftrightarrow> i \<in> {Instruction_ADD, Instruction_MUL, Instruction_SUB, Instruction_DIV, Instruction_EXP, Instruction_AND, Instruction_OR, Instruction_XOR,
    Instruction_EQ, Instruction_LT, Instruction_GT, Instruction_SLT, Instruction_SGT, Instruction_SIGNEXTEND, Instruction_SHL, Instruction_SHR,
    Instruction_SAR}"
  by (simp add: binary_op_def map_of_eq_None_iff)

lemma unary_op_dom: "unary_op i \<noteq> None \<longleftrightarrow> i \<in> {Instruction_ISZERO, Instruction_NOT}"
  by (simp add: unary_op_def map_of_eq_None_iff)

definition op_effect' :: "Instruction \<Rightarrow> int option" where
  "op_effect' i =
     (if list_ex (\<lambda>j. i = j) [Instruction_ADD, Instruction_MUL, Instruction_SUB, Instruction_DIV, Instruction_EXP, Instruction_AND, Instruction_OR, Instruction_XOR,
    Instruction_EQ, Instruction_LT, Instruction_GT, Instruction_SLT, Instruction_SGT, Instruction_SIGNEXTEND, Instruction_SHL, Instruction_SHR,
    Instruction_SAR] then Some (- 1)
      else if list_ex (\<lambda>j. i = j) [Instruction_ISZERO, Instruction_NOT] then Some 0 else if i = Instruction_POP then Some (- 1)
      else if isDupInstruction i then Some 1 else if isSwapInstruction i then Some 0
      else if i = Instruction_MLOAD then Some 0 else if i = Instruction_MSTORE then Some (- 2) else None)"

lemma op_effect_eq: "op_effect i = op_effect' i"
  unfolding op_effect_def op_effect'_def binary_op_dom unary_op_dom by simp

lemma op_effect_table: "list_all (\<lambda>(i, r). case op_effect' i of None \<Rightarrow> True | Some e \<Rightarrow> info_ret r - info_args r = e) c_instructionInfo"
  by code_simp

lemma valid_dup: "isDupInstruction i \<Longrightarrow> isValidInstruction i"
proof -
  assume "isDupInstruction i"
  then have "unat i \<in> set [128..<144]"
    unfolding set_upt by (simp add: isDupInstruction_def Instruction_defs word_le_nat_alt)
  moreover have "list_all (\<lambda>k. isValidInstruction (of_nat k)) [128..<144]" by code_simp
  ultimately have "isValidInstruction (of_nat (unat i))" unfolding list_all_iff by blast
  then show ?thesis by simp
qed

lemma valid_swap: "isSwapInstruction i \<Longrightarrow> isValidInstruction i"
proof -
  assume "isSwapInstruction i"
  then have "unat i \<in> set [144..<160]"
    unfolding set_upt by (simp add: isSwapInstruction_def Instruction_defs word_le_nat_alt)
  moreover have "list_all (\<lambda>k. isValidInstruction (of_nat k)) [144..<160]" by code_simp
  ultimately have "isValidInstruction (of_nat (unat i))" unfolding list_all_iff by blast
  then show ?thesis by simp
qed

lemma valid_effect: "op_effect' i \<noteq> None \<Longrightarrow> isValidInstruction i"
proof -
  assume "op_effect' i \<noteq> None"
  then have "isDupInstruction i \<or> isSwapInstruction i \<or> list_ex (\<lambda>j. i = j) [Instruction_ADD, Instruction_MUL, Instruction_SUB, Instruction_DIV, Instruction_EXP, Instruction_AND, Instruction_OR, Instruction_XOR,
    Instruction_EQ, Instruction_LT, Instruction_GT, Instruction_SLT, Instruction_SGT, Instruction_SIGNEXTEND, Instruction_SHL, Instruction_SHR,
    Instruction_SAR, Instruction_ISZERO, Instruction_NOT,
           Instruction_POP, Instruction_MLOAD, Instruction_MSTORE]"
    by (auto simp: op_effect'_def split: if_splits)
  moreover have "list_all isValidInstruction [Instruction_ADD, Instruction_MUL, Instruction_SUB, Instruction_DIV, Instruction_EXP, Instruction_AND, Instruction_OR, Instruction_XOR,
    Instruction_EQ, Instruction_LT, Instruction_GT, Instruction_SLT, Instruction_SGT, Instruction_SIGNEXTEND, Instruction_SHL, Instruction_SHR,
    Instruction_SAR, Instruction_ISZERO, Instruction_NOT,
           Instruction_POP, Instruction_MLOAD, Instruction_MSTORE]" by code_simp
  ultimately show ?thesis using valid_dup valid_swap by (auto simp: list_all_iff list_ex_iff)
qed

lemma deposit_word: "- (2 ^ 31) \<le> r - a \<Longrightarrow> r - a < 2 ^ 31 \<Longrightarrow> sint (ucast (word_of_int r - word_of_int a :: u64) :: u32) = r - a"
proof -
  assume b: "- (2 ^ 31) \<le> r - a" "r - a < 2 ^ 31"
  have "(ucast (word_of_int r - word_of_int a :: u64) :: u32) = word_of_int (r - a)"
    unfolding wi_hom_sub by transfer simp
  then show ?thesis using b by (simp only: sint_sbintrunc') (simp add: signed_take_bit_int_eq_self)
qed

text \<open>The table of instructions agrees with the machine on how the height of the stack changes.\<close>

lemma exec_op_deposit:
  assumes "exec_op i vm = Some vm'"
  shows "sint (ucast (item_deposit (AssemblyItem_of_instruction i loc)) :: u32) = int (length (vm_stack vm')) - int (length (vm_stack vm))"
proof -
  have e: "op_effect' i = Some (int (length (vm_stack vm')) - int (length (vm_stack vm)))"
    using exec_op_effect [OF assms] by (simp only: op_effect_eq)
  then have "info_ret (instructionInfo i) - info_args (instructionInfo i) = int (length (vm_stack vm')) - int (length (vm_stack vm))"
    using all_instructions [OF op_effect_table valid_effect, of i] by simp
  moreover have "int (length (vm_stack vm')) - int (length (vm_stack vm)) \<in> {- 2..1}"
    using e by (auto simp: op_effect'_def split: if_splits)
  ultimately show ?thesis
    using deposit_word [of "info_ret (instructionInfo i)" "info_args (instructionInfo i)"]
    by (simp add: item_deposit_def item_returnValues_def item_arguments_def AssemblyItem_of_instruction_def)
qed

section \<open>What an operation does\<close>

text \<open>The tracked height of the stack is the real one, and the number of the next label.\<close>

definition tracks :: "Assembly \<Rightarrow> VM \<Rightarrow> bool" where
  "tracks a vm \<longleftrightarrow> m_deposit (m_state a) = int (length (vm_stack vm))"

definition next_label :: "Assembly \<Rightarrow> nat" where
  "next_label a = unat (m_usedTags (m_state a))"

text \<open>
  Whatever the assembly of the context, if it tracks the height of the machine and has \<open>n\<close> more labels, the operation succeeds and changes only
  the assembly, to which it appends code that takes the machine from one state to the other; the new assembly tracks the new height. The code
  defines the \<open>n\<close> labels at most, each once.
\<close>

definition labelled :: "'g CompilerContext \<Rightarrow> nat \<Rightarrow> ('g CompilerContext \<Rightarrow> 'g CompilerContext result) \<Rightarrow> VM \<Rightarrow> VM \<Rightarrow> bool" where
  "labelled c n f vm vm' \<longleftrightarrow>
     (\<forall>a. tracks a vm \<longrightarrow> next_label a + n < 2 ^ 32 \<longrightarrow>
        (\<exists>a' code. f (c\<lparr>m_asm := a\<rparr>) = Inr (c\<lparr>m_asm := a'\<rparr>) \<and> m_items (m_state a') = m_items (m_state a) @ code \<and>
           executes code vm vm' \<and> tracks a' vm' \<and>
           next_label a' = next_label a + n \<and> distinct (labels code) \<and> unat ` set (labels code) \<subseteq> {next_label a..<next_label a + n}))"

abbreviation does :: "'g CompilerContext \<Rightarrow> ('g CompilerContext \<Rightarrow> 'g CompilerContext result) \<Rightarrow> VM \<Rightarrow> VM \<Rightarrow> bool" where
  "does c \<equiv> labelled c 0"

lemma labelled_step:
  assumes "labelled c n f vm vm'" "tracks a vm" "next_label a + n < 2 ^ 32"
  obtains a' code where "f (c\<lparr>m_asm := a\<rparr>) = Inr (c\<lparr>m_asm := a'\<rparr>)" "m_items (m_state a') = m_items (m_state a) @ code" "executes code vm vm'"
    "tracks a' vm'" "next_label a' = next_label a + n" "distinct (labels code)" "unat ` set (labels code) \<subseteq> {next_label a..<next_label a + n}"
  using assms unfolding labelled_def by blast

text \<open>A proof that an operation behaves as another one does compares the two on the contexts that differ in the assembly.\<close>

lemma labelled_cong: "labelled c n g vm vm' \<Longrightarrow> (\<And>a. f (c\<lparr>m_asm := a\<rparr>) = g (c\<lparr>m_asm := a\<rparr>)) \<Longrightarrow> labelled c n f vm vm'"
  by (simp add: labelled_def)

lemma labelled_skip: "labelled c 0 Inr vm vm"
  by (auto simp: labelled_def executes_Nil intro!: exI [of _ "[]"])

lemma does_skip: "does c Inr vm vm"
  by (rule labelled_skip)

lemma labelled_bind:
  assumes f: "labelled c n f vm vm1" and g: "labelled c k g vm1 vm2"
  shows "labelled c (n + k) (\<lambda>c. bindE (f c) g) vm vm2"
  unfolding labelled_def
proof (intro allI impI)
  fix a
  assume a: "tracks a vm" "next_label a + (n + k) < 2 ^ 32"
  have "next_label a + n < 2 ^ 32" using a(2) by simp
  then obtain a1 code where 1: "f (c\<lparr>m_asm := a\<rparr>) = Inr (c\<lparr>m_asm := a1\<rparr>)" "m_items (m_state a1) = m_items (m_state a) @ code" "executes code vm vm1"
      "tracks a1 vm1" "next_label a1 = next_label a + n" "distinct (labels code)" "unat ` set (labels code) \<subseteq> {next_label a..<next_label a + n}"
    using labelled_step [OF f a(1)] by metis
  have "next_label a1 + k < 2 ^ 32" using a(2) 1(5) by simp
  then obtain a2 code' where 2: "g (c\<lparr>m_asm := a1\<rparr>) = Inr (c\<lparr>m_asm := a2\<rparr>)" "m_items (m_state a2) = m_items (m_state a1) @ code'"
      "executes code' vm1 vm2" "tracks a2 vm2" "next_label a2 = next_label a1 + k" "distinct (labels code')"
      "unat ` set (labels code') \<subseteq> {next_label a1..<next_label a1 + k}"
    using labelled_step [OF g 1(4)] by metis
  have "unat ` set (labels code) \<inter> unat ` set (labels code') = {}" using 1(5,7) 2(7) by fastforce
  then have "set (labels code) \<inter> set (labels code') = {}" by blast
  moreover have "unat ` set (labels (code @ code')) \<subseteq> {next_label a..<next_label a + (n + k)}" using 1(5,7) 2(7) by fastforce
  ultimately show "\<exists>a' code. bindE (f (c\<lparr>m_asm := a\<rparr>)) g = Inr (c\<lparr>m_asm := a'\<rparr>) \<and> m_items (m_state a') = m_items (m_state a) @ code \<and>
      executes code vm vm2 \<and> tracks a' vm2 \<and> next_label a' = next_label a + (n + k) \<and> distinct (labels code) \<and>
      unat ` set (labels code) \<subseteq> {next_label a..<next_label a + (n + k)}"
    using 1 2 executes_append [OF 1(3) 2(3)] by (intro exI [of _ a2] exI [of _ "code @ code'"]) simp
qed

lemma run_ops_Nil [simp]: "run_ops [] = Inr"
  by (simp add: run_ops_def fun_eq_iff)

lemma run_ops_abs: "(\<lambda>c. foldE (\<lambda>c f. f c) c fs) = run_ops fs"
  by (simp add: run_ops_def fun_eq_iff)

lemma run_ops_Cons: "run_ops (f # fs) = (\<lambda>c. bindE (f c) (run_ops fs))"
  by (simp add: run_ops_abs [symmetric])

lemma run_ops_append: "run_ops (fs @ gs) = (\<lambda>c. bindE (run_ops fs c) (run_ops gs))"
  by (simp add: run_ops_abs [symmetric] foldE_append)

lemma labelled_Cons: "labelled c n f vm vm1 \<Longrightarrow> labelled c k (run_ops fs) vm1 vm2 \<Longrightarrow> labelled c (n + k) (run_ops (f # fs)) vm vm2"
  unfolding run_ops_Cons by (rule labelled_bind)

lemma does_Nil: "does c (run_ops []) vm vm"
  by (simp add: does_skip)

lemma does_Cons: "does c f vm vm1 \<Longrightarrow> does c (run_ops fs) vm1 vm2 \<Longrightarrow> does c (run_ops (f # fs)) vm vm2"
  using labelled_Cons [of c 0 f vm vm1 0 fs vm2] by simp

lemma does_append: "does c (run_ops fs) vm vm1 \<Longrightarrow> does c (run_ops gs) vm1 vm2 \<Longrightarrow> does c (run_ops (fs @ gs)) vm vm2"
  using labelled_bind [of c 0 "run_ops fs" vm vm1 0 "run_ops gs" vm2] by (simp add: run_ops_append)

lemma does_assert: "b \<Longrightarrow> does c f vm vm' \<Longrightarrow> does c (\<lambda>c. bindE (assertThrow b e) (\<lambda>_. f c)) vm vm'"
  by (simp add: assertThrow_def)

text \<open>The operations that append one item, and debug information.\<close>

definition located :: "CodegenExternal \<Rightarrow> Assembly \<Rightarrow> AssemblyItem \<Rightarrow> AssemblyItem" where
  "located ext a i =
     (let s = m_state a;
          i1 = (if \<not> ext_isValid (cg_external ext) (it_location i) \<and> ext_isValid (cg_external ext) (m_currentSourceLocation s)
                then i\<lparr>it_location := m_currentSourceLocation s\<rparr> else i)
      in i1\<lparr>it_modifierDepth := m_currentModifierDepth s\<rparr>)"

lemma located_simps [simp]: "it_type (located ext a i) = it_type i" "it_instruction (located ext a i) = it_instruction i"
  "it_data (located ext a i) = it_data i"
  by (simp_all add: located_def Let_def)

lemma exec_located [simp]: "exec_item (located ext a i) vm = exec_item i vm"
  by (simp add: exec_item_def split: AssemblyItemType.split)

lemma Assembly_append_eq:
  assumes "tracks a vm"
  shows "Assembly_append (cg_external ext) i a =
    Inr (located ext a i, upd (\<lambda>s. s\<lparr>m_deposit := m_deposit s + sint (ucast (item_deposit i) :: u32), m_items := m_items s @ [located ext a i]\<rparr>) a)"
  using assms by (simp add: Assembly_append_def tracks_def located_def Let_def)

lemma does_item:
  assumes "exec_item i vm = Some vm'"
    and "sint (ucast (item_deposit i) :: u32) = int (length (vm_stack vm')) - int (length (vm_stack vm))"
  shows "does c (append_item ext i) vm vm'"
  unfolding labelled_def
proof (intro allI impI)
  fix a
  assume a: "tracks a vm"
  define a' where "a' = upd (\<lambda>s. s\<lparr>m_deposit := m_deposit s + sint (ucast (item_deposit i) :: u32), m_items := m_items s @ [located ext a i]\<rparr>) a"
  have "append_item ext i (c\<lparr>m_asm := a\<rparr>) = Inr (c\<lparr>m_asm := a'\<rparr>)"
    by (simp add: append_item_def on_asm_def Assembly_append_eq [OF a] a'_def)
  moreover have "it_type i \<noteq> Tag" using exec_no_jump [OF assms(1)] by simp
  ultimately show "\<exists>a' code. append_item ext i (c\<lparr>m_asm := a\<rparr>) = Inr (c\<lparr>m_asm := a'\<rparr>) \<and> m_items (m_state a') = m_items (m_state a) @ code \<and>
      executes code vm vm' \<and> tracks a' vm' \<and> next_label a' = next_label a + 0 \<and> distinct (labels code) \<and>
      unat ` set (labels code) \<subseteq> {next_label a..<next_label a + 0}"
    using a assms by (intro exI [of _ a'] exI [of _ "[located ext a i]"])
      (auto simp: a'_def tracks_def next_label_def executes_item split: option.splits)
qed

lemma does_op: "exec_op i vm = Some vm' \<Longrightarrow> does c (append_op ext i) vm vm'"
  unfolding append_op_def
  by (rule does_item) (simp_all add: exec_op_deposit exec_item_def AssemblyItem_of_instruction_def, simp add: exec_op_deposit [unfolded AssemblyItem_of_instruction_def])

lemma does_value: "does c (append_value ext w) vm (vm\<lparr>vm_stack := w # vm_stack vm\<rparr>)"
  unfolding append_value_def
  by (rule does_item) (simp_all add: exec_item_def AssemblyItem_of_u256_def AssemblyItem_make_def item_deposit_def item_returnValues_def item_arguments_def)

lemma does_debug: "does c (append_debug s) vm vm"
  by (auto simp: labelled_def append_debug_def on_asm_def appendDebugInfo_def Let_def tracks_def next_label_def executes_Nil intro!: exI [of _ "[]"])

end
