(* ===== verification/StackOperations.thy ===== *)
theory StackOperations
  imports StackMachine
begin

section \<open>Moving items on the stack\<close>

lemma ops_no_family:
  "isDupInstruction i \<or> isSwapInstruction i \<Longrightarrow> binary_op i = None \<and> unary_op i = None \<and> i \<noteq> Instruction_POP"
proof -
  have "list_all (\<lambda>j. \<not> isDupInstruction j \<and> \<not> isSwapInstruction j)
     [Instruction_ADD, Instruction_MUL, Instruction_SUB, Instruction_DIV, Instruction_EXP, Instruction_AND, Instruction_OR, Instruction_XOR,
    Instruction_EQ, Instruction_LT, Instruction_GT, Instruction_SLT, Instruction_SGT, Instruction_SIGNEXTEND, Instruction_SHL, Instruction_SHR,
    Instruction_SAR, Instruction_ISZERO, Instruction_NOT, Instruction_POP]" by code_simp
  moreover assume "isDupInstruction i \<or> isSwapInstruction i"
  ultimately have "i \<notin> {Instruction_ADD, Instruction_MUL, Instruction_SUB, Instruction_DIV, Instruction_EXP, Instruction_AND, Instruction_OR, Instruction_XOR,
    Instruction_EQ, Instruction_LT, Instruction_GT, Instruction_SLT, Instruction_SGT, Instruction_SIGNEXTEND, Instruction_SHL, Instruction_SHR,
    Instruction_SAR}" "i \<notin> {Instruction_ISZERO, Instruction_NOT}"
    "i \<noteq> Instruction_POP" by auto
  then show ?thesis using binary_op_dom [of i] unary_op_dom [of i] by blast
qed

lemma dup_not_swap: "isDupInstruction i \<Longrightarrow> \<not> isSwapInstruction i"
  by (simp add: isDupInstruction_def isSwapInstruction_def Instruction_defs word_le_nat_alt)

lemma dupInstruction_number:
  assumes "1 \<le> n" "n \<le> 16" shows "\<exists>i. dupInstruction (word_of_nat n) = Inr i \<and> isDupInstruction i \<and> unat (getDupNumber i) = n"
proof -
  have u: "unat (word_of_nat n :: u32) = n" using assms by (simp add: unat_of_nat)
  then obtain i where i: "dupInstruction (word_of_nat n) = Inr i"
    using assms by (auto simp: dupInstruction_def assertThrow_def word_le_nat_alt)
  then show ?thesis using u by (auto simp: dupInstruction_iff)
qed

lemma swapInstruction_number:
  assumes "1 \<le> n" "n \<le> 16" shows "\<exists>i. swapInstruction (word_of_nat n) = Inr i \<and> isSwapInstruction i \<and> unat (getSwapNumber i) = n"
proof -
  have u: "unat (word_of_nat n :: u32) = n" using assms by (simp add: unat_of_nat)
  then obtain i where i: "swapInstruction (word_of_nat n) = Inr i"
    using assms by (auto simp: swapInstruction_def assertThrow_def word_le_nat_alt)
  then show ?thesis using u by (auto simp: swapInstruction_iff)
qed

lemma does_dup:
  assumes "1 \<le> n" "n \<le> 16" "n \<le> length st"
  shows "does cx (append_dup ext n) (vm\<lparr>vm_stack := st\<rparr>) (vm\<lparr>vm_stack := st ! (n - 1) # st\<rparr>)"
proof -
  obtain i where i: "dupInstruction (word_of_nat n) = Inr i" "isDupInstruction i" "unat (getDupNumber i) = n"
    using dupInstruction_number assms by blast
  have "exec_op i (vm\<lparr>vm_stack := st\<rparr>) = Some (vm\<lparr>vm_stack := st ! (n - 1) # st\<rparr>)"
    using ops_no_family [of i] i assms by (simp add: exec_op_def Let_def)
  from does_op [OF this, of cx ext] show ?thesis by (rule labelled_cong) (simp add: append_dup_def i)
qed

lemma does_swap:
  assumes "1 \<le> n" "n \<le> 16" "n < length st"
  shows "does cx (append_swap ext n) (vm\<lparr>vm_stack := st\<rparr>) (vm\<lparr>vm_stack := swap_top n st\<rparr>)"
proof -
  obtain i where i: "swapInstruction (word_of_nat n) = Inr i" "isSwapInstruction i" "unat (getSwapNumber i) = n"
    using swapInstruction_number assms by blast
  have "exec_op i (vm\<lparr>vm_stack := st\<rparr>) = Some (vm\<lparr>vm_stack := swap_top n st\<rparr>)"
    using ops_no_family [of i] dup_not_swap [of i] i assms by (auto simp: exec_op_def Let_def)
  from does_op [OF this, of cx ext] show ?thesis by (rule labelled_cong) (simp add: append_swap_def i)
qed

lemma does_swaps:
  assumes "\<forall>n \<in> set ns. 1 \<le> n \<and> n \<le> 16 \<and> n < length st"
  shows "does cx (run_ops (map (append_swap ext) ns)) (vm\<lparr>vm_stack := st\<rparr>) (vm\<lparr>vm_stack := fold swap_top ns st\<rparr>)"
  using assms
proof (induction ns arbitrary: st)
  case Nil
  then show ?case by (simp add: does_skip)
next
  case (Cons n ns)
  then show ?case by (auto intro!: does_Cons [OF does_swap] Cons.IH)
qed

lemma swap_top_append: "n < length xs \<Longrightarrow> swap_top n (xs @ ys) = swap_top n xs @ ys"
  by (cases xs) (auto simp: swap_top_def list_update_append nth_append split: nat.splits)

lemma fold_swap_top_append: "\<forall>n \<in> set ns. n < length xs \<Longrightarrow> fold swap_top ns (xs @ ys) = fold swap_top ns xs @ ys"
  by (induction ns arbitrary: xs) (simp_all add: swap_top_append)

text \<open>Swapping the top with ever deeper items brings the deepest one to the top, swapping with ever higher ones sends the top to the bottom.\<close>

lemma fold_swap_down:
  "length xs = n \<Longrightarrow> fold swap_top [1..<Suc n] (x # xs) = (case xs of [] \<Rightarrow> [x] | _ \<Rightarrow> last xs # x # butlast xs)"
proof (induction n arbitrary: xs)
  case 0
  then show ?case by simp
next
  case (Suc n)
  then obtain ys y where xs: "xs = ys @ [y]" "length ys = n" by (metis length_Suc_conv_rev)
  have "fold swap_top [1..<Suc n] (x # xs) = fold swap_top [1..<Suc n] (x # ys) @ [y]"
    using fold_swap_top_append [of "[1..<Suc n]" "x # ys" "[y]"] xs by (simp del: upt_Suc)
  also have "\<dots> = (case ys of [] \<Rightarrow> [x] | _ \<Rightarrow> last ys # x # butlast ys) @ [y]" using Suc.IH [OF xs(2)] by simp
  finally have "fold swap_top [1..<Suc (Suc n)] (x # xs) = swap_top (Suc n) ((case ys of [] \<Rightarrow> [x] | _ \<Rightarrow> last ys # x # butlast ys) @ [y])"
    by simp
  also have "\<dots> = y # x # ys"
  proof (cases ys rule: rev_cases)
    case Nil
    then show ?thesis using xs by (simp add: swap_top_def)
  next
    case (snoc zs z)
    then show ?thesis using xs by (cases zs) (auto simp: swap_top_def list_update_append nth_append)
  qed
  finally show ?case using xs by (cases ys) simp_all
qed

lemma fold_swap_up: "length xs = n \<Longrightarrow> fold swap_top (rev [1..<Suc n]) (x # xs) = xs @ [x]"
proof (induction n arbitrary: x xs)
  case 0
  then show ?case by simp
next
  case (Suc n)
  then obtain ys y where xs: "xs = ys @ [y]" "length ys = n" by (metis length_Suc_conv_rev)
  have "swap_top (Suc n) (x # xs) = (y # ys) @ [x]" using xs by (simp add: swap_top_def nth_append list_update_append)
  then have "fold swap_top (rev [1..<Suc (Suc n)]) (x # xs) = fold swap_top (rev [1..<Suc n]) ((y # ys) @ [x])" by simp
  also have "\<dots> = fold swap_top (rev [1..<Suc n]) (y # ys) @ [x]" by (rule fold_swap_top_append) (auto simp: xs simp del: upt_Suc)
  also have "\<dots> = (ys @ [y]) @ [x]" using Suc.IH [OF xs(2)] by simp
  finally show ?case using xs by simp
qed

lemma map_minus_upt: "map (\<lambda>i. n - i) [1..<n] = rev [1..<n]"
  by (rule nth_equalityI) (simp_all add: rev_nth)

lemma unsigned_minus_1: "1 \<le> n \<Longrightarrow> n \<le> 2 ^ 32 \<Longrightarrow> unsigned_minus_1 n = n - 1"
  by (cases n) (simp_all add: unsigned_minus_1_def)

lemma does_rotateStackDown:
  assumes "length xs + 1 \<le> 17"
  shows "does cx (rotateStackDown ext (length xs + 1)) (vm\<lparr>vm_stack := xs @ x # st\<rparr>) (vm\<lparr>vm_stack := x # xs @ st\<rparr>)"
proof -
  let ?n = "length xs + 1"
  have ns: "\<forall>n \<in> set [1..<?n]. 1 \<le> n \<and> n \<le> 16 \<and> n < length (xs @ x # st)" using assms by auto
  have "fold swap_top [1..<?n] (xs @ x # st) = x # xs @ st"
  proof (cases xs)
    case (Cons y ys)
    have "fold swap_top [1..<?n] ((xs @ [x]) @ st) = fold swap_top [1..<?n] (xs @ [x]) @ st"
      by (rule fold_swap_top_append) auto
    also have "fold swap_top [1..<?n] (xs @ [x]) = x # xs"
      using fold_swap_down [of "ys @ [x]" "length ys + 1" y] Cons by (cases ys) (auto simp del: upt_Suc)
    finally show ?thesis by simp
  qed simp
  with does_swaps [OF ns, of cx ext vm] show ?thesis
    unfolding rotateStackDown_def using assms
    by (intro does_assert does_Cons [OF does_debug] does_append [OF _ does_Cons [OF does_debug does_Nil]]) (simp_all add: unsigned_minus_1)
qed

lemma does_rotateStackUp:
  assumes "length xs + 1 \<le> 17"
  shows "does cx (rotateStackUp ext (length xs + 1)) (vm\<lparr>vm_stack := x # xs @ st\<rparr>) (vm\<lparr>vm_stack := xs @ x # st\<rparr>)"
proof -
  let ?n = "length xs + 1"
  have ns: "\<forall>n \<in> set (rev [1..<?n]). 1 \<le> n \<and> n \<le> 16 \<and> n < length (x # xs @ st)" using assms by auto
  have "fold swap_top (rev [1..<?n]) ((x # xs) @ st) = fold swap_top (rev [1..<?n]) (x # xs) @ st"
    by (rule fold_swap_top_append) auto
  also have "fold swap_top (rev [1..<?n]) (x # xs) = xs @ [x]" using fold_swap_up [of xs "length xs" x] by simp
  finally have "fold swap_top (rev [1..<?n]) (x # xs @ st) = xs @ x # st" by simp
  then have body: "does cx (run_ops (map (append_swap ext \<circ> (\<lambda>i. ?n - i)) [1..<?n])) (vm\<lparr>vm_stack := x # xs @ st\<rparr>) (vm\<lparr>vm_stack := xs @ x # st\<rparr>)"
    unfolding map_map [symmetric] map_minus_upt by (metis does_swaps [OF ns])
  show ?thesis
    unfolding rotateStackUp_def using assms
    by (intro does_assert does_Cons [OF does_debug] does_append [OF body [unfolded o_def] does_Cons [OF does_debug does_Nil]]) (simp add: unsigned_minus_1)
qed

lemma does_iterate:
  assumes "\<And>i. i < n \<Longrightarrow> does cx f (g i) (g (Suc i))"
  shows "does cx (run_ops (replicate n f)) (g 0) (g n)"
  using assms
proof (induction n arbitrary: g)
  case 0
  then show ?case by (simp add: does_skip)
next
  case (Suc n)
  have "does cx (run_ops (replicate n f)) (g (Suc 0)) (g (Suc n))" by (rule Suc.IH) (use Suc.prems in simp)
  then show ?case using Suc.prems [of 0] by (simp add: does_Cons)
qed

lemma does_moveIntoStack:
  assumes "length items = itemSize" "length past = dep" "itemSize + dep \<le> 17"
  shows "does cx (moveIntoStack ext dep itemSize) (vm\<lparr>vm_stack := items @ past @ st\<rparr>) (vm\<lparr>vm_stack := past @ items @ st\<rparr>)"
proof -
  let ?n = "dep + itemSize"
  define g where "g i = vm\<lparr>vm_stack := drop (dep - i) past @ items @ take (dep - i) past @ st\<rparr>" for i
  define h where "h i = vm\<lparr>vm_stack := drop i items @ past @ take i items @ st\<rparr>" for i
  have down: "does cx (rotateStackDown ext ?n) (g i) (g (Suc i))" if "i < dep" for i
  proof -
    define k where "k = dep - Suc i"
    have k: "dep - i = Suc k" "k < length past" using that assms by (auto simp: k_def)
    let ?xs = "drop (Suc k) past @ items @ take k past"
    have len: "length ?xs + 1 = ?n" using k assms by simp
    have "does cx (rotateStackDown ext (length ?xs + 1)) (vm\<lparr>vm_stack := ?xs @ past ! k # st\<rparr>) (vm\<lparr>vm_stack := past ! k # ?xs @ st\<rparr>)"
      by (rule does_rotateStackDown) (use len assms in simp)
    then show ?thesis
      unfolding len using k by (simp add: g_def k_def [symmetric] take_Suc_conv_app_nth Cons_nth_drop_Suc [symmetric])
  qed
  have up: "does cx (rotateStackUp ext ?n) (h i) (h (Suc i))" if "i < itemSize" for i
  proof -
    let ?xs = "drop (Suc i) items @ past @ take i items"
    have len: "length ?xs + 1 = ?n" using that assms by simp
    have "does cx (rotateStackUp ext (length ?xs + 1)) (vm\<lparr>vm_stack := items ! i # ?xs @ st\<rparr>) (vm\<lparr>vm_stack := ?xs @ items ! i # st\<rparr>)"
      by (rule does_rotateStackUp) (use len assms in simp)
    moreover have "drop i items = items ! i # drop (Suc i) items" using that assms by (simp add: Cons_nth_drop_Suc)
    ultimately show ?thesis
      unfolding len using that assms by (simp add: h_def take_Suc_conv_app_nth)
  qed
  have "does cx (run_ops (if dep \<le> itemSize then replicate dep (rotateStackDown ext ?n) else replicate itemSize (rotateStackUp ext ?n)))
      (vm\<lparr>vm_stack := items @ past @ st\<rparr>) (vm\<lparr>vm_stack := past @ items @ st\<rparr>)"
  proof (cases "dep \<le> itemSize")
    case True
    show ?thesis using does_iterate [of dep cx "rotateStackDown ext ?n" g, OF down] True assms unfolding g_def by simp
  next
    case False
    show ?thesis using does_iterate [of itemSize cx "rotateStackUp ext ?n" h, OF up] False assms unfolding h_def by simp
  qed
  then show ?thesis unfolding moveIntoStack_def by (rule does_Cons [OF does_debug])
qed

lemma run_ops_fail: "f c = Inl e \<Longrightarrow> run_ops (f # fs) c = Inl e"
  by (simp add: run_ops_Cons)

lemma moveIntoStack_too_deep:
  assumes "0 < itemSize" "0 < dep" "17 < itemSize + dep" "itemSize + dep \<le> 2 ^ 32"
  shows "moveIntoStack ext dep itemSize (c :: 'g CompilerContext) = Inl StackTooDeepError"
proof -
  have "\<not> unsigned_minus_1 (dep + itemSize) \<le> 16" using assms by (simp add: unsigned_minus_1)
  then have "rotateStackDown ext (dep + itemSize) c = Inl StackTooDeepError" "rotateStackUp ext (dep + itemSize) c = Inl StackTooDeepError"
    for c :: "'g CompilerContext"
    by (simp_all add: rotateStackDown_def rotateStackUp_def assertThrow_def)
  then show ?thesis using assms
    by (cases dep; cases itemSize) (auto simp: moveIntoStack_def run_ops_Cons append_debug_def on_asm_def)
qed

text \<open>
  C17. \<open>moveIntoStack\<close> moves the top items past the items below them: the code it appends has that effect on every machine whose height the
  context tracks, and leaves everything else alone. It is refused as too deep exactly when both groups together have more than 17 items.
\<close>

theorem moveIntoStack_correct:
  assumes "length items = itemSize" "length past = dep" "0 < itemSize" "0 < dep" "itemSize + dep \<le> 2 ^ 32"
  shows "(if itemSize + dep \<le> 17
     then does c (moveIntoStack ext dep itemSize) (vm\<lparr>vm_stack := items @ past @ st\<rparr>) (vm\<lparr>vm_stack := past @ items @ st\<rparr>)
     else moveIntoStack ext dep itemSize c = Inl StackTooDeepError)"
proof (cases "itemSize + dep \<le> 17")
  case True
  then show ?thesis using does_moveIntoStack [OF assms(1,2) True] by simp
next
  case False
  then show ?thesis using moveIntoStack_too_deep [of itemSize dep ext c] assms by simp
qed

theorem moveIntoStack_correct_witness:
  "\<forall>c ext vm. does (c :: nat CompilerContext) (moveIntoStack ext 2 1) (vm\<lparr>vm_stack := [1] @ [2, 3] @ [4]\<rparr>) (vm\<lparr>vm_stack := [2, 3] @ [1] @ [4]\<rparr>)"
proof (intro allI)
  fix c :: "nat CompilerContext" and ext vm
  show "does c (moveIntoStack ext 2 1) (vm\<lparr>vm_stack := [1] @ [2, 3] @ [4]\<rparr>) (vm\<lparr>vm_stack := [2, 3] @ [1] @ [4]\<rparr>)"
    using moveIntoStack_correct [of "[1]" 1 "[2, 3]" 2 c ext "[4]" vm] by (simp del: append_Cons append_Nil)
qed

end
