(* ===== verification/TypeProps.thy ===== *)
theory TypeProps
  imports TypeNames
begin

text \<open>
  What the types promise (\<^verbatim>\<open>libsolidity/ast/Types.cpp\<close>): the layout of members in storage, conversions between types of numbers
  as inclusion of their values, the types and values of literals, common types of operands, and the storage sizes of arrays.
\<close>

section \<open>Storage layout\<close>

text \<open>The storage of a member: from \<open>member_start\<close> to \<open>member_end\<close>, counted in bytes from the first slot.\<close>

definition member_start :: "nat \<times> nat \<Rightarrow> nat" where
  "member_start = (\<lambda>(slot, byte). slot * 32 + byte)"

definition member_end :: "Type \<Rightarrow> nat \<times> nat \<Rightarrow> nat" where
  "member_end t = (\<lambda>(slot, byte).
     if storageSize t = Inr 1 then slot * 32 + byte + projr (storageBytes t) else (slot + projr (storageSize t)) * 32)"

lemma storageBytes_bound: "type_ok t \<Longrightarrow> storageBytes t = Inr b \<Longrightarrow> 0 < b \<and> b \<le> 32"
proof -
  assume t: "type_ok t" and b: "storageBytes t = Inr b"
  have "0 < n div 8 \<and> n div 8 \<le> 32" if "0 < n" "n \<le> 256" "n mod 8 = 0" for n :: nat
    using that mult_div_mod_eq [of 8 n] by linarith
  with t b show ?thesis by (cases t) (auto simp: result_simps)
qed

definition offsets_inv :: "Type list \<Rightarrow> nat \<Rightarrow> nat \<times> nat \<Rightarrow> (nat \<times> (nat \<times> nat)) list \<Rightarrow> bool" where
  "offsets_inv types k pos offsets \<longleftrightarrow>
     map_ok offsets \<and> snd pos \<le> 32 \<and>
     (\<forall>i p. map_find i offsets = Some p \<longrightarrow> i < k \<and> canBeStored (types ! i) \<and>
        (\<exists>bytes size. storageBytes (types ! i) = Inr bytes \<and> storageSize (types ! i) = Inr size \<and> 1 \<le> size \<and> snd p + bytes \<le> 32) \<and>
        member_end (types ! i) p \<le> member_start pos) \<and>
     (\<forall>i < k. canBeStored (types ! i) \<longrightarrow> map_find i offsets \<noteq> None) \<and>
     (\<forall>i j p q. i < j \<longrightarrow> map_find i offsets = Some p \<longrightarrow> map_find j offsets = Some q \<longrightarrow> member_end (types ! i) p \<le> member_start q)"

lemma offsets_inv_member:
  "offsets_inv types k pos offsets \<Longrightarrow> map_find i offsets = Some p \<Longrightarrow> i < k \<and> canBeStored (types ! i) \<and>
     (\<exists>bytes size. storageBytes (types ! i) = Inr bytes \<and> storageSize (types ! i) = Inr size \<and> 1 \<le> size \<and> snd p + bytes \<le> 32) \<and>
     member_end (types ! i) p \<le> member_start pos"
  unfolding offsets_inv_def by blast

lemma offsets_inv_order:
  "offsets_inv types k pos offsets \<Longrightarrow> i < j \<Longrightarrow> map_find i offsets = Some p \<Longrightarrow> map_find j offsets = Some q \<Longrightarrow>
     member_end (types ! i) p \<le> member_start q"
  unfolding offsets_inv_def by blast

lemma offsets_inv_placed:
  "offsets_inv types k pos offsets \<Longrightarrow> i < k \<Longrightarrow> canBeStored (types ! i) \<Longrightarrow> \<exists>p. map_find i offsets = Some p"
  unfolding offsets_inv_def by blast

lemma computeOffsets_step_cases:
  assumes "computeOffsets_step ((slot, byte), offsets) (k, t) = Inr st" and "type_ok t"
  obtains (skip) "\<not> canBeStored t" "st = ((slot, byte), offsets)"
  | (place) bytes size s1 b1 where "canBeStored t" "storageBytes t = Inr bytes" "storageSize t = Inr size" "1 \<le> size"
      "(s1, b1) = (if byte + bytes > 32 then (slot + 1, 0) else (slot, byte))" "b1 + bytes \<le> 32"
      "st = ((if size = 1 then (s1, b1 + bytes) else (s1 + size, 0)), map_put k (s1, b1) offsets)"
proof (cases "canBeStored t")
  case False
  then show thesis using assms skip by (simp add: computeOffsets_step_def)
next
  case True
  with assms(1) obtain bytes where b: "storageBytes t = Inr bytes"
    by (cases "storageBytes t") (auto simp: computeOffsets_step_def)
  define s1 where "s1 = (if byte + bytes > 32 then slot + 1 else slot)"
  define b1 where "b1 = (if byte + bytes > 32 then 0 else byte)"
  have p: "(if byte + bytes > 32 then (slot + 1, 0) else (slot, byte)) = (s1, b1)" by (simp add: s1_def b1_def)
  have fit: "b1 + bytes \<le> 32" using storageBytes_bound [OF assms(2) b] by (simp add: b1_def)
  from True b assms(1) obtain size where s: "storageSize t = Inr size" "1 \<le> size"
    and st: "st = ((if size = 1 then (s1, b1 + bytes) else (s1 + size, 0)), map_put k (s1, b1) offsets)"
    using fit by (auto simp: computeOffsets_step_def p bindE_Inr assertThrow_Inr Let_def split: if_splits)
  show thesis by (rule place [OF True b s _ fit st]) (simp add: p)
qed

lemma offsets_inv_step:
  assumes inv: "offsets_inv types k pos offsets" and t: "type_ok (types ! k)"
    and step: "computeOffsets_step (pos, offsets) (k, types ! k) = Inr (pos', offsets')"
  shows "offsets_inv types (Suc k) pos' offsets'"
proof -
  obtain slot byte where pos: "pos = (slot, byte)" by force
  from step [unfolded pos] t show ?thesis
  proof (cases rule: computeOffsets_step_cases)
    case skip
    then show ?thesis using inv unfolding offsets_inv_def pos by (auto simp: less_Suc_eq)
  next
    case (place bytes size s1 b1)
    let ?q = "(s1, b1)"
    have pos': "pos' = (if size = 1 then (s1, b1 + bytes) else (s1 + size, 0))" and offs: "offsets' = map_put k ?q offsets"
      using place(7) by simp_all
    have ok: "map_ok offsets" and byte: "byte \<le> 32" using inv by (simp_all add: offsets_inv_def pos)
    have find: "map_find i offsets' = (if i = k then Some ?q else map_find i offsets)" for i
      by (simp add: offs map_find_def map_of_put [OF ok])
    note old = offsets_inv_member [OF inv]
    have start: "member_start pos \<le> member_start ?q" using place(5) byte by (auto simp: member_start_def pos split: if_splits)
    have fin: "member_end (types ! k) ?q = member_start pos'"
      using place(2-4) pos' by (auto simp: member_end_def member_start_def)
    have mono: "member_start ?q \<le> member_start pos'" using pos' place(4,6) by (auto simp: member_start_def)
    show ?thesis
      unfolding offsets_inv_def
    proof (intro conjI allI impI, goal_cases)
      case 1 show ?case using ok by (simp add: offs map_ok_put)
    next
      case 2 show ?case using pos' place(6) by auto
    next
      case (3 i p) then show ?case using old [of i p] by (auto simp: find split: if_splits)
    next
      case (4 i p) then show ?case using old [of i p] place(1) by (auto simp: find split: if_splits)
    next
      case (5 i p) then show ?case using old [of i p] place(2-4,6) by (auto simp: find split: if_splits)
    next
      case (6 i p) then show ?case using old [of i p] fin start mono by (auto simp: find split: if_splits)
    next
      case (7 i) then show ?case using inv by (auto simp: find offsets_inv_def less_Suc_eq)
    next
      case (8 i j p q)
      then show ?case using old [of i p] old [of j q] start offsets_inv_order [OF inv 8(1), of p q]
        by (auto simp: find split: if_splits)
    qed
  qed
qed

lemma offsets_inv_fold:
  assumes "offsets_inv types k pos offsets" and "list_all type_ok types" and "k + n = length types"
    and "foldE computeOffsets_step (pos, offsets) (zip [k..<length types] (drop k types)) = Inr (pos', offsets')"
  shows "offsets_inv types (length types) pos' offsets'"
  using assms
proof (induction n arbitrary: k pos offsets)
  case 0
  then show ?case by simp
next
  case (Suc n)
  then have k: "k < length types" by simp
  then have z: "zip [k..<length types] (drop k types) = (k, types ! k) # zip [Suc k..<length types] (drop (Suc k) types)"
    by (simp add: upt_conv_Cons Cons_nth_drop_Suc [symmetric])
  obtain pos1 offsets1 where s: "computeOffsets_step (pos, offsets) (k, types ! k) = Inr (pos1, offsets1)"
    and r: "foldE computeOffsets_step (pos1, offsets1) (zip [Suc k..<length types] (drop (Suc k) types)) = Inr (pos', offsets')"
    using Suc.prems(4) unfolding z by (auto simp: bindE_Inr simp del: upt_Suc)
  have "offsets_inv types (Suc k) pos1 offsets1"
    using offsets_inv_step [OF Suc.prems(1) _ s] Suc.prems(2) k by (simp add: list_all_length)
  from Suc.IH [OF this Suc.prems(2) _ r] Suc.prems(3) show ?case by simp
qed

text \<open>
  C20. The layout of state variables and struct members is sound: every member that can be stored has a
  place, which lies inside a slot or begins a slot, inside the computed storage size, and no two members overlap.
\<close>

theorem computeOffsets_sound:
  assumes ok: "list_all type_ok types" and run: "computeOffsets types = Inr s"
  shows "(\<forall>i < length types. canBeStored (types ! i) \<longrightarrow>
      (\<exists>slot byte bytes size. StorageOffsets_offset s i = Some (slot, byte) \<and> storageBytes (types ! i) = Inr bytes \<and>
         storageSize (types ! i) = Inr size \<and> byte + bytes \<le> 32 \<and> slot + size \<le> m_storageSize s)) \<and>
    (\<forall>i j p q. i < j \<longrightarrow> StorageOffsets_offset s i = Some p \<longrightarrow> StorageOffsets_offset s j = Some q \<longrightarrow>
      member_end (types ! i) p \<le> member_start q)"
proof -
  from run obtain slotOffset byteOffset offsets where
    f: "foldE computeOffsets_step ((0, 0), []) (zip [0..<length types] types) = Inr ((slotOffset, byteOffset), offsets)"
    and s: "s = \<lparr>m_storageSize = (if byteOffset > 0 then slotOffset + 1 else slotOffset), m_offsets = offsets\<rparr>"
    by (auto simp: computeOffsets_def bindE_Inr assertThrow_Inr Let_def)
  have "offsets_inv types 0 (0, 0) []" by (simp add: offsets_inv_def map_find_def)
  from offsets_inv_fold [OF this ok, of "length types"] f
  have inv: "offsets_inv types (length types) (slotOffset, byteOffset) offsets" by simp
  show ?thesis
  proof (intro conjI allI impI)
    fix i assume i: "i < length types" "canBeStored (types ! i)"
    then obtain slot byte where p: "map_find i offsets = Some (slot, byte)" using offsets_inv_placed [OF inv] by (metis surj_pair)
    then obtain bytes size where b: "storageBytes (types ! i) = Inr bytes" "storageSize (types ! i) = Inr size" "1 \<le> size" "byte + bytes \<le> 32"
      and e: "member_end (types ! i) (slot, byte) \<le> slotOffset * 32 + byteOffset"
      using offsets_inv_member [OF inv p] by (auto simp: member_start_def)
    have bo: "byteOffset \<le> 32" using inv by (simp add: offsets_inv_def)
    have "0 < bytes" using storageBytes_bound [OF _ b(1)] ok i(1) by (simp add: list_all_length)
    then have "slot + size \<le> m_storageSize s"
      using e b bo by (cases "size = 1") (auto simp: member_end_def s)
    then show "\<exists>slot byte bytes size. StorageOffsets_offset s i = Some (slot, byte) \<and> storageBytes (types ! i) = Inr bytes \<and>
         storageSize (types ! i) = Inr size \<and> byte + bytes \<le> 32 \<and> slot + size \<le> m_storageSize s"
      using b p by (simp add: StorageOffsets_offset_def s)
  next
    fix i j p q assume "i < j" "StorageOffsets_offset s i = Some p" "StorageOffsets_offset s j = Some q"
    then show "member_end (types ! i) p \<le> member_start q"
      using offsets_inv_order [OF inv] by (simp add: StorageOffsets_offset_def s)
  qed
qed

theorem computeOffsets_sound_witness:
  "\<exists>s p q. computeOffsets [IntegerType 128 Unsigned, BoolType, AddressType NonPayable] = Inr s \<and> m_storageSize s = 2 \<and>
     StorageOffsets_offset s 1 = Some p \<and> StorageOffsets_offset s 2 = Some q \<and>
     member_end BoolType p \<le> member_start q"
proof -
  let ?ts = "[IntegerType 128 Unsigned, BoolType, AddressType NonPayable]"
  let ?s = "\<lparr>m_storageSize = 2, m_offsets = [(0, (0, 0)), (1, (0, 16)), (2, (1, 0))]\<rparr>"
  have run: "computeOffsets ?ts = Inr ?s"
    by (simp add: computeOffsets_def computeOffsets_step_def upt_rec Let_def assertThrow_def)
  have ok: "list_all type_ok ?ts" by simp
  have off: "StorageOffsets_offset ?s 1 = Some (0, 16)" "StorageOffsets_offset ?s 2 = Some (1, 0)"
    by (simp_all add: StorageOffsets_offset_def map_find_def)
  have "member_end (?ts ! 1) (0, 16) \<le> member_start (1, 0)"
    using computeOffsets_sound [OF ok run, THEN conjunct2, rule_format, OF _ off] by simp
  then show ?thesis using run off by (intro exI [of _ ?s] exI [of _ "(0, 16)"] exI [of _ "(1, 0)"]) simp
qed

section \<open>Equality and locations\<close>

lemma Type_eq_refl [simp]: "Type_eq t t"
  by (induction t) auto

lemma category_unit [simp]: "category t = Category_ViteTokenId \<longleftrightarrow> t = ViteTokenIdType" "category t = Category_Bool \<longleftrightarrow> t = BoolType"
  by (cases t; simp)+

lemma Type_eq_sym: "Type_eq t u \<Longrightarrow> Type_eq u t"
  by (induction t arbitrary: u) (auto split: Type.split_asm)

lemma Type_eq_trans: "Type_eq t u \<Longrightarrow> Type_eq u v \<Longrightarrow> Type_eq t v"
  by (induction t arbitrary: u v) (auto split: Type.split_asm)

lemma array_isPointer_True [simp]: "array_isPointer loc True"
  by (simp add: array_isPointer_def)

lemma array_isPointer_storage [simp]: "array_isPointer Storage p = p"
  by (simp add: array_isPointer_def)

text \<open>Outside of storage the pointer flag has no meaning, so that moving a type twice is moving it once up to equality.\<close>

lemma Type_eq_withLocation:
  "Type_eq (withLocationIfReference loc p t) (withLocationIfReference loc p (withLocationIfReference loc p t))"
proof (induction t arbitrary: p)
  case (ArrayType l q k base len)
  show ?case
    using ArrayType.IH [of False] by (cases "loc = Storage"; cases "p") (auto simp: array_isPointer_def)
qed auto

section \<open>Conversions\<close>

lemma holds_BoolOk: "holds r \<longleftrightarrow> (\<exists>b. r = BoolOk b \<and> b)"
  by (cases r) auto

text \<open>
  Every implicit conversion is also an explicit conversion, for all pairs of types, and the explicit conversion does
  not stop with a failed assertion.
\<close>

theorem implicit_is_explicit:
  "holds (isImplicitlyConvertibleTo ext t u) \<Longrightarrow> isExplicitlyConvertibleTo ext t u = Inr True"
proof (cases t)
  case (AddressType m)
  then show "holds (isImplicitlyConvertibleTo ext t u) \<Longrightarrow> isExplicitlyConvertibleTo ext t u = Inr True"
    by (simp add: AddressType_isExplicitlyConvertibleTo_def)
next
  case (IntegerType b m)
  then show "holds (isImplicitlyConvertibleTo ext t u) \<Longrightarrow> isExplicitlyConvertibleTo ext t u = Inr True"
    by (simp add: IntegerType_isExplicitlyConvertibleTo_def)
next
  case (FixedPointType b d m)
  then show "holds (isImplicitlyConvertibleTo ext t u) \<Longrightarrow> isExplicitlyConvertibleTo ext t u = Inr True"
    by (auto simp: FixedPointType_isExplicitlyConvertibleTo_def FixedPointType_isImplicitlyConvertibleTo_def split: Type.splits)
next
  case (RationalNumberType v b)
  then show "holds (isImplicitlyConvertibleTo ext t u) \<Longrightarrow> isExplicitlyConvertibleTo ext t u = Inr True"
    by (simp add: RationalNumberType_isExplicitlyConvertibleTo_def Let_def)
next
  case (ContractType c s)
  then show "holds (isImplicitlyConvertibleTo ext t u) \<Longrightarrow> isExplicitlyConvertibleTo ext t u = Inr True"
    by (auto simp: ContractType_isImplicitlyConvertibleTo_def split: Type.splits if_splits)
next
  case (EnumType d)
  then show "holds (isImplicitlyConvertibleTo ext t u) \<Longrightarrow> isExplicitlyConvertibleTo ext t u = Inr True"
    by (auto split: Type.splits)
qed (auto split: Type.splits)

theorem implicit_is_explicit_witness:
  "isExplicitlyConvertibleTo \<lparr>ty_toString = decimal, ty_validateUTF8 = (\<lambda>_. None), ty_bigint = (\<lambda>_. None),
      ty_fitsPrecisionBaseX = (\<lambda>_ _ _. True), ty_evaluateUnaryOperator = (\<lambda>_ _. None), ty_evaluateBinaryOperator = (\<lambda>_ _ _. None)\<rparr>
     (IntegerType 8 Unsigned) (IntegerType 16 Unsigned) = Inr True"
  by (rule implicit_is_explicit) (simp add: IntegerType_isImplicitlyConvertibleTo_def)

lemma le_div_iff: "0 < (c::int) \<Longrightarrow> a \<le> b div c \<longleftrightarrow> a * c \<le> b"
proof
  assume c: "0 < c" and "a \<le> b div c"
  then have "a * c \<le> b div c * c" by simp
  then show "a * c \<le> b" using div_mult_mod_eq [of b c] pos_mod_sign [OF c, of b] by linarith
next
  assume "0 < c" "a * c \<le> b"
  then show "a \<le> b div c" using zdiv_mono1 [of "a * c" b c] by simp
qed

section \<open>Numbers and their types\<close>

text \<open>The number is a value of an integer type, or a fixed point type represents it exactly.\<close>

definition represents :: "Type \<Rightarrow> rat \<Rightarrow> bool" where
  "represents t q =
     (case t of
        IntegerType bits m \<Rightarrow>
          denominator q = 1 \<and> IntegerType_minValue bits (m = Signed) \<le> numerator q \<and>
          numerator q \<le> IntegerType_maxValue bits (m = Signed)
      | FixedPointType bits digits m \<Rightarrow>
          denominator (q * 10 ^ digits) = 1 \<and> IntegerType_minValue bits (m = FixedSigned) \<le> numerator (q * 10 ^ digits) \<and>
          numerator (q * 10 ^ digits) \<le> IntegerType_maxValue bits (m = FixedSigned)
      | _ \<Rightarrow> False)"

lemma integral_rat: "denominator q = 1 \<longleftrightarrow> (\<exists>n. q = of_int n)"
proof
  assume "denominator q = 1"
  then have "quotient_of q = (numerator q, 1)" by (simp add: numerator_def denominator_def prod_eq_iff)
  then have "q = of_int (numerator q)" using quotient_of_div by fastforce
  then show "\<exists>n. q = of_int n" by blast
qed (auto simp: denominator_def)

lemma numerator_of_int [simp]: "numerator (of_int n) = n"
  by (simp add: numerator_def)

lemma denominator_of_int [simp]: "denominator (of_int n) = 1"
  by (simp add: denominator_def)

lemma isFractional_of_int [simp]: "\<not> isFractional (of_int n)"
  by (simp add: isFractional_def)

lemma not_isFractional: "\<not> isFractional q \<longleftrightarrow> (\<exists>n. q = of_int n)"
  by (simp add: isFractional_def integral_rat)

lemma of_int_scaled: "of_int n * (10::rat) ^ d = of_int (n * 10 ^ d)"
  by simp

lemma denominator_scaled [simp]: "denominator (of_int n * 10 ^ d) = 1"
  by (metis denominator_of_int of_int_scaled)

lemma numerator_scaled [simp]: "numerator (of_int n * 10 ^ d) = n * 10 ^ d"
  by (metis numerator_of_int of_int_scaled)

lemma maxIntegerValue_iff: "v \<le> FixedPointType_maxIntegerValue bits d s \<longleftrightarrow> v * 10 ^ d \<le> IntegerType_maxValue bits s"
proof -
  have "FixedPointType_maxIntegerValue bits d s = IntegerType_maxValue bits s sdiv 10 ^ d"
    by (simp add: FixedPointType_maxIntegerValue_def IntegerType_maxValue_def)
  moreover have "0 \<le> IntegerType_maxValue bits s" by (simp add: IntegerType_maxValue_def)
  ultimately have "FixedPointType_maxIntegerValue bits d s = IntegerType_maxValue bits s div 10 ^ d"
    by (simp add: signed_divide_int_def sgn_if)
  then show ?thesis by (simp add: le_div_iff)
qed

lemma minIntegerValue_iff: "FixedPointType_minIntegerValue bits d s \<le> v \<longleftrightarrow> IntegerType_minValue bits s \<le> v * 10 ^ d"
proof (cases s)
  case True
  have m: "FixedPointType_minIntegerValue bits d s = - (2 ^ (bits - 1) div 10 ^ d)"
    using True by (simp add: FixedPointType_minIntegerValue_def signed_divide_int_def)
  have "FixedPointType_minIntegerValue bits d s \<le> v \<longleftrightarrow> - v \<le> 2 ^ (bits - 1) div 10 ^ d" unfolding m by linarith
  also have "\<dots> \<longleftrightarrow> - v * 10 ^ d \<le> 2 ^ (bits - 1)" by (rule le_div_iff) simp
  finally show ?thesis using True by (simp add: IntegerType_minValue_def) linarith
next
  case False
  then show ?thesis using zero_less_power [of "10::int" d]
    by (auto simp: FixedPointType_minIntegerValue_def IntegerType_minValue_def zero_le_mult_iff simp del: zero_less_power)
qed

lemma represents_Fixed_of_int:
  "represents (FixedPointType bits d m) (of_int n) \<longleftrightarrow>
     FixedPointType_minIntegerValue bits d (m = FixedSigned) \<le> n \<and> n \<le> FixedPointType_maxIntegerValue bits d (m = FixedSigned)"
  by (simp add: represents_def maxIntegerValue_iff minIntegerValue_iff)

lemma represents_Integer_of_int:
  "represents (IntegerType bits m) (of_int n) \<longleftrightarrow>
     IntegerType_minValue bits (m = Signed) \<le> n \<and> n \<le> IntegerType_maxValue bits (m = Signed)"
  by (simp add: represents_def)

lemma fits_iff:
  "holds (fitsIntegerType ext v bits s) \<longleftrightarrow> IntegerType_minValue bits s \<le> v \<and> v \<le> IntegerType_maxValue bits s"
  by (auto simp: fitsIntegerType_def IntegerType_minValue_def)

text \<open>
  C22. A literal number converts implicitly to an integer type or a fixed point type if and only if the type
  represents the number exactly: no digit is lost and no number is refused that fits.
\<close>

theorem literal_conversion_exact:
  "category u = Category_Integer \<or> category u = Category_FixedPoint \<Longrightarrow>
     holds (isImplicitlyConvertibleTo ext (RationalNumberType q b) u) \<longleftrightarrow> represents u q"
proof (cases u)
  case (IntegerType bits m)
  then show "holds (isImplicitlyConvertibleTo ext (RationalNumberType q b) u) \<longleftrightarrow> represents u q"
    by (auto simp: RationalNumberType_isImplicitlyConvertibleTo_def represents_def isFractional_def fits_iff)
next
  case (FixedPointType bits d m)
  have neg: "q < 0 \<Longrightarrow> denominator (q * 10 ^ d) = 1 \<Longrightarrow> numerator (q * 10 ^ d) < 0"
    by (auto simp: integral_rat) (metis mult_neg_pos numerator_of_int of_int_less_0_iff zero_less_numeral zero_less_power)
  show "holds (isImplicitlyConvertibleTo ext (RationalNumberType q b) u) \<longleftrightarrow> represents u q"
  proof (cases "isFractional q")
    case True
    then show ?thesis
      using neg by (auto simp: FixedPointType RationalNumberType_isImplicitlyConvertibleTo_def represents_def isNegative_def
          fitsIntoBits_def fits_iff IntegerType_minValue_def Let_def)
  next
    case False
    then obtain n where n: "q = of_int n" by (auto simp: not_isFractional)
    then show ?thesis
      using represents_Fixed_of_int [of bits d m n]
      by (auto simp: FixedPointType RationalNumberType_isImplicitlyConvertibleTo_def isNegative_def
          FixedPointType_minIntegerValue_def)
  qed
qed auto

theorem literal_conversion_exact_witness:
  "\<forall>ext. holds (isImplicitlyConvertibleTo ext (RationalNumberType (of_int 255) None) (IntegerType 8 Unsigned)) \<and>
     \<not> holds (isImplicitlyConvertibleTo ext (RationalNumberType (of_int 256) None) (IntegerType 8 Unsigned))"
  by (simp only: literal_conversion_exact category.simps simp_thms represents_Integer_of_int)
     (simp add: IntegerType_minValue_def IntegerType_maxValue_def)

lemma Integer_range_subset:
  assumes "0 < bits" "0 < bits'"
  shows "(\<forall>v. IntegerType_minValue bits s \<le> v \<and> v \<le> IntegerType_maxValue bits s \<longrightarrow>
            IntegerType_minValue bits' s \<le> v \<and> v \<le> IntegerType_maxValue bits' s) \<longleftrightarrow> bits \<le> bits'" (is "?all \<longleftrightarrow> _")
proof
  assume ?all
  then have m: "IntegerType_maxValue bits s \<le> IntegerType_maxValue bits' s"
    by (simp add: IntegerType_minValue_def IntegerType_maxValue_def split: if_splits)
  show "bits \<le> bits'"
  proof (cases s)
    case True
    with m have "(2::int) ^ (bits - 1) \<le> 2 ^ (bits' - 1)" by (simp only: IntegerType_maxValue_def if_True)
    then have "bits - 1 \<le> bits' - 1" by simp
    with assms show ?thesis by linarith
  next
    case False
    with m have "(2::int) ^ bits \<le> 2 ^ bits'" by (simp only: IntegerType_maxValue_def if_False)
    then show ?thesis by simp
  qed
next
  assume b: "bits \<le> bits'"
  then have "(2::int) ^ bits \<le> 2 ^ bits'" "(2::int) ^ (bits - 1) \<le> 2 ^ (bits' - 1)" by simp_all
  then show ?all unfolding IntegerType_minValue_def IntegerType_maxValue_def
    by (intro allI impI, cases s) (simp only: if_True if_False, linarith)+
qed

text \<open>
  C21. An integer type converts implicitly to exactly those types of numbers that represent every one of its values exactly; between
  two integer types the signedness must agree as well.
\<close>

theorem integer_conversion_range:
  assumes "type_ok (IntegerType bits m)" and "type_ok u"
  shows "holds (isImplicitlyConvertibleTo ext (IntegerType bits m) u) \<longleftrightarrow>
     (\<forall>v. represents (IntegerType bits m) (of_int v) \<longrightarrow> represents u (of_int v)) \<and>
     (\<forall>bits' m'. u = IntegerType bits' m' \<longrightarrow> (m = Signed) = (m' = Signed))"
proof (cases u)
  case (IntegerType bits' m')
  show ?thesis
  proof (cases "(m = Signed) = (m' = Signed)")
    case True
    have "0 < bits" "0 < bits'" using assms IntegerType by auto
    from Integer_range_subset [OF this, of "m = Signed"] show ?thesis
      by (simp add: IntegerType IntegerType_isImplicitlyConvertibleTo_def represents_Integer_of_int True)
  qed (simp add: IntegerType IntegerType_isImplicitlyConvertibleTo_def)
next
  case (FixedPointType bits' d m')
  let ?min = "IntegerType_minValue bits (m = Signed)" and ?max = "IntegerType_maxValue bits (m = Signed)"
  have ne: "?min \<le> ?max" by (simp add: IntegerType_minValue_def IntegerType_maxValue_def)
  show ?thesis
    using ne by (auto simp: FixedPointType IntegerType_isImplicitlyConvertibleTo_def represents_Integer_of_int represents_Fixed_of_int)
next
  case (RationalNumberType v b)
  then show ?thesis
    using represents_Integer_of_int [of bits m 0]
    by (auto simp: IntegerType_isImplicitlyConvertibleTo_def represents_def IntegerType_minValue_def IntegerType_maxValue_def)
qed (use represents_Integer_of_int [of bits m 0] in
     \<open>auto simp: IntegerType_isImplicitlyConvertibleTo_def represents_def IntegerType_minValue_def IntegerType_maxValue_def intro: exI [of _ 0]\<close>)

theorem integer_conversion_range_witness:
  "represents (IntegerType 8 Signed) (of_int (- 128)) \<and> represents (FixedPointType 16 2 FixedSigned) (of_int (- 128))"
proof -
  have "holds (isImplicitlyConvertibleTo ext (IntegerType 8 Signed) (FixedPointType 16 2 FixedSigned))" for ext
    by (simp add: IntegerType_isImplicitlyConvertibleTo_def IntegerType_minValue_def IntegerType_maxValue_def
        FixedPointType_maxIntegerValue_def FixedPointType_minIntegerValue_def signed_divide_int_def)
  moreover have "represents (IntegerType 8 Signed) (of_int (- 128))"
    by (simp only: represents_Integer_of_int) (simp add: IntegerType_minValue_def IntegerType_maxValue_def)
  ultimately show ?thesis
    using integer_conversion_range [of 8 Signed "FixedPointType 16 2 FixedSigned", THEN iffD1, THEN conjunct1] by fastforce
qed

text \<open>A fixed point type with more digits can be too small for the digits of the type it converts from.\<close>

lemma fixed_conversion_loses:
  "type_ok (FixedPointType 8 2 FixedUnsigned) \<and> type_ok (FixedPointType 104 31 FixedUnsigned) \<and>
   holds (isImplicitlyConvertibleTo ext (FixedPointType 8 2 FixedUnsigned) (FixedPointType 104 31 FixedUnsigned)) \<and>
   represents (FixedPointType 8 2 FixedUnsigned) 2.55 \<and> \<not> represents (FixedPointType 104 31 FixedUnsigned) 2.55"
proof -
  have h: "holds (isImplicitlyConvertibleTo ext (FixedPointType 8 2 FixedUnsigned) (FixedPointType 104 31 FixedUnsigned))"
    by (simp add: FixedPointType_isImplicitlyConvertibleTo_def FixedPointType_maxIntegerValue_def FixedPointType_minIntegerValue_def
        signed_divide_int_def)
  have "(2.55 :: rat) * 10 ^ 2 = of_int 255" "(2.55 :: rat) * 10 ^ 31 = of_int 25500000000000000000000000000000" by simp_all
  then show ?thesis
    using h by (simp only: represents_def Type.case numerator_of_int denominator_of_int)
      (simp add: IntegerType_minValue_def IntegerType_maxValue_def)
qed

definition sign_modifier :: "int \<Rightarrow> IntegerModifier" where
  "sign_modifier v = (if v < 0 then Signed else Unsigned)"

text \<open>The number of bytes that \<open>integerType\<close> chooses.\<close>

definition integer_bytes :: "int \<Rightarrow> nat" where
  "integer_bytes v = max (bytesRequired (nat (if v < 0 then ((0 - v) - 1) * 2 else v))) 1"

lemma integerType_eq:
  "RationalNumberType_integerType (of_int v) =
     Inr (if integer_bytes v \<le> 32 then Some (IntegerType (integer_bytes v * 8) (sign_modifier v)) else None)"
proof -
  define w where "w = (if v < 0 then ((0 - v) - 1) * 2 else v)"
  have "0 \<le> w" by (simp add: w_def)
  then have "w > 2 ^ 256 - 1 \<longleftrightarrow> \<not> nat w < 256 ^ 32" by (auto simp: nat_less_iff)
  also have "\<dots> \<longleftrightarrow> \<not> integer_bytes v \<le> 32" by (simp add: integer_bytes_def w_def bytesRequired_le_iff)
  finally have "w > 2 ^ 256 - 1 \<longleftrightarrow> \<not> integer_bytes v \<le> 32" .
  moreover have "integer_bytes v = max (bytesRequired (nat w)) 1" by (simp add: integer_bytes_def w_def)
  ultimately show ?thesis
    by (simp only: RationalNumberType_integerType_def numerator_of_int Let_def w_def [symmetric] sign_modifier_def [symmetric]
        isFractional_of_int assertThrow_def if_True if_False bindE.simps simp_thms if_not_P) simp
qed

lemma represents_integer_bytes:
  assumes "0 < k"
  shows "represents (IntegerType (k * 8) (sign_modifier v)) (of_int v) \<longleftrightarrow> integer_bytes v \<le> k"
proof -
  define w where "w = (if v < 0 then ((0 - v) - 1) * 2 else v)"
  have "0 \<le> w" by (simp add: w_def)
  have "(256 :: int) ^ k = (2 ^ 8) ^ k" by simp
  also have "\<dots> = 2 ^ (k * 8)" by (simp only: power_mult [symmetric] mult.commute)
  finally have pow: "(256 :: int) ^ k = 2 ^ (k * 8)" .
  have half: "(2 :: int) ^ (k * 8) = 2 * 2 ^ (k * 8 - 1)" using assms by (simp add: power_eq_if)
  have "integer_bytes v \<le> k \<longleftrightarrow> nat w < 256 ^ k" using assms by (auto simp: integer_bytes_def w_def bytesRequired_le_iff)
  also have "\<dots> \<longleftrightarrow> w < 256 ^ k" using \<open>0 \<le> w\<close> by (simp add: nat_less_iff)
  also have "\<dots> \<longleftrightarrow> w < 2 ^ (k * 8)" by (simp only: pow)
  finally have fit: "integer_bytes v \<le> k \<longleftrightarrow> w < 2 ^ (k * 8)" .
  show ?thesis
  proof (cases "v < 0")
    case True
    have "0 < (2 :: int) ^ (k * 8 - 1)" by simp
    moreover have "(0 - v - 1) * 2 < 2 * h \<longleftrightarrow> - h \<le> v \<and> v \<le> h - 1" if "0 < h" for h using True that by auto
    moreover have "w = (0 - v - 1) * 2" using True by (simp add: w_def)
    ultimately have "w < 2 ^ (k * 8) \<longleftrightarrow> - (2 ^ (k * 8 - 1)) \<le> v \<and> v \<le> 2 ^ (k * 8 - 1) - 1"
      by (simp only: half)
    then show ?thesis
      using True by (simp add: fit represents_Integer_of_int sign_modifier_def IntegerType_minValue_def IntegerType_maxValue_def)
  next
    case False
    then show ?thesis
      by (auto simp: fit w_def represents_Integer_of_int sign_modifier_def IntegerType_minValue_def IntegerType_maxValue_def)
  qed
qed

text \<open>
  C24. The type of an integer literal is the smallest integer type of its sign that represents it, and there is
  none exactly when no integer type represents the number.
\<close>

theorem integerType_smallest:
  "(\<exists>r. RationalNumberType_integerType (of_int v) = Inr r \<and>
      (case r of
         Some t \<Rightarrow> (\<exists>bits. t = IntegerType bits (sign_modifier v) \<and> type_ok t \<and> represents t (of_int v) \<and>
             (\<forall>bits'. type_ok (IntegerType bits' (sign_modifier v)) \<and> represents (IntegerType bits' (sign_modifier v)) (of_int v) \<longrightarrow> bits \<le> bits'))
       | None \<Rightarrow> (\<forall>bits m. type_ok (IntegerType bits m) \<longrightarrow> \<not> represents (IntegerType bits m) (of_int v))))"
proof -
  have pos: "0 < integer_bytes v" by (simp add: integer_bytes_def)
  have mult: "\<exists>k. bits = k * 8 \<and> 0 < k \<and> k \<le> 32" if "type_ok (IntegerType bits m)" for bits m
    using that by (intro exI [of _ "bits div 8"]) auto
  have sgn: "represents (IntegerType bits (sign_modifier v)) (of_int v)" if "represents (IntegerType bits m) (of_int v)" for bits m
  proof -
    have "(2 :: int) ^ (bits - 1) \<le> 2 ^ bits" by simp
    with that show ?thesis
      by (cases "m = Signed"; cases "v < 0")
         (simp_all add: represents_Integer_of_int sign_modifier_def IntegerType_minValue_def IntegerType_maxValue_def del: power_increasing_iff)
  qed
  show ?thesis
  proof (cases "integer_bytes v \<le> 32")
    case True
    have ok: "type_ok (IntegerType (integer_bytes v * 8) (sign_modifier v))" using True pos by simp
    have rep: "represents (IntegerType (integer_bytes v * 8) (sign_modifier v)) (of_int v)"
      using represents_integer_bytes [OF pos, of v] by simp
    have min: "integer_bytes v * 8 \<le> bits'"
      if "type_ok (IntegerType bits' (sign_modifier v))" "represents (IntegerType bits' (sign_modifier v)) (of_int v)" for bits'
      using that represents_integer_bytes mult [OF that(1)] by auto
    show ?thesis using True ok rep min by (simp add: integerType_eq)
  next
    case False
    have none: "\<not> represents (IntegerType bits m) (of_int v)" if t: "type_ok (IntegerType bits m)" for bits m
    proof
      assume r: "represents (IntegerType bits m) (of_int v)"
      obtain k where k: "bits = k * 8" "0 < k" "k \<le> 32" using mult [OF t] by blast
      from sgn [OF r] have "integer_bytes v \<le> k" unfolding k(1) represents_integer_bytes [OF k(2)] .
      with k(3) False show False by simp
    qed
    show ?thesis using False none by (simp add: integerType_eq)
  qed
qed

theorem integerType_smallest_witness:
  "\<exists>bits. RationalNumberType_integerType (of_int (- 129)) = Inr (Some (IntegerType bits Signed)) \<and> bits \<le> 16"
proof -
  have sg: "sign_modifier (- 129) = Signed" by (simp add: sign_modifier_def)
  have rep: "represents (IntegerType 16 Signed) (of_int (- 129))"
    by (simp only: represents_Integer_of_int) (simp add: IntegerType_minValue_def IntegerType_maxValue_def)
  have ok: "type_ok (IntegerType 16 Signed)" by simp
  obtain r where r: "RationalNumberType_integerType (of_int (- 129)) = Inr r"
    and spec: "case r of
         Some t \<Rightarrow> (\<exists>bits. t = IntegerType bits Signed \<and> type_ok t \<and> represents t (of_int (- 129)) \<and>
             (\<forall>bits'. type_ok (IntegerType bits' Signed) \<and> represents (IntegerType bits' Signed) (of_int (- 129)) \<longrightarrow> bits \<le> bits'))
       | None \<Rightarrow> (\<forall>bits m. type_ok (IntegerType bits m) \<longrightarrow> \<not> represents (IntegerType bits m) (of_int (- 129)))"
    using integerType_smallest [of "- 129"] unfolding sg by blast
  from spec ok rep obtain t bits where "r = Some t" "t = IntegerType bits Signed" "bits \<le> 16" by (cases r) auto
  with r show ?thesis by blast
qed

section \<open>Values of literals\<close>

text \<open>Rounding towards zero, the number that a word denotes in a type, and the decimal digits of a type.\<close>

definition trunc_rat :: "rat \<Rightarrow> int" where
  "trunc_rat q = (if q < 0 then - \<lfloor>- q\<rfloor> else \<lfloor>q\<rfloor>)"

definition literal_number :: "Type \<Rightarrow> u256 \<Rightarrow> int" where
  "literal_number t w =
     (case t of
        IntegerType bits m \<Rightarrow> if m = Signed then sint w else uint w
      | FixedPointType bits digits m \<Rightarrow> if m = FixedSigned then sint w else uint w
      | _ \<Rightarrow> uint w)"

definition type_digits :: "Type \<Rightarrow> nat" where
  "type_digits t = (case t of FixedPointType bits digits m \<Rightarrow> digits | _ \<Rightarrow> 0)"

lemma trunc_rat_of_int [simp]: "trunc_rat (of_int n) = n"
  by (simp add: trunc_rat_def)

lemma denominator_pos: "0 < denominator q"
  by (simp add: denominator_def quotient_of_denom_pos')

lemma rat_fraction: "q = of_int (numerator q) / of_int (denominator q)"
  unfolding numerator_def denominator_def by (rule quotient_of_div) simp

lemma sdiv_trunc: "0 < b \<Longrightarrow> a sdiv b = trunc_rat (of_int a / of_int b)"
proof -
  assume b: "0 < b"
  have neg: "of_int a / (of_int b :: rat) < 0 \<longleftrightarrow> a < 0" using b by (simp add: divide_less_0_iff)
  have "- (of_int a / of_int b) = (of_int (- a) / of_int b :: rat)" by simp
  then have m: "\<lfloor>- (of_int a / of_int b :: rat)\<rfloor> = - a div b" by (simp only: floor_divide_of_int_eq)
  show ?thesis
    using b neg m by (auto simp: trunc_rat_def signed_divide_int_def sgn_if floor_divide_of_int_eq)
qed

lemma shifted_value: "(numerator q * 10 ^ d) sdiv denominator q = trunc_rat (q * 10 ^ d)"
proof -
  have "of_int (numerator q * 10 ^ d) / of_int (denominator q) = q * 10 ^ d"
    by (subst (3) rat_fraction) simp
  then show ?thesis using sdiv_trunc [OF denominator_pos, of "numerator q * 10 ^ d" q] by simp
qed

lemma fixedPoint_loop_value: "fixedPoint_loop m v d = (v', d') \<Longrightarrow> d \<le> d' \<and> v' = v * 10 ^ (d' - d)"
proof (induction m v d rule: fixedPoint_loop.induct)
  case (1 m v d)
  show ?case
  proof (cases "v * 10 \<le> m \<and> denominator v \<noteq> 1 \<and> d < 80")
    case True
    then have "fixedPoint_loop m (v * 10) (d + 1) = (v', d')" using 1(2) by (subst (asm) fixedPoint_loop.simps) simp
    from 1(1) [OF True this] have "d + 1 \<le> d'" "v' = v * 10 * 10 ^ (d' - (d + 1))" by auto
    moreover from this(1) have "d' - d = Suc (d' - (d + 1))" by simp
    ultimately show ?thesis by simp
  next
    case False
    then show ?thesis using 1(2) by (subst (asm) fixedPoint_loop.simps) (auto split: if_splits)
  qed
qed

lemma fixedPointType_cases:
  obtains "RationalNumberType_fixedPointType q = Inr None"
  | bits d where "RationalNumberType_fixedPointType q = Inr (Some (FixedPointType bits d (if q < 0 then FixedSigned else FixedUnsigned)))"
      "\<bar>q\<bar> * 10 ^ d \<le> (if q < 0 then 2 ^ 255 else 2 ^ 256 - 1)"
proof -
  define m :: rat where "m = (if q < 0 then 2 ^ 255 else 2 ^ 256 - 1)"
  obtain val d where l: "fixedPoint_loop m \<bar>q\<bar> 0 = (val, d)" by force
  then have v: "val = \<bar>q\<bar> * 10 ^ d" using fixedPoint_loop_value by fastforce
  define w where "w = (let v = numerator val sdiv denominator val in if q < 0 \<and> v \<noteq> 0 then (v - 1) * 2 else v)"
  have eq: "RationalNumberType_fixedPointType q =
      (if val > m then Inr None else if w > 2 ^ 256 - 1 then Inr None
       else bindE (assertThrow (max (bytesRequired (nat w)) 1 * 8 \<le> 256) InternalCompilerError) (\<lambda>_.
              Inr (Some (FixedPointType (max (bytesRequired (nat w)) 1 * 8) d (if q < 0 then FixedSigned else FixedUnsigned)))))"
    by (simp only: RationalNumberType_fixedPointType_def m_def [symmetric] l w_def Let_def prod.case)
  show thesis
  proof (cases "val > m \<or> w > 2 ^ 256 - 1")
    case True
    then show thesis using that(1) by (auto simp: eq)
  next
    case False
    then have "nat w < 256 ^ 32" by (auto simp: nat_less_iff not_less)
    then have "bytesRequired (nat w) \<le> 32" by (simp only: bytesRequired_le_iff)
    with False have "RationalNumberType_fixedPointType q =
        Inr (Some (FixedPointType (max (bytesRequired (nat w)) 1 * 8) d (if q < 0 then FixedSigned else FixedUnsigned)))"
      by (simp add: eq assertThrow_def)
    moreover have "\<bar>q\<bar> * 10 ^ d \<le> (if q < 0 then 2 ^ 255 else 2 ^ 256 - 1)"
      using False v unfolding m_def by (simp only: not_less de_Morgan_disj)
    ultimately show thesis by (rule that(2))
  qed
qed

lemma mobileType_defined: "\<exists>r. RationalNumberType_mobileType q = Inr r"
proof (cases "isFractional q")
  case True
  then show ?thesis by (cases q rule: fixedPointType_cases) (simp_all add: RationalNumberType_mobileType_def)
next
  case False
  then obtain n where "q = of_int n" by (auto simp: not_isFractional)
  then show ?thesis by (simp add: RationalNumberType_mobileType_def integerType_eq)
qed

lemma trunc_rat_bounds:
  assumes "\<bar>q\<bar> \<le> of_int m" shows "(q < 0 \<longrightarrow> - m \<le> trunc_rat q \<and> trunc_rat q \<le> 0) \<and> (\<not> q < 0 \<longrightarrow> 0 \<le> trunc_rat q \<and> trunc_rat q \<le> m)"
proof (cases "q < 0")
  case True
  then have "- q \<le> of_int m" "0 \<le> - q" using assms by auto
  then have "\<lfloor>- q\<rfloor> \<le> m" "0 \<le> \<lfloor>- q\<rfloor>" by (simp_all only: floor_le_iff zero_le_floor)
  then show ?thesis using True by (simp add: trunc_rat_def)
next
  case False
  then have "q \<le> of_int m" using assms by auto
  then have "\<lfloor>q\<rfloor> \<le> m" by (simp only: floor_le_iff)
  then show ?thesis using False by (simp add: trunc_rat_def)
qed

lemma literalValue_of_number:
  assumes "- (2 ^ 255) \<le> n" "n \<le> 2 ^ 256 - 1" "s \<Longrightarrow> n < 2 ^ 255" "\<not> s \<Longrightarrow> 0 \<le> n"
  shows "(if s then sint (word_of_int n :: u256) else uint (word_of_int n :: u256)) = n"
proof (cases s)
  case True
  then show ?thesis using assms by (simp add: sint_sbintrunc' signed_take_bit_int_eq_self)
next
  case False
  then show ?thesis using assms by (simp add: uint_word_of_int)
qed

lemma literalValue_integer: "- (2 ^ 255) \<le> n \<Longrightarrow> n \<le> 2 ^ 256 - 1 \<Longrightarrow> RationalNumberType_literalValue (of_int n) = Inr (word_of_int n)"
  by (simp add: RationalNumberType_literalValue_def assertThrow_def)

lemma literalValue_fixed:
  "isFractional q \<Longrightarrow> RationalNumberType_fixedPointType q = Inr (Some (FixedPointType bits d m)) \<Longrightarrow>
   - (2 ^ 255) \<le> trunc_rat (q * 10 ^ d) \<Longrightarrow> trunc_rat (q * 10 ^ d) \<le> 2 ^ 256 - 1 \<Longrightarrow>
   RationalNumberType_literalValue q = Inr (word_of_int (trunc_rat (q * 10 ^ d)))"
  by (simp add: RationalNumberType_literalValue_def assertThrow_def shifted_value)

text \<open>
  C23. The type of a number literal is found without a failed assertion, and a literal that has a type has a value: the 256-bit word that denotes the
  number, scaled by the decimal digits of the type and rounded towards zero.
\<close>

theorem literalValue_denotes:
  "\<exists>r. RationalNumberType_mobileType q = Inr r \<and>
     (case r of
        Some t \<Rightarrow> (\<exists>w. RationalNumberType_literalValue q = Inr w \<and> literal_number t w = trunc_rat (q * 10 ^ type_digits t))
      | None \<Rightarrow> True)"
proof (cases "isFractional q")
  case True
  show ?thesis
  proof (cases q rule: fixedPointType_cases)
    case 1
    then show ?thesis using True by (simp add: RationalNumberType_mobileType_def)
  next
    case (2 bits d)
    let ?n = "trunc_rat (q * 10 ^ d)"
    have neg: "q * 10 ^ d < 0 \<longleftrightarrow> q < 0" by (simp add: mult_less_0_iff)
    have "\<bar>q * 10 ^ d\<bar> \<le> of_int (if q < 0 then 2 ^ 255 else 2 ^ 256 - 1)" using 2(2) by (cases "q < 0") (simp_all add: abs_mult)
    note b = trunc_rat_bounds [OF this, unfolded neg]
    have range: "- (2 ^ 255) \<le> ?n" "?n \<le> 2 ^ 256 - 1" "q < 0 \<Longrightarrow> ?n < 2 ^ 255" "\<not> q < 0 \<Longrightarrow> 0 \<le> ?n"
      using b by (cases "q < 0"; simp)+
    show ?thesis
      using True 2(1) literalValue_fixed [OF True 2(1) range(1,2)] literalValue_of_number [of ?n "q < 0", OF range]
      by (simp add: RationalNumberType_mobileType_def literal_number_def type_digits_def split: if_splits)
  qed
next
  case False
  then obtain n where q: "q = of_int n" by (auto simp: not_isFractional)
  show ?thesis
  proof (cases "integer_bytes n \<le> 32")
    case True
    then have "represents (IntegerType (32 * 8) (sign_modifier n)) (of_int n)" by (simp only: represents_integer_bytes zero_less_numeral)
    then have range: "- (2 ^ 255) \<le> n" "n \<le> 2 ^ 256 - 1" "n < 0 \<Longrightarrow> n < 2 ^ 255" "\<not> n < 0 \<Longrightarrow> 0 \<le> n"
      by (cases "n < 0"; simp add: represents_Integer_of_int sign_modifier_def IntegerType_minValue_def IntegerType_maxValue_def)+
    show ?thesis
      using True literalValue_integer [OF range(1,2)] literalValue_of_number [of n "n < 0", OF range]
      by (simp add: q RationalNumberType_mobileType_def integerType_eq literal_number_def type_digits_def sign_modifier_def split: if_splits)
  next
    case False
    then show ?thesis by (simp add: q RationalNumberType_mobileType_def integerType_eq)
  qed
qed

section \<open>Common types\<close>

definition convertible_operand :: "Type \<Rightarrow> bool" where
  "convertible_operand t =
     (case t of RationalNumberType q b \<Rightarrow> \<not> isFractional q | StringLiteralType s \<Rightarrow> False | ContractType c super \<Rightarrow> \<not> super | _ \<Rightarrow> True)"

lemma isImplicitlyConvertibleTo_mobile:
  assumes "mobileType t = Inr (Some u)" "convertible_operand t"
  shows "holds (isImplicitlyConvertibleTo ext t u)"
proof (cases t)
  case (RationalNumberType q b)
  with assms(2) obtain n where q: "q = of_int n" by (auto simp: convertible_operand_def not_isFractional)
  with assms(1) RationalNumberType have u: "u = IntegerType (integer_bytes n * 8) (sign_modifier n)"
    by (auto simp: RationalNumberType_mobileType_def integerType_eq split: if_splits)
  have "represents u (of_int n)" unfolding u by (rule represents_integer_bytes [THEN iffD2]) (auto simp: integer_bytes_def)
  then have "numerator q = n" "IntegerType_minValue (integer_bytes n * 8) (sign_modifier n = Signed) \<le> n \<and>
      n \<le> IntegerType_maxValue (integer_bytes n * 8) (sign_modifier n = Signed)" by (simp_all add: u represents_Integer_of_int q)
  then show ?thesis by (simp add: RationalNumberType u q RationalNumberType_isImplicitlyConvertibleTo_def fits_iff)
next
  case (ArrayType loc ptr kind base len)
  then show ?thesis
    using assms(1) Type_eq_withLocation [of loc False base] by (auto split: if_splits)
qed (use assms in \<open>auto simp: AddressType_isImplicitlyConvertibleTo_def IntegerType_isImplicitlyConvertibleTo_def
       convertible_operand_def
       FixedPointType_isImplicitlyConvertibleTo_def ContractType_isImplicitlyConvertibleTo_def\<close>)



section \<open>Storage of arrays\<close>

text \<open>What the analysis has checked of a type before its size is asked for: no empty arrays, small enumerations, no \<open>super\<close>.\<close>

fun storable :: "Type \<Rightarrow> bool" where
  "storable (ContractType c super) \<longleftrightarrow> \<not> super"
| "storable (EnumType d) \<longleftrightarrow> EnumType_numberOfMembers d \<le> 256"
| "storable (ArrayType loc ptr kind base len) \<longleftrightarrow> storable base \<and> len \<noteq> Some 0"
| "storable t \<longleftrightarrow> True"

lemma storageBytes_defined: "storable t \<Longrightarrow> \<exists>b. storageBytes t = Inr b"
  by (cases t) (auto simp: assertThrow_def)

lemma storageSizeUpperBound_pos: "storable t \<Longrightarrow> 1 \<le> storageSizeUpperBound t"
  by (induction t) (auto split: option.splits)

text \<open>The slots for \<open>n\<close> packed elements: enough for all of them, and not more slots than elements.\<close>

lemma packed_slots:
  assumes "0 < k" "0 < n"
  shows "n \<le> k * ((n + (k - 1)) div k) \<and> (n + (k - 1)) div k \<le> n \<and> 1 \<le> (n + (k - 1)) div (k :: nat)"
proof -
  have "(n + (k - 1)) div k * k + (n + (k - 1)) mod k = n + (k - 1)" by simp
  moreover have "(n + (k - 1)) mod k < k" using assms by simp
  ultimately have lower: "n \<le> k * ((n + (k - 1)) div k)" by (subst mult.commute) linarith
  have "n + (k - 1) < k * (n + 1)" using assms by (cases n; cases k) auto
  then have upper: "(n + (k - 1)) div k \<le> n" using assms by (simp add: less_mult_imp_div_less mult.commute less_Suc_eq_le [symmetric])
  from lower assms have "1 \<le> (n + (k - 1)) div k" by (cases "(n + (k - 1)) div k") auto
  with lower upper show ?thesis by blast
qed

lemma validForLocation_value: "category t \<noteq> Category_Array \<Longrightarrow> validForLocation loc t = Inr (BoolOk True)"
  by (cases t) simp_all

lemma validForLocation_storage:
  assumes "validForLocation Storage (ArrayType loc ptr kind base (Some n)) = Inr (BoolOk True)"
  shows "validForLocation Storage base = Inr (BoolOk True)" "n * storageSizeUpperBound base < 2 ^ 256"
proof -
  obtain r where r: "(if category base = Category_Array then validForLocation Storage base else Inr (BoolOk True)) = Inr r"
    and u: "(if \<not> holds r then r else if storageSizeUpperBound (ArrayType loc ptr kind base (Some n)) \<ge> 2 ^ 256
       then BoolErr ''Type too large for storage.'' else BoolOk True) = BoolOk True"
    using assms unfolding validForLocation.simps bindE_Inr by (auto simp: bindE_Inr simp del: storageSizeUpperBound.simps split: if_splits)
  have h: "holds r" and ub: "storageSizeUpperBound (ArrayType loc ptr kind base (Some n)) < 2 ^ 256"
    using u by (auto simp del: storageSizeUpperBound.simps power_numeral split: if_splits)
  then have "r = BoolOk True" by (cases r) auto
  then show "validForLocation Storage base = Inr (BoolOk True)" using r validForLocation_value [of base Storage] by (auto split: if_splits)
  from ub show "n * storageSizeUpperBound base < 2 ^ 256" by simp
qed

lemma storageSize_bound:
  "type_ok t \<Longrightarrow> storable t \<Longrightarrow> validForLocation Storage t = Inr (BoolOk True) \<Longrightarrow>
   \<exists>n. storageSize t = Inr n \<and> 1 \<le> n \<and> n \<le> storageSizeUpperBound t \<and> n < 2 ^ 256"
proof (induction t)
  case (ArrayType loc ptr kind base len)
  show ?case
  proof (cases len)
    case None
    then show ?thesis by simp
  next
    case (Some n)
    then have n: "0 < n" using ArrayType.prems(2) by simp
    note v = validForLocation_storage [OF ArrayType.prems(3) [unfolded Some]]
    note valid = v(1) and ub = v(2)
    obtain b where b: "storageBytes base = Inr b" using storageBytes_defined ArrayType.prems(2) by auto
    have bb: "0 < b" "b \<le> 32" using storageBytes_bound [OF _ b] ArrayType.prems(1) by auto
    obtain s where s: "storageSize base = Inr s" "1 \<le> s" "s \<le> storageSizeUpperBound base"
      using ArrayType.IH ArrayType.prems(1,2) valid by auto
    have ub1: "n \<le> n * storageSizeUpperBound base" using s by simp
    show ?thesis
    proof (cases "b < 32")
      case True
      define k where "k = 32 div b"
      have "0 < k" using bb by (simp add: k_def div_greater_zero_iff)
      from packed_slots [OF this n] have "(n + (k - 1)) div k \<le> n" "1 \<le> (n + (k - 1)) div k" by auto
      moreover from this(1) ub1 ub have "(n + (k - 1)) div k \<le> n * storageSizeUpperBound base" "(n + (k - 1)) div k < 2 ^ 256" by linarith+
      ultimately show ?thesis
        using bb True by (auto simp: Some b assertThrow_def Let_def k_def [symmetric] max_def simp del: power_numeral)
    next
      case False
      have "n * s \<le> n * storageSizeUpperBound base" "1 \<le> n * s" using s n by auto
      moreover from this(1) ub have "n * s < 2 ^ 256" by linarith
      ultimately show ?thesis
        using bb False s by (auto simp: Some b assertThrow_def Let_def max_def simp del: power_numeral)
    qed
  qed
qed simp_all



end
