(* ===== verification/CodeEffects.thy ===== *)
theory CodeEffects
  imports StackOperations TypeProps
begin

text \<open>
  What the shared code does to the machine: numbers, external functions, the free memory pointer, conversions of values,
  and values in memory. Each lemma of the collection \<open>effects\<close> gives the state of the machine after one operation, so that a sequence of operations is
  a chain of them.
\<close>

named_theorems effects

section \<open>Single instructions\<close>

abbreviation vm_at :: "u256 list \<Rightarrow> (nat \<Rightarrow> byte) \<Rightarrow> VM" where
  "vm_at st m \<equiv> \<lparr>vm_stack = st, vm_memory = m\<rparr>"

lemma does_finish: "vm = vm' \<Longrightarrow> does cx (run_ops []) vm vm'"
  by (simp add: does_skip)

lemma effect_value [effects]: "does cx (append_value ext w) (vm_at st m) (vm_at (w # st) m)"
  using does_value [of cx ext w "vm_at st m"] by simp

lemma effect_debug [effects]: "does cx (append_debug s) vm vm"
  by (rule does_debug)

lemma does_binary: "binary_op i = Some f \<Longrightarrow> does cx (append_op ext i) (vm_at (a # b # st) m) (vm_at (f a b # st) m)"
  by (rule does_op) (simp add: exec_op_def)

lemma does_unary: "binary_op i = None \<Longrightarrow> unary_op i = Some f \<Longrightarrow> does cx (append_op ext i) (vm_at (a # st) m) (vm_at (f a # st) m)"
  by (rule does_op) (simp add: exec_op_def)

lemma op_keys: "Instruction_POP = 0x50" "Instruction_MLOAD = 0x51" "Instruction_MSTORE = 0x52"
  "binary_op 0x50 = None" "binary_op 0x51 = None" "binary_op 0x52 = None" "unary_op 0x50 = None" "unary_op 0x51 = None" "unary_op 0x52 = None"
  by (simp_all add: Instruction_defs binary_op_def unary_op_def)

lemma effect_ADD [effects]: "does cx (append_op ext Instruction_ADD) (vm_at (a # b # st) m) (vm_at ((a + b) # st) m)"
  by (rule does_binary) (simp add: binary_op_def)

lemma effect_MUL [effects]: "does cx (append_op ext Instruction_MUL) (vm_at (a # b # st) m) (vm_at ((a * b) # st) m)"
  by (rule does_binary) (simp add: binary_op_def Instruction_defs)

lemma effect_SUB [effects]: "does cx (append_op ext Instruction_SUB) (vm_at (a # b # st) m) (vm_at ((a - b) # st) m)"
  by (rule does_binary) (simp add: binary_op_def Instruction_defs)

lemma effect_DIV [effects]: "does cx (append_op ext Instruction_DIV) (vm_at (a # b # st) m) (vm_at ((a div b) # st) m)"
  by (rule does_binary) (simp add: binary_op_def Instruction_defs)

lemma effect_AND [effects]: "does cx (append_op ext Instruction_AND) (vm_at (a # b # st) m) (vm_at (and a b # st) m)"
  by (rule does_binary) (simp add: binary_op_def Instruction_defs)

lemma effect_OR [effects]: "does cx (append_op ext Instruction_OR) (vm_at (a # b # st) m) (vm_at (or a b # st) m)"
  by (rule does_binary) (simp add: binary_op_def Instruction_defs)

lemma effect_GT [effects]: "does cx (append_op ext Instruction_GT) (vm_at (a # b # st) m) (vm_at (of_bool (a > b) # st) m)"
  by (rule does_binary) (simp add: binary_op_def Instruction_defs)

lemma effect_SIGNEXTEND [effects]: "does cx (append_op ext Instruction_SIGNEXTEND) (vm_at (a # b # st) m) (vm_at (signextend a b # st) m)"
  by (rule does_binary) (simp add: binary_op_def Instruction_defs)

lemma effect_SHL [effects]: "does cx (append_op ext Instruction_SHL) (vm_at (a # b # st) m) (vm_at (push_bit (unat a) b # st) m)"
  by (rule does_binary) (simp add: binary_op_def Instruction_defs)

lemma effect_SHR [effects]: "does cx (append_op ext Instruction_SHR) (vm_at (a # b # st) m) (vm_at (drop_bit (unat a) b # st) m)"
  by (rule does_binary) (simp add: binary_op_def Instruction_defs)

lemma effect_ISZERO [effects]: "does cx (append_op ext Instruction_ISZERO) (vm_at (a # st) m) (vm_at (of_bool (a = 0) # st) m)"
  by (rule does_unary) (simp_all add: binary_op_def unary_op_def Instruction_defs)

lemma effect_NOT [effects]: "does cx (append_op ext Instruction_NOT) (vm_at (a # st) m) (vm_at (not a # st) m)"
  by (rule does_unary) (simp_all add: binary_op_def unary_op_def Instruction_defs)

lemma effect_POP [effects]: "does cx (append_op ext Instruction_POP) (vm_at (a # st) m) (vm_at st m)"
  by (rule does_op) (simp add: exec_op_def op_keys)

lemma not_dup_swap: "\<not> isDupInstruction 0x51" "\<not> isSwapInstruction 0x51" "\<not> isDupInstruction 0x52" "\<not> isSwapInstruction 0x52"
  by (simp_all add: isDupInstruction_def isSwapInstruction_def Instruction_defs)

lemma effect_MLOAD [effects]: "does cx (append_op ext Instruction_MLOAD) (vm_at (a # st) m) (vm_at (mem_load m (unat a) # st) m)"
  by (rule does_op) (simp add: exec_op_def op_keys not_dup_swap)

lemma effect_MSTORE [effects]: "does cx (append_op ext Instruction_MSTORE) (vm_at (a # w # st) m) (vm_at st (mem_store m (unat a) w))"
  by (rule does_op) (simp add: exec_op_def op_keys not_dup_swap)

lemma effect_dup: "1 \<le> n \<Longrightarrow> n \<le> 16 \<Longrightarrow> n \<le> length st \<Longrightarrow> does cx (append_dup ext n) (vm_at st m) (vm_at (st ! (n - 1) # st) m)"
  using does_dup [of n st cx ext "vm_at st m"] by simp

lemma effect_swap: "1 \<le> n \<Longrightarrow> n \<le> 16 \<Longrightarrow> n < length st \<Longrightarrow> does cx (append_swap ext n) (vm_at st m) (vm_at (swap_top n st) m)"
  using does_swap [of n st cx ext "vm_at st m"] by simp

lemma named_dups: "append_dup ext 1 = append_op ext Instruction_DUP1" "append_dup ext 2 = append_op ext Instruction_DUP2"
  "append_dup ext 3 = append_op ext Instruction_DUP3" "append_dup ext 4 = append_op ext Instruction_DUP4"
  by (simp_all add: fun_eq_iff append_dup_def dupInstruction_def assertThrow_def Instruction_defs)

lemma named_swaps: "append_swap ext 1 = append_op ext Instruction_SWAP1" "append_swap ext 2 = append_op ext Instruction_SWAP2"
  "append_swap ext 3 = append_op ext Instruction_SWAP3"
  by (simp_all add: fun_eq_iff append_swap_def swapInstruction_def assertThrow_def Instruction_defs)

lemma effect_DUP1 [effects]: "does cx (append_op ext Instruction_DUP1) (vm_at (a # st) m) (vm_at (a # a # st) m)"
  using effect_dup [of 1 "a # st" cx ext m] unfolding named_dups by simp

lemma effect_DUP2 [effects]: "does cx (append_op ext Instruction_DUP2) (vm_at (a # b # st) m) (vm_at (b # a # b # st) m)"
  using effect_dup [of 2 "a # b # st" cx ext m] unfolding named_dups by simp

lemma effect_SWAP1 [effects]: "does cx (append_op ext Instruction_SWAP1) (vm_at (a # b # st) m) (vm_at (b # a # st) m)"
  using effect_swap [of 1 "a # b # st" cx ext m] unfolding named_swaps by (simp add: swap_top_def)

lemma effect_SWAP2 [effects]: "does cx (append_op ext Instruction_SWAP2) (vm_at (a # b # c # st) m) (vm_at (c # b # a # st) m)"
  using effect_swap [of 2 "a # b # c # st" cx ext m] unfolding named_swaps by (simp add: swap_top_def numeral_2_eq_2)

section \<open>Numbers\<close>

lemma does_eq: "does cx f vm vm1 \<Longrightarrow> vm1 = vm2 \<Longrightarrow> does cx f vm vm2"
  by simp

lemma does_if: "(b \<Longrightarrow> does cx f vm vm') \<Longrightarrow> (\<not> b \<Longrightarrow> does cx g vm vm') \<Longrightarrow> does cx (\<lambda>c. if b then f c else g c) vm vm'"
  by (cases b) simp_all

text \<open>An operation that asks for the version behaves as it does for that version.\<close>

lemma does_version: "does cx (f (m_evmVersion cx)) vm vm' \<Longrightarrow> does cx (\<lambda>c. f (m_evmVersion c) c) vm vm'"
  by (rule labelled_cong) simp_all

lemma effect_leftShift [effects]:
  assumes "n < 256"
  shows "does cx (leftShiftNumberOnStack ext n) (vm_at (w # st) m) (vm_at (push_bit n w # st) m)"
proof -
  have u: "unat (word_of_nat n :: u256) = n" using assms by (simp add: unat_of_nat)
  have "does cx (run_ops ([append_debug (''CompilerUtils::leftShiftNumberOnStack(bits='' @ decimal n @ '')'')] @
          (if hasBitwiseShifting (m_evmVersion cx) then [append_value ext (word_of_nat n), append_op ext Instruction_SHL]
           else [append_value ext (push_bit n 1), append_op ext Instruction_MUL]) @
          [append_debug ''end of CompilerUtils::leftShiftNumberOnStack()''])) (vm_at (w # st) m) (vm_at (push_bit n w # st) m)"
    by (simp, intro conjI impI; intro does_Cons [OF effect_debug] does_Cons [OF effect_value] does_Cons [OF effect_SHL]
        does_Cons [OF effect_MUL] does_Cons [OF effect_debug] does_finish) (simp_all add: u push_bit_eq_mult mult.commute)
  then show ?thesis using assms by (simp add: labelled_def leftShiftNumberOnStack_def assertThrow_def)
qed

lemma effect_rightShift [effects]:
  assumes "n < 256"
  shows "does cx (rightShiftNumberOnStack ext n) (vm_at (w # st) m) (vm_at (drop_bit n w # st) m)"
proof -
  have u: "unat (word_of_nat n :: u256) = n" using assms by (simp add: unat_of_nat)
  have "does cx (run_ops ([append_debug (''CompilerUtils::rightShiftNumberOnStack(bits='' @ decimal n @ '')'')] @
          (if hasBitwiseShifting (m_evmVersion cx) then [append_value ext (word_of_nat n), append_op ext Instruction_SHR]
           else [append_value ext (push_bit n 1), append_op ext Instruction_SWAP1, append_op ext Instruction_DIV]) @
          [append_debug ''end of CompilerUtils::rightShiftNumberOnStack()''])) (vm_at (w # st) m) (vm_at (drop_bit n w # st) m)"
    by (simp, intro conjI impI; intro does_Cons [OF effect_debug] does_Cons [OF effect_value] does_Cons [OF effect_SHR]
        does_Cons [OF effect_SWAP1] does_Cons [OF effect_DIV] does_Cons [OF effect_debug] does_finish) (simp_all add: u drop_bit_eq_div)
  then show ?thesis using assms by (simp add: labelled_def rightShiftNumberOnStack_def assertThrow_def)
qed

lemma take_bit_and: "and (push_bit n 1 - 1) w = take_bit n (w :: u256)"
  by (simp add: take_bit_eq_mask mask_eq_exp_minus_1 push_bit_eq_mult and.commute)

lemma and_32: "and 0xffffffff w = take_bit 32 (w :: u256)"
  using take_bit_and [of 32 w] by (simp add: push_bit_eq_mult)

text \<open>A signed number of a number of bits, as its representation in two's complement on the whole word.\<close>

definition wrap :: "nat \<Rightarrow> bool \<Rightarrow> int \<Rightarrow> int" where
  "wrap bits isSigned n = (if isSigned then signed_take_bit (bits - 1) n else take_bit bits n)"

lemma effect_cleanHigherOrderBits:
  assumes "0 < bits" "bits \<le> 256" "8 dvd bits"
  shows "does cx (cleanHigherOrderBits ext bits isSigned) (vm_at (w # st) m) (vm_at (word_of_int (wrap bits isSigned (uint w)) # st) m)"
proof -
  have full: "w = word_of_int (wrap 256 isSigned (uint w))"
    by (cases isSigned; simp add: wrap_def; transfer; simp add: take_bit_signed_take_bit)
  have "unat (word_of_nat (bits div 8 - 1) :: u256) = bits div 8 - 1" using assms by (simp add: unat_of_nat)
  moreover have "8 * (bits div 8 - 1) + 7 = bits - 1" using assms by auto
  moreover have "(word_of_nat (bits div 8 - 1) :: u256) < 31" if "bits \<noteq> 256"
    using that assms by (auto simp: word_less_nat_alt unat_of_nat)
  ultimately have sx: "signextend (word_of_nat (bits div 8 - 1)) w = word_of_int (signed_take_bit (bits - 1) (uint w))" if "bits \<noteq> 256"
    using that by (simp add: signextend_def)
  have tb: "and (push_bit bits 1 - 1) w = word_of_int (take_bit bits (uint w))"
    unfolding take_bit_and by (rule bit_word_eqI) (simp add: bit_take_bit_iff bit_word_of_int_iff bit_uint_iff)
  have s: "does cx (run_ops [append_value ext (word_of_nat (bits div 8 - 1)), append_op ext Instruction_SIGNEXTEND]) (vm_at (w # st) m)
      (vm_at (signextend (word_of_nat (bits div 8 - 1)) w # st) m)"
    by (intro does_Cons [OF effect_value] does_Cons [OF effect_SIGNEXTEND] does_finish) simp
  have u: "does cx (run_ops [append_value ext (push_bit bits 1 - 1), append_op ext Instruction_AND]) (vm_at (w # st) m)
      (vm_at (and (push_bit bits 1 - 1) w # st) m)"
    by (intro does_Cons [OF effect_value] does_Cons [OF effect_AND] does_finish) simp
  show ?thesis
  proof (cases "bits = 256")
    case True
    then show ?thesis using does_skip [of cx "vm_at (w # st) m"] full by (simp add: labelled_def cleanHigherOrderBits_def)
  next
    case False
    then show ?thesis using s u sx tb by (cases isSigned) (simp_all add: labelled_def cleanHigherOrderBits_def wrap_def)
  qed
qed

section \<open>External functions\<close>

lemma effect_combine [effects]:
  "does cx (combineExternalFunctionType ext l) (vm_at (f # a # st) m)
     (vm_at (push_bit (if l then 64 else 0) (or (push_bit 32 (if l then a else take_bit 168 a)) (take_bit 32 f)) # st) m)"
  unfolding combineExternalFunctionType_def and_32 [symmetric] take_bit_and [of 168, symmetric]
  by (cases l; simp) (intro effects does_Cons [OF effect_debug] does_Cons [OF effect_value] does_Cons [OF effect_AND] does_Cons [OF effect_SWAP1]
      does_Cons [OF effect_leftShift] does_Cons [OF effect_OR] does_finish; simp)+

lemma effect_split [effects]:
  "does cx (splitExternalFunctionType ext l) (vm_at (w # st) m)
     (vm_at (take_bit 32 (drop_bit (if l then 64 else 0) w) # (if l then drop_bit 96 w else take_bit 168 (drop_bit 32 w)) # st) m)"
  unfolding splitExternalFunctionType_def and_32 [symmetric] take_bit_and [of 168, symmetric]
  by (cases l; simp) (intro effects does_Cons [OF effect_DUP1] does_Cons [OF effect_value] does_Cons [OF effect_AND] does_Cons [OF effect_SWAP1]
      does_Cons [OF effect_rightShift] does_finish; simp)+

lemma combined_parts:
  "take_bit 32 (drop_bit (if l then 64 else 0) (push_bit (if l then 64 else 0) (or (push_bit 32 (if l then a else take_bit 168 a)) (take_bit 32 f))))
     = take_bit 32 (f :: u256)"
  "(if l then drop_bit 96 (push_bit (if l then 64 else 0) (or (push_bit 32 (if l then a else take_bit 168 a)) (take_bit 32 f)))
    else take_bit 168 (drop_bit 32 (push_bit (if l then 64 else 0) (or (push_bit 32 (if l then a else take_bit 168 a)) (take_bit 32 f)))))
     = take_bit (if l then 160 else 168) (a :: u256)"
  by (rule bit_word_eqI; simp add: bit_simps; auto)+

text \<open>
  C19. An external function is its address and its identifier in one stack slot: taking apart what was put together gives both back, the
  identifier cut to four bytes and the address to its 21 bytes, when the slot is right-aligned. When it is left-aligned it is shifted by eight bytes
  and not seven, and the highest byte of the address is lost.
\<close>

theorem externalFunction_roundtrip:
  "does cx (run_ops [combineExternalFunctionType ext l, splitExternalFunctionType ext l]) (vm_at (f # a # st) m)
     (vm_at (take_bit 32 f # take_bit (if l then 160 else 168) a # st) m)"
  using does_Cons [OF effect_combine [of cx ext l f a st m] does_Cons [OF effect_split [of cx ext l] does_Nil]] unfolding combined_parts .

section \<open>Conversions of values\<close>

text \<open>The types of values that are converted without a check at run time, and the word of a value without the bits that are not part of it.\<close>

definition simple_type :: "Type \<Rightarrow> bool" where
  "simple_type t \<longleftrightarrow>
     type_ok t \<and>
     (case t of
        ContractType c super \<Rightarrow> \<not> super
      | _ \<Rightarrow> category t \<in> {Category_Address, Category_ViteTokenId, Category_Integer, Category_FixedBytes, Category_Bool})"

definition top_bytes :: "nat \<Rightarrow> u256 \<Rightarrow> u256" where
  "top_bytes n w = push_bit (256 - 8 * n) (drop_bit (256 - 8 * n) w)"

definition clean_word :: "Type \<Rightarrow> u256 \<Rightarrow> u256" where
  "clean_word t w =
     (case t of
        BoolType \<Rightarrow> of_bool (w \<noteq> 0)
      | ViteTokenIdType \<Rightarrow> take_bit 80 w
      | FixedBytesType n \<Rightarrow> top_bytes n w
      | _ \<Rightarrow> (let (bits, isSigned) = as_integer t in word_of_int (wrap bits isSigned (uint w))))"

text \<open>
  What a conversion of a value means. Numbers, addresses and contracts are numbers that wrap around at the width of the target; fixed bytes are at the top of
  the word, numbers at its bottom.
\<close>

definition convert_word :: "Type \<Rightarrow> Type \<Rightarrow> u256 \<Rightarrow> u256" where
  "convert_word t t' w =
     (case t of
        FixedBytesType n \<Rightarrow> (case t' of FixedBytesType n' \<Rightarrow> top_bytes n' (top_bytes n w) | _ \<Rightarrow> drop_bit (256 - 8 * n) w)
      | _ \<Rightarrow> (case t' of FixedBytesType n' \<Rightarrow> push_bit (256 - 8 * n') w | _ \<Rightarrow> clean_word t' (clean_word t w)))"

lemma top_bytes_bit: "n \<le> 32 \<Longrightarrow> bit (top_bytes n w) i \<longleftrightarrow> 256 - 8 * n \<le> i \<and> bit w i"
  by (auto simp: top_bytes_def bit_simps dest: bit_imp_le_length)

lemma top_bytes_min: "n \<le> 32 \<Longrightarrow> n' \<le> 32 \<Longrightarrow> top_bytes n' (top_bytes n w) = top_bytes (min n n') w"
  by (rule bit_word_eqI) (auto simp: top_bytes_bit min_def)

lemma top_bytes_mask: "n \<le> 32 \<Longrightarrow> and (not (push_bit (256 - n * 8) 1 - 1)) w = top_bytes n w"
proof (rule bit_word_eqI)
  fix i
  assume n: "n \<le> 32" and "i < LENGTH(256)"
  have "push_bit (256 - n * 8) 1 - 1 = (mask (256 - n * 8) :: u256)" by (simp add: mask_eq_exp_minus_1 push_bit_eq_mult)
  then show "bit (and (not (push_bit (256 - n * 8) 1 - 1)) w) i \<longleftrightarrow> bit (top_bytes n w) i"
    using n \<open>i < LENGTH(256)\<close> by (auto simp: top_bytes_bit bit_simps mult.commute)
qed

lemma top_bytes_idem: "n \<le> 32 \<Longrightarrow> top_bytes n (top_bytes n w) = top_bytes n w"
  by (simp add: top_bytes_min)

lemma wrap_uint: "0 < b \<Longrightarrow> b \<le> 256 \<Longrightarrow> wrap b s (uint (word_of_int n :: u256)) = wrap b s n"
  by (cases s) (auto simp: wrap_def uint_word_of_int_eq signed_take_bit_take_bit min_def)

lemma wrap_wrap: "0 < b \<Longrightarrow> b \<le> b' \<Longrightarrow> wrap b' s (wrap b s n) = wrap b s n"
  by (cases s) (auto simp: wrap_def min_def, metis Suc_pred diff_le_mono le_antisym)

section \<open>Conversions of numbers\<close>

definition is_number :: "Type \<Rightarrow> bool" where
  "is_number t \<longleftrightarrow> (case t of AddressType _ \<Rightarrow> True | IntegerType _ _ \<Rightarrow> True | ContractType _ _ \<Rightarrow> True | _ \<Rightarrow> False)"

definition number_bits :: "Type \<Rightarrow> nat" where
  "number_bits t = fst (as_integer t)"

definition number_signed :: "Type \<Rightarrow> bool" where
  "number_signed t = snd (as_integer t)"

lemma clean_number: "is_number t \<Longrightarrow> clean_word t w = word_of_int (wrap (number_bits t) (number_signed t) (uint w))"
  by (cases t) (simp_all add: is_number_def clean_word_def number_bits_def number_signed_def as_integer_def)

lemma number_bits_ok: "is_number t \<Longrightarrow> simple_type t \<Longrightarrow> 0 < number_bits t \<and> number_bits t \<le> 256 \<and> 8 dvd number_bits t"
  by (cases t) (auto simp: is_number_def simple_type_def number_bits_def as_integer_def)

text \<open>An explicit conversion changes the sign or the width of a number, but not both.\<close>

lemma explicit_number:
  assumes "is_number t" "is_number t'" "isExplicitlyConvertibleTo X t t' = Inr True"
  shows "number_signed t = number_signed t' \<or> number_bits t = number_bits t'"
  using assms by (cases t; cases t')
    (auto simp: is_number_def number_signed_def number_bits_def as_integer_def AddressType_isExplicitlyConvertibleTo_def
      AddressType_isImplicitlyConvertibleTo_def IntegerType_isExplicitlyConvertibleTo_def IntegerType_isImplicitlyConvertibleTo_def
      ContractType_isImplicitlyConvertibleTo_def split: if_splits)

definition convert_step :: "CodegenExternal \<Rightarrow> Type \<Rightarrow> Type \<Rightarrow> bool \<Rightarrow> 'g CompilerContext \<Rightarrow> 'g CompilerContext result" where
  "convert_step ext t t' cleanup =
     (if number_bits t' > number_bits t then cleanHigherOrderBits ext (number_bits t) (number_signed t)
      else if cleanup then cleanHigherOrderBits ext (number_bits t') (number_signed t') else Inr)"

lemma does_convert_step:
  assumes n: "is_number t" "is_number t'" and s: "simple_type t" "simple_type t'" and c: "isExplicitlyConvertibleTo X t t' = Inr True"
  shows "\<exists>w'. does cx (convert_step ext t t' cleanup) (vm_at (w # st) m) (vm_at (w' # st) m) \<and>
     clean_word t' w' = convert_word t t' w \<and> (cleanup \<longrightarrow> w' = convert_word t t' w)"
proof -
  let ?b = "number_bits t" and ?s = "number_signed t" and ?b' = "number_bits t'" and ?s' = "number_signed t'"
  have ok: "0 < ?b" "?b \<le> 256" "8 dvd ?b" "0 < ?b'" "?b' \<le> 256" "8 dvd ?b'" using number_bits_ok n s by auto
  have cw: "convert_word t t' w = word_of_int (wrap ?b' ?s' (wrap ?b ?s (uint w)))"
    using n ok by (cases t; cases t') (simp_all add: convert_word_def clean_number wrap_uint is_number_def)
  consider "?b' > ?b" "?s = ?s'" | "?b' \<le> ?b" using explicit_number [OF n c] by linarith
  then show ?thesis
  proof cases
    case 1
    then have "wrap ?b' ?s' (wrap ?b ?s (uint w)) = wrap ?b ?s (uint w)" using wrap_wrap ok by simp
    then show ?thesis
      using effect_cleanHigherOrderBits [of ?b cx ext ?s w st m] 1 ok n cw
      by (intro exI [of _ "word_of_int (wrap ?b ?s (uint w))"]) (simp add: convert_step_def clean_number wrap_uint)
  next
    case 2
    then have w: "wrap ?b' ?s' (wrap ?b ?s (uint w)) = wrap ?b' ?s' (uint w)" using ok
      by (auto simp: wrap_def min_def signed_take_bit_take_bit take_bit_signed_take_bit)
    show ?thesis
    proof (cases cleanup)
      case True
      then show ?thesis
        using effect_cleanHigherOrderBits [of ?b' cx ext ?s' w st m] 2 ok n cw w
        by (intro exI [of _ "word_of_int (wrap ?b' ?s' (uint w))"]) (simp add: convert_step_def clean_number wrap_uint wrap_wrap)
    next
      case False
      then show ?thesis
        using does_skip [of cx "vm_at (w # st) m"] 2 ok n cw w
        by (intro exI [of _ w]) (simp add: convert_step_def clean_number)
    qed
  qed
qed

section \<open>Conversions\<close>

lemma does_frame:
  assumes skip: "Type_eq t t' \<and> \<not> cleanup \<Longrightarrow> vm' = vm"
    and ok: "case t of ContractType d super \<Rightarrow> \<not> super | _ \<Rightarrow> True" "category t' \<noteq> Category_FixedPoint"
    and enum: "category t \<noteq> Category_Enum" "category t' \<noteq> Category_Enum"
    and body: "\<And>c. body False False c = bindE (f c) (\<lambda>c. Inr ((False, False), c))" and f: "does cx f vm vm'"
  shows "does cx (convert_frame ext t t' cleanup False body) vm vm'"
proof (cases "Type_eq t t' \<and> \<not> cleanup")
  case True
  then show ?thesis using skip does_skip [of cx vm] by (simp add: labelled_def convert_frame_def)
next
  case False
  let ?d = "''CompilerUtils::convertType(): '' @ Type_toString (cg_types ext) False t @ '' -> '' @ Type_toString (cg_types ext) False t'"
  have "does cx (run_ops [append_debug ?d, f, append_debug ''end of CompilerUtils::convertType()'']) vm vm'"
    by (intro does_Cons [OF effect_debug] does_Cons [OF f] does_Cons [OF effect_debug] does_Nil)
  moreover have "convert_frame ext t t' cleanup False body = run_ops [append_debug ?d, f, append_debug ''end of CompilerUtils::convertType()'']"
    using ok enum
    by (simp add: fun_eq_iff convert_frame_def if_not_P [OF False] assertThrow_def body bindE_assoc run_ops_Cons)
  ultimately show ?thesis by simp
qed


text \<open>The four kinds of conversion between simple types that are explicit.\<close>

lemma explicit_kinds:
  assumes "simple_type t" "simple_type t'" "isExplicitlyConvertibleTo X t t' = Inr True"
  shows "is_number t \<and> is_number t' \<or> (\<exists>n n'. t = FixedBytesType n \<and> t' = FixedBytesType n') \<or>
    (\<exists>n m. t = FixedBytesType n \<and> (t' = IntegerType (n * 8) m \<and> m \<noteq> Signed \<or> n = 21 \<and> t' = AddressType NonPayable)) \<or>
    (\<exists>n m. t' = FixedBytesType n \<and> (t = IntegerType (n * 8) m \<and> m \<noteq> Signed \<or> n = 21 \<and> t = AddressType NonPayable)) \<or>
    t' = t \<and> (t = BoolType \<or> t = ViteTokenIdType)"
  using assms
  by (cases t; cases t')
    (auto simp: simple_type_def is_number_def isExplicitlyConvertibleTo.simps AddressType_isExplicitlyConvertibleTo_def
      AddressType_isImplicitlyConvertibleTo_def IntegerType_isExplicitlyConvertibleTo_def IntegerType_isImplicitlyConvertibleTo_def
      ContractType_isImplicitlyConvertibleTo_def isImplicitlyConvertibleTo.simps split: if_splits)

lemma convertType_simple:
  "simple_type t \<Longrightarrow> convertType ext ac t t' cleanup chop part =
     convert_frame ext t t' cleanup chop
       (convert_body ext (\<lambda>c. Inl UndefinedBehaviour) (\<lambda>c. Inl UndefinedBehaviour) t t' cleanup part)"
  by (cases t) (simp_all add: simple_type_def)

lemma equal_types: "simple_type t \<Longrightarrow> simple_type t' \<Longrightarrow> Type_eq t t' \<Longrightarrow> clean_word t' w = convert_word t t' w"
proof -
  assume s: "simple_type t" "simple_type t'" and e: "Type_eq t t'"
  show ?thesis
  proof (cases "is_number t")
    case True
    then have n: "is_number t'" "number_bits t' = number_bits t" "number_signed t' = number_signed t"
      using e by (cases t; cases t'; auto simp: is_number_def number_bits_def number_signed_def as_integer_def)+
    have "convert_word t t' w = clean_word t' (clean_word t w)"
      using True n by (cases t; cases t') (simp_all add: is_number_def convert_word_def)
    then show ?thesis using True n number_bits_ok [OF True s(1)] by (simp add: clean_number wrap_uint wrap_wrap)
  next
    case False
    then show ?thesis using s e
      by (cases t; cases t') (auto simp: is_number_def simple_type_def convert_word_def clean_word_def top_bytes_idem)
  qed
qed

lemma bindE_return [simp]: "bindE m Inr = m"
  by (cases m) simp_all

lemma does_push_and: "does cx (run_ops [append_value ext a, append_op ext Instruction_AND]) (vm_at (w # st) m) (vm_at (and a w # st) m)"
  by (intro does_Cons [OF effect_value] does_Cons [OF effect_AND] does_Nil)

lemma does_convertType:
  assumes s: "simple_type t" "simple_type t'" and ne: "\<not> (Type_eq t t' \<and> \<not> cleanup)" and f: "does cx (f :: 'g CompilerContext \<Rightarrow> 'g CompilerContext result) vm vm'"
    and body: "\<And>c. convert_body ext (\<lambda>c. Inl UndefinedBehaviour) (\<lambda>c. Inl UndefinedBehaviour) t t' cleanup part False False c =
        bindE (f c) (\<lambda>c. Inr ((False, False), c))"
  shows "does cx (convertType ext ac t t' cleanup False part :: 'g CompilerContext \<Rightarrow> 'g CompilerContext result) vm vm'"
  unfolding convertType_simple [OF s(1)]
  by (rule does_frame [where f = f]) (use s ne f in \<open>auto simp: body simple_type_def split: Type.splits\<close>)

lemma does_convert_number:
  assumes n: "is_number t" "is_number t'" and s: "simple_type t" "simple_type t'" and c: "isExplicitlyConvertibleTo X t t' = Inr True"
    and ne: "\<not> (Type_eq t t' \<and> \<not> cleanup)"
  shows "\<exists>w'. does cx (convertType ext ac t t' cleanup False part :: 'g CompilerContext \<Rightarrow> 'g CompilerContext result) (vm_at (w # st) m) (vm_at (w' # st) m) \<and>
     clean_word t' w' = convert_word t t' w \<and> (cleanup \<longrightarrow> w' = convert_word t t' w)"
proof -
  obtain w' where w': "does cx (convert_step ext t t' cleanup :: 'g CompilerContext \<Rightarrow> 'g CompilerContext result) (vm_at (w # st) m) (vm_at (w' # st) m)"
      "clean_word t' w' = convert_word t t' w" "cleanup \<longrightarrow> w' = convert_word t t' w"
    using does_convert_step [OF n s c, of cx ext cleanup w st m] by blast
  have "does cx (convertType ext ac t t' cleanup False part :: 'g CompilerContext \<Rightarrow> 'g CompilerContext result) (vm_at (w # st) m) (vm_at (w' # st) m)"
  proof (rule does_convertType [OF s ne w'(1)])
    show "convert_body ext (\<lambda>c. Inl UndefinedBehaviour) (\<lambda>c. Inl UndefinedBehaviour) t t' cleanup part False False c =
        bindE (convert_step ext t t' cleanup c) (\<lambda>c. Inr ((False, False), c))" for c :: "'g CompilerContext"
      using n by (cases t; cases t')
        (simp_all add: is_number_def convert_body_def convert_number_def assertThrow_def convert_step_def as_integer_def number_bits_def
          number_signed_def bindE_assoc)
  qed
  then show ?thesis using w' by blast
qed

lemma does_convert_bytes:
  assumes "n \<le> 32" "n' \<le> 32" "0 < n" "0 < n'"
  shows "\<exists>w'. does cx (convert_fixedBytes ext n (FixedBytesType n') cleanup) (vm_at (w # st) m) (vm_at (w' # st) m) \<and>
     top_bytes n' w' = top_bytes n' (top_bytes n w) \<and> (cleanup \<longrightarrow> w' = top_bytes n' (top_bytes n w))"
proof (cases "n' > n \<or> cleanup")
  case True
  let ?w = "and (not (push_bit (256 - min n n' * 8) 1 - 1)) w"
  have "does cx (run_ops [append_value ext (push_bit (256 - min n n' * 8) 1 - 1), append_op ext Instruction_NOT, append_op ext Instruction_AND])
      (vm_at (w # st) m) (vm_at (?w # st) m)"
    by (intro does_Cons [OF effect_value] does_Cons [OF effect_NOT] does_Cons [OF effect_AND] does_Nil)
  then have "does cx (convert_fixedBytes ext n (FixedBytesType n') cleanup) (vm_at (w # st) m) (vm_at (?w # st) m)"
    using assms True by (simp add: labelled_def convert_fixedBytes_def)
  moreover have "?w = top_bytes n' (top_bytes n w)" using assms top_bytes_mask [of "min n n'" w] by (simp add: top_bytes_min)
  ultimately show ?thesis using assms by (auto simp: top_bytes_idem)
next
  case False
  then have "does cx (convert_fixedBytes ext n (FixedBytesType n') cleanup) (vm_at (w # st) m) (vm_at (w # st) m)"
    using assms does_skip [of cx "vm_at (w # st) m"] by (simp add: labelled_def convert_fixedBytes_def)
  then show ?thesis using False assms by (auto simp: top_bytes_min min_def intro!: exI [of _ w])
qed

lemma does_from_bytes:
  assumes "0 < n" "t' = IntegerType (n * 8) k \<and> k \<noteq> Signed \<or> n = 21 \<and> t' = AddressType NonPayable"
  shows "does cx (convert_fixedBytes ext n t' cleanup) (vm_at (w # st) m) (vm_at (drop_bit (256 - 8 * n) w # st) m)"
  using effect_rightShift [of "256 - 8 * n" cx ext w st m] assms
  by (auto simp: labelled_def convert_fixedBytes_def assertThrow_def mult.commute bindE_return)

lemma does_to_bytes:
  assumes "0 < n" "t = IntegerType (n * 8) k \<and> k \<noteq> Signed \<or> n = 21 \<and> t = AddressType NonPayable"
  shows "does cx (convert_to_fixedBytes ext t n) (vm_at (w # st) m) (vm_at (push_bit (256 - 8 * n) w # st) m)"
  using effect_leftShift [of "256 - 8 * n" cx ext w st m] assms
  by (auto simp: labelled_def convert_to_fixedBytes_def assertThrow_def mult.commute)


lemma clean_after_shift:
  assumes "0 < n" "n \<le> 32" "t' = IntegerType (n * 8) k \<and> k \<noteq> Signed \<or> n = 21 \<and> t' = AddressType NonPayable"
  shows "clean_word t' (drop_bit (256 - 8 * n) w) = drop_bit (256 - 8 * n) w"
proof -
  have "number_bits t' = n * 8 \<and> \<not> number_signed t' \<and> is_number t'" using assms
    by (auto simp: number_bits_def number_signed_def is_number_def as_integer_def)
  moreover have "word_of_int (take_bit (n * 8) (uint (drop_bit (256 - 8 * n) w))) = drop_bit (256 - 8 * n) w"
    using assms(1,2) by (intro bit_word_eqI) (auto simp: bit_simps bit_uint_iff dest: bit_imp_le_length)
  ultimately show ?thesis by (simp add: clean_number wrap_def)
qed

lemma convert_body_cases:
  assumes "0 < n"
  shows "convert_body ext cp cs (FixedBytesType n) t' cleanup part False False c =
      bindE (convert_fixedBytes ext n t' cleanup c) (\<lambda>c. Inr ((False, False), c))"
    and "is_number t \<Longrightarrow> convert_body ext cp cs t (FixedBytesType n) cleanup part False False c =
      bindE (convert_to_fixedBytes ext t n c) (\<lambda>c. Inr ((False, False), c))"
    and "convert_body ext cp cs BoolType BoolType True part False False c =
      bindE (run_ops [append_op ext Instruction_ISZERO, append_op ext Instruction_ISZERO] c) (\<lambda>c. Inr ((False, False), c))"
    and "convert_body ext cp cs ViteTokenIdType ViteTokenIdType True part False False c =
      bindE (run_ops [append_value ext (push_bit 80 1 - 1), append_op ext Instruction_AND] c) (\<lambda>c. Inr ((False, False), c))"
  by (cases t; simp_all add: convert_body_def is_number_def assertThrow_def)+

lemma does_cleanup:
  assumes "t = BoolType \<or> t = ViteTokenIdType"
  shows "does cx (convertType ext ac t t True False part) (vm_at (w # st) m) (vm_at (clean_word t w # st) m)"
  using assms
proof
  assume t: "t = BoolType"
  have "does cx (run_ops [append_op ext Instruction_ISZERO, append_op ext Instruction_ISZERO]) (vm_at (w # st) m)
      (vm_at (of_bool (of_bool (w = 0) = (0 :: u256)) # st) m)"
    by (intro does_Cons [OF effect_ISZERO] does_Nil)
  then have "does cx (convertType ext ac t t True False part) (vm_at (w # st) m) (vm_at (of_bool (of_bool (w = 0) = (0 :: u256)) # st) m)"
    by (rule does_convertType [rotated 3]) (simp_all add: t simple_type_def convert_body_cases(3) [of 1])
  then show ?thesis by (simp add: t clean_word_def)
next
  assume t: "t = ViteTokenIdType"
  have "does cx (convertType ext ac t t True False part) (vm_at (w # st) m) (vm_at (and (push_bit 80 1 - 1) w # st) m)"
    by (rule does_convertType [OF _ _ _ does_push_and]) (simp_all add: t simple_type_def convert_body_cases(4) [of 1] del: push_bit_of_1)
  then show ?thesis unfolding take_bit_and by (simp add: t clean_word_def)
qed

lemma does_convert:
  assumes "simple_type t" "simple_type t'" "isExplicitlyConvertibleTo X t t' = Inr True"
  shows "\<exists>w'. does cx (convertType ext ac t t' cleanup False part :: 'g CompilerContext \<Rightarrow> 'g CompilerContext result)
       (vm_at (w # st) m) (vm_at (w' # st) m) \<and>
     clean_word t' w' = convert_word t t' w \<and> (cleanup \<longrightarrow> w' = convert_word t t' w)"
    (is "\<exists>w'. ?P w'")
proof (cases "Type_eq t t' \<and> \<not> cleanup")
  case True
  then have "?P w" using does_skip [of cx "vm_at (w # st) m"] equal_types [of t t' w] assms
    by (simp add: labelled_def convertType_simple convert_frame_def)
  then show ?thesis by blast
next
  case False
  note step = does_convertType [where ext = ext and ac = ac and part = part, OF assms(1,2) False]
  show ?thesis using explicit_kinds [OF assms]
  proof (elim disjE exE)
    assume "is_number t \<and> is_number t'"
    then show ?thesis using does_convert_number [OF _ _ assms False] by blast
  next
    fix n n'
    assume t: "t = FixedBytesType n \<and> t' = FixedBytesType n'"
    then have n: "n \<le> 32" "n' \<le> 32" "0 < n" "0 < n'" using assms by (auto simp: simple_type_def)
    obtain w' where w': "does cx (convert_fixedBytes ext n t' cleanup :: 'g CompilerContext \<Rightarrow> _) (vm_at (w # st) m) (vm_at (w' # st) m)"
        "top_bytes n' w' = top_bytes n' (top_bytes n w)" "cleanup \<longrightarrow> w' = top_bytes n' (top_bytes n w)"
      using does_convert_bytes [OF n, of cx ext cleanup w st m] t by blast
    have "?P w'" using step [OF w'(1)] n(3) w' t by (simp add: convert_body_cases(1) clean_word_def convert_word_def)
    then show ?thesis by blast
  next
    fix n k
    assume t: "t = FixedBytesType n \<and> (t' = IntegerType (n * 8) k \<and> k \<noteq> Signed \<or> n = 21 \<and> t' = AddressType NonPayable)"
    then have n: "0 < n" "n \<le> 32" using assms by (auto simp: simple_type_def)
    have "?P (drop_bit (256 - 8 * n) w)"
      using step [OF does_from_bytes [of n t' k cx ext cleanup w st m, OF n(1) conjunct2 [OF t]]] clean_after_shift [OF n conjunct2 [OF t]] n t
      by (auto simp: convert_body_cases(1) convert_word_def)
    then show ?thesis by blast
  next
    fix n k
    assume t: "t' = FixedBytesType n \<and> (t = IntegerType (n * 8) k \<and> k \<noteq> Signed \<or> n = 21 \<and> t = AddressType NonPayable)"
    then have n: "0 < n" "n \<le> 32" "is_number t" using assms by (auto simp: simple_type_def is_number_def)
    have "clean_word t' (push_bit (256 - 8 * n) w) = push_bit (256 - 8 * n) w"
      using t n by (intro bit_word_eqI) (auto simp: clean_word_def top_bytes_bit bit_simps)
    then have "?P (push_bit (256 - 8 * n) w)"
      using step [OF does_to_bytes [of n t k cx ext w st m, OF n(1) conjunct2 [OF t]]] n t by (auto simp: convert_body_cases(2) convert_word_def)
    then show ?thesis by blast
  next
    assume t: "t' = t \<and> (t = BoolType \<or> t = ViteTokenIdType)"
    then have "convert_word t t' w = clean_word t w" by (auto simp: convert_word_def clean_word_def)
    moreover have "clean_word t (clean_word t w) = clean_word t w" using t by (auto simp: clean_word_def)
    moreover have cleanup using False t by auto
    ultimately have "?P (clean_word t w)" using does_cleanup [OF conjunct2 [OF t], where 'a = 'g] t by simp
    then show ?thesis by blast
  qed
qed



section \<open>Memory\<close>

lemma nth_be: "i < n \<Longrightarrow> be n v ! i = word_of_nat (v div 256 ^ (n - 1 - i) mod 256)"
proof (induction n arbitrary: v i)
  case (Suc n)
  show ?case
  proof (cases "i = n")
    case True
    then show ?thesis by (simp add: nth_append)
  next
    case False
    then have "i < n" using Suc.prems by simp
    moreover have "n - i = Suc (n - 1 - i)" using \<open>i < n\<close> by simp
    ultimately show ?thesis using Suc.IH [of i "v div 256"] by (simp add: nth_append div_mult2_eq)
  qed
qed simp

lemma mem_load_store_same [simp]: "mem_load (mem_store m a w) a = w"
proof -
  have "map (mem_store m a w) [a..<a + 32] = be 32 (unat w)"
    by (rule nth_equalityI) (simp_all add: mem_store_def)
  then show ?thesis using unsigned_less [of w, where 'a = nat] by (simp add: mem_load_def be_value_be)
qed

lemma mem_load_store_other: "a + 32 \<le> b \<or> b + 32 \<le> a \<Longrightarrow> mem_load (mem_store m a w) b = mem_load m b"
proof -
  assume "a + 32 \<le> b \<or> b + 32 \<le> a"
  then have "map (mem_store m a w) [b..<b + 32] = map m [b..<b + 32]" by (auto simp: mem_store_def)
  then show ?thesis by (simp only: mem_load_def)
qed

lemma mem_store_store [simp]: "mem_store (mem_store m a w) a w' = mem_store m a w'"
  by (auto simp: mem_store_def fun_eq_iff)

text \<open>The free memory pointer.\<close>

definition free_pointer :: "(nat \<Rightarrow> byte) \<Rightarrow> u256" where
  "free_pointer m = mem_load m 64"

definition set_pointer :: "u256 \<Rightarrow> (nat \<Rightarrow> byte) \<Rightarrow> nat \<Rightarrow> byte" where
  "set_pointer p m = mem_store m 64 p"

lemma pointer_simps [simp]: "free_pointer (set_pointer p m) = p" "set_pointer p (set_pointer q m) = set_pointer p m"
  by (simp_all add: free_pointer_def set_pointer_def)

lemma effect_fetch [effects]: "does cx (fetchFreeMemoryPointer ext) (vm_at st m) (vm_at (free_pointer m # st) m)"
  unfolding fetchFreeMemoryPointer_def
  by (intro does_Cons [OF effect_debug] does_Cons [OF effect_value] does_Cons [OF effect_MLOAD] does_finish)
    (simp add: free_pointer_def freeMemoryPointer_def)

lemma effect_store [effects]: "does cx (storeFreeMemoryPointer ext) (vm_at (p # st) m) (vm_at st (set_pointer p m))"
  unfolding storeFreeMemoryPointer_def
  by (intro does_Cons [OF effect_debug] does_Cons [OF effect_value] does_Cons [OF effect_MSTORE] does_finish)
    (simp add: set_pointer_def freeMemoryPointer_def)

lemma effect_allocateMemory [effects]:
  "does cx (allocateMemory ext) (vm_at (n # st) m) (vm_at (free_pointer m # st) (set_pointer (free_pointer m + n) m))"
  unfolding allocateMemory_def
  by (intro does_Cons [OF effect_debug] does_Cons [OF effect_fetch] does_Cons [OF effect_SWAP1] does_Cons [OF effect_DUP2]
      does_Cons [OF effect_ADD] does_Cons [OF effect_store] does_finish) simp

lemma effect_allocateMemory_size [effects]:
  "does cx (allocateMemory_size ext n) (vm_at st m) (vm_at (free_pointer m # st) (set_pointer (free_pointer m + n) m))"
  unfolding allocateMemory_size_def
  by (intro does_Cons [OF effect_fetch] does_Cons [OF effect_DUP1] does_Cons [OF effect_value]
      does_Cons [OF effect_ADD] does_Cons [OF effect_store] does_finish) (simp add: add.commute)

lemma effect_toSize [effects]:
  "does cx (toSizeAfterFreeMemoryPointer ext) (vm_at (e # st) m) (vm_at (free_pointer m # (e - free_pointer m) # st) m)"
  unfolding toSizeAfterFreeMemoryPointer_def
  by (intro does_Cons [OF effect_fetch] does_Cons [OF effect_DUP1] does_Cons [OF effect_SWAP2] does_Cons [OF effect_SUB]
      does_Cons [OF effect_SWAP1] does_finish) simp

text \<open>
  C18. Memory is allocated from one end: the code that allocates a list of blocks leaves their addresses on the stack, each block begins where the
  one before it ended, and the free memory pointer is at the end of the last one.
\<close>

theorem allocations_consecutive:
  "does cx (run_ops (map (allocateMemory_size ext) sizes)) (vm_at st m)
     (vm_at (rev (map (\<lambda>i. free_pointer m + sum_list (take i sizes)) [0..<length sizes]) @ st)
        (if sizes = [] then m else set_pointer (free_pointer m + sum_list sizes) m))"
proof (induction sizes arbitrary: st m)
  case Nil
  then show ?case by (simp add: does_skip)
next
  case (Cons n ns)
  let ?m = "set_pointer (free_pointer m + n) m"
  have "map (\<lambda>i. free_pointer m + sum_list (take i (n # ns))) [0..<length (n # ns)] =
      free_pointer m # map (\<lambda>i. free_pointer ?m + sum_list (take i ns)) [0..<length ns]"
    by (simp only: list.size add_0_right upt_conv_Cons [of 0 "length ns + 1"] map_Suc_upt [symmetric] list.map map_map)
      (simp add: add.assoc upt_conv_Cons map_Suc_upt [symmetric] del: upt_Suc)
  then show ?case
    using does_Cons [OF effect_allocateMemory_size [of cx ext n st m] Cons.IH]
    by (cases "ns = []") (simp_all add: add.assoc)
qed

text \<open>Values in memory.\<close>

lemma self_convertible: "simple_type t \<Longrightarrow> isExplicitlyConvertibleTo X t t = Inr True"
  by (cases t) (auto simp: simple_type_def AddressType_isExplicitlyConvertibleTo_def IntegerType_isExplicitlyConvertibleTo_def
      ContractType_isImplicitlyConvertibleTo_def Type_eq_refl)

lemma effect_cleanupType:
  assumes "simple_type t"
  shows "does cx (cleanupType ext t True part) (vm_at (w # st) m) (vm_at (clean_word t w # st) m)"
proof -
  have "cleanupType ext t True part = convertType ext ac t t True False part" for ac
    using assms by (simp add: cleanupType_def convertType_simple)
  then show ?thesis
    using does_convert [OF assms assms self_convertible [OF assms], of cx ext _ True part w st m] equal_types [of t t w] assms
    by (metis Type_eq_refl)
qed

text \<open>The number of bytes of a value in memory.\<close>

definition value_bytes :: "bool \<Rightarrow> Type \<Rightarrow> nat" where
  "value_bytes pad t =
     (if pad then 32 else case t of FixedBytesType n \<Rightarrow> n | BoolType \<Rightarrow> 1 | ViteTokenIdType \<Rightarrow> 10 | _ \<Rightarrow> number_bits t div 8)"

lemma value_bytes:
  assumes "simple_type t"
  shows "calldataEncodedSize pad t = Inr (value_bytes pad t)" "0 < value_bytes pad t" "value_bytes pad t \<le> 32"
  using assms by (cases t; auto simp: simple_type_def value_bytes_def number_bits_def as_integer_def assertThrow_def)+

lemma simple_shape: "simple_type t \<Longrightarrow> sizeOnStack t = 1 \<and> isValueType t \<and> \<not> isDynamicallyEncoded t \<and> category t \<noteq> Category_Array"
  by (cases t) (auto simp: simple_type_def)

definition left_aligned :: "Type \<Rightarrow> bool" where
  "left_aligned t \<longleftrightarrow> category t = Category_FixedBytes"

definition aligned_word :: "bool \<Rightarrow> Type \<Rightarrow> u256 \<Rightarrow> u256" where
  "aligned_word pad t w =
     (if left_aligned t then clean_word t w else push_bit ((32 - value_bytes pad t) * 8 * of_bool (\<not> pad)) (clean_word t w))"

definition prepare_ops :: "CodegenExternal \<Rightarrow> bool \<Rightarrow> Type \<Rightarrow> ('g CompilerContext \<Rightarrow> 'g CompilerContext result) list" where
  "prepare_ops ext pad t =
     [append_debug (''CompilerUtils::prepareMemoryStore(type='' @ Type_toString (cg_types ext) False t @ '', ...)''), cleanupType ext t True False] @
     (if value_bytes pad t \<noteq> 32 \<and> \<not> left_aligned t \<and> \<not> pad then [leftShiftNumberOnStack ext ((32 - value_bytes pad t) * 8)] else []) @
     [append_debug ''end of CompilerUtils::prepareMemoryStore()'']"

lemma prepare_eq:
  assumes s: "simple_type t"
  shows "prepareMemoryStore ext t pad True c = bindE (run_ops (prepare_ops ext pad t) c) (\<lambda>c. Inr (value_bytes pad t, c))"
proof (cases "value_bytes pad t \<noteq> 32 \<and> \<not> left_aligned t \<and> \<not> pad")
  case True
  then show ?thesis
    using value_bytes [OF s, of pad] simple_shape [OF s]
    by (simp add: prepareMemoryStore_def prepare_ops_def assertThrow_def left_aligned_def bindE_assoc run_ops_Cons)
next
  case False
  then have "\<not> (value_bytes pad t \<noteq> 32 \<and> category t \<noteq> Category_FixedBytes \<and> \<not> pad)" by (simp add: left_aligned_def)
  then show ?thesis
    using value_bytes [OF s, of pad] simple_shape [OF s]
    by (simp add: prepareMemoryStore_def prepare_ops_def if_not_P [OF False] assertThrow_def left_aligned_def bindE_assoc run_ops_Cons
        del: de_Morgan_conj)
qed

lemma effect_prepare:
  assumes s: "simple_type t"
  shows "does cx (run_ops (prepare_ops ext pad t)) (vm_at (w # st) m) (vm_at (aligned_word pad t w # st) m)"
proof -
  have "(32 - value_bytes pad t) * 8 < 256" using value_bytes [OF s, of pad] by simp
  then show ?thesis
    by (auto simp: prepare_ops_def aligned_word_def intro!: does_Cons [OF effect_debug] does_Cons [OF effect_cleanupType [OF s]]
        does_Cons [OF effect_leftShift] does_finish)
qed

lemma effect_storeValue:
  assumes s: "simple_type t"
  shows "does cx (storeValueInMemory ext t pad True :: 'g CompilerContext \<Rightarrow> 'g CompilerContext result) (vm_at (w # p # st) m)
     (vm_at ((p + word_of_nat (value_bytes pad t)) # st) (mem_store m (unat p) (aligned_word pad t w)))"
proof -
  let ?ops = "[append_op ext Instruction_DUP2, append_op ext Instruction_MSTORE,
      append_debug (''bytes of type '' @ Type_toString (cg_types ext) False t @ '': '' @ decimal (value_bytes pad t)),
      append_value ext (word_of_nat (value_bytes pad t)), append_op ext Instruction_ADD] :: ('g CompilerContext \<Rightarrow> 'g CompilerContext result) list"
  have "does cx (run_ops (prepare_ops ext pad t @ ?ops)) (vm_at (w # p # st) m)
     (vm_at ((p + word_of_nat (value_bytes pad t)) # st) (mem_store m (unat p) (aligned_word pad t w)))"
    by (intro does_append [OF effect_prepare [OF s]] does_Cons [OF effect_DUP2] does_Cons [OF effect_MSTORE] does_Cons [OF effect_debug]
        does_Cons [OF effect_value] does_Cons [OF effect_ADD] does_finish) (simp add: add.commute)
  moreover have "storeValueInMemory ext t pad True = run_ops (prepare_ops ext pad t @ ?ops)"
    by (simp add: fun_eq_iff storeValueInMemory_def prepare_eq [OF s] bindE_assoc run_ops_append)
  ultimately show ?thesis by simp
qed

lemma effect_storeInMemoryDynamic:
  assumes s: "simple_type t"
  shows "does cx (storeInMemoryDynamic ext t pad True :: 'g CompilerContext \<Rightarrow> 'g CompilerContext result) (vm_at (w # p # st) m)
     (vm_at ((p + word_of_nat (value_bytes pad t)) # st) (mem_store m (unat p) (aligned_word pad t w)))"
proof -
  have "(storeInMemoryDynamic ext t pad True :: 'g CompilerContext \<Rightarrow> 'g CompilerContext result) = storeInMemoryDynamic_frame ext t pad True (storeValueInMemory ext t pad True)"
    using simple_shape [OF s] by (cases t) (simp_all add: storeInMemoryDynamic_def)
  then show ?thesis unfolding storeInMemoryDynamic_frame_def
    by (auto intro!: does_Cons [OF effect_debug] does_Cons [OF effect_storeValue [OF s]] does_Nil)
qed

definition load_ops :: "CodegenExternal \<Rightarrow> bool \<Rightarrow> Type \<Rightarrow> ('g CompilerContext \<Rightarrow> 'g CompilerContext result) list" where
  "load_ops ext pad t =
     [append_debug ''CompilerUtils::loadFromMemoryHelper()'', append_op ext Instruction_MLOAD] @
     (if value_bytes pad t \<noteq> 32 then [rightShiftNumberOnStack ext ((32 - value_bytes pad t) * 8)] else []) @
     (if value_bytes pad t \<noteq> 32 \<and> left_aligned t then [leftShiftNumberOnStack ext ((32 - value_bytes pad t) * 8)] else [])"

lemma load_eq:
  assumes s: "simple_type t"
  shows "loadFromMemoryHelper ext t False pad c = bindE (run_ops (load_ops ext pad t) c) (\<lambda>c. Inr (value_bytes pad t, c))"
  using value_bytes [OF s, of pad] simple_shape [OF s]
  by (simp add: loadFromMemoryHelper_def load_ops_def assertThrow_def left_aligned_def bindE_assoc run_ops_Cons run_ops_append Let_def)

definition loaded_word :: "bool \<Rightarrow> Type \<Rightarrow> u256 \<Rightarrow> u256" where
  "loaded_word pad t w =
     (let n = (32 - value_bytes pad t) * 8 in if left_aligned t then push_bit n (drop_bit n w) else drop_bit n w)"

lemma effect_load:
  assumes s: "simple_type t"
  shows "does cx (run_ops (load_ops ext pad t)) (vm_at (p # st) m) (vm_at (loaded_word pad t (mem_load m (unat p)) # st) m)"
proof -
  have "(32 - value_bytes pad t) * 8 < 256" using value_bytes [OF s, of pad] by simp
  then show ?thesis
    by (auto simp: load_ops_def loaded_word_def Let_def intro!: does_Cons [OF effect_debug] does_Cons [OF effect_MLOAD] does_Cons [OF effect_rightShift]
        does_Cons [OF effect_leftShift] does_finish)
qed

lemma effect_moveToStackTop:
  assumes "1 \<le> n" "n \<le> 15" "length xs = n"
  shows "does cx (moveToStackTop ext n 1) (vm_at (xs @ x # st) m) (vm_at (x # xs @ st) m)"
  unfolding moveToStackTop_def
  using does_Cons [OF effect_debug does_Cons [OF does_moveIntoStack [of xs n "[x]" 1 cx ext st "vm_at st m"] does_Nil]] assms by simp

lemma not_array:
  "category t \<noteq> Category_Array \<Longrightarrow> (case t of ArrayType loc ptr kind base len \<Rightarrow> f loc ptr kind base len | _ \<Rightarrow> g) = g"
  by (cases t) simp_all

lemma effect_loadFromMemoryDynamic:
  assumes s: "simple_type t"
  shows "does cx (loadFromMemoryDynamic ext t False pad keep :: 'g CompilerContext \<Rightarrow> 'g CompilerContext result) (vm_at (p # st) m)
     (vm_at ((if keep then [p + word_of_nat (value_bytes pad t)] else []) @ loaded_word pad t (mem_load m (unat p)) # st) m)"
proof (cases keep)
  case True
  let ?ops = "[append_op ext Instruction_DUP1] @ load_ops ext pad t @
      [moveToStackTop ext 1 1, append_value ext (word_of_nat (value_bytes pad t)), append_op ext Instruction_ADD] ::
        ('g CompilerContext \<Rightarrow> 'g CompilerContext result) list"
  have "does cx (run_ops ?ops) (vm_at (p # st) m)
     (vm_at ((p + word_of_nat (value_bytes pad t)) # loaded_word pad t (mem_load m (unat p)) # st) m)"
    by (intro does_append [OF does_Cons [OF effect_DUP1 does_Nil]] does_append [OF effect_load [OF s]]
        does_Cons [OF effect_moveToStackTop [of 1 "[_]", simplified append_Cons append_Nil]] does_Cons [OF effect_value] does_Cons [OF effect_ADD] does_finish)
      (simp_all add: add.commute)
  moreover have "loadFromMemoryDynamic ext t False pad keep = run_ops ?ops"
    using True simple_shape [OF s]
    by (simp add: fun_eq_iff loadFromMemoryDynamic_def not_array load_eq [OF s] bindE_assoc run_ops_append run_ops_Cons)
  ultimately show ?thesis using True by simp
next
  case False
  then have "(loadFromMemoryDynamic ext t False pad keep :: 'g CompilerContext \<Rightarrow> 'g CompilerContext result) = run_ops (load_ops ext pad t)"
    using simple_shape [OF s] by (simp add: fun_eq_iff loadFromMemoryDynamic_def not_array load_eq [OF s] bindE_assoc)
  then show ?thesis using False effect_load [OF s] by simp
qed



end
