(* ===== verification/ExpressionCompiler.thy ===== *)
theory ExpressionCompiler
  imports CompilerUtils Literal
begin

text \<open>
  The code of expressions (\<^verbatim>\<open>libsolidity/codegen/ExpressionCompiler.cpp\<close>): literals, variables, unary and binary operators, assignments,
  conditionals, tuples, conversions between types, and accessors of constants. Every node of the syntax tree carries its source location and the annotations that
  the code generator reads. Calls of functions, members and indices are not modelled.

  The places where values are stored (\<open>LValue\<close>) are outside the repository: \<open>LValueCode\<close> holds the code that they append.
\<close>

section \<open>The syntax tree\<close>

text \<open>A constant variable carries the expression that it stands for.\<close>

datatype Expression =
    LiteralExpression SourceLocation Type Literal
  | Identifier SourceLocation Type bool VariableDeclaration "Expression option"
  | UnaryOperation SourceLocation Type Token bool Expression
  | BinaryOperation SourceLocation Type "Type option" Token Expression Expression
  | Assignment SourceLocation Type Token Expression Expression
  | Conditional SourceLocation Type Expression Expression Expression
  | InlineArray SourceLocation Type "Expression list"
  | TupleExpression SourceLocation Type bool "Expression option list"
  | TypeConversion SourceLocation Type Expression
  | AwaitExpression SourceLocation Type Expression

fun expression_type :: "Expression \<Rightarrow> Type" where
  "expression_type (LiteralExpression l t v) = t"
| "expression_type (Identifier l t w d v) = t"
| "expression_type (UnaryOperation l t op p e) = t"
| "expression_type (BinaryOperation l t ct op a b) = t"
| "expression_type (Assignment l t op a b) = t"
| "expression_type (Conditional l t c a b) = t"
| "expression_type (InlineArray l t es) = t"
| "expression_type (TupleExpression l t w es) = t"
| "expression_type (TypeConversion l t e) = t"
| "expression_type (AwaitExpression l t e) = t"

fun isLiteralExpression :: "Expression \<Rightarrow> bool" where
  "isLiteralExpression (LiteralExpression l t v) = True"
| "isLiteralExpression e = (category (expression_type e) = Category_RationalNumber)"

section \<open>Places for values\<close>

datatype LValue =
    StackVariable VariableDeclaration
  | StorageItem VariableDeclaration
  | ImmutableItem VariableDeclaration
  | TupleObject "LValue option list"

text \<open>
  What a place appends when it is created, when its value is retrieved (and the reference to it removed), stored (and the value moved), or set to zero; and the number of
  stack slots of the reference.
\<close>

record 'g LValueCode =
  lv_create :: "LValue \<Rightarrow> 'g CompilerContext \<Rightarrow> 'g CompilerContext result"
  lv_sizeOnStack :: "LValue \<Rightarrow> nat"
  lv_retrieveValue :: "LValue \<Rightarrow> SourceLocation \<Rightarrow> bool \<Rightarrow> 'g CompilerContext \<Rightarrow> 'g CompilerContext result"
  lv_storeValue :: "LValue \<Rightarrow> Type \<Rightarrow> SourceLocation \<Rightarrow> bool \<Rightarrow> 'g CompilerContext \<Rightarrow> 'g CompilerContext result"
  lv_setToZero :: "LValue \<Rightarrow> SourceLocation \<Rightarrow> bool \<Rightarrow> 'g CompilerContext \<Rightarrow> 'g CompilerContext result"

text \<open>The parts that the compiler of expressions uses, and its state: the current place, and the context.\<close>

record 'g ExpressionCompiler =
  ec_ext :: CodegenExternal
  ec_arrays :: ArrayCode
  ec_lvalues :: "'g LValueCode"
  ec_locationText :: "SourceLocation \<Rightarrow> string"
  m_optimiseOrderLiterals :: bool

type_synonym 'g ecs = "LValue option \<times> 'g CompilerContext"

definition on_context :: "('g CompilerContext \<Rightarrow> 'g CompilerContext result) \<Rightarrow> 'g ecs \<Rightarrow> 'g ecs result" where
  "on_context f = (\<lambda>(lv, c). bindE (f c) (\<lambda>c. Inr (lv, c)))"

text \<open>A \<open>LocationSetter\<close> makes a node the current one while its scope lasts.\<close>

definition at_location :: "SourceLocation \<Rightarrow> ('g ecs \<Rightarrow> 'g ecs result) \<Rightarrow> 'g ecs \<Rightarrow> 'g ecs result" where
  "at_location l f = (\<lambda>(lv, c). bindE (f (lv, pushVisitedNodes l c)) (\<lambda>(lv, c). bindE (popVisitedNodes c) (\<lambda>c. Inr (lv, c))))"

section \<open>Literals\<close>

text \<open>A number from a string of hexadecimal digits; the conversion throws when a character is none.\<close>

definition hex_word :: "string \<Rightarrow> u256 result" where
  "hex_word s = (case fromHex s Throw of Inl _ \<Rightarrow> Inl Exception | Inr bs \<Rightarrow> Inr (word_of_nat (be_value bs)))"

definition AddressType_literalValue :: "Literal \<Rightarrow> u256 result" where
  "AddressType_literalValue literal =
     bindE (assertThrow (starts_with (lit_value literal) ''vite_'') InternalCompilerError) (\<lambda>_.
     bindE (Literal_getViteAddressHex literal) hex_word)"

definition ViteTokenIdType_literalValue :: "Literal \<Rightarrow> u256 result" where
  "ViteTokenIdType_literalValue literal =
     bindE (assertThrow (starts_with (lit_value literal) ''tti_'') InternalCompilerError) (\<lambda>_.
     bindE (Literal_getViteTokenIdHex literal) hex_word)"

definition literalValue :: "Type \<Rightarrow> Literal \<Rightarrow> u256 result" where
  "literalValue t literal =
     (case t of
        RationalNumberType v b \<Rightarrow> RationalNumberType_literalValue v
      | BoolType \<Rightarrow> BoolType_literalValue literal
      | AddressType m \<Rightarrow> AddressType_literalValue literal
      | ViteTokenIdType \<Rightarrow> ViteTokenIdType_literalValue literal
      | _ \<Rightarrow> Inl InternalCompilerError)"

definition visit_Literal :: "CodegenExternal \<Rightarrow> Type \<Rightarrow> Literal \<Rightarrow> 'g CompilerContext \<Rightarrow> 'g CompilerContext result" where
  "visit_Literal ext t literal c =
     (if category t \<in> {Category_RationalNumber, Category_Bool, Category_Address, Category_ViteTokenId}
      then bindE (literalValue t literal) (\<lambda>w. append_value ext w c)
      else if category t = Category_StringLiteral then Inr c
      else Inl UnimplementedFeatureError)"

section \<open>Operators\<close>

definition cleanupNeededForOp :: "Category \<Rightarrow> Token \<Rightarrow> Arithmetic \<Rightarrow> bool" where
  "cleanupNeededForOp type op arithmetic =
     (if isCompareOp op \<or> isShiftOp op then True
      else if arithmetic = Wrapping \<and> type = Category_Integer \<and> (op = Token_Div \<or> op = Token_Mod \<or> op = Token_Exp) then True
      else False)"

definition is_signed :: "Type \<Rightarrow> bool" where
  "is_signed t = (case t of IntegerType bits m \<Rightarrow> m = Signed | _ \<Rightarrow> False)"

definition appendCompareOperatorCode :: "CodegenExternal \<Rightarrow> Token \<Rightarrow> Type \<Rightarrow> 'g CompilerContext \<Rightarrow> 'g CompilerContext result" where
  "appendCompareOperatorCode ext op t c =
     bindE (assertThrow (sizeOnStack t = 1) InternalCompilerError) (\<lambda>_.
       if op = Token_Equal \<or> op = Token_NotEqual then
         run_ops (append_op ext Instruction_EQ # (if op = Token_NotEqual then [append_op ext Instruction_ISZERO] else [])) c
       else if op = Token_GreaterThanOrEqual then
         run_ops [append_op ext (if is_signed t then Instruction_SLT else Instruction_LT), append_op ext Instruction_ISZERO] c
       else if op = Token_LessThanOrEqual then
         run_ops [append_op ext (if is_signed t then Instruction_SGT else Instruction_GT), append_op ext Instruction_ISZERO] c
       else if op = Token_GreaterThan then append_op ext (if is_signed t then Instruction_SGT else Instruction_GT) c
       else if op = Token_LessThan then append_op ext (if is_signed t then Instruction_SLT else Instruction_LT) c
       else Inl InternalCompilerError)"

text \<open>The names of the Yul functions for checked arithmetic; the collection of their bodies is left out.\<close>

definition checked_name :: "string \<Rightarrow> Type \<Rightarrow> string result" where
  "checked_name kind t = bindE (Type_identifier t) (\<lambda>i. Inr (kind @ i))"

definition callCheckedFunction :: "CodegenExternal \<Rightarrow> string \<Rightarrow> Type \<Rightarrow> nat \<Rightarrow> 'g CompilerContext \<Rightarrow> 'g CompilerContext result" where
  "callCheckedFunction ext kind t inArgs c = bindE (checked_name kind t) (\<lambda>name. callYulFunction ext name inArgs 1 c)"

text \<open>A type that is not one of integers is cast to one, which throws.\<close>

definition appendArithmeticOperatorCode :: "CodegenExternal \<Rightarrow> Token \<Rightarrow> Type \<Rightarrow> 'g CompilerContext \<Rightarrow> 'g CompilerContext result" where
  "appendArithmeticOperatorCode ext op t c =
     bindE (assertThrow (category t \<noteq> Category_FixedPoint) UnimplementedFeatureError) (\<lambda>_.
     bindE (assertThrow (category t = Category_Integer) Exception) (\<lambda>_.
       if m_arithmetic c = Checked then
         (if op = Token_Add then callCheckedFunction ext ''checked_add_'' t 2 c
          else if op = Token_Sub then callCheckedFunction ext ''checked_sub_'' t 2 c
          else if op = Token_Mul then callCheckedFunction ext ''checked_mul_'' t 2 c
          else if op = Token_Div then callCheckedFunction ext ''checked_div_'' t 2 c
          else if op = Token_Mod then callCheckedFunction ext ''mod_'' t 2 c
          else Inl InternalCompilerError)
       else
         (if op = Token_Add then append_op ext Instruction_ADD c
          else if op = Token_Sub then append_op ext Instruction_SUB c
          else if op = Token_Mul then append_op ext Instruction_MUL c
          else if op = Token_Div \<or> op = Token_Mod then
            run_ops [append_op ext Instruction_DUP2, append_op ext Instruction_ISZERO, appendConditionalPanic ext ''DivisionByZero'',
                     append_op ext
                       (if op = Token_Div then if is_signed t then Instruction_SDIV else Instruction_DIV
                        else if is_signed t then Instruction_SMOD else Instruction_MOD)] c
          else Inl InternalCompilerError)))"

definition appendBitOperatorCode :: "CodegenExternal \<Rightarrow> Token \<Rightarrow> 'g CompilerContext \<Rightarrow> 'g CompilerContext result" where
  "appendBitOperatorCode ext op c =
     (if op = Token_BitOr then append_op ext Instruction_OR c
      else if op = Token_BitAnd then append_op ext Instruction_AND c
      else if op = Token_BitXor then append_op ext Instruction_XOR c
      else Inl InternalCompilerError)"

definition appendOrdinaryBinaryOperatorCode :: "CodegenExternal \<Rightarrow> Token \<Rightarrow> Type \<Rightarrow> 'g CompilerContext \<Rightarrow> 'g CompilerContext result" where
  "appendOrdinaryBinaryOperatorCode ext op t c =
     (if isArithmeticOp op then appendArithmeticOperatorCode ext op t c
      else if isBitOp op then appendBitOperatorCode ext op c
      else Inl InternalCompilerError)"

definition shiftAmount_ok :: "Type \<Rightarrow> bool result" where
  "shiftAmount_ok t =
     (case t of
        RationalNumberType v b \<Rightarrow>
          bindE (RationalNumberType_integerType v) (\<lambda>i. Inr (case i of Some (IntegerType bits m) \<Rightarrow> m \<noteq> Signed | _ \<Rightarrow> False))
      | IntegerType bits m \<Rightarrow> Inr (m \<noteq> Signed)
      | _ \<Rightarrow> Inr False)"

definition appendShiftOperatorCode :: "CodegenExternal \<Rightarrow> Token \<Rightarrow> Type \<Rightarrow> Type \<Rightarrow> 'g CompilerContext \<Rightarrow> 'g CompilerContext result" where
  "appendShiftOperatorCode ext op valueType shiftAmountType c =
     bindE (assertThrow (category valueType = Category_Integer \<or> category valueType = Category_FixedBytes) InternalCompilerError) (\<lambda>_.
     bindE (shiftAmount_ok shiftAmountType) (\<lambda>ok.
     bindE (assertThrow ok InternalCompilerError) (\<lambda>_.
     bindE (append_op ext Instruction_SWAP1 c) (\<lambda>c.
       if op = Token_SHL then
         (if hasBitwiseShifting (m_evmVersion c) then append_op ext Instruction_SHL c
          else run_ops [append_value ext 2, append_op ext Instruction_EXP, append_op ext Instruction_MUL] c)
       else if op = Token_SAR then
         (if hasBitwiseShifting (m_evmVersion c) then append_op ext (if is_signed valueType then Instruction_SAR else Instruction_SHR) c
          else
            run_ops
              [appendInlineAssembly ext
                 (if is_signed valueType then
                    ''{'' @ nl 5 @ ''let xor_mask := sub(0, slt(value_to_shift, 0))'' @ nl 5 @
                    ''value_to_shift := xor(div(xor(value_to_shift, xor_mask), exp(2, shift_amount)), xor_mask)'' @ nl 4 @ ''}''
                  else ''{'' @ nl 5 @ ''value_to_shift := div(value_to_shift, exp(2, shift_amount))'' @ nl 4 @ ''}'')
                 [''value_to_shift'', ''shift_amount''],
               append_op ext Instruction_POP] c)
       else Inl InternalCompilerError))))"

definition appendExpOperatorCode :: "CodegenExternal \<Rightarrow> Type \<Rightarrow> Type \<Rightarrow> 'g CompilerContext \<Rightarrow> 'g CompilerContext result" where
  "appendExpOperatorCode ext valueType exponentType c =
     bindE (assertThrow (category valueType = Category_Integer) InternalCompilerError) (\<lambda>_.
     bindE (assertThrow (category exponentType = Category_Integer) Exception) (\<lambda>_.
     bindE (assertThrow (\<not> is_signed exponentType) InternalCompilerError) (\<lambda>_.
       if m_arithmetic c = Checked then
         bindE (Type_identifier valueType) (\<lambda>a. bindE (Type_identifier exponentType) (\<lambda>b.
           callYulFunction ext (''checked_exp_'' @ a @ ''_'' @ b) 2 1 c))
       else append_op ext Instruction_EXP c)))"

section \<open>Expressions\<close>

definition pop_lvalue :: "'g ecs \<Rightarrow> (LValue \<times> 'g CompilerContext) result" where
  "pop_lvalue = (\<lambda>(lv, c). case lv of None \<Rightarrow> Inl InternalCompilerError | Some l \<Rightarrow> Inr (l, c))"

definition setLValue :: "'g LValueCode \<Rightarrow> SourceLocation \<Rightarrow> bool \<Rightarrow> LValue \<Rightarrow> 'g ecs \<Rightarrow> 'g ecs result" where
  "setLValue lvs l willBeWrittenTo lvalue = (\<lambda>(lv, c).
     bindE (assertThrow (lv = None) InternalCompilerError) (\<lambda>_.
     bindE (lv_create lvs lvalue c) (\<lambda>c.
       if willBeWrittenTo then Inr (Some lvalue, c)
       else bindE (lv_retrieveValue lvs lvalue l True c) (\<lambda>c. Inr (None, c)))))"

definition setLValueFromDeclaration :: "'g LValueCode \<Rightarrow> SourceLocation \<Rightarrow> bool \<Rightarrow> VariableDeclaration \<Rightarrow> 'g ecs \<Rightarrow> 'g ecs result" where
  "setLValueFromDeclaration lvs l willBeWrittenTo d = (\<lambda>(lv, c).
     if isLocalVariable d c then setLValue lvs l willBeWrittenTo (StackVariable d) (lv, c)
     else if isStateVariable d c then setLValue lvs l willBeWrittenTo (StorageItem d) (lv, c)
     else Inl InternalCompilerError)"

definition swaps_down :: "CodegenExternal \<Rightarrow> nat \<Rightarrow> ('g CompilerContext \<Rightarrow> 'g CompilerContext result) list" where
  "swaps_down ext n = map (append_swap ext) (rev [1..<Suc n])"

text \<open>The increment or decrement of the current place, before or after its value is used.\<close>

definition step_operator :: "'g ExpressionCompiler \<Rightarrow> SourceLocation \<Rightarrow> Type \<Rightarrow> bool \<Rightarrow> bool \<Rightarrow> 'g ecs \<Rightarrow> 'g ecs result" where
  "step_operator ec l t increment isPrefix s =
     (let ext = ec_ext ec; lvs = ec_lvalues ec in
      bindE (pop_lvalue s) (\<lambda>(lvalue, c).
      bindE (assertThrow (category t \<noteq> Category_FixedPoint) UnimplementedFeatureError) (\<lambda>_.
      bindE (lv_retrieveValue lvs lvalue l False c) (\<lambda>c.
      bindE (if isPrefix then Inr c
             else
               bindE (assertThrow (sizeOnStack t = 1) UnimplementedFeatureError) (\<lambda>_.
               bindE (append_op ext Instruction_DUP1 c) (\<lambda>c.
                 if lv_sizeOnStack lvs lvalue > 0 then run_ops (swaps_down ext (1 + lv_sizeOnStack lvs lvalue)) c else Inr c))) (\<lambda>c.
      bindE (if m_arithmetic c = Checked
             then bindE (assertThrow (category t = Category_Integer) InternalCompilerError) (\<lambda>_.
                    callCheckedFunction ext (if increment then ''increment_'' else ''decrement_'') t 1 c)
             else if increment then run_ops [append_value ext 1, append_op ext Instruction_ADD] c
             else run_ops [append_value ext 1, append_op ext Instruction_SWAP1, append_op ext Instruction_SUB] c) (\<lambda>c.
      bindE (run_ops (swaps_down ext (lv_sizeOnStack lvs lvalue)) c) (\<lambda>c.
      bindE (lv_storeValue lvs lvalue t l (\<not> isPrefix) c) (\<lambda>c. Inr (None, c)))))))))"

text \<open>The code of a unary operator after its operand.\<close>

definition unary_operator :: "'g ExpressionCompiler \<Rightarrow> SourceLocation \<Rightarrow> Type \<Rightarrow> Token \<Rightarrow> bool \<Rightarrow> 'g ecs \<Rightarrow> 'g ecs result" where
  "unary_operator ec l t op isPrefix s =
     (let ext = ec_ext ec in
      if op = Token_Not then on_context (append_op ext Instruction_ISZERO) s
      else if op = Token_BitNot then on_context (append_op ext Instruction_NOT) s
      else if op = Token_Delete then
        bindE (pop_lvalue s) (\<lambda>(lvalue, c). bindE (lv_setToZero (ec_lvalues ec) lvalue l True c) (\<lambda>c. Inr (None, c)))
      else if op = Token_Inc \<or> op = Token_Dec then step_operator ec l t (op = Token_Inc) isPrefix s
      else if op = Token_Add then Inr s
      else if op = Token_Sub then
        bindE (assertThrow (category t \<noteq> Category_FixedPoint) UnimplementedFeatureError) (\<lambda>_.
          on_context (\<lambda>c.
            if m_arithmetic c = Checked then
              bindE (assertThrow (category t = Category_Integer \<and> is_signed t) InternalCompilerError) (\<lambda>_.
                callCheckedFunction ext ''negate_'' t 1 c)
            else run_ops [append_value ext 0, append_op ext Instruction_SUB] c) s)
      else Inl InternalCompilerError)"

text \<open>The code of a binary operator after its operands, the left one on top.\<close>

definition binary_operator :: "CodegenExternal \<Rightarrow> Token \<Rightarrow> Type \<Rightarrow> Type \<Rightarrow> 'g CompilerContext \<Rightarrow> 'g CompilerContext result" where
  "binary_operator ext op operandType rightType =
     (if isShiftOp op then appendShiftOperatorCode ext op operandType rightType
      else if op = Token_Exp then appendExpOperatorCode ext operandType rightType
      else if isCompareOp op then appendCompareOperatorCode ext op operandType
      else appendOrdinaryBinaryOperatorCode ext op operandType)"

definition convert :: "'g ExpressionCompiler \<Rightarrow> Type \<Rightarrow> Type \<Rightarrow> bool \<Rightarrow> 'g ecs \<Rightarrow> 'g ecs result" where
  "convert ec t t' cleanupNeeded = on_context (convertType (ec_ext ec) (ec_arrays ec) t t' cleanupNeeded False False)"

definition of_null :: "'a option result \<Rightarrow> 'a result" where
  "of_null r = bindE r (\<lambda>t. case t of None \<Rightarrow> Inl InternalCompilerError | Some t \<Rightarrow> Inr t)"

definition dataStoredInStorage :: "Type \<Rightarrow> bool" where
  "dataStoredInStorage t = (case t of ArrayType loc ptr kind base len \<Rightarrow> loc = Storage | _ \<Rightarrow> False)"

definition closestTemporaryType :: "Type \<Rightarrow> Type \<Rightarrow> Type option result" where
  "closestTemporaryType t targetType = (if dataStoredInStorage targetType then mobileType t else Inr (Some targetType))"

lemma foldE_cong [fundef_cong]:
  "xs = ys \<Longrightarrow> s = s' \<Longrightarrow> (\<And>r y. y \<in> set ys \<Longrightarrow> f r y = g r y) \<Longrightarrow> foldE f s xs = foldE g s' ys"
proof (induction ys arbitrary: xs s s')
  case (Cons y ys)
  then show ?case by (cases "g s' y") simp_all
qed simp

text \<open>A component of a tuple whose place is needed: it is taken out of the state.\<close>

definition take_lvalue :: "'g ecs \<Rightarrow> (LValue option \<times> 'g ecs) result" where
  "take_lvalue s = bindE (pop_lvalue s) (\<lambda>(l, c). Inr (Some l, (None, c)))"

text \<open>The update of a place by a compound assignment, after the right operand and the reference are on the stack.\<close>

definition compound_assignment :: "'g ExpressionCompiler \<Rightarrow> SourceLocation \<Rightarrow> Type \<Rightarrow> Type \<Rightarrow> Type \<Rightarrow> Token \<Rightarrow> bool \<Rightarrow> LValue \<Rightarrow>
    'g CompilerContext \<Rightarrow> 'g CompilerContext result" where
  "compound_assignment ec l t leftType rightType binOp cleanupNeeded lvalue c =
     (let ext = ec_ext ec; lvs = ec_lvalues ec; lvalueSize = lv_sizeOnStack lvs lvalue; itemSize = sizeOnStack t in
      bindE (assertThrow (binOp \<noteq> Token_Exp) InternalCompilerError) (\<lambda>_.
      bindE (assertThrow (isValueType leftType) InternalCompilerError) (\<lambda>_.
      bindE (if lvalueSize > 0
             then run_ops [copyToStackTop ext (lvalueSize + itemSize) itemSize, copyToStackTop ext (itemSize + lvalueSize) lvalueSize] c
             else Inr c) (\<lambda>c.
      bindE (lv_retrieveValue lvs lvalue l True c) (\<lambda>c.
      bindE (convertType ext (ec_arrays ec) leftType leftType cleanupNeeded False False c) (\<lambda>c.
      bindE (if isShiftOp binOp then appendShiftOperatorCode ext binOp leftType rightType c
             else bindE (assertThrow (Type_eq leftType rightType) InternalCompilerError) (\<lambda>_.
                    appendOrdinaryBinaryOperatorCode ext binOp leftType c)) (\<lambda>c.
      bindE (if lvalueSize > 0
             then bindE (assertThrow (itemSize + lvalueSize \<le> 16) StackTooDeepError) (\<lambda>_.
                    run_ops (concat (replicate itemSize [append_swap ext (itemSize + lvalueSize), append_op ext Instruction_POP])) c)
             else Inr c) (\<lambda>c.
        lv_storeValue lvs lvalue t l False c))))))))"

text \<open>The code of the operands of a binary operator, and of an operator that skips its right operand.\<close>

definition literal_last :: "'g ExpressionCompiler \<Rightarrow> Token \<Rightarrow> Expression \<Rightarrow> Expression \<Rightarrow> bool" where
  "literal_last ec op a b \<longleftrightarrow>
     m_optimiseOrderLiterals ec \<and> isCommutativeOp op \<and> isLiteralExpression b \<and> \<not> isLiteralExpression a"

definition short_circuit :: "CodegenExternal \<Rightarrow> Token \<Rightarrow> 'g CompilerContext \<Rightarrow> (AssemblyItem \<times> 'g CompilerContext) result" where
  "short_circuit ext op c =
     bindE (run_ops (append_op ext Instruction_DUP1 # (if op = Token_And then [append_op ext Instruction_ISZERO] else [])) c) (\<lambda>c.
     bindE (appendConditionalJump ext '''' c) (\<lambda>(endLabel, c).
     bindE (append_op ext Instruction_POP c) (\<lambda>c. Inr (endLabel, c))))"

function accept :: "'g ExpressionCompiler \<Rightarrow> Expression \<Rightarrow> 'g ecs \<Rightarrow> 'g ecs result" where
  "accept ec (LiteralExpression l t v) s = at_location l (on_context (visit_Literal (ec_ext ec) t v)) s"
| "accept ec (Identifier l t w d v) s =
     at_location l (\<lambda>s.
       bindE (on_context (append_debug (''ExpressionCompiler::appendVariable('' @ decl_name d @ '', '' @ ec_locationText ec l @ '')'')) s) (\<lambda>s.
         case v of
           Some e \<Rightarrow> bindE (accept ec e s) (convert ec (expression_type e) (var_type d) False)
         | None \<Rightarrow>
             if var_immutable d then setLValue (ec_lvalues ec) l w (ImmutableItem d) s
             else setLValueFromDeclaration (ec_lvalues ec) l w d s)) s"
| "accept ec (UnaryOperation l t op isPrefix e) s =
     at_location l (\<lambda>s.
       case t of
         RationalNumberType v b \<Rightarrow> bindE (RationalNumberType_literalValue v) (\<lambda>w. on_context (append_value (ec_ext ec) w) s)
       | _ \<Rightarrow> bindE (accept ec e s) (unary_operator ec l t op isPrefix)) s"
| "accept ec (BinaryOperation l t ct op a b) s =
     at_location l (\<lambda>s.
       bindE (of_null (Inr ct)) (\<lambda>ct.
         if op = Token_And \<or> op = Token_Or then
           bindE (accept ec a s) (\<lambda>(lv, c).
           bindE (short_circuit (ec_ext ec) op c) (\<lambda>(endLabel, c).
           bindE (accept ec b (lv, c)) (on_context (append_item (ec_ext ec) endLabel))))
         else
           case ct of
             RationalNumberType v r \<Rightarrow> bindE (RationalNumberType_literalValue v) (\<lambda>w. on_context (append_value (ec_ext ec) w) s)
           | _ \<Rightarrow>
               (let cleanupNeeded = cleanupNeededForOp (category ct) op (m_arithmetic (snd s)) in
                bindE (of_null (if isShiftOp op \<or> op = Token_Exp then mobileType (expression_type b) else Inr (Some ct))) (\<lambda>rightType.
                bindE
                  (if literal_last ec op a b then
                     bindE (accept ec a s) (\<lambda>s. bindE (convert ec (expression_type a) ct cleanupNeeded s) (\<lambda>s.
                     bindE (accept ec b s) (convert ec (expression_type b) rightType cleanupNeeded)))
                   else
                     bindE (accept ec b s) (\<lambda>s. bindE (convert ec (expression_type b) rightType cleanupNeeded s) (\<lambda>s.
                     bindE (accept ec a s) (convert ec (expression_type a) ct cleanupNeeded)))) (\<lambda>s.
                  on_context (binary_operator (ec_ext ec) op ct rightType) s))))) s"
| "accept ec (Assignment l t op a b) s =
     at_location l (\<lambda>s.
       let leftType = expression_type a in
       bindE (if op = Token_Assign then Inr op else AssignmentToBinaryOp op) (\<lambda>binOp.
       bindE (assertThrow (Type_eq t leftType) InternalCompilerError) (\<lambda>_.
       let cleanupNeeded = (op \<noteq> Token_Assign \<and> cleanupNeededForOp (category leftType) binOp (m_arithmetic (snd s))) in
       bindE (accept ec b s) (\<lambda>s.
       bindE (of_null (if op \<noteq> Token_Assign \<and> isShiftOp binOp then mobileType (expression_type b)
                       else closestTemporaryType (expression_type b) leftType)) (\<lambda>rightType.
       bindE (convert ec (expression_type b) rightType cleanupNeeded s) (\<lambda>s.
       bindE (accept ec a s) (\<lambda>s.
       bindE (pop_lvalue s) (\<lambda>(lvalue, c).
       bindE (if op = Token_Assign then lv_storeValue (ec_lvalues ec) lvalue rightType l False c
              else compound_assignment ec l t leftType rightType binOp cleanupNeeded lvalue c) (\<lambda>c. Inr (None, c)))))))))) s"
| "accept ec (Conditional l t cond a b) s =
     at_location l (\<lambda>s.
       bindE (accept ec cond s) (\<lambda>(lv, c).
       bindE (appendConditionalJump (ec_ext ec) '''' c) (\<lambda>(trueTag, c).
       bindE (accept ec b (lv, c)) (\<lambda>s.
       bindE (convert ec (expression_type b) t False s) (\<lambda>(lv, c).
       bindE (appendJumpToNew (ec_ext ec) c) (\<lambda>(endTag, c).
       bindE (run_ops [append_item (ec_ext ec) trueTag, adjustStackOffset (- int (sizeOnStack t))] c) (\<lambda>c.
       bindE (accept ec a (lv, c)) (\<lambda>s.
       bindE (convert ec (expression_type a) t False s) (on_context (append_item (ec_ext ec) endTag)))))))))) s"
| "accept ec (InlineArray l t es) s =
     (case t of
        ArrayType loc ptr kind base len \<Rightarrow>
          bindE (assertThrow (\<not> isDynamicallySized t) InternalCompilerError) (\<lambda>_.
          bindE (memoryDataSize t) (\<lambda>size.
          bindE (on_context (run_ops [allocateMemory_size (ec_ext ec) (word_of_nat (max 32 size)), append_op (ec_ext ec) Instruction_DUP1]) s) (\<lambda>s.
          bindE (foldE (\<lambda>s e.
              bindE (accept ec e s) (\<lambda>s. bindE (convert ec (expression_type e) base True s)
                (on_context (storeInMemoryDynamic (ec_ext ec) base True True)))) s es)
            (on_context (append_op (ec_ext ec) Instruction_POP)))))
      | _ \<Rightarrow> Inl Exception)"
| "accept ec (TupleExpression l t willBeWrittenTo es) s =
     bindE (foldE (\<lambda>r e.
         case e of
           None \<Rightarrow> Inr (if willBeWrittenTo then (fst r @ [None], snd r) else r)
         | Some e \<Rightarrow>
             bindE (accept ec e (snd r)) (\<lambda>s.
               if willBeWrittenTo then bindE (take_lvalue s) (\<lambda>(lv, s). Inr (fst r @ [lv], s)) else Inr (fst r, s))) ([], s) es)
       (\<lambda>(lvalues, s).
          if \<not> willBeWrittenTo then Inr s
          else if length es = 1 then Inr (hd lvalues, snd s)
          else bindE (lv_create (ec_lvalues ec) (TupleObject lvalues) (snd s)) (\<lambda>c. Inr (Some (TupleObject lvalues), c)))"
| "accept ec (TypeConversion l t e) s =
     at_location l (\<lambda>s. bindE (accept ec e s) (convert ec (expression_type e) t False)) s"
| "accept ec (AwaitExpression l t e) s = accept ec e s"
  by pat_completeness auto

termination
  by (relation "measure (\<lambda>(ec, e, s). size e)") (auto simp: less_Suc_eq_le intro: size_list_estimation' [of "Some _"] size_list_estimation')

end
