(* ===== verification/ControlFlow.thy ===== *)
theory ControlFlow
  imports CodeEffects ExpressionCompiler
begin

text \<open>
  Code with jumps. A branch of the code generator appends a conditional jump, the code of one side, a jump to the end, and the code of the other side;
  what the whole does follows from what the sides do, because no label is defined twice.
\<close>

section \<open>Labels\<close>

lemma labels_mem: "i \<in> set P \<Longrightarrow> it_type i = Tag \<Longrightarrow> it_data i = Some l \<Longrightarrow> l \<in> set (labels P)"
  by (induction P) (auto split: option.splits)

lemma label_position_unique:
  "distinct (labels P) \<Longrightarrow> k < length P \<Longrightarrow> it_type (P ! k) = Tag \<Longrightarrow> it_data (P ! k) = Some l \<Longrightarrow> label_position P l = Some k"
proof (induction P arbitrary: k)
  case (Cons i P)
  show ?case
  proof (cases k)
    case 0
    then show ?thesis using Cons.prems by simp
  next
    case (Suc j)
    then have j: "j < length P" "it_type (P ! j) = Tag" "it_data (P ! j) = Some l" using Cons.prems by auto
    then have "l \<in> set (labels P)" by (intro labels_mem [of "P ! j"]) auto
    then have "\<not> (it_type i = Tag \<and> it_data i = Some l)" "distinct (labels P)" using Cons.prems(1) by (auto split: option.splits if_splits)
    then show ?thesis using Cons.IH [OF _ j] Suc by simp
  qed
qed simp

text \<open>A label and a jump to it.\<close>

definition is_label :: "u256 \<Rightarrow> AssemblyItem \<Rightarrow> bool" where
  "is_label l i \<longleftrightarrow> it_type i = Tag \<and> it_data i = Some l"

definition is_jump :: "Instruction \<Rightarrow> u256 \<Rightarrow> AssemblyItem list \<Rightarrow> bool" where
  "is_jump op l code \<longleftrightarrow>
     (\<exists>i j. code = [i, j] \<and> it_type i = PushTag \<and> it_data i = Some l \<and> it_type j = Operation \<and> it_instruction j = op)"

lemma is_jump_simps: "is_jump op l code \<Longrightarrow> length code = 2 \<and> labels code = []"
  by (auto simp: is_jump_def split: option.splits)

lemma jump_codes: "Instruction_JUMP = 0x56" "Instruction_JUMPI = 0x57"
  by (simp_all add: Instruction_defs)

lemma runs_push_tag:
  assumes "P = pre @ code @ post" "is_jump op l code"
  shows "runs P (length pre, vm_at st m) (length pre + 1, vm_at (l # st) m)"
  using assms by (intro runs_step) (auto simp: is_jump_def machine_step_def exec_item_def nth_append)

lemma runs_jump_step:
  assumes "P = pre @ code @ post" "is_jump op l code" "op = Instruction_JUMP \<and> bs = [] \<or> op = Instruction_JUMPI \<and> bs = [b] \<and> b \<noteq> 0"
    and "distinct (labels P)" "k < length P" "is_label l (P ! k)"
  shows "runs P (length pre + 1, vm_at (l # bs @ st) m) (k, vm_at st m)"
proof -
  have k: "label_position P l = Some k" using label_position_unique [of P k l] assms by (simp add: is_label_def)
  obtain i j where c: "code = [i, j]" "it_type j = Operation" "it_instruction j = op" using assms(2) by (auto simp: is_jump_def)
  then have j: "P ! (length pre + 1) = j" "length pre + 1 < length P" using assms(1) by (simp_all add: nth_append)
  show ?thesis using assms(3) c j k by (intro runs_step) (auto simp: machine_step_def jump_codes)
qed

lemma runs_no_jump:
  assumes "P = pre @ code @ post" "is_jump Instruction_JUMPI l code"
  shows "runs P (length pre + 1, vm_at (l # 0 # st) m) (length pre + 2, vm_at st m)"
proof -
  obtain i j where c: "code = [i, j]" "it_type j = Operation" "it_instruction j = Instruction_JUMPI" using assms(2) by (auto simp: is_jump_def)
  then have j: "P ! (length pre + 1) = j" "length pre + 1 < length P" using assms(1) by (simp_all add: nth_append)
  show ?thesis using c j by (intro runs_step) (auto simp: machine_step_def jump_codes)
qed

lemma runs_label:
  assumes "k < length P" "is_label l (P ! k)"
  shows "runs P (k, vm) (k + 1, vm)"
  using assms by (intro runs_step) (simp add: machine_step_def is_label_def)

lemma runs_code:
  assumes "P = pre @ code @ post" "executes code vm vm'" "distinct (labels P)" "k = length pre + length code"
  shows "runs P (length pre, vm) (k, vm')"
  using assms by (simp add: executes_def)

section \<open>The two shapes of branches\<close>

text \<open>The code that skips a part if the condition on the stack holds.\<close>

lemma executes_skip:
  assumes j: "is_jump Instruction_JUMPI l j" and e: "is_label l e"
    and body: "b = 0 \<Longrightarrow> executes body (vm_at st m) vm'" and skip: "b \<noteq> 0 \<Longrightarrow> vm' = vm_at st m"
  shows "executes (j @ body @ [e]) (vm_at (b # st) m) vm'"
  unfolding executes_def
proof (intro allI impI)
  fix pre post
  let ?P = "pre @ (j @ body @ [e]) @ post"
  assume d: "distinct (labels ?P)"
  have lj: "length j = 2" using is_jump_simps [OF j] by simp
  let ?k = "length pre + 2 + length body"
  have P: "?P = pre @ j @ (body @ [e] @ post)" "?P = (pre @ j) @ body @ ([e] @ post)" by simp_all
  have "?P ! ?k = e" using lj by (simp add: nth_append)
  then have e': "?k < length ?P" "is_label l (?P ! ?k)" using e lj by simp_all
  have push: "runs ?P (length pre, vm_at (b # st) m) (length pre + 1, vm_at (l # b # st) m)" by (rule runs_push_tag [OF P(1) j])
  have "runs ?P (length pre + 1, vm_at (l # b # st) m) (?k, vm')"
  proof (cases "b = 0")
    case True
    have "runs ?P (length pre + 2, vm_at st m) (?k, vm')" using runs_code [OF P(2) body [OF True] d] lj by simp
    with runs_no_jump [OF P(1) j, of st m] show ?thesis unfolding True by (rule runs_trans)
  next
    case False
    then show ?thesis using runs_jump_step [OF P(1) j _ d e', of "[b]" b] skip by simp
  qed
  then have "runs ?P (length pre, vm_at (b # st) m) (?k + 1, vm')"
    by (rule runs_trans [OF runs_trans [OF push] runs_label [OF e']])
  then show "runs ?P (length pre, vm_at (b # st) m) (length pre + length (j @ body @ [e]), vm')" using lj by (simp add: algebra_simps)
qed

text \<open>The code of a conditional: the side for false comes first.\<close>

lemma executes_conditional:
  assumes j: "is_jump Instruction_JUMPI t j" and k: "is_jump Instruction_JUMP l k" and lab: "is_label t tt" "is_label l e"
    and no: "b = 0 \<Longrightarrow> executes no (vm_at st m) (vm_at st' m')" and yes: "b \<noteq> 0 \<Longrightarrow> executes yes (vm_at st m) (vm_at st' m')"
  shows "executes (j @ no @ k @ [tt] @ yes @ [e]) (vm_at (b # st) m) (vm_at st' m')"
  unfolding executes_def
proof (intro allI impI)
  fix pre post
  let ?P = "pre @ (j @ no @ k @ [tt] @ yes @ [e]) @ post"
  assume d: "distinct (labels ?P)"
  have len: "length j = 2" "length k = 2" using is_jump_simps j k by auto
  let ?t = "length pre + 2 + length no + 2" and ?e = "length pre + 2 + length no + 2 + 1 + length yes"
  have P: "?P = pre @ j @ (no @ k @ [tt] @ yes @ [e] @ post)" "?P = (pre @ j) @ no @ (k @ [tt] @ yes @ [e] @ post)"
    "?P = (pre @ j @ no) @ k @ ([tt] @ yes @ [e] @ post)" "?P = (pre @ j @ no @ k @ [tt]) @ yes @ ([e] @ post)" by simp_all
  have "?P ! ?t = tt" "?P ! ?e = e" using len by (simp_all add: nth_append)
  then have t: "?t < length ?P" "is_label t (?P ! ?t)" and e: "?e < length ?P" "is_label l (?P ! ?e)" using lab len by simp_all
  have push: "runs ?P (length pre, vm_at (b # st) m) (length pre + 1, vm_at (t # b # st) m)" by (rule runs_push_tag [OF P(1) j])
  have "runs ?P (length pre + 1, vm_at (t # b # st) m) (?e, vm_at st' m')"
  proof (cases "b = 0")
    case True
    have "runs ?P (length pre + 2, vm_at st m) (length pre + 2 + length no, vm_at st' m')"
      using runs_code [OF P(2) no [OF True] d] len by simp
    moreover have "runs ?P (length pre + 2 + length no, vm_at st' m') (length pre + 2 + length no + 1, vm_at (l # st') m')"
      using runs_push_tag [OF P(3) k, of st' m'] len by simp
    moreover have "runs ?P (length pre + 2 + length no + 1, vm_at (l # st') m') (?e, vm_at st' m')"
      using runs_jump_step [OF P(3) k _ d e, of "[]" undefined st' m'] len by simp
    ultimately have "runs ?P (length pre + 2, vm_at st m) (?e, vm_at st' m')" by (blast intro: runs_trans)
    moreover have "runs ?P (length pre + 1, vm_at (t # b # st) m) (length pre + 2, vm_at st m)" unfolding True by (rule runs_no_jump [OF P(1) j])
    ultimately show ?thesis by (rule runs_trans [rotated])
  next
    case False
    have "runs ?P (?t + 1, vm_at st m) (?e, vm_at st' m')" using runs_code [OF P(4) yes [OF False] d] len by (simp add: eval_nat_numeral)
    moreover have "runs ?P (length pre + 1, vm_at (t # b # st) m) (?t, vm_at st m)"
      using runs_jump_step [OF P(1) j _ d t, of "[b]" b st m] False by simp
    ultimately show ?thesis by (blast intro: runs_trans [OF _ runs_trans [OF runs_label [OF t]]])
  qed
  then have "runs ?P (length pre, vm_at (b # st) m) (?e + 1, vm_at st' m')"
    by (rule runs_trans [OF runs_trans [OF push] runs_label [OF e]])
  then show "runs ?P (length pre, vm_at (b # st) m) (length pre + length (j @ no @ k @ [tt] @ yes @ [e]), vm_at st' m')"
    using len by (simp add: algebra_simps)
qed

section \<open>Appending jumps and labels\<close>

definition adds :: "Assembly \<Rightarrow> AssemblyItem list \<Rightarrow> nat \<Rightarrow> Assembly \<Rightarrow> bool" where
  "adds a code n a' \<longleftrightarrow> m_items (m_state a') = m_items (m_state a) @ code \<and> next_label a' = next_label a + n"

lemma tag_deposit: "it_type i = Tag \<Longrightarrow> item_deposit i = 0"
  by (simp add: item_deposit_def item_returnValues_def item_arguments_def)

lemma append_label:
  assumes "is_label l t" "tracks a vm"
  obtains a' t' where "append_item ext t (c\<lparr>m_asm := a\<rparr>) = Inr (c\<lparr>m_asm := a'\<rparr>)" "adds a [t'] 0 a'" "is_label l t'" "tracks a' vm"
proof
  let ?a = "upd (\<lambda>s. s\<lparr>m_deposit := m_deposit s + sint (ucast (item_deposit t) :: u32), m_items := m_items s @ [located ext a t]\<rparr>) a"
  show "append_item ext t (c\<lparr>m_asm := a\<rparr>) = Inr (c\<lparr>m_asm := ?a\<rparr>)"
    by (simp add: append_item_def on_asm_def Assembly_append_eq [OF assms(2)])
  show "adds a [located ext a t] 0 ?a" by (simp add: adds_def next_label_def)
  show "is_label l (located ext a t)" using assms(1) by (simp add: is_label_def)
  show "tracks ?a vm" using assms tag_deposit [of t] by (simp add: tracks_def is_label_def)
qed

lemma jump_deposits:
  "sint (ucast (item_deposit (AssemblyItem_of_instruction Instruction_JUMP l)) :: u32) = - 1"
  "sint (ucast (item_deposit (AssemblyItem_of_instruction Instruction_JUMPI l)) :: u32) = - 2"
  "it_type p = PushTag \<Longrightarrow> sint (ucast (item_deposit p) :: u32) = 1"
proof -
  have i: "info_ret (instructionInfo Instruction_JUMP) = 0" "info_args (instructionInfo Instruction_JUMP) = 1"
    "info_ret (instructionInfo Instruction_JUMPI) = 0" "info_args (instructionInfo Instruction_JUMPI) = 2"
    by code_simp+
  have w: "sint (ucast (- 1 :: u64) :: u32) = - 1" by code_simp
  show "sint (ucast (item_deposit (AssemblyItem_of_instruction Instruction_JUMP l)) :: u32) = - 1"
    "sint (ucast (item_deposit (AssemblyItem_of_instruction Instruction_JUMPI l)) :: u32) = - 2"
    by (simp_all add: item_deposit_def item_returnValues_def item_arguments_def AssemblyItem_of_instruction_def i w)
  show "it_type p = PushTag \<Longrightarrow> sint (ucast (item_deposit p) :: u32) = 1"
    by (simp add: item_deposit_def item_returnValues_def item_arguments_def)
qed

lemma newPushTag_eq:
  assumes "next_label a + 1 < 2 ^ 32"
  shows "newPushTag d a = Inr (AssemblyItem_make PushTag (word_of_nat (next_label a)) SourceLocation_default d,
      upd (\<lambda>s. s\<lparr>m_usedTags := m_usedTags s + 1\<rparr>) a)"
    and "next_label (upd (\<lambda>s. s\<lparr>m_usedTags := m_usedTags s + 1\<rparr>) a) = next_label a + 1"
proof -
  have u: "m_usedTags (m_state a) < 0xffffffff" using assms by (simp add: next_label_def word_less_nat_alt)
  then show "newPushTag d a = Inr (AssemblyItem_make PushTag (word_of_nat (next_label a)) SourceLocation_default d,
      upd (\<lambda>s. s\<lparr>m_usedTags := m_usedTags s + 1\<rparr>) a)"
    by (simp add: newPushTag_def Assembly_newTagOf_def assertThrow_def next_label_def)
  show "next_label (upd (\<lambda>s. s\<lparr>m_usedTags := m_usedTags s + 1\<rparr>) a) = next_label a + 1"
    using assms by (simp add: next_label_def unat_add_lem [THEN iffD1])
qed

lemma jump_appended:
  fixes ext :: CodegenExternal
  assumes a: "m_deposit (m_state a) > 0" "next_label a + 1 < 2 ^ 32" and op: "op = Instruction_JUMP \<or> op = Instruction_JUMPI"
  obtains a' j t where
    "bindE (newPushTag d a) (\<lambda>(t, a). bindE (Assembly_append (cg_external ext) t a) (\<lambda>(ret, a).
       bindE (appendInstruction (cg_external ext) op a) (\<lambda>(_, a). Inr (ret, a)))) = Inr (t, a')"
    "adds a j 1 a'" "is_jump op (word_of_nat (next_label a)) j" "\<exists>t'. item_tag t = Inr t' \<and> is_label (word_of_nat (next_label a)) t'"
    "m_deposit (m_state a') = m_deposit (m_state a) + (if op = Instruction_JUMP then 0 else - 1)"
proof -
  let ?a1 = "upd (\<lambda>s. s\<lparr>m_usedTags := m_usedTags s + 1\<rparr>) a"
  let ?p = "AssemblyItem_make PushTag (word_of_nat (next_label a)) SourceLocation_default d"
  let ?i = "AssemblyItem_of_instruction op SourceLocation_default"
  define vm where "vm = vm_at (replicate (nat (m_deposit (m_state a))) 0) (\<lambda>_. 0)"
  have p: "it_type ?p = PushTag" "it_data ?p = Some (word_of_nat (next_label a))" by (simp_all add: AssemblyItem_make_def)
  have i: "it_type ?i = Operation" "it_instruction ?i = op" by (simp_all add: AssemblyItem_of_instruction_def)
  have t1: "tracks ?a1 vm" using a(1) by (simp add: tracks_def vm_def)
  let ?a2 = "upd (\<lambda>s. s\<lparr>m_deposit := m_deposit s + sint (ucast (item_deposit ?p) :: u32), m_items := m_items s @ [located ext ?a1 ?p]\<rparr>) ?a1"
  have t2: "tracks ?a2 (vm\<lparr>vm_stack := 0 # vm_stack vm\<rparr>)" using t1 jump_deposits(3) [OF p(1)] by (simp add: tracks_def)
  let ?a3 = "upd (\<lambda>s. s\<lparr>m_deposit := m_deposit s + sint (ucast (item_deposit ?i) :: u32), m_items := m_items s @ [located ext ?a2 ?i]\<rparr>) ?a2"
  show thesis
  proof
    show "bindE (newPushTag d a) (\<lambda>(t, a). bindE (Assembly_append (cg_external ext) t a) (\<lambda>(ret, a).
       bindE (appendInstruction (cg_external ext) op a) (\<lambda>(_, a). Inr (ret, a)))) = Inr (located ext ?a1 ?p, ?a3)"
      by (simp add: newPushTag_eq(1) [OF a(2)] Assembly_append_eq [OF t1] appendInstruction_def Assembly_append_eq [OF t2])
    show "adds a [located ext ?a1 ?p, located ext ?a2 ?i] 1 ?a3" using newPushTag_eq(2) [OF a(2)] by (simp add: adds_def next_label_def)
    show "is_jump op (word_of_nat (next_label a)) [located ext ?a1 ?p, located ext ?a2 ?i]" using p i by (simp add: is_jump_def)
    show "\<exists>t'. item_tag (located ext ?a1 ?p) = Inr t' \<and> is_label (word_of_nat (next_label a)) t'"
      using p by (simp add: item_tag_def item_data_def assertThrow_def AssemblyItem_make_def is_label_def)
    have "Instruction_JUMP \<noteq> Instruction_JUMPI" by (simp add: jump_codes)
    then show "m_deposit (m_state ?a3) = m_deposit (m_state a) + (if op = Instruction_JUMP then 0 else - 1)"
      using op jump_deposits(3) [OF p(1)] jump_deposits(1,2) by auto
  qed
qed

lemma conditional_jump_appended:
  fixes ext :: CodegenExternal
  assumes "tracks a (vm_at (b # st) m)" "next_label a + 1 < 2 ^ 32"
  obtains a' j t where "appendConditionalJump ext d (c\<lparr>m_asm := a\<rparr>) = Inr (t, c\<lparr>m_asm := a'\<rparr>)" "adds a j 1 a'"
    "is_jump Instruction_JUMPI (word_of_nat (next_label a)) j" "is_label (word_of_nat (next_label a)) t" "tracks a' (vm_at st m)"
proof (rule jump_appended [where a = a and op = Instruction_JUMPI and d = d and ext = ext])
  show "m_deposit (m_state a) > 0" using assms(1) by (simp add: tracks_def)
next
  fix a' j t
  assume r: "bindE (newPushTag d a) (\<lambda>(t, a). bindE (Assembly_append (cg_external ext) t a) (\<lambda>(ret, a).
       bindE (appendInstruction (cg_external ext) Instruction_JUMPI a) (\<lambda>(_, a). Inr (ret, a)))) = Inr (t, a')"
    and rest: "adds a j 1 a'" "is_jump Instruction_JUMPI (word_of_nat (next_label a)) j"
    and lab: "\<exists>t'. item_tag t = Inr t' \<and> is_label (word_of_nat (next_label a)) t'"
    and dep: "m_deposit (m_state a') = m_deposit (m_state a) + (if Instruction_JUMPI = Instruction_JUMP then 0 else - 1)"
  obtain t' where t': "item_tag t = Inr t'" "is_label (word_of_nat (next_label a)) t'" using lab by blast
  show thesis
  proof
    show "appendConditionalJump ext d (c\<lparr>m_asm := a\<rparr>) = Inr (t', c\<lparr>m_asm := a'\<rparr>)"
      using r t' by (simp add: appendConditionalJump_def from_asm_def appendJumpI_def)
    show "tracks a' (vm_at st m)" using assms(1) dep by (simp add: tracks_def jump_codes)
  qed (use rest t' in auto)
qed (use assms in auto)

lemma jump_to_new_appended:
  fixes ext :: CodegenExternal
  assumes "tracks a (vm_at (x # st) m)" "next_label a + 1 < 2 ^ 32"
  obtains a' j t where "appendJumpToNew ext (c\<lparr>m_asm := a\<rparr>) = Inr (t, c\<lparr>m_asm := a'\<rparr>)" "adds a j 1 a'"
    "is_jump Instruction_JUMP (word_of_nat (next_label a)) j" "is_label (word_of_nat (next_label a)) t" "tracks a' (vm_at (x # st) m)"
proof (rule jump_appended [where a = a and op = Instruction_JUMP and d = "''''" and ext = ext])
  show "m_deposit (m_state a) > 0" using assms(1) by (simp add: tracks_def)
next
  fix a' j t
  assume r: "bindE (newPushTag '''' a) (\<lambda>(t, a). bindE (Assembly_append (cg_external ext) t a) (\<lambda>(ret, a).
       bindE (appendInstruction (cg_external ext) Instruction_JUMP a) (\<lambda>(_, a). Inr (ret, a)))) = Inr (t, a')"
    and rest: "adds a j 1 a'" "is_jump Instruction_JUMP (word_of_nat (next_label a)) j"
    and lab: "\<exists>t'. item_tag t = Inr t' \<and> is_label (word_of_nat (next_label a)) t'"
    and dep: "m_deposit (m_state a') = m_deposit (m_state a) + (if Instruction_JUMP = Instruction_JUMP then 0 else - 1)"
  obtain t' where t': "item_tag t = Inr t'" "is_label (word_of_nat (next_label a)) t'" using lab by blast
  show thesis
  proof
    show "appendJumpToNew ext (c\<lparr>m_asm := a\<rparr>) = Inr (t', c\<lparr>m_asm := a'\<rparr>)"
      using r t' by (simp add: appendJumpToNew_def from_asm_def appendJump_def)
    show "tracks a' (vm_at (x # st) m)" using assms(1) dep by (simp add: tracks_def)
  qed (use rest t' in auto)
qed (use assms in auto)

section \<open>What branches do\<close>

definition fresh_code :: "nat \<Rightarrow> nat \<Rightarrow> AssemblyItem list \<Rightarrow> bool" where
  "fresh_code u n code \<longleftrightarrow> distinct (labels code) \<and> unat ` set (labels code) \<subseteq> {u..<u + n}"

lemma fresh_append: "fresh_code u n xs \<Longrightarrow> fresh_code (u + n) k ys \<Longrightarrow> fresh_code u (n + k) (xs @ ys)"
proof -
  assume x: "fresh_code u n xs" and y: "fresh_code (u + n) k ys"
  then have "unat ` set (labels xs) \<inter> unat ` set (labels ys) = {}" by (fastforce simp: fresh_code_def)
  then have "set (labels xs) \<inter> set (labels ys) = {}" by blast
  then show ?thesis using x y by (fastforce simp: fresh_code_def)
qed

lemma labelled_adds:
  "labelled c n f vm vm' \<longleftrightarrow>
     (\<forall>a. tracks a vm \<longrightarrow> next_label a + n < 2 ^ 32 \<longrightarrow>
        (\<exists>a' code. f (c\<lparr>m_asm := a\<rparr>) = Inr (c\<lparr>m_asm := a'\<rparr>) \<and> adds a code n a' \<and> executes code vm vm' \<and> tracks a' vm' \<and>
           fresh_code (next_label a) n code))"
  by (simp add: labelled_def adds_def fresh_code_def conj_ac)

lemma labelled_addsD:
  assumes "labelled c n f vm vm'" "tracks a vm" "next_label a + n < 2 ^ 32"
  obtains a' code where "f (c\<lparr>m_asm := a\<rparr>) = Inr (c\<lparr>m_asm := a'\<rparr>)" "adds a code n a'" "executes code vm vm'" "tracks a' vm'"
    "fresh_code (next_label a) n code"
  using assms unfolding labelled_adds by blast

text \<open>The labels of a branch: the new label, those of the code in between, and so on; their order does not matter.\<close>

lemma labels_label: "is_label l t \<Longrightarrow> labels [t] = [l]"
  by (simp add: is_label_def)

lemma fresh_skip:
  assumes "is_jump op l j" "is_label l e" "l = word_of_nat u" "fresh_code (u + 1) n body" "u + (n + 1) < 2 ^ 32"
  shows "fresh_code u (n + 1) (j @ body @ [e])"
proof -
  have u: "unat l = u" using assms(3,5) by (simp add: unat_of_nat)
  have "unat x \<noteq> u" if "x \<in> set (labels body)" for x using assms(4) that by (fastforce simp: fresh_code_def)
  then have "l \<notin> set (labels body)" using u by blast
  moreover have "labels (j @ body @ [e]) = labels body @ [l]" using is_jump_simps [OF assms(1)] labels_label [OF assms(2)] by simp
  ultimately show ?thesis using assms(4) u by (fastforce simp: fresh_code_def)
qed

lemma labelled_skip_branch:
  assumes body: "labelled c n f (vm_at st m) (vm_at st1 m1)" and len: "length st1 = length st"
    and no: "b = 0 \<Longrightarrow> vm_at st1 m1 = vm_at st' m'" and yes: "b \<noteq> 0 \<Longrightarrow> vm_at st m = vm_at st' m'"
  shows "labelled c (n + 1) (\<lambda>c. bindE (appendConditionalJump ext d c) (\<lambda>(e, c). bindE (f c) (append_item ext e)))
    (vm_at (b # st) m) (vm_at st' m')"
  unfolding labelled_adds
proof (intro allI impI)
  fix a
  assume a: "tracks a (vm_at (b # st) m)" "next_label a + (n + 1) < 2 ^ 32"
  let ?l = "word_of_nat (next_label a) :: u256"
  obtain a1 j t where 1: "appendConditionalJump ext d (c\<lparr>m_asm := a\<rparr>) = Inr (t, c\<lparr>m_asm := a1\<rparr>)" "adds a j 1 a1"
      "is_jump Instruction_JUMPI ?l j" "is_label ?l t" "tracks a1 (vm_at st m)"
    by (rule conditional_jump_appended [of a b st m ext d c]) (use a in auto)
  have "next_label a1 + n < 2 ^ 32" using a 1(2) by (simp add: adds_def)
  then obtain a2 code where 2: "f (c\<lparr>m_asm := a1\<rparr>) = Inr (c\<lparr>m_asm := a2\<rparr>)" "adds a1 code n a2" "executes code (vm_at st m) (vm_at st1 m1)"
      "tracks a2 (vm_at st1 m1)" "fresh_code (next_label a1) n code"
    by (rule labelled_addsD [OF body 1(5)])
  obtain a3 t' where 3: "append_item ext t (c\<lparr>m_asm := a2\<rparr>) = Inr (c\<lparr>m_asm := a3\<rparr>)" "adds a2 [t'] 0 a3" "is_label ?l t'" "tracks a3 (vm_at st1 m1)"
    by (rule append_label [OF 1(4) 2(4)])
  have "executes (j @ code @ [t']) (vm_at (b # st) m) (vm_at st' m')"
    by (rule executes_skip [OF 1(3) 3(3)]) (use 2(3) no yes in auto)
  moreover have "fresh_code (next_label a) (n + 1) (j @ code @ [t'])"
    by (rule fresh_skip [OF 1(3) 3(3) refl _ a(2)]) (use 2(5) 1(2) in \<open>simp add: adds_def\<close>)
  moreover have "tracks a3 (vm_at st' m')" using 3(4) len no yes by (cases "b = 0") (auto simp: tracks_def)
  moreover have "adds a (j @ code @ [t']) (n + 1) a3" using 1(2) 2(2) 3(2) by (simp add: adds_def)
  ultimately show "\<exists>a' code. bindE (appendConditionalJump ext d (c\<lparr>m_asm := a\<rparr>)) (\<lambda>(e, c). bindE (f c) (append_item ext e)) = Inr (c\<lparr>m_asm := a'\<rparr>) \<and>
      adds a code (n + 1) a' \<and> executes code (vm_at (b # st) m) (vm_at st' m') \<and> tracks a' (vm_at st' m') \<and> fresh_code (next_label a) (n + 1) code"
    using 1(1) 2(1) 3(1) by auto
qed

lemma fresh_conditional:
  assumes j: "is_jump op t j" "is_jump op' l k" and lab: "is_label t tt" "is_label l e"
    and u: "t = word_of_nat u" "l = word_of_nat (u + 1 + n)" "u + (n + k' + 2) < 2 ^ 32"
    and fresh: "fresh_code (u + 1) n no" "fresh_code (u + 1 + n + 1) k' yes"
  shows "fresh_code u (n + k' + 2) (j @ no @ k @ [tt] @ yes @ [e])"
proof -
  have ut: "unat t = u" and ul: "unat l = u + 1 + n" using u by (simp_all only: unat_of_nat) simp_all
  have L: "labels (j @ no @ k @ [tt] @ yes @ [e]) = labels no @ t # labels yes @ [l]"
    using is_jump_simps [OF j(1)] is_jump_simps [OF j(2)] lab by (simp add: is_label_def)
  have no: "u + 1 \<le> unat x" "unat x < u + 1 + n" if "x \<in> set (labels no)" for x using fresh(1) that by (auto simp: fresh_code_def)
  have yes: "u + 1 + n + 1 \<le> unat x" "unat x < u + 1 + n + 1 + k'" if "x \<in> set (labels yes)" for x
    using fresh(2) that by (auto simp: fresh_code_def)
  have "distinct (labels no)" "distinct (labels yes)" using fresh by (simp_all add: fresh_code_def)
  moreover have "t \<notin> set (labels no)" "l \<notin> set (labels no)" using no ut ul by fastforce+
  moreover have "t \<notin> set (labels yes)" "l \<notin> set (labels yes)" using yes ut ul by fastforce+
  moreover have "t \<noteq> l" using ut ul by auto
  moreover have "set (labels no) \<inter> set (labels yes) = {}" using no yes by fastforce
  ultimately have "distinct (labels no @ t # labels yes @ [l])" by auto
  moreover have "unat x \<in> {u..<u + (n + k' + 2)}" if "x \<in> set (labels no @ t # labels yes @ [l])" for x
    using no [of x] yes [of x] ut ul that by auto
  ultimately show ?thesis unfolding fresh_code_def L by blast
qed

text \<open>The state of the generator after the jump to the end: the height of the stack is reset to that before the first side.\<close>

lemma offset_adjusted:
  assumes "tracks a (vm_at (x # st) m)"
  obtains a' where "adjustStackOffset (- 1) (c\<lparr>m_asm := a\<rparr>) = Inr (c\<lparr>m_asm := a'\<rparr>)" "adds a [] 0 a'" "tracks a' (vm_at st m)"
proof
  let ?a = "upd (\<lambda>s. s\<lparr>m_deposit := m_deposit s - 1\<rparr>) a"
  show "adjustStackOffset (- 1) (c\<lparr>m_asm := a\<rparr>) = Inr (c\<lparr>m_asm := ?a\<rparr>)"
    using assms by (simp add: adjustStackOffset_def on_asm_def adjustDeposit_def tracks_def Let_def assertThrow_def)
  show "adds a [] 0 ?a" by (simp add: adds_def next_label_def)
  show "tracks ?a (vm_at st m)" using assms by (simp add: tracks_def)
qed

definition branches :: "CodegenExternal \<Rightarrow> ('g CompilerContext \<Rightarrow> 'g CompilerContext result) \<Rightarrow> ('g CompilerContext \<Rightarrow> 'g CompilerContext result) \<Rightarrow>
    'g CompilerContext \<Rightarrow> 'g CompilerContext result" where
  "branches ext no yes c =
     bindE (appendConditionalJump ext '''' c) (\<lambda>(trueTag, c).
     bindE (no c) (\<lambda>c.
     bindE (appendJumpToNew ext c) (\<lambda>(endTag, c).
     bindE (run_ops [append_item ext trueTag, adjustStackOffset (- 1)] c) (\<lambda>c.
     bindE (yes c) (append_item ext endTag)))))"

lemma labelled_branches:
  fixes ext :: CodegenExternal and no yes :: "'g CompilerContext \<Rightarrow> 'g CompilerContext result"
  assumes no: "labelled c n no (vm_at st m) (vm_at (x # st) m)" and yes: "labelled c k yes (vm_at st m) (vm_at (y # st) m)"
  shows "labelled c (n + k + 2) (branches ext no yes) (vm_at (b # st) m) (vm_at ((if b = 0 then x else y) # st) m)"
  unfolding labelled_adds
proof (intro allI impI)
  fix a
  assume a: "tracks a (vm_at (b # st) m)" "next_label a + (n + k + 2) < 2 ^ 32"
  let ?u = "next_label a"
  obtain a1 j t where 1: "appendConditionalJump ext '''' (c\<lparr>m_asm := a\<rparr>) = Inr (t, c\<lparr>m_asm := a1\<rparr>)" "adds a j 1 a1"
      "is_jump Instruction_JUMPI (word_of_nat ?u) j" "is_label (word_of_nat ?u) t" "tracks a1 (vm_at st m)"
    by (rule conditional_jump_appended [of a b st m ext "''''" c]) (use a in auto)
  have u1: "next_label a1 = ?u + 1" using 1(2) by (simp add: adds_def)
  obtain a2 code where 2: "no (c\<lparr>m_asm := a1\<rparr>) = Inr (c\<lparr>m_asm := a2\<rparr>)" "adds a1 code n a2" "executes code (vm_at st m) (vm_at (x # st) m)"
      "tracks a2 (vm_at (x # st) m)" "fresh_code (next_label a1) n code"
    by (rule labelled_addsD [OF no 1(5)]) (use a u1 in auto)
  have u2: "next_label a2 = ?u + 1 + n" using 2(2) u1 by (simp add: adds_def)
  obtain a3 j' e where 3: "appendJumpToNew ext (c\<lparr>m_asm := a2\<rparr>) = Inr (e, c\<lparr>m_asm := a3\<rparr>)" "adds a2 j' 1 a3"
      "is_jump Instruction_JUMP (word_of_nat (next_label a2)) j'" "is_label (word_of_nat (next_label a2)) e" "tracks a3 (vm_at (x # st) m)"
    by (rule jump_to_new_appended [of a2 x st m ext c]) (use 2 a u2 in auto)
  obtain a4 t' where 4: "append_item ext t (c\<lparr>m_asm := a3\<rparr>) = Inr (c\<lparr>m_asm := a4\<rparr>)" "adds a3 [t'] 0 a4" "is_label (word_of_nat ?u) t'"
      "tracks a4 (vm_at (x # st) m)"
    by (rule append_label [OF 1(4) 3(5)])
  obtain a5 where 5: "adjustStackOffset (- 1) (c\<lparr>m_asm := a4\<rparr>) = Inr (c\<lparr>m_asm := a5\<rparr>)" "adds a4 [] 0 a5" "tracks a5 (vm_at st m)"
    by (rule offset_adjusted [OF 4(4)])
  have u5: "next_label a5 = ?u + 1 + n + 1" using 3(2) 4(2) 5(2) u2 by (simp add: adds_def)
  obtain a6 code' where 6: "yes (c\<lparr>m_asm := a5\<rparr>) = Inr (c\<lparr>m_asm := a6\<rparr>)" "adds a5 code' k a6" "executes code' (vm_at st m) (vm_at (y # st) m)"
      "tracks a6 (vm_at (y # st) m)" "fresh_code (next_label a5) k code'"
    by (rule labelled_addsD [OF yes 5(3)]) (use a u5 in auto)
  obtain a7 e' where 7: "append_item ext e (c\<lparr>m_asm := a6\<rparr>) = Inr (c\<lparr>m_asm := a7\<rparr>)" "adds a6 [e'] 0 a7"
      "is_label (word_of_nat (next_label a2)) e'" "tracks a7 (vm_at (y # st) m)"
    by (rule append_label [OF 3(4) 6(4)])
  let ?code = "j @ code @ j' @ [t'] @ code' @ [e']"
  have "branches ext no yes (c\<lparr>m_asm := a\<rparr>) = Inr (c\<lparr>m_asm := a7\<rparr>)"
    using 1(1) 2(1) 3(1) 4(1) 5(1) 6(1) 7(1) by (simp add: branches_def run_ops_Cons)
  moreover have "executes ?code (vm_at (b # st) m) (vm_at ((if b = 0 then x else y) # st) m)"
    by (rule executes_conditional [OF 1(3) 3(3) 4(3) 7(3)]) (use 2(3) 6(3) in auto)
  moreover have "fresh_code ?u (n + k + 2) ?code"
    by (rule fresh_conditional [OF 1(3) 3(3) 4(3) 7(3) refl _ a(2)]) (use 2(5) 6(5) u1 u2 u5 in simp_all)
  moreover have "tracks a7 (vm_at ((if b = 0 then x else y) # st) m)" using 7(4) by (simp add: tracks_def)
  moreover have "adds a ?code (n + k + 2) a7" using 1(2) 2(2) 3(2) 4(2) 5(2) 6(2) 7(2) by (simp add: adds_def)
  ultimately show "\<exists>a' code. branches ext no yes (c\<lparr>m_asm := a\<rparr>) = Inr (c\<lparr>m_asm := a'\<rparr>) \<and> adds a code (n + k + 2) a' \<and>
      executes code (vm_at (b # st) m) (vm_at ((if b = 0 then x else y) # st) m) \<and> tracks a' (vm_at ((if b = 0 then x else y) # st) m) \<and>
      fresh_code ?u (n + k + 2) code"
    by blast
qed

end
