(* ===== verification/OperatorEffects.thy ===== *)
theory OperatorEffects
  imports ControlFlow
begin

text \<open>
  What the code of operators and conversions computes. The values of the source are integers, truth values as 0 and 1 among them; arithmetic
  wraps around at the width of the type, as in an unchecked block. On the machine the bits of a word above the width of its type may be anything: the
  generator cleans them up only where they matter.
\<close>

section \<open>Values\<close>

definition value_type :: "Type \<Rightarrow> bool" where
  "value_type t \<longleftrightarrow> (case t of BoolType \<Rightarrow> True | IntegerType bits m \<Rightarrow> type_ok t | _ \<Rightarrow> False)"

text \<open>The value of a type that a number is cut to, and the number that a word denotes.\<close>

fun cut :: "Type \<Rightarrow> int \<Rightarrow> int" where
  "cut (IntegerType bits m) n = wrap bits (m = Signed) n"
| "cut t n = n"

fun denotes :: "Type \<Rightarrow> u256 \<Rightarrow> int \<Rightarrow> bool" where
  "denotes (IntegerType bits m) w n \<longleftrightarrow> n = wrap bits (m = Signed) (uint w)"
| "denotes BoolType w n \<longleftrightarrow> n = of_bool (w \<noteq> 0)"
| "denotes (RationalNumberType q b) w n \<longleftrightarrow> q = of_int n \<and> w = word_of_int n"
| "denotes t w n \<longleftrightarrow> False"

text \<open>A word without other bits.\<close>

definition clean :: "u256 \<Rightarrow> int \<Rightarrow> bool" where
  "clean w n \<longleftrightarrow> w = word_of_int n"

lemma integer_bits: "value_type (IntegerType bits m) \<Longrightarrow> 0 < bits \<and> bits \<le> 256"
  by (auto simp: value_type_def)

lemma value_type_simple: "value_type t \<Longrightarrow> simple_type t"
  by (auto simp: value_type_def simple_type_def split: Type.splits)

lemma denotes_word: "value_type (IntegerType bits m) \<Longrightarrow> denotes (IntegerType bits m) (word_of_int k) (wrap bits (m = Signed) k)"
  using integer_bits [of bits m] by (simp add: wrap_uint)

lemma wrap_cong_word: "0 < b \<Longrightarrow> b \<le> 256 \<Longrightarrow> word_of_int i = (word_of_int j :: u256) \<Longrightarrow> wrap b s i = wrap b s j"
  by (metis wrap_uint)

lemma wrap_id: "0 < b \<Longrightarrow> wrap b s (wrap b s n) = wrap b s n"
  by (rule wrap_wrap) auto

lemma wrap_mod: "0 < b \<Longrightarrow> i mod 2 ^ b = j mod 2 ^ b \<Longrightarrow> wrap b s i = wrap b s j"
  by (cases s) (auto simp: wrap_def take_bit_eq_mod [symmetric], metis Suc_pred signed_take_bit_eq_iff_take_bit_eq)

lemma mod_wrap: "0 < b \<Longrightarrow> wrap b s n mod 2 ^ b = n mod 2 ^ b"
  by (cases s) (auto simp: wrap_def take_bit_eq_mod [symmetric] take_bit_signed_take_bit)

section \<open>Conversions\<close>

lemma rational_not_bool: "isExplicitlyConvertibleTo X (RationalNumberType q b) BoolType \<noteq> Inr True"
  by (cases "RationalNumberType_mobileType q")
    (auto simp: IntegerType_isExplicitlyConvertibleTo_def IntegerType_isImplicitlyConvertibleTo_def RationalNumberType_isExplicitlyConvertibleTo_def
      RationalNumberType_isImplicitlyConvertibleTo_def FixedPointType_isExplicitlyConvertibleTo_def FixedPointType_isImplicitlyConvertibleTo_def Let_def
      split: option.splits Type.splits)

lemma converts_cases:
  assumes "isExplicitlyConvertibleTo X t t' = Inr True" "value_type t'" "value_type t \<or> (\<exists>q b. t = RationalNumberType q b)"
  obtains "t = BoolType" "t' = BoolType"
  | bits m bits' m' where "t = IntegerType bits m" "t' = IntegerType bits' m'" "value_type t"
  | q b bits m where "t = RationalNumberType q b" "t' = IntegerType bits m"
      "\<exists>n. q = of_int n \<and> IntegerType_minValue bits (m = Signed) \<le> n \<and> n \<le> IntegerType_maxValue bits (m = Signed)"
proof (cases t')
  case (IntegerType bits m)
  show thesis
  proof (cases t)
    case t: (RationalNumberType q b)
    have "holds (RationalNumberType_isImplicitlyConvertibleTo X q b t')"
      using assms(1) t IntegerType by (auto simp: RationalNumberType_isExplicitlyConvertibleTo_def Let_def split: if_splits)
    then have "represents t' q" using IntegerType by (auto simp: RationalNumberType_isImplicitlyConvertibleTo_def represents_def isFractional_def fits_iff split: if_splits)
    then show thesis using that(3) [OF t IntegerType] IntegerType by (auto simp: represents_def integral_rat)
  qed (use assms IntegerType that(2) in \<open>auto simp: value_type_def IntegerType_isExplicitlyConvertibleTo_def\<close>)
next
  case BoolType
  then show thesis using assms that rational_not_bool
    by (cases t) (auto simp: value_type_def IntegerType_isExplicitlyConvertibleTo_def IntegerType_isImplicitlyConvertibleTo_def)
qed (use assms in \<open>auto simp: value_type_def\<close>)

lemma wrap_range:
  assumes "0 < bits" "IntegerType_minValue bits s \<le> n" "n \<le> IntegerType_maxValue bits s"
  shows "wrap bits s n = n"
  using assms by (cases s) (auto simp: wrap_def IntegerType_minValue_def IntegerType_maxValue_def signed_take_bit_int_eq_self take_bit_int_eq_self)

lemma integer_range:
  assumes "0 < bits" "bits \<le> 256" "IntegerType_minValue bits s \<le> n" "n \<le> IntegerType_maxValue bits s"
  shows "- (2 ^ 255) \<le> n \<and> n \<le> 2 ^ 256 - 1"
proof (cases s)
  case True
  have "(2::int) ^ (bits - 1) \<le> 2 ^ 255" using assms by (intro power_increasing) auto
  then show ?thesis using assms True by (simp add: IntegerType_minValue_def IntegerType_maxValue_def)
next
  case False
  have "(2::int) ^ bits \<le> 2 ^ 256" using assms by (intro power_increasing) auto
  then show ?thesis using assms False by (simp add: IntegerType_minValue_def IntegerType_maxValue_def)
qed

lemma literal_bytes: "- (2 ^ 255) \<le> n \<Longrightarrow> n \<le> 2 ^ 256 - 1 \<Longrightarrow> integer_bytes n \<le> 32"
  using represents_integer_bytes [of 32 n]
  by (cases "n < 0") (simp_all add: represents_Integer_of_int sign_modifier_def IntegerType_minValue_def IntegerType_maxValue_def)

lemma does_literal_conversion:
  assumes t: "value_type (IntegerType bits m)" and n: "IntegerType_minValue bits (m = Signed) \<le> n" "n \<le> IntegerType_maxValue bits (m = Signed)"
  shows "does cx (convertType ext ac (RationalNumberType (of_int n) b) (IntegerType bits m) cleanup False False :: 'g CompilerContext \<Rightarrow> 'g CompilerContext result)
    (vm_at (word_of_int n # st) mem) (vm_at (word_of_int n # st) mem)"
proof -
  let ?b = "integer_bytes n * 8"
  let ?f = "\<lambda>c :: 'g CompilerContext. if bits < ?b \<and> cleanup then cleanHigherOrderBits ext bits (m = Signed) c else Inr c"
  have bits: "0 < bits" "bits \<le> 256" "8 dvd bits" using t by (auto simp: value_type_def)
  have fit: "integer_bytes n \<le> 32" using integer_range [OF bits(1,2) n] by (simp add: literal_bytes)
  have same: "word_of_int (wrap bits (m = Signed) (uint (word_of_int n :: u256))) = (word_of_int n :: u256)"
    using bits wrap_range [OF bits(1) n] by (simp add: wrap_uint)
  have f: "does cx ?f (vm_at (word_of_int n # st) mem) (vm_at (word_of_int n # st) mem)"
    using effect_cleanHigherOrderBits [OF bits, of cx ext "m = Signed" "word_of_int n" st mem] does_skip [of cx "vm_at (word_of_int n # st) mem"]
    unfolding same by (cases "bits < ?b \<and> cleanup") (simp_all add: labelled_def)
  have "does cx (convert_frame ext (RationalNumberType (of_int n) b) (IntegerType bits m) cleanup False
      (convert_body ext (\<lambda>c. Inl UndefinedBehaviour) (\<lambda>c. Inl UndefinedBehaviour) (RationalNumberType (of_int n) b) (IntegerType bits m) cleanup False))
    (vm_at (word_of_int n # st) mem) (vm_at (word_of_int n # st) mem)"
    by (rule does_frame [OF _ _ _ _ _ _ f])
      (simp_all add: convert_body_def convert_number_def assertThrow_def integerType_eq fit as_integer_def bindE_assoc)
  then show ?thesis by simp
qed

text \<open>The conversions of values: the word that they leave denotes the converted value, and is clean if the conversion was asked to clean up.\<close>

lemma does_conversion:
  assumes conv: "isExplicitlyConvertibleTo X t t' = Inr True" "value_type t'" "value_type t \<or> (\<exists>q b. t = RationalNumberType q b)"
    and w: "denotes t w n"
  shows "\<exists>w'. does cx (convertType ext ac t t' cleanup False False :: 'g CompilerContext \<Rightarrow> 'g CompilerContext result)
      (vm_at (w # st) m) (vm_at (w' # st) m) \<and> denotes t' w' (cut t' n) \<and> (cleanup \<longrightarrow> clean w' (cut t' n))"
  using conv
proof (rule converts_cases)
  assume t: "t = BoolType" "t' = BoolType"
  obtain w' where w': "does cx (convertType ext ac t t' cleanup False False :: 'g CompilerContext \<Rightarrow> 'g CompilerContext result)
      (vm_at (w # st) m) (vm_at (w' # st) m)" "clean_word t' w' = convert_word t t' w" "cleanup \<longrightarrow> w' = convert_word t t' w"
    using does_convert [OF value_type_simple value_type_simple conv(1), of cx ext ac cleanup False w st m] t conv by blast
  show ?thesis using w' w t by (intro exI [of _ w']) (auto simp: clean_word_def convert_word_def clean_def split: if_splits)
next
  fix bits s bits' s'
  assume t: "t = IntegerType bits s" "t' = IntegerType bits' s'" "value_type t"
  obtain w' where w': "does cx (convertType ext ac t t' cleanup False False :: 'g CompilerContext \<Rightarrow> 'g CompilerContext result)
      (vm_at (w # st) m) (vm_at (w' # st) m)" "clean_word t' w' = convert_word t t' w" "cleanup \<longrightarrow> w' = convert_word t t' w"
    using does_convert [OF value_type_simple value_type_simple conv(1), of cx ext ac cleanup False w st m] t conv by blast
  have b: "0 < bits" "bits \<le> 256" "0 < bits'" "bits' \<le> 256" using t conv(2) integer_bits by auto
  have cw: "convert_word t t' w = word_of_int (wrap bits' (s' = Signed) n)"
    using w b t by (simp add: convert_word_def clean_word_def as_integer_def wrap_uint)
  then have "word_of_int (wrap bits' (s' = Signed) (uint w')) = (word_of_int (wrap bits' (s' = Signed) n) :: u256)"
    using w'(2) t by (simp add: clean_word_def as_integer_def)
  then have "wrap bits' (s' = Signed) (uint w') = wrap bits' (s' = Signed) n" using wrap_cong_word [OF b(3,4)] wrap_id [OF b(3)] by metis
  then show ?thesis using w' t cw by (intro exI [of _ w']) (auto simp: clean_def)
next
  fix q b bits s
  assume t: "t = RationalNumberType q b" "t' = IntegerType bits s"
    "\<exists>n. q = of_int n \<and> IntegerType_minValue bits (s = Signed) \<le> n \<and> n \<le> IntegerType_maxValue bits (s = Signed)"
  then have n: "q = of_int n" "w = word_of_int n" "IntegerType_minValue bits (s = Signed) \<le> n" "n \<le> IntegerType_maxValue bits (s = Signed)"
    using w by auto
  have b: "0 < bits" "bits \<le> 256" using t conv(2) integer_bits by auto
  have "wrap bits (s = Signed) n = n" by (rule wrap_range [OF b(1) n(3,4)])
  then show ?thesis using does_literal_conversion [of bits s n cx ext ac b cleanup st m] n t b conv(2)
    by (intro exI [of _ w]) (simp add: clean_def wrap_uint)
qed

section \<open>Operators\<close>

lemma effect_EXP [effects]: "does cx (append_op ext Instruction_EXP) (vm_at (a # b # st) m) (vm_at ((a ^ unat b) # st) m)"
  by (rule does_binary) (simp add: binary_op_def Instruction_defs)

lemma effect_XOR [effects]: "does cx (append_op ext Instruction_XOR) (vm_at (a # b # st) m) (vm_at (xor a b # st) m)"
  by (rule does_binary) (simp add: binary_op_def Instruction_defs)

lemma effect_EQ [effects]: "does cx (append_op ext Instruction_EQ) (vm_at (a # b # st) m) (vm_at (of_bool (a = b) # st) m)"
  by (rule does_binary) (simp add: binary_op_def Instruction_defs)

lemma effect_LT [effects]: "does cx (append_op ext Instruction_LT) (vm_at (a # b # st) m) (vm_at (of_bool (a < b) # st) m)"
  by (rule does_binary) (simp add: binary_op_def Instruction_defs)

lemma effect_SLT [effects]: "does cx (append_op ext Instruction_SLT) (vm_at (a # b # st) m) (vm_at (of_bool (sint a < sint b) # st) m)"
  by (rule does_binary) (simp add: binary_op_def Instruction_defs)

lemma effect_SGT [effects]: "does cx (append_op ext Instruction_SGT) (vm_at (a # b # st) m) (vm_at (of_bool (sint a > sint b) # st) m)"
  by (rule does_binary) (simp add: binary_op_def Instruction_defs)

lemma effect_SAR [effects]: "does cx (append_op ext Instruction_SAR) (vm_at (a # b # st) m) (vm_at (signed_drop_bit (unat a) b # st) m)"
  by (rule does_binary) (simp add: binary_op_def Instruction_defs)

lemma does_arithmetic: "does cx (f (m_arithmetic cx)) vm vm' \<Longrightarrow> does cx (\<lambda>c. f (m_arithmetic c) c) vm vm'"
  by (simp add: labelled_def)

text \<open>The value of an operator on numbers of a type.\<close>

definition binary_value :: "Token \<Rightarrow> Type \<Rightarrow> int \<Rightarrow> int \<Rightarrow> int" where
  "binary_value op t x y =
     (if op = Token_Equal then of_bool (x = y)
      else if op = Token_NotEqual then of_bool (x \<noteq> y)
      else if op = Token_LessThan then of_bool (x < y)
      else if op = Token_GreaterThan then of_bool (x > y)
      else if op = Token_LessThanOrEqual then of_bool (x \<le> y)
      else if op = Token_GreaterThanOrEqual then of_bool (x \<ge> y)
      else cut t
        (if op = Token_Add then x + y
         else if op = Token_Sub then x - y
         else if op = Token_Mul then x * y
         else if op = Token_BitAnd then and x y
         else if op = Token_BitOr then or x y
         else if op = Token_BitXor then xor x y
         else if op = Token_Exp then x ^ nat y
         else if op = Token_SHL then push_bit (nat y) x
         else drop_bit (nat y) x))"

text \<open>Words that denote the same number modulo a power of two.\<close>

lemma denotes_mod:
  assumes "value_type (IntegerType bits m)"
  shows "denotes (IntegerType bits m) w (wrap bits (m = Signed) k) \<longleftrightarrow> uint w mod 2 ^ bits = k mod 2 ^ bits"
proof -
  have b: "0 < bits" using integer_bits [OF assms] by simp
  show ?thesis using wrap_mod [OF b, of "uint w" k "m = Signed"] mod_wrap [OF b] by (auto, metis)
qed

lemma denotes_uint: "value_type (IntegerType bits m) \<Longrightarrow> denotes (IntegerType bits m) w n \<Longrightarrow> n mod 2 ^ bits = uint w mod 2 ^ bits"
  using integer_bits [of bits m] by (simp add: mod_wrap)

lemma mod_word: "bits \<le> 256 \<Longrightarrow> uint (word_of_int k :: u256) mod 2 ^ bits = k mod 2 ^ bits"
  by (simp add: uint_word_of_int_eq take_bit_eq_mod [symmetric] min_def)

lemma denotes_word_of_int:
  assumes t: "value_type (IntegerType bits m)" and w: "w = word_of_int k" "k mod 2 ^ bits = j mod 2 ^ bits"
  shows "denotes (IntegerType bits m) w (cut (IntegerType bits m) j)"
  unfolding cut.simps denotes_mod [OF t] using w mod_word [of bits k] integer_bits [OF t] by simp

lemma word_arith: "a + b = word_of_int (uint a + uint b)" "a - b = word_of_int (uint a - uint b)" "a * b = word_of_int (uint a * uint b)"
  "and a b = word_of_int (and (uint a) (uint b))" "or a b = word_of_int (or (uint a) (uint b))" "xor a b = word_of_int (xor (uint a) (uint b))"
  for a b :: u256
  by (simp_all add: bit_eq_iff bit_simps)

lemma clean_value:
  assumes t: "value_type t" and a: "denotes t a x" "clean a x"
  shows "(if is_signed t then sint a else uint a) = x"
proof (cases t)
  case (IntegerType bits m)
  then have b: "0 < bits" "bits \<le> 256" using t integer_bits by auto
  have "x = wrap bits (m = Signed) x" using a IntegerType b by (metis denotes.simps(1) wrap_id)
  moreover have "wrap bits s x = wrap 256 s (wrap bits s x)" for s using b by (simp add: wrap_wrap)
  ultimately have "x = wrap 256 (m = Signed) x" by metis
  moreover have "sint (word_of_int x :: u256) = wrap 256 True x" "uint (word_of_int x :: u256) = wrap 256 False x"
    by (simp_all add: wrap_def sint_sbintrunc' uint_word_of_int_eq)
  ultimately show ?thesis using a(2) IntegerType by (cases "m = Signed") (simp_all add: is_signed_def clean_def)
next
  case BoolType
  then show ?thesis using a by (auto simp: is_signed_def clean_def)
qed (use t in \<open>auto simp: value_type_def\<close>)

lemma clean_eq: "clean a x \<Longrightarrow> clean b y \<Longrightarrow> value_type t \<Longrightarrow> denotes t a x \<Longrightarrow> denotes t b y \<Longrightarrow> a = b \<longleftrightarrow> x = y"
  using clean_value [of t a x] clean_value [of t b y] by (metis clean_def)

lemma denotes_bool: "denotes BoolType (of_bool P) (of_bool P)" "denotes BoolType (of_bool (of_bool P = (0 :: u256))) (of_bool (\<not> P))"
  by simp_all

lemma does_compare:
  assumes op: "isCompareOp op" and t: "value_type t" and a: "denotes t a x" "clean a x" and b: "denotes t b y" "clean b y"
  shows "\<exists>w. does cx (appendCompareOperatorCode ext op t) (vm_at (a # b # st) m) (vm_at (w # st) m) \<and> denotes BoolType w (binary_value op t x y)"
proof -
  have one: "sizeOnStack t = 1" using t by (auto simp: value_type_def split: Type.splits)
  let ?a = "if is_signed t then sint a else uint a" and ?b = "if is_signed t then sint b else uint b"
  have v: "?a = x" "?b = y" using clean_value [OF t a] clean_value [OF t b] by simp_all
  have e: "a = b \<longleftrightarrow> x = y" by (rule clean_eq [OF a(2) b(2) t a(1) b(1)])
  have lt: "does cx (append_op ext (if is_signed t then Instruction_SLT else Instruction_LT)) (vm_at (a # b # st) m) (vm_at (of_bool (x < y) # st) m)"
    using effect_SLT [of cx ext a b st m] effect_LT [of cx ext a b st m] v by (cases "is_signed t") (simp_all add: word_less_def)
  have gt: "does cx (append_op ext (if is_signed t then Instruction_SGT else Instruction_GT)) (vm_at (a # b # st) m) (vm_at (of_bool (x > y) # st) m)"
    using effect_SGT [of cx ext a b st m] effect_GT [of cx ext a b st m] v by (cases "is_signed t") (simp_all add: word_less_def)
  have eq: "does cx (append_op ext Instruction_EQ) (vm_at (a # b # st) m) (vm_at (of_bool (x = y) # st) m)"
    using effect_EQ [of cx ext a b st m] e by simp
  have neg: "does cx (run_ops [f, append_op ext Instruction_ISZERO]) (vm_at (a # b # st) m) (vm_at (of_bool (\<not> P) # st) m)"
    if "does cx f (vm_at (a # b # st) m) (vm_at (of_bool P # st) m)" for f P
    using does_Cons [OF that does_Cons [OF effect_ISZERO does_Nil]] by simp
  have res: ?thesis if "\<And>c. appendCompareOperatorCode ext op t c = f c" "does cx f (vm_at (a # b # st) m) (vm_at (of_bool P # st) m)"
    "binary_value op t x y = of_bool P" for f P
    using that by (intro exI [of _ "of_bool P"]) (simp add: labelled_def)
  note [simp] = appendCompareOperatorCode_def one assertThrow_def binary_value_def Token_defs
  consider "op = Token_Equal" | "op = Token_NotEqual" | "op = Token_LessThan" | "op = Token_GreaterThan" | "op = Token_LessThanOrEqual"
    | "op = Token_GreaterThanOrEqual"
    using op unfolding isCompareOp_def Token_defs by linarith
  then show ?thesis
  proof cases
    case 1 then show ?thesis by (intro res [OF _ eq]) (simp_all add: run_ops_Cons)
  next
    case 2 then show ?thesis by (intro res [OF _ neg [OF eq]]) (simp_all add: run_ops_Cons)
  next
    case 3 then show ?thesis by (intro res [OF _ lt]) simp_all
  next
    case 4 then show ?thesis by (intro res [OF _ gt]) simp_all
  next
    case 5 then show ?thesis by (intro res [OF _ neg [OF gt]]) (simp_all add: run_ops_Cons not_less)
  next
    case 6 then show ?thesis by (intro res [OF _ neg [OF lt]]) (simp_all add: run_ops_Cons not_less)
  qed
qed

definition arithmetic_ops :: "Token set" where
  "arithmetic_ops = {Token_Add, Token_Sub, Token_Mul}"

definition bit_ops :: "Token set" where
  "bit_ops = {Token_BitAnd, Token_BitOr, Token_BitXor}"

lemma effect_SHL_word:
  assumes "a = word_of_int x" "unat b = nat y"
  shows "push_bit (unat b) a = word_of_int (push_bit (nat y) x)"
  using assms by (simp add: push_bit_eq_mult)

lemma does_arithmetic_operator:
  assumes t: "value_type (IntegerType bits s)" and wr: "m_arithmetic cx = Wrapping" and op: "op \<in> arithmetic_ops \<union> bit_ops"
    and a: "denotes (IntegerType bits s) a x" and b: "denotes (IntegerType bits s) b y"
  shows "\<exists>w. does cx (appendOrdinaryBinaryOperatorCode ext op (IntegerType bits s)) (vm_at (a # b # st) m) (vm_at (w # st) m) \<and>
    denotes (IntegerType bits s) w (binary_value op (IntegerType bits s) x y)"
proof -
  let ?t = "IntegerType bits s"
  have x: "uint a mod 2 ^ bits = x mod 2 ^ bits" and y: "uint b mod 2 ^ bits = y mod 2 ^ bits"
    using denotes_uint [OF t a] denotes_uint [OF t b] by simp_all
  have ta: "take_bit bits (uint a) = take_bit bits x" and tb: "take_bit bits (uint b) = take_bit bits y" using x y by (simp_all add: take_bit_eq_mod)
  have res: ?thesis if "\<And>c. m_arithmetic c = Wrapping \<Longrightarrow> appendOrdinaryBinaryOperatorCode ext op ?t c = f c"
    "does cx f (vm_at (a # b # st) m) (vm_at (w # st) m)" "w = word_of_int k" "k mod 2 ^ bits = j mod 2 ^ bits" "binary_value op ?t x y = cut ?t j" for f w k j
    using that wr denotes_word_of_int [OF t that(3,4)] by (intro exI [of _ w]) (simp add: labelled_def)
  have bits: "take_bit bits (and (uint a) (uint b)) = take_bit bits (and x y)" "take_bit bits (or (uint a) (uint b)) = take_bit bits (or x y)"
    "take_bit bits (xor (uint a) (uint b)) = take_bit bits (xor x y)"
    by (simp_all only: semiring_bit_operations_class.take_bit_and take_bit_or take_bit_xor ta tb)
  note [simp] = appendOrdinaryBinaryOperatorCode_def appendArithmeticOperatorCode_def appendBitOperatorCode_def isArithmeticOp_def isBitOp_def assertThrow_def
    binary_value_def Token_defs
  consider "op = Token_Add" | "op = Token_Sub" | "op = Token_Mul" | "op = Token_BitAnd" | "op = Token_BitOr" | "op = Token_BitXor"
    using op by (auto simp: arithmetic_ops_def bit_ops_def)
  then show ?thesis
  proof cases
    case 1 then show ?thesis using x y by (intro res [where j = "x + y", OF _ effect_ADD word_arith(1)]) (auto intro: mod_add_cong)
  next
    case 2 then show ?thesis using x y by (intro res [where j = "x - y", OF _ effect_SUB word_arith(2)]) (auto intro: mod_diff_cong)
  next
    case 3 then show ?thesis using x y by (intro res [where j = "x * y", OF _ effect_MUL word_arith(3)]) (auto intro: mod_mult_cong)
  next
    case 4 then show ?thesis by (intro res [where j = "and x y", OF _ effect_AND word_arith(4)]) (use bits in \<open>simp_all add: take_bit_eq_mod\<close>)
  next
    case 5 then show ?thesis by (intro res [where j = "or x y", OF _ effect_OR word_arith(5)]) (use bits in \<open>simp_all add: take_bit_eq_mod\<close>)
  next
    case 6 then show ?thesis by (intro res [where j = "xor x y", OF _ effect_XOR word_arith(6)]) (use bits in \<open>simp_all add: take_bit_eq_mod\<close>)
  qed
qed

text \<open>Shifts and exponentiation: the right operand is unsigned and clean.\<close>

lemma clean_amount:
  assumes "value_type (IntegerType bits s)" "s \<noteq> Signed" "denotes (IntegerType bits s) b y" "clean b y"
  shows "unat b = nat y" "0 \<le> y"
proof -
  have "uint b = y" using clean_value [OF assms(1,3,4)] assms(2) by (simp add: is_signed_def)
  then show "unat b = nat y" "0 \<le> y" by auto
qed

lemma does_exponentiation:
  assumes t: "value_type (IntegerType bits s)" and t': "value_type (IntegerType bits' s')" "s' \<noteq> Signed" and wr: "m_arithmetic cx = Wrapping"
    and a: "denotes (IntegerType bits s) a x" "clean a x" and b: "denotes (IntegerType bits' s') b y" "clean b y"
  shows "\<exists>w. does cx (appendExpOperatorCode ext (IntegerType bits s) (IntegerType bits' s')) (vm_at (a # b # st) m) (vm_at (w # st) m) \<and>
    denotes (IntegerType bits s) w (binary_value Token_Exp (IntegerType bits s) x y)"
proof -
  have "a ^ unat b = word_of_int (x ^ nat y)" using a(2) clean_amount [OF t' b] by (simp add: clean_def)
  then have "denotes (IntegerType bits s) (a ^ unat b) (cut (IntegerType bits s) (x ^ nat y))" by (rule denotes_word_of_int [OF t _ refl])
  moreover have "does cx (appendExpOperatorCode ext (IntegerType bits s) (IntegerType bits' s')) (vm_at (a # b # st) m) (vm_at (a ^ unat b # st) m)"
    using effect_EXP [of cx ext a b st m] wr t' by (simp add: labelled_def appendExpOperatorCode_def assertThrow_def is_signed_def)
  ultimately show ?thesis by (intro exI [of _ "a ^ unat b"]) (simp add: binary_value_def Token_defs)
qed

lemma does_shift:
  assumes t: "value_type (IntegerType bits s)" and t': "value_type (IntegerType bits' s')" "s' \<noteq> Signed" and ev: "hasBitwiseShifting (m_evmVersion cx)"
    and op: "op = Token_SHL \<or> op = Token_SAR"
    and a: "denotes (IntegerType bits s) a x" "clean a x" and b: "denotes (IntegerType bits' s') b y" "clean b y"
  shows "\<exists>w. does cx (appendShiftOperatorCode ext op (IntegerType bits s) (IntegerType bits' s')) (vm_at (a # b # st) m) (vm_at (w # st) m) \<and>
    denotes (IntegerType bits s) w (binary_value op (IntegerType bits s) x y)"
proof -
  let ?t = "IntegerType bits s"
  have y: "unat b = nat y" by (rule clean_amount(1) [OF t' b])
  have v: "(if is_signed ?t then sint a else uint a) = x" by (rule clean_value [OF t a])
  have res: ?thesis if "\<And>c. appendShiftOperatorCode ext op ?t (IntegerType bits' s') c =
      run_ops [append_op ext Instruction_SWAP1, \<lambda>c. if hasBitwiseShifting (m_evmVersion c) then f c else g c] c" "does cx f (vm_at (b # a # st) m) (vm_at (w # st) m)" "w = word_of_int k"
    "binary_value op ?t x y = cut ?t k" for f g w k
  proof -
    have "does cx (\<lambda>c. if hasBitwiseShifting (m_evmVersion c) then f c else g c) (vm_at (b # a # st) m) (vm_at (w # st) m)"
      using that(2) ev by (simp add: labelled_def)
    then have "does cx (run_ops [append_op ext Instruction_SWAP1, \<lambda>c. if hasBitwiseShifting (m_evmVersion c) then f c else g c])
        (vm_at (a # b # st) m) (vm_at (w # st) m)"
      by (rule does_Cons [OF effect_SWAP1 does_Cons [OF _ does_Nil]])
    then show ?thesis using that(1,4) denotes_word_of_int [OF t that(3) refl] by (intro exI [of _ w]) (simp add: labelled_def)
  qed
  note [simp] = appendShiftOperatorCode_def assertThrow_def shiftAmount_ok_def binary_value_def Token_defs t'(2) run_ops_Cons
  show ?thesis
  proof (cases "op = Token_SHL")
    case True
    then show ?thesis using effect_SHL_word [OF a(2) [unfolded clean_def] y] by (intro res [OF _ effect_SHL]) simp_all
  next
    case False
    then have op: "op = Token_SAR" using op by simp
    show ?thesis
    proof (cases "is_signed ?t")
      case True
      then have "signed_drop_bit (unat b) a = word_of_int (drop_bit (nat y) x)" using v y
        by (auto simp: sint_signed_drop_bit_eq [symmetric])
      then show ?thesis using True op by (intro res [OF _ effect_SAR]) simp_all
    next
      case False
      then have "drop_bit (unat b) a = word_of_int (drop_bit (nat y) x)" using v y by (auto intro!: bit_word_eqI simp: bit_simps)
      then show ?thesis using False op by (intro res [OF _ effect_SHR]) simp_all
    qed
  qed
qed

definition binary_typed :: "Token \<Rightarrow> Type \<Rightarrow> Type \<Rightarrow> Type \<Rightarrow> bool" where
  "binary_typed op t ct rt \<longleftrightarrow>
     (case ct of
        BoolType \<Rightarrow> isCompareOp op \<and> t = BoolType \<and> rt = ct
      | IntegerType bits s \<Rightarrow>
          isCompareOp op \<and> t = BoolType \<and> rt = ct \<or> op \<in> arithmetic_ops \<union> bit_ops \<and> t = ct \<and> rt = ct \<or>
          (op = Token_Exp \<or> op = Token_SHL \<or> op = Token_SAR) \<and> t = ct \<and> (case rt of IntegerType bits' s' \<Rightarrow> s' \<noteq> Signed | _ \<Rightarrow> False)
      | _ \<Rightarrow> False)"

lemma op_classes:
  "isCompareOp op \<Longrightarrow> \<not> isShiftOp op \<and> op \<noteq> Token_Exp" "op \<in> arithmetic_ops \<union> bit_ops \<Longrightarrow> \<not> isShiftOp op \<and> op \<noteq> Token_Exp \<and> \<not> isCompareOp op"
  "isShiftOp Token_SHL" "isShiftOp Token_SAR" "\<not> isShiftOp Token_Exp"
  by (auto simp: isCompareOp_def isShiftOp_def arithmetic_ops_def bit_ops_def Token_defs)

lemma does_binary_operator:
  assumes t: "value_type ct" "value_type rt" and op: "binary_typed op t ct rt"
    and wr: "m_arithmetic cx = Wrapping" and ev: "hasBitwiseShifting (m_evmVersion cx)"
    and a: "denotes ct a x" and b: "denotes rt b y" and cl: "cleanupNeededForOp (category ct) op Wrapping \<Longrightarrow> clean a x \<and> clean b y"
  shows "\<exists>w. does cx (binary_operator ext op ct rt) (vm_at (a # b # st) m) (vm_at (w # st) m) \<and> denotes t w (binary_value op ct x y)"
proof -
  consider "isCompareOp op" "t = BoolType" "rt = ct"
    | bits s where "op \<in> arithmetic_ops \<union> bit_ops" "ct = IntegerType bits s" "t = ct" "rt = ct"
    | bits s bits' s' where "op = Token_Exp" "ct = IntegerType bits s" "t = ct" "rt = IntegerType bits' s'" "s' \<noteq> Signed"
    | bits s bits' s' where "op = Token_SHL \<or> op = Token_SAR" "ct = IntegerType bits s" "t = ct" "rt = IntegerType bits' s'" "s' \<noteq> Signed"
    using op t(1) by (cases ct; cases rt) (auto simp: binary_typed_def value_type_def)
  then show ?thesis
  proof cases
    case 1
    have c: "clean a x" "clean b y" using cl 1 by (auto simp: cleanupNeededForOp_def)
    have "denotes ct b y" using b 1 by simp
    from does_compare [OF 1(1) t(1) a c(1) this c(2), of cx ext st m]
    show ?thesis using 1 op_classes(1) [OF 1(1)] by (simp add: binary_operator_def)
  next
    case 2
    from does_arithmetic_operator [OF _ wr 2(1), of bits s a x b y ext st m]
    show ?thesis using a b t 2 op_classes(2) [OF 2(1)] by (simp add: binary_operator_def)
  next
    case 3
    have c: "clean a x" "clean b y" using cl 3 by (auto simp: cleanupNeededForOp_def)
    from does_exponentiation [OF _ _ 3(5) wr _ c(1) _ c(2), of bits s bits' ext st m]
    show ?thesis using a b t 3 op_classes(5) by (simp add: binary_operator_def)
  next
    case 4
    have sh: "isShiftOp op" using 4 op_classes by auto
    then have c: "clean a x" "clean b y" using cl by (auto simp: cleanupNeededForOp_def)
    from does_shift [OF _ _ 4(5) ev 4(1) _ c(1) _ c(2), of bits s bits' ext st m]
    show ?thesis using a b t 4 sh by (simp add: binary_operator_def)
  qed
qed

lemma commutative_value: "isCommutativeOp op \<Longrightarrow> binary_value op t x y = binary_value op t y x"
  by (auto simp: isCommutativeOp_def binary_value_def Token_defs ac_simps)

text \<open>The unary operators.\<close>

definition unary_value :: "Token \<Rightarrow> Type \<Rightarrow> int \<Rightarrow> int" where
  "unary_value op t x =
     (if op = Token_Not then of_bool (x = 0)
      else if op = Token_BitNot then cut t (not x)
      else if op = Token_Sub then cut t (- x)
      else x)"

definition unary_typed :: "Token \<Rightarrow> Type \<Rightarrow> bool" where
  "unary_typed op t \<longleftrightarrow>
     (case t of BoolType \<Rightarrow> op = Token_Not | IntegerType bits s \<Rightarrow> op = Token_BitNot \<or> op = Token_Sub \<or> op = Token_Add | _ \<Rightarrow> False)"

definition unary_code :: "CodegenExternal \<Rightarrow> Token \<Rightarrow> ('g CompilerContext \<Rightarrow> 'g CompilerContext result) list" where
  "unary_code ext op =
     (if op = Token_Not then [append_op ext Instruction_ISZERO]
      else if op = Token_BitNot then [append_op ext Instruction_NOT]
      else if op = Token_Sub then [append_value ext 0, append_op ext Instruction_SUB] else [])"

lemma does_unary_operator:
  assumes t: "value_type t" and op: "unary_typed op t" and a: "denotes t a x"
  shows "\<exists>w. does cx (run_ops (unary_code ext op)) (vm_at (a # st) m) (vm_at (w # st) m) \<and> denotes t w (unary_value op t x)"
proof (cases t)
  case BoolType
  then have op: "op = Token_Not" using op by (simp add: unary_typed_def)
  have "does cx (run_ops (unary_code ext op)) (vm_at (a # st) m) (vm_at (of_bool (a = 0) # st) m)"
    unfolding unary_code_def op by (simp only: simp_thms if_True) (rule does_Cons [OF effect_ISZERO does_Nil])
  then show ?thesis using a BoolType op by (intro exI [of _ "of_bool (a = 0)"]) (simp add: unary_value_def)
next
  case (IntegerType bits s)
  have t': "value_type (IntegerType bits s)" using t IntegerType by simp
  have x: "uint a mod 2 ^ bits = x mod 2 ^ bits" using denotes_uint [OF t'] a IntegerType by simp
  consider "op = Token_BitNot" | "op = Token_Sub" | "op = Token_Add" using op IntegerType by (auto simp: unary_typed_def)
  then show ?thesis
  proof cases
    case 1
    have "not a = word_of_int (not (uint a))" by (simp add: bit_eq_iff bit_simps)
    moreover have "not (uint a) mod 2 ^ bits = not x mod 2 ^ bits" using x by (simp add: take_bit_eq_mod [symmetric]) (metis take_bit_not_take_bit)
    ultimately have "denotes t (not a) (cut t (not x))" unfolding IntegerType by (rule denotes_word_of_int [OF t'])
    moreover have "does cx (run_ops (unary_code ext op)) (vm_at (a # st) m) (vm_at (not a # st) m)"
      using does_Cons [OF effect_NOT does_Nil] 1 by (simp add: unary_code_def Token_defs)
    ultimately show ?thesis using 1 by (intro exI [of _ "not a"]) (simp add: unary_value_def Token_defs)
  next
    case 2
    have "- uint a mod 2 ^ bits = - x mod 2 ^ bits" using x by (metis mod_minus_eq)
    then have "denotes t (- a) (cut t (- x))" unfolding IntegerType by (intro denotes_word_of_int [OF t', of _ "- uint a"]) simp_all
    moreover have "does cx (run_ops (unary_code ext op)) (vm_at (a # st) m) (vm_at ((0 - a) # st) m)"
      using 2 unfolding unary_code_def
      by (simp only: Token_defs) (simp del: diff_0 add: does_Cons [OF effect_value does_Cons [OF effect_SUB does_Nil]])
    ultimately show ?thesis using 2 by (intro exI [of _ "- a"]) (simp add: unary_value_def Token_defs)
  next
    case 3
    then show ?thesis using a does_Nil [of cx "vm_at (a # st) m"] by (intro exI [of _ a]) (simp add: unary_code_def unary_value_def Token_defs)
  qed
qed (use t in \<open>auto simp: value_type_def\<close>)

end
