(* ===== verification/ExpressionCorrect.thy ===== *)
theory ExpressionCorrect
  imports OperatorEffects
begin

text \<open>
  The code of an expression computes the value of the expression, for literals, variables on the stack, operators, conditionals and conversions of
  integers and truth values, with arithmetic that wraps around.
\<close>

section \<open>The meaning of expressions\<close>

text \<open>The type to which the right operand of a binary operator is converted.\<close>

definition right_type :: "Token \<Rightarrow> Type \<Rightarrow> Expression \<Rightarrow> Type result" where
  "right_type op ct b = of_null (if isShiftOp op \<or> op = Token_Exp then mobileType (expression_type b) else Inr (Some ct))"

fun eval :: "(VariableDeclaration \<Rightarrow> int) \<Rightarrow> Expression \<Rightarrow> int" where
  "eval \<rho> (LiteralExpression l t v) = (case t of RationalNumberType q b \<Rightarrow> numerator q | _ \<Rightarrow> of_bool (lit_token v = Token_TrueLiteral))"
| "eval \<rho> (Identifier l t w d None) = \<rho> d"
| "eval \<rho> (Identifier l t w d (Some e)) = cut (var_type d) (eval \<rho> e)"
| "eval \<rho> (UnaryOperation l t op p e) = (case t of RationalNumberType q b \<Rightarrow> numerator q | _ \<Rightarrow> unary_value op t (eval \<rho> e))"
| "eval \<rho> (BinaryOperation l t None op a b) = 0"
| "eval \<rho> (BinaryOperation l t (Some ct) op a b) =
     (if op = Token_And then of_bool (eval \<rho> a \<noteq> 0 \<and> eval \<rho> b \<noteq> 0)
      else if op = Token_Or then of_bool (eval \<rho> a \<noteq> 0 \<or> eval \<rho> b \<noteq> 0)
      else case ct of
        RationalNumberType q r \<Rightarrow> numerator q
      | _ \<Rightarrow> (case right_type op ct b of Inl _ \<Rightarrow> 0 | Inr rt \<Rightarrow> binary_value op ct (cut ct (eval \<rho> a)) (cut rt (eval \<rho> b))))"
| "eval \<rho> (Conditional l t c a b) = cut t (if eval \<rho> c \<noteq> 0 then eval \<rho> a else eval \<rho> b)"
| "eval \<rho> (TupleExpression l t w [Some e]) = eval \<rho> e"
| "eval \<rho> (TypeConversion l t e) = cut t (eval \<rho> e)"
| "eval \<rho> e = 0"

text \<open>The annotations that the type checker leaves at these expressions. \<open>X\<close> is what the types take from outside the repository.\<close>

definition constant_ok :: "rat \<Rightarrow> bool" where
  "constant_ok q \<longleftrightarrow> \<not> isFractional q \<and> - (2 ^ 255) \<le> numerator q \<and> numerator q \<le> 2 ^ 256 - 1"

definition converts :: "TypesExternal \<Rightarrow> Expression \<Rightarrow> Type \<Rightarrow> bool" where
  "converts X e t \<longleftrightarrow> value_type t \<and> isExplicitlyConvertibleTo X (expression_type e) t = Inr True"

fun typed :: "TypesExternal \<Rightarrow> Expression \<Rightarrow> bool" where
  "typed X (LiteralExpression l t v) \<longleftrightarrow>
     (case t of
        RationalNumberType q b \<Rightarrow> constant_ok q
      | BoolType \<Rightarrow> lit_token v = Token_TrueLiteral \<or> lit_token v = Token_FalseLiteral
      | _ \<Rightarrow> False)"
| "typed X (Identifier l t w d None) \<longleftrightarrow> \<not> w \<and> \<not> var_immutable d \<and> value_type t \<and> t = var_type d"
| "typed X (Identifier l t w d (Some e)) \<longleftrightarrow> typed X e \<and> t = var_type d \<and> converts X e t"
| "typed X (UnaryOperation l t op p e) \<longleftrightarrow>
     (case t of RationalNumberType q b \<Rightarrow> constant_ok q | _ \<Rightarrow> typed X e \<and> value_type t \<and> t = expression_type e \<and> unary_typed op t)"
| "typed X (BinaryOperation l t None op a b) \<longleftrightarrow> False"
| "typed X (BinaryOperation l t (Some ct) op a b) \<longleftrightarrow>
     (if op = Token_And \<or> op = Token_Or then
        typed X a \<and> typed X b \<and> expression_type a = BoolType \<and> expression_type b = BoolType \<and> t = BoolType
      else case ct of
        RationalNumberType q r \<Rightarrow> constant_ok q \<and> t = ct
      | _ \<Rightarrow>
          typed X a \<and> typed X b \<and> converts X a ct \<and>
          (case right_type op ct b of Inl _ \<Rightarrow> False | Inr rt \<Rightarrow> converts X b rt \<and> binary_typed op t ct rt))"
| "typed X (Conditional l t c a b) \<longleftrightarrow>
     typed X c \<and> typed X a \<and> typed X b \<and> expression_type c = BoolType \<and> converts X a t \<and> converts X b t"
| "typed X (TupleExpression l t w [Some e]) \<longleftrightarrow> typed X e \<and> \<not> w \<and> t = expression_type e"
| "typed X (TypeConversion l t e) \<longleftrightarrow> typed X e \<and> converts X e t"
| "typed X e \<longleftrightarrow> False"

text \<open>The variables that an expression reads, the slots above the stack that are in use when it reads one (at most), and the labels of its code.\<close>

fun variables :: "Expression \<Rightarrow> VariableDeclaration list" where
  "variables (Identifier l t w d None) = [d]"
| "variables (Identifier l t w d (Some e)) = variables e"
| "variables (UnaryOperation l t op p e) = variables e"
| "variables (BinaryOperation l t ct op a b) = variables a @ variables b"
| "variables (Conditional l t c a b) = variables c @ variables a @ variables b"
| "variables (TupleExpression l t w [Some e]) = variables e"
| "variables (TypeConversion l t e) = variables e"
| "variables e = []"

fun slots :: "Expression \<Rightarrow> nat" where
  "slots (Identifier l t w d (Some e)) = slots e"
| "slots (UnaryOperation l t op p e) = slots e"
| "slots (BinaryOperation l t ct op a b) = max (slots a) (slots b) + (if op = Token_And \<or> op = Token_Or then 0 else 1)"
| "slots (Conditional l t c a b) = max (slots c) (max (slots a) (slots b))"
| "slots (TupleExpression l t w [Some e]) = slots e"
| "slots (TypeConversion l t e) = slots e"
| "slots e = 0"

fun label_count :: "Expression \<Rightarrow> nat" where
  "label_count (Identifier l t w d (Some e)) = label_count e"
| "label_count (UnaryOperation l t op p e) = (case t of RationalNumberType q b \<Rightarrow> 0 | _ \<Rightarrow> label_count e)"
| "label_count (BinaryOperation l t ct op a b) =
     (if op = Token_And \<or> op = Token_Or then label_count a + label_count b + 1
      else case ct of Some (RationalNumberType q r) \<Rightarrow> 0 | _ \<Rightarrow> label_count a + label_count b)"
| "label_count (Conditional l t c a b) = label_count c + label_count a + label_count b + 2"
| "label_count (TupleExpression l t w [Some e]) = label_count e"
| "label_count (TypeConversion l t e) = label_count e"
| "label_count e = 0"

section \<open>Operations of the expression compiler\<close>

text \<open>
  An operation that finds and leaves no current place, seen as one on the context. \<open>computes\<close> says that it appends code with \<open>n\<close> labels that takes the
  machine from one state to the other.
\<close>

definition plain :: "('g ecs \<Rightarrow> 'g ecs result) \<Rightarrow> 'g CompilerContext \<Rightarrow> 'g CompilerContext result" where
  "plain F c = bindE (F (None, c)) (\<lambda>(lv, c). if lv = None then Inr c else Inl InternalCompilerError)"

lemma plain_Inr: "plain F c = Inr c' \<longleftrightarrow> F (None, c) = Inr (None, c')"
  by (cases "F (None, c)") (auto simp: plain_def split: if_splits)

definition computes :: "'g CompilerContext \<Rightarrow> nat \<Rightarrow> ('g ecs \<Rightarrow> 'g ecs result) \<Rightarrow> VM \<Rightarrow> VM \<Rightarrow> bool" where
  "computes c n F vm vm' \<longleftrightarrow> labelled c n (plain F) vm vm'"

lemma labelled_mono:
  assumes "labelled c n g vm vm'" "\<And>a c'. g (c\<lparr>m_asm := a\<rparr>) = Inr c' \<Longrightarrow> f (c\<lparr>m_asm := a\<rparr>) = Inr c'"
  shows "labelled c n f vm vm'"
  using assms unfolding labelled_def by blast

lemma computes_context: "labelled c n f vm vm' \<Longrightarrow> computes c n (on_context f) vm vm'"
  unfolding computes_def by (erule labelled_mono) (simp add: plain_Inr on_context_def)

lemma computes_mono:
  assumes "labelled c n g vm vm'" "\<And>a c'. g (c\<lparr>m_asm := a\<rparr>) = Inr c' \<Longrightarrow> F (None, c\<lparr>m_asm := a\<rparr>) = Inr (None, c')"
  shows "computes c n F vm vm'"
  unfolding computes_def using assms(1) by (rule labelled_mono) (simp add: plain_Inr assms(2))

lemma computes_cong: "computes c n H vm vm' \<Longrightarrow> (\<And>a. F (None, c\<lparr>m_asm := a\<rparr>) = H (None, c\<lparr>m_asm := a\<rparr>)) \<Longrightarrow> computes c n F vm vm'"
  unfolding computes_def by (erule labelled_cong) (simp add: plain_def)

lemma bindE_Inr_iff: "bindE m f = Inr y \<longleftrightarrow> (\<exists>x. m = Inr x \<and> f x = Inr y)"
  by (cases m) auto

lemma computes_bind:
  assumes "computes c n F vm vm1" "computes c k H vm1 vm2"
  shows "computes c (n + k) (\<lambda>s. bindE (F s) H) vm vm2"
  by (rule computes_mono [OF labelled_bind [OF assms [unfolded computes_def]]]) (auto simp: bindE_Inr_iff plain_Inr)

lemma computes_skip: "computes c 0 Inr vm vm"
  by (rule computes_mono [OF labelled_skip]) simp

text \<open>Making a node the current one does not change the code.\<close>

lemma computes_location:
  fixes c :: "'g CompilerContext"
  assumes "computes (c\<lparr>m_visitedNodes := l # m_visitedNodes c\<rparr>) n F vm vm'"
  shows "computes c n (at_location l F) vm vm'"
  unfolding computes_def labelled_def
proof (intro allI impI)
  fix a
  assume a: "tracks a vm" "next_label a + n < 2 ^ 32"
  let ?c = "c\<lparr>m_visitedNodes := l # m_visitedNodes c\<rparr>" and ?a = "setSourceLocation l a"
  have s: "tracks (setSourceLocation l' a) vm = tracks a vm" "next_label (setSourceLocation l' a) = next_label a"
    "m_items (m_state (setSourceLocation l' a)) = m_items (m_state a)" for l' a vm
    by (simp_all add: setSourceLocation_def tracks_def next_label_def)
  have "tracks ?a vm" "next_label ?a + n < 2 ^ 32" using a by (simp_all add: s)
  then obtain a' code where r: "plain F (?c\<lparr>m_asm := ?a\<rparr>) = Inr (?c\<lparr>m_asm := a'\<rparr>)" "m_items (m_state a') = m_items (m_state ?a) @ code"
      "executes code vm vm'" "tracks a' vm'" "next_label a' = next_label ?a + n" "distinct (labels code)"
      "unat ` set (labels code) \<subseteq> {next_label ?a..<next_label ?a + n}"
    by (rule labelled_step [OF assms [unfolded computes_def]])
  let ?l = "case m_visitedNodes c of [] \<Rightarrow> SourceLocation_default | l # _ \<Rightarrow> l"
  have "pushVisitedNodes l (c\<lparr>m_asm := a\<rparr>) = ?c\<lparr>m_asm := ?a\<rparr>" by (simp add: pushVisitedNodes_def updateSourceLocation_def)
  moreover have "popVisitedNodes (?c\<lparr>m_asm := a'\<rparr>) = Inr (c\<lparr>m_asm := setSourceLocation ?l a'\<rparr>)"
    by (simp add: popVisitedNodes_def updateSourceLocation_def)
  ultimately have "plain (at_location l F) (c\<lparr>m_asm := a\<rparr>) = Inr (c\<lparr>m_asm := setSourceLocation ?l a'\<rparr>)"
    using r(1) by (simp add: plain_Inr at_location_def)
  then show "\<exists>a' code. plain (at_location l F) (c\<lparr>m_asm := a\<rparr>) = Inr (c\<lparr>m_asm := a'\<rparr>) \<and> m_items (m_state a') = m_items (m_state a) @ code \<and>
      executes code vm vm' \<and> tracks a' vm' \<and> next_label a' = next_label a + n \<and> distinct (labels code) \<and>
      unat ` set (labels code) \<subseteq> {next_label a..<next_label a + n}"
    using r(2-) by (intro exI [of _ "setSourceLocation ?l a'"] exI [of _ code]) (simp add: s)
qed

text \<open>The shapes of branches.\<close>

lemma computes_short_circuit:
  assumes F: "computes c n F (vm_at st m) (vm_at (x # st) m)" and H: "computes c k H (vm_at st m) (vm_at (y # st) m)"
    and op: "op = Token_And \<or> op = Token_Or"
  shows "computes c (n + k + 1) (\<lambda>s. bindE (F s) (\<lambda>(lv, c). bindE (short_circuit ext op c) (\<lambda>(e, c). bindE (H (lv, c)) (on_context (append_item ext e)))))
    (vm_at st m) (vm_at ((if (x = 0) = (op = Token_And) then x else y) # st) m)"
proof -
  define test where "test = append_op ext Instruction_DUP1 # (if op = Token_And then [append_op ext Instruction_ISZERO :: 'a CompilerContext \<Rightarrow> _] else [])"
  define b :: u256 where "b = (if op = Token_And then of_bool (x = 0) else x)"
  let ?r = "if (x = 0) = (op = Token_And) then x else y"
  have 1: "does c (run_ops test) (vm_at (x # st) m) (vm_at (b # x # st) m)"
    unfolding test_def b_def
    by (cases "op = Token_And") (auto simp del: of_bool_eq_0_iff intro!: does_Cons [OF effect_DUP1] does_Cons [OF effect_ISZERO, THEN does_eq] does_Nil)
  have "labelled c (0 + k) (\<lambda>c. bindE (append_op ext Instruction_POP c) (plain H)) (vm_at (x # st) m) (vm_at (y # st) m)"
    by (rule labelled_bind [OF effect_POP H [unfolded computes_def]])
  then have 2: "labelled c (0 + k + 1) (\<lambda>c. bindE (appendConditionalJump ext '''' c)
      (\<lambda>(e, c). bindE (bindE (append_op ext Instruction_POP c) (plain H)) (append_item ext e))) (vm_at (b # x # st) m) (vm_at (?r # st) m)"
    by (rule labelled_skip_branch) (use op in \<open>auto simp: b_def Token_defs split: if_splits\<close>)
  note L = labelled_bind [OF F [unfolded computes_def] labelled_bind [OF 1 2]]
  show ?thesis
    by (rule computes_mono [OF L [unfolded add_0_left add.assoc [symmetric]]])
      (auto simp: bindE_Inr_iff plain_Inr short_circuit_def test_def on_context_def)
qed

lemma computes_branches:
  assumes no: "computes c n (\<lambda>s. bindE (N s) N') (vm_at st m) (vm_at (x # st) m)"
    and yes: "computes c k (\<lambda>s. bindE (Y s) Y') (vm_at st m) (vm_at (y # st) m)" and cond: "computes c j F (vm_at st m) (vm_at (b # st) m)"
  shows "computes c (j + (n + k + 2)) (\<lambda>s. bindE (F s) (\<lambda>(lv, c).
       bindE (appendConditionalJump ext '''' c) (\<lambda>(trueTag, c).
       bindE (N (lv, c)) (\<lambda>s.
       bindE (N' s) (\<lambda>(lv, c).
       bindE (appendJumpToNew ext c) (\<lambda>(endTag, c).
       bindE (run_ops [append_item ext trueTag, adjustStackOffset (- 1)] c) (\<lambda>c.
       bindE (Y (lv, c)) (\<lambda>s.
       bindE (Y' s) (on_context (append_item ext endTag))))))))))
    (vm_at st m) (vm_at ((if b = 0 then x else y) # st) m)"
  by (rule computes_mono [OF labelled_bind [OF cond [unfolded computes_def] labelled_branches [OF no [unfolded computes_def] yes [unfolded computes_def], where ext = ext]]])
    (fastforce simp: bindE_Inr_iff plain_Inr branches_def on_context_def)

section \<open>Variables\<close>

text \<open>
  What the place of a variable on the stack does, which is outside the repository: nothing when it is created, and when its value is retrieved it duplicates
  the slot, which has to be among the topmost sixteen.
\<close>

definition stack_variables :: "'g LValueCode \<Rightarrow> bool" where
  "stack_variables lvs \<longleftrightarrow>
     (\<forall>(c :: 'g CompilerContext) d l base st m. baseStackOffsetOfVariable d c = Inr base \<longrightarrow> base < length st \<longrightarrow> length st - base \<le> 16 \<longrightarrow>
        does c (\<lambda>c. bindE (lv_create lvs (StackVariable d) c) (lv_retrieveValue lvs (StackVariable d) l True)) (vm_at st m) (vm_at (rev st ! base # st) m))"

text \<open>A variable has a slot on the stack that holds its value and can be reached with \<open>k\<close> more slots on top of it.\<close>

definition holds_variable :: "(VariableDeclaration \<Rightarrow> int) \<Rightarrow> 'g CompilerContext \<Rightarrow> u256 list \<Rightarrow> nat \<Rightarrow> VariableDeclaration \<Rightarrow> bool" where
  "holds_variable \<rho> c st k d \<longleftrightarrow>
     (case baseStackOffsetOfVariable d c of
        Inl _ \<Rightarrow> False
      | Inr base \<Rightarrow> base < length st \<and> length st - base + k \<le> 16 \<and> denotes (var_type d) (rev st ! base) (\<rho> d))"

lemma holds_variable_push: "holds_variable \<rho> c st (Suc k) d \<Longrightarrow> holds_variable \<rho> c (w # st) k d"
  by (auto simp: holds_variable_def nth_append split: sum.splits)

lemma holds_variable_less: "holds_variable \<rho> c st k d \<Longrightarrow> k' \<le> k \<Longrightarrow> holds_variable \<rho> c st k' d"
  by (auto simp: holds_variable_def split: sum.splits)

lemma holds_variable_visited [simp]: "holds_variable \<rho> (c\<lparr>m_visitedNodes := ns\<rparr>) st k d = holds_variable \<rho> c st k d"
  by (simp add: holds_variable_def baseStackOffsetOfVariable_def)

lemma computes_variable:
  assumes lvs: "stack_variables lvs" and d: "holds_variable \<rho> c st 0 d"
  shows "\<exists>w. computes c 0 (setLValueFromDeclaration lvs l False d) (vm_at st m) (vm_at (w # st) m) \<and> denotes (var_type d) w (\<rho> d)"
proof -
  obtain base where b: "baseStackOffsetOfVariable d c = Inr base" "base < length st" "length st - base \<le> 16" "denotes (var_type d) (rev st ! base) (\<rho> d)"
    using d by (auto simp: holds_variable_def split: sum.splits)
  have local: "isLocalVariable d (c\<lparr>m_asm := a\<rparr>)" for a
    using b(1) by (auto simp: baseStackOffsetOfVariable_def isLocalVariable_def split: option.splits)
  have "does c (\<lambda>c. bindE (lv_create lvs (StackVariable d) c) (lv_retrieveValue lvs (StackVariable d) l True)) (vm_at st m) (vm_at (rev st ! base # st) m)"
    using lvs b by (simp add: stack_variables_def)
  then have "computes c 0 (setLValueFromDeclaration lvs l False d) (vm_at st m) (vm_at (rev st ! base # st) m)"
    by (rule computes_mono) (auto simp: setLValueFromDeclaration_def setLValue_def local assertThrow_def bindE_Inr_iff)
  then show ?thesis using b(4) by blast
qed

text \<open>Conversions of the value of an expression.\<close>

lemma computes_convert:
  assumes conv: "converts X e t" "value_type (expression_type e) \<or> (\<exists>q b. expression_type e = RationalNumberType q b)"
    and w: "denotes (expression_type e) w n"
  shows "\<exists>w'. computes c 0 (convert ec (expression_type e) t cleanup) (vm_at (w # st) m) (vm_at (w' # st) m) \<and>
    denotes t w' (cut t n) \<and> (cleanup \<longrightarrow> clean w' (cut t n))"
proof -
  obtain w' where "does c (convertType (ec_ext ec) (ec_arrays ec) (expression_type e) t cleanup False False) (vm_at (w # st) m) (vm_at (w' # st) m)"
      "denotes t w' (cut t n)" "cleanup \<longrightarrow> clean w' (cut t n)"
    using does_conversion [of X "expression_type e" t w n c "ec_ext ec" "ec_arrays ec" cleanup st m] assms by (auto simp: converts_def)
  then show ?thesis unfolding convert_def by (blast intro: computes_context)
qed

section \<open>The code of expressions\<close>

lemma typed_type: "typed X e \<Longrightarrow> value_type (expression_type e) \<or> (\<exists>q b. expression_type e = RationalNumberType q b)"
proof (induction X e rule: typed.induct)
  case (6 X l t ct op a b)
  then show ?case by (auto simp: converts_def binary_typed_def value_type_def split: if_splits Type.splits sum.splits)
qed (auto simp: converts_def value_type_def split: Type.splits)

text \<open>An expression with at most one slot on top of the stack, and its converted value.\<close>

definition pushes :: "'g CompilerContext \<Rightarrow> nat \<Rightarrow> ('g ecs \<Rightarrow> 'g ecs result) \<Rightarrow> Type \<Rightarrow> int \<Rightarrow> u256 list \<Rightarrow> (nat \<Rightarrow> byte) \<Rightarrow> bool" where
  "pushes c n F t x st m \<longleftrightarrow> (\<exists>w. computes c n F (vm_at st m) (vm_at (w # st) m) \<and> denotes t w x)"

lemma pushes_converted:
  assumes "pushes c n F (expression_type e) x st m" "typed X e" "converts X e t"
  shows "\<exists>w. computes c n (\<lambda>s. bindE (F s) (convert ec (expression_type e) t cleanup)) (vm_at st m) (vm_at (w # st) m) \<and>
    denotes t w (cut t x) \<and> (cleanup \<longrightarrow> clean w (cut t x))"
proof -
  obtain w where w: "computes c n F (vm_at st m) (vm_at (w # st) m)" "denotes (expression_type e) w x" using assms(1) by (auto simp: pushes_def)
  obtain w' where w': "computes c 0 (convert ec (expression_type e) t cleanup) (vm_at (w # st) m) (vm_at (w' # st) m)"
      "denotes t w' (cut t x)" "cleanup \<longrightarrow> clean w' (cut t x)"
    using computes_convert [OF assms(3) typed_type [OF assms(2)] w(2)] by blast
  then show ?thesis using computes_bind [OF w(1) w'(1)] by auto
qed

lemma pushes_convert: "pushes c n F (expression_type e) x st m \<Longrightarrow> typed X e \<Longrightarrow> converts X e t \<Longrightarrow>
    pushes c n (\<lambda>s. bindE (F s) (convert ec (expression_type e) t cleanup)) t (cut t x) st m"
  unfolding pushes_def [of _ _ _ t] by (frule pushes_converted [where cleanup = cleanup and ec = ec]) auto

text \<open>The two orders in which operands are evaluated. Operators whose operands are swapped are commutative.\<close>

definition operands :: "'g ExpressionCompiler \<Rightarrow> bool \<Rightarrow> Expression \<Rightarrow> Expression \<Rightarrow> Type \<Rightarrow> Type \<Rightarrow> bool \<Rightarrow> 'g ecs \<Rightarrow> 'g ecs result" where
  "operands ec swapped a b ct rt cleanup =
     (if swapped then
        (\<lambda>s. bindE (bindE (accept ec a s) (convert ec (expression_type a) ct cleanup))
          (\<lambda>s. bindE (accept ec b s) (convert ec (expression_type b) rt cleanup)))
      else
        (\<lambda>s. bindE (bindE (accept ec b s) (convert ec (expression_type b) rt cleanup))
          (\<lambda>s. bindE (accept ec a s) (convert ec (expression_type a) ct cleanup))))"

lemma computes_operands:
  assumes A: "\<And>ws. length ws \<le> 1 \<Longrightarrow> pushes c n (accept ec a) (expression_type a) x (ws @ st) m" "typed X a" "converts X a ct"
    and B: "\<And>ws. length ws \<le> 1 \<Longrightarrow> pushes c k (accept ec b) (expression_type b) y (ws @ st) m" "typed X b" "converts X b rt"
  shows "\<exists>u v. computes c (n + k) (operands ec swapped a b ct rt cleanup) (vm_at st m) (vm_at ((if swapped then [v, u] else [u, v]) @ st) m) \<and>
    denotes ct u (cut ct x) \<and> denotes rt v (cut rt y) \<and> (cleanup \<longrightarrow> clean u (cut ct x) \<and> clean v (cut rt y))"
proof (cases swapped)
  case True
  obtain u where u: "computes c n (\<lambda>s. bindE (accept ec a s) (convert ec (expression_type a) ct cleanup)) (vm_at st m) (vm_at (u # st) m)"
      "denotes ct u (cut ct x)" "cleanup \<longrightarrow> clean u (cut ct x)"
    using pushes_converted [OF A(1) [of "[]", simplified] A(2,3)] by blast
  obtain v where v: "computes c k (\<lambda>s. bindE (accept ec b s) (convert ec (expression_type b) rt cleanup)) (vm_at (u # st) m) (vm_at (v # u # st) m)"
      "denotes rt v (cut rt y)" "cleanup \<longrightarrow> clean v (cut rt y)"
    using pushes_converted [OF B(1) [of "[u]", simplified] B(2,3)] by blast
  show ?thesis using computes_bind [OF u(1) v(1)] True u v by (intro exI [of _ u] exI [of _ v]) (simp add: operands_def)
next
  case False
  obtain v where v: "computes c k (\<lambda>s. bindE (accept ec b s) (convert ec (expression_type b) rt cleanup)) (vm_at st m) (vm_at (v # st) m)"
      "denotes rt v (cut rt y)" "cleanup \<longrightarrow> clean v (cut rt y)"
    using pushes_converted [OF B(1) [of "[]", simplified] B(2,3)] by blast
  obtain u where u: "computes c n (\<lambda>s. bindE (accept ec a s) (convert ec (expression_type a) ct cleanup)) (vm_at (v # st) m) (vm_at (u # v # st) m)"
      "denotes ct u (cut ct x)" "cleanup \<longrightarrow> clean u (cut ct x)"
    using pushes_converted [OF A(1) [of "[v]", simplified] A(2,3)] by blast
  show ?thesis using computes_bind [OF v(1) u(1)] False u v by (intro exI [of _ u] exI [of _ v]) (simp add: operands_def add.commute)
qed

lemma swapped_types: "isCommutativeOp op \<Longrightarrow> right_type op ct b = Inr rt \<Longrightarrow> rt = ct"
  by (auto simp: right_type_def of_null_def isCommutativeOp_def isShiftOp_def Token_defs)

lemma pushes_binary:
  assumes A: "\<And>ws. length ws \<le> 1 \<Longrightarrow> pushes c n (accept ec a) (expression_type a) x (ws @ st) m" "typed X a" "converts X a ct"
    and B: "\<And>ws. length ws \<le> 1 \<Longrightarrow> pushes c k (accept ec b) (expression_type b) y (ws @ st) m" "typed X b" "converts X b rt"
    and wr: "m_arithmetic c = Wrapping" and ev: "hasBitwiseShifting (m_evmVersion c)" and op: "binary_typed op t ct rt"
    and rt: "right_type op ct b = Inr rt"
  shows "pushes c (n + k) (\<lambda>s. bindE (operands ec (literal_last ec op a b) a b ct rt (cleanupNeededForOp (category ct) op Wrapping) s)
      (on_context (binary_operator (ec_ext ec) op ct rt))) t (binary_value op ct (cut ct x) (cut rt y)) st m"
proof -
  let ?sw = "literal_last ec op a b" and ?cl = "cleanupNeededForOp (category ct) op Wrapping"
  obtain u v where uv: "computes c (n + k) (operands ec ?sw a b ct rt ?cl) (vm_at st m) (vm_at ((if ?sw then [v, u] else [u, v]) @ st) m)"
      "denotes ct u (cut ct x)" "denotes rt v (cut rt y)" "?cl \<longrightarrow> clean u (cut ct x) \<and> clean v (cut rt y)"
    using computes_operands [OF A B, of ?sw ?cl] by blast
  have ty: "value_type ct" "value_type rt" using A(3) B(3) by (simp_all add: converts_def)
  have "\<exists>w. does c (binary_operator (ec_ext ec) op ct rt) (vm_at ((if ?sw then [v, u] else [u, v]) @ st) m) (vm_at (w # st) m) \<and>
      denotes t w (binary_value op ct (cut ct x) (cut rt y))"
  proof (cases ?sw)
    case True
    then have com: "isCommutativeOp op" by (simp add: literal_last_def)
    then have "rt = ct" by (rule swapped_types [OF _ rt])
    then show ?thesis
      using does_binary_operator [OF ty(1,1) _ wr ev, of op t v "cut ct y" u "cut ct x" "ec_ext ec" st m] True op uv commutative_value [OF com]
      by simp
  next
    case False
    then show ?thesis using does_binary_operator [OF ty op wr ev uv(2,3), of "ec_ext ec" st m] uv(4) by simp
  qed
  then obtain w where w: "does c (binary_operator (ec_ext ec) op ct rt) (vm_at ((if ?sw then [v, u] else [u, v]) @ st) m) (vm_at (w # st) m)"
      "denotes t w (binary_value op ct (cut ct x) (cut rt y))" by blast
  show ?thesis using computes_bind [OF uv(1) computes_context [OF w(1)]] w(2) by (auto simp: pushes_def)
qed

text \<open>The operators that skip their right operand, and conditionals.\<close>

lemma pushes_short_circuit:
  assumes A: "pushes c n (accept ec a) BoolType x st m" and B: "pushes c k (accept ec b) BoolType y st m" and op: "op = Token_And \<or> op = Token_Or"
  shows "pushes c (n + k + 1) (\<lambda>s. bindE (accept ec a s) (\<lambda>(lv, c). bindE (short_circuit ext op c)
      (\<lambda>(e, c). bindE (accept ec b (lv, c)) (on_context (append_item ext e)))))
    BoolType (of_bool (if op = Token_And then x \<noteq> 0 \<and> y \<noteq> 0 else x \<noteq> 0 \<or> y \<noteq> 0)) st m"
proof -
  obtain u v where u: "computes c n (accept ec a) (vm_at st m) (vm_at (u # st) m)" "denotes BoolType u x"
    and v: "computes c k (accept ec b) (vm_at st m) (vm_at (v # st) m)" "denotes BoolType v y"
    using A B unfolding pushes_def by blast
  have "denotes BoolType (if (u = 0) = (op = Token_And) then u else v) (of_bool (if op = Token_And then x \<noteq> 0 \<and> y \<noteq> 0 else x \<noteq> 0 \<or> y \<noteq> 0))"
    using u(2) v(2) by auto
  then show ?thesis using computes_short_circuit [OF u(1) v(1) op, of ext] unfolding pushes_def by blast
qed

lemma pushes_conditional:
  assumes C: "pushes c j (accept ec e) BoolType z st m" and T: "sizeOnStack t = 1"
    and A: "pushes c n (accept ec a) (expression_type a) x st m" "typed X a" "converts X a t"
    and B: "pushes c k (accept ec b) (expression_type b) y st m" "typed X b" "converts X b t"
  shows "pushes c (j + n + k + 2) (\<lambda>s. bindE (accept ec e s) (\<lambda>(lv, c).
       bindE (appendConditionalJump ext '''' c) (\<lambda>(trueTag, c).
       bindE (accept ec b (lv, c)) (\<lambda>s.
       bindE (convert ec (expression_type b) t False s) (\<lambda>(lv, c).
       bindE (appendJumpToNew ext c) (\<lambda>(endTag, c).
       bindE (run_ops [append_item ext trueTag, adjustStackOffset (- int (sizeOnStack t))] c) (\<lambda>c.
       bindE (accept ec a (lv, c)) (\<lambda>s.
       bindE (convert ec (expression_type a) t False s) (on_context (append_item ext endTag))))))))))
    t (cut t (if z \<noteq> 0 then x else y)) st m"
proof -
  obtain g where w: "computes c j (accept ec e) (vm_at st m) (vm_at (g # st) m)" "denotes BoolType g z" using C unfolding pushes_def by blast
  obtain u where u: "computes c n (\<lambda>s. bindE (accept ec a s) (convert ec (expression_type a) t False)) (vm_at st m) (vm_at (u # st) m)"
      "denotes t u (cut t x)" using pushes_convert [OF A, of ec False] unfolding pushes_def by blast
  obtain v where v: "computes c k (\<lambda>s. bindE (accept ec b s) (convert ec (expression_type b) t False)) (vm_at st m) (vm_at (v # st) m)"
      "denotes t v (cut t y)" using pushes_convert [OF B, of ec False] unfolding pushes_def by blast
  have "denotes t (if g = 0 then v else u) (cut t (if z \<noteq> 0 then x else y))" using w(2) u(2) v(2) by simp
  moreover have "j + (k + n + 2) = j + n + k + 2" by simp
  ultimately show ?thesis using computes_branches [OF v(1) u(1) w(1), where ext = ext] unfolding pushes_def T of_nat_1 by metis
qed

lemma pushes_constant:
  assumes q: "constant_ok q"
  shows "pushes c 0 (\<lambda>s. bindE (RationalNumberType_literalValue q) (\<lambda>w. on_context (append_value ext w) s)) (RationalNumberType q b) (numerator q) st m"
proof -
  obtain n where n: "q = of_int n" using q by (auto simp: constant_ok_def not_isFractional)
  then have "RationalNumberType_literalValue q = Inr (word_of_int n)" using q literalValue_integer [of n] by (simp add: constant_ok_def)
  then show ?thesis using computes_context [OF effect_value, of c ext "word_of_int n" st m] n
    unfolding pushes_def by (intro exI [of _ "word_of_int n"]) simp
qed

lemma pushes_cong: "pushes c n H t x st m \<Longrightarrow> (\<And>a. F (None, c\<lparr>m_asm := a\<rparr>) = H (None, c\<lparr>m_asm := a\<rparr>)) \<Longrightarrow> pushes c n F t x st m"
  unfolding pushes_def using computes_cong [of c n H _ _ F] by blast

lemma pushes_location: "pushes (c\<lparr>m_visitedNodes := l # m_visitedNodes c\<rparr>) n F t x st m \<Longrightarrow> pushes c n (at_location l F) t x st m"
  unfolding pushes_def by (blast intro: computes_location)

lemma pushes_debug: "pushes c n F t x st m \<Longrightarrow> pushes c n (\<lambda>s. bindE (on_context (append_debug d) s) F) t x st m"
  unfolding pushes_def using computes_bind [OF computes_context [OF effect_debug, of c d]] by fastforce

lemma pushes_unary:
  assumes A: "pushes c n (accept ec e) t x st m" and t: "value_type t" "unary_typed op t" and wr: "m_arithmetic c = Wrapping"
  shows "pushes c n (\<lambda>s. bindE (accept ec e s) (unary_operator ec l t op p)) t (unary_value op t x) st m"
proof -
  obtain w where w: "computes c n (accept ec e) (vm_at st m) (vm_at (w # st) m)" "denotes t w x" using A unfolding pushes_def by blast
  obtain u where u: "does c (run_ops (unary_code (ec_ext ec) op)) (vm_at (w # st) m) (vm_at (u # st) m)" "denotes t u (unary_value op t x)"
    using does_unary_operator [OF t w(2)] by blast
  have fp: "category t \<noteq> Category_FixedPoint" "op = Token_Not \<or> op = Token_BitNot \<or> op = Token_Sub \<or> op = Token_Add"
    using t by (auto simp: value_type_def unary_typed_def split: Type.splits)
  have "computes c 0 (unary_operator ec l t op p) (vm_at (w # st) m) (vm_at (u # st) m)"
    by (rule computes_cong [OF computes_context [OF u(1)]])
      (use fp wr in \<open>auto simp: unary_operator_def on_context_def unary_code_def assertThrow_def run_ops_Cons Token_defs Let_def\<close>)
  then show ?thesis using computes_bind [OF w(1)] u(2) unfolding pushes_def by fastforce
qed

lemma pushes_skip_label: "pushes c n F t x st m \<Longrightarrow> n = n' \<Longrightarrow> x = x' \<Longrightarrow> pushes c n' F t x' st m"
  by simp

text \<open>The cases of the syntax that are typed in more than one way.\<close>

lemma typed_tuple:
  assumes "typed X (TupleExpression l t w es)"
  obtains e where "es = [Some e]" "typed X e" "\<not> w" "t = expression_type e"
proof (cases es)
  case (Cons a bs)
  then show thesis using assms that by (cases a; cases bs) auto
qed (use assms in auto)

lemma typed_unary:
  assumes "typed X (UnaryOperation l t op p e)"
  obtains q b where "t = RationalNumberType q b" "constant_ok q"
  | "value_type t" "typed X e" "t = expression_type e" "unary_typed op t"
  using assms by (cases t) auto

lemma typed_binary:
  assumes "typed X (BinaryOperation l t ct op a b)"
  obtains "op = Token_And \<or> op = Token_Or" "typed X a" "typed X b" "expression_type a = BoolType" "expression_type b = BoolType" "t = BoolType" "ct \<noteq> None"
  | q r where "\<not> (op = Token_And \<or> op = Token_Or)" "ct = Some (RationalNumberType q r)" "constant_ok q" "t = RationalNumberType q r"
  | ct' rt where "\<not> (op = Token_And \<or> op = Token_Or)" "ct = Some ct'" "value_type ct'" "typed X a" "typed X b" "converts X a ct'"
      "right_type op ct' b = Inr rt" "converts X b rt" "binary_typed op t ct' rt"
proof (cases ct)
  case (Some ct')
  show thesis
  proof (cases "op = Token_And \<or> op = Token_Or")
    case False
    then show thesis using assms Some that(2,3) by (cases ct') (auto simp: converts_def split: sum.splits)
  qed (use assms Some that(1) in auto)
qed (use assms in auto)

lemma expression_code:
  fixes c :: "'g CompilerContext"
  assumes lvs: "stack_variables (ec_lvalues ec)" and typed: "typed X e" and "m_arithmetic c = Wrapping" "hasBitwiseShifting (m_evmVersion c)"
    and "\<forall>d. d \<in> set (variables e) \<longrightarrow> holds_variable \<rho> c st (slots e) d"
  shows "pushes c (label_count e) (accept ec e) (expression_type e) (eval \<rho> e) st m"
  using typed assms(3-)
proof (induction e arbitrary: c st)
  case (LiteralExpression l t v)
  let ?c = "c\<lparr>m_visitedNodes := l # m_visitedNodes c\<rparr>"
  show ?case
  proof (cases t)
    case (RationalNumberType q b)
    then show ?thesis using pushes_constant [of q ?c "ec_ext ec" b st m] LiteralExpression
      by (auto simp: visit_Literal_def literalValue_def on_context_def bindE_assoc elim!: pushes_cong intro!: pushes_location)
  next
    case BoolType
    let ?w = "of_bool (lit_token v = Token_TrueLiteral)"
    have "pushes ?c 0 (on_context (append_value (ec_ext ec) ?w)) BoolType ?w st m"
      unfolding pushes_def using computes_context [OF effect_value] by fastforce
    then show ?thesis using LiteralExpression BoolType
      by (auto simp: visit_Literal_def literalValue_def BoolType_literalValue_def on_context_def Token_defs elim!: pushes_cong intro!: pushes_location)
  qed (use LiteralExpression in auto)
next
  case (Identifier l t w d v)
  let ?c = "c\<lparr>m_visitedNodes := l # m_visitedNodes c\<rparr>"
  show ?case
  proof (cases v)
    case None
    then have "holds_variable \<rho> ?c st 0 d" using Identifier by simp
    then have "pushes ?c 0 (setLValueFromDeclaration (ec_lvalues ec) l False d) t (\<rho> d) st m"
      using computes_variable [OF lvs] Identifier None by (auto simp: pushes_def)
    then show ?thesis using Identifier None by (auto intro!: pushes_location pushes_debug)
  next
    case (Some e)
    have "pushes ?c (label_count e) (accept ec e) (expression_type e) (eval \<rho> e) st m"
      by (rule Identifier.IH) (use Identifier.prems Some in auto)
    from pushes_convert [OF this, of X t ec False] show ?thesis using Identifier.prems Some by (auto intro!: pushes_location pushes_debug)
  qed
next
  case (UnaryOperation l t op p e)
  let ?c = "c\<lparr>m_visitedNodes := l # m_visitedNodes c\<rparr>"
  from UnaryOperation.prems(1) show ?case
  proof (cases rule: typed_unary)
    case (1 q b)
    then show ?thesis using pushes_constant by (auto intro!: pushes_location)
  next
    case 2
    have "pushes ?c (label_count e) (accept ec e) t (eval \<rho> e) st m"
      unfolding 2(3) by (rule UnaryOperation.IH) (use UnaryOperation.prems 2 in auto)
    from pushes_unary [OF this 2(1,4)] have "pushes ?c (label_count e) (\<lambda>s. bindE (accept ec e s) (unary_operator ec l t op p)) t
        (unary_value op t (eval \<rho> e)) st m" using UnaryOperation.prems by simp
    then show ?thesis using 2(1) by (cases t) (auto simp: value_type_def intro!: pushes_location)
  qed
next
  case (BinaryOperation l t ct op a b)
  let ?c = "c\<lparr>m_visitedNodes := l # m_visitedNodes c\<rparr>"
  from BinaryOperation.prems(1) show ?case
  proof (cases rule: typed_binary)
    case 1
    have h: "holds_variable \<rho> c st (slots f) d" if "d \<in> set (variables f)" "f \<in> {a, b}" for f d
    proof -
      have "holds_variable \<rho> c st (max (slots a) (slots b)) d" using BinaryOperation.prems(4) that 1(1) by auto
      then show ?thesis by (rule holds_variable_less) (use that in auto)
    qed
    have A: "pushes ?c (label_count a) (accept ec a) BoolType (eval \<rho> a) st m"
      unfolding 1(4) [symmetric] by (rule BinaryOperation.IH) (use BinaryOperation.prems 1 h in auto)
    have B: "pushes ?c (label_count b) (accept ec b) BoolType (eval \<rho> b) st m"
      unfolding 1(5) [symmetric] by (rule BinaryOperation.IH) (use BinaryOperation.prems 1 h in auto)
    from pushes_short_circuit [OF A B 1(1), of "ec_ext ec"] show ?thesis using 1 by (auto simp: of_null_def Token_defs intro!: pushes_location)
  next
    case (2 q r)
    then show ?thesis using pushes_constant [OF 2(3)] by (auto simp: of_null_def intro!: pushes_location)
  next
    case (3 ct' rt)
    have h: "holds_variable \<rho> c (ws @ st) (slots f) d" if "d \<in> set (variables f)" "f \<in> {a, b}" "length ws \<le> 1" for f d ws
    proof -
      have "holds_variable \<rho> c st (max (slots a) (slots b) + 1) d" using BinaryOperation.prems(4) that 3(1) by auto
      then have "holds_variable \<rho> c st (Suc (slots f)) d" by (rule holds_variable_less) (use that in auto)
      then show ?thesis using that(3) holds_variable_push [of \<rho> c st "slots f" d] holds_variable_less [of \<rho> c st "Suc (slots f)" d "slots f"]
        by (cases ws) auto
    qed
    have A: "pushes ?c (label_count a) (accept ec a) (expression_type a) (eval \<rho> a) (ws @ st) m" if "length ws \<le> 1" for ws
      by (rule BinaryOperation.IH) (use BinaryOperation.prems 3 h that in auto)
    have B: "pushes ?c (label_count b) (accept ec b) (expression_type b) (eval \<rho> b) (ws @ st) m" if "length ws \<le> 1" for ws
      by (rule BinaryOperation.IH) (use BinaryOperation.prems 3 h that in auto)
    have "\<not> (\<exists>q r. ct' = RationalNumberType q r)" using 3(3) by (auto simp: value_type_def)
    then have r: "(case ct' of RationalNumberType q r \<Rightarrow> f q r | _ \<Rightarrow> y) = y" for f and y :: 'z by (cases ct') auto
    show ?thesis
      using pushes_binary [OF A 3(4,6) B 3(5,8) _ _ 3(9,7)] BinaryOperation.prems 3(1,2,7)
      by (auto simp: r right_type_def operands_def of_null_def bindE_assoc Let_def elim!: pushes_cong intro!: pushes_location split: if_splits)
  qed
next
  case (Conditional l t e a b)
  let ?c = "c\<lparr>m_visitedNodes := l # m_visitedNodes c\<rparr>"
  have h: "holds_variable \<rho> c st (slots f) d" if "d \<in> set (variables f)" "f \<in> {e, a, b}" for f d
  proof -
    have "holds_variable \<rho> c st (max (slots e) (max (slots a) (slots b))) d" using Conditional.prems(4) that by auto
    then show ?thesis by (rule holds_variable_less) (use that in auto)
  qed
  have t: "typed X e" "typed X a" "typed X b" "expression_type e = BoolType" "converts X a t" "converts X b t" using Conditional.prems(1) by simp_all
  have C: "pushes ?c (label_count e) (accept ec e) BoolType (eval \<rho> e) st m"
    unfolding t(4) [symmetric] by (rule Conditional.IH) (use Conditional.prems t h in auto)
  have A: "pushes ?c (label_count a) (accept ec a) (expression_type a) (eval \<rho> a) st m" by (rule Conditional.IH) (use Conditional.prems t h in auto)
  have B: "pushes ?c (label_count b) (accept ec b) (expression_type b) (eval \<rho> b) st m" by (rule Conditional.IH) (use Conditional.prems t h in auto)
  have "sizeOnStack t = 1" using t(5) by (auto simp: converts_def value_type_def split: Type.splits)
  from pushes_conditional [OF C this A t(2,5) B t(3,6), of "ec_ext ec"] show ?case by (auto intro!: pushes_location)
next
  case (TupleExpression l t w es)
  obtain e where e: "es = [Some e]" "typed X e" "\<not> w" "t = expression_type e" using TupleExpression.prems(1) by (rule typed_tuple)
  have "pushes c (label_count e) (accept ec e) (expression_type e) (eval \<rho> e) st m"
    by (rule TupleExpression.IH) (use TupleExpression.prems e in auto)
  then show ?case using e by (auto elim!: pushes_cong simp: bindE_assoc)
next
  case (TypeConversion l t e)
  let ?c = "c\<lparr>m_visitedNodes := l # m_visitedNodes c\<rparr>"
  have "pushes ?c (label_count e) (accept ec e) (expression_type e) (eval \<rho> e) st m"
    by (rule TypeConversion.IH) (use TypeConversion.prems in auto)
  from pushes_convert [OF this, of X t ec False] show ?case using TypeConversion.prems by (auto intro!: pushes_location)
qed auto

section \<open>Expressions on the machine\<close>


text \<open>A place for variables on the stack that behaves as the theorem supposes: it duplicates the slot of the variable.\<close>

definition variables_on_stack :: "CodegenExternal \<Rightarrow> 'g LValueCode" where
  "variables_on_stack ext =
     \<lparr>lv_create = \<lambda>lv c. Inr c, lv_sizeOnStack = \<lambda>lv. 0,
      lv_retrieveValue = \<lambda>lv l remove c.
        case lv of
          StackVariable d \<Rightarrow> bindE (baseStackOffsetOfVariable d c) (\<lambda>base. append_dup ext (baseToCurrentStackOffset base c + 1) c)
        | _ \<Rightarrow> Inl UnimplementedFeatureError,
      lv_storeValue = \<lambda>lv t l move c. Inl UnimplementedFeatureError, lv_setToZero = \<lambda>lv l remove c. Inl UnimplementedFeatureError\<rparr>"

lemma stack_variables_exist: "stack_variables (variables_on_stack ext)"
  unfolding stack_variables_def
proof (intro allI impI)
  fix c :: "'a CompilerContext" and d :: VariableDeclaration and l base and st :: "u256 list" and m
  assume base: "baseStackOffsetOfVariable d c = Inr base" "base < length st" "length st - base \<le> 16"
  have a: "Suc (baseToCurrentStackOffset base (c\<lparr>m_asm := a\<rparr>)) = length st - base" if "tracks a (vm_at st m)" for a
  proof -
    have "int (length st) - int base - 1 = int (length st - base - 1)" using base by auto
    then show ?thesis using that base by (simp add: tracks_def baseToCurrentStackOffset_def nat_mod_distrib)
  qed
  have d: "baseStackOffsetOfVariable d (c\<lparr>m_asm := a\<rparr>) = Inr base" for a using base(1) by (simp add: baseStackOffsetOfVariable_def)
  have "does c (append_dup ext (length st - base)) (vm_at st m) (vm_at (rev st ! base # st) m)"
    using effect_dup [of "length st - base" st c ext m] base by (simp add: rev_nth)
  then show "does c (\<lambda>c. bindE (lv_create (variables_on_stack ext) (StackVariable d) c) (lv_retrieveValue (variables_on_stack ext) (StackVariable d) l True))
      (vm_at st m) (vm_at (rev st ! base # st) m)"
    by (simp add: labelled_def variables_on_stack_def d a)
qed

text \<open>The sum \<open>x + 1\<close> of unsigned numbers of 8 bits, for 255.\<close>

definition example_sum :: Expression where
  "example_sum =
     (let u8 = IntegerType 8 Unsigned; one = RationalNumberType 1 None;
          x = \<lparr>decl_id = 1, decl_name = ''x'', var_type = u8, var_immutable = False, var_location = SourceLocation_default\<rparr>; loc = SourceLocation_default in
      BinaryOperation loc u8 (Some u8) Token_Add (Identifier loc u8 False x None)
        (LiteralExpression loc one \<lparr>lit_token = Token_Number, lit_value = ''1'', lit_subDenomination = SubDenomination_None\<rparr>))"


end
