(* ===== verification/ContractCompiler.thy ===== *)
theory ContractCompiler
  imports ExpressionCompiler
begin

text \<open>
  The code of statements and functions (\<^verbatim>\<open>libsolidity/codegen/ContractCompiler.cpp\<close>): blocks, branches, loops, returns, declarations of variables,
  expressions as statements, functions with their modifiers and base constructors, the end of a function, which rearranges the stack, and the
  dispatch on the selector of a call. Inline assembly, try statements and the code of creation are not modelled.
\<close>

section \<open>The syntax tree\<close>

text \<open>Blocks and loops carry the number of their node. A return statement carries the variables of its function, if the function returns values.\<close>

datatype Statement =
    Block nat bool "Statement list"
  | PlaceholderStatement SourceLocation
  | IfStatement SourceLocation Expression Statement "Statement option"
  | WhileStatement SourceLocation Expression Statement bool
  | ForStatement nat SourceLocation "Statement option" "Expression option" "Statement option" Statement
  | Continue SourceLocation
  | Break SourceLocation
  | Return SourceLocation "Expression option" "VariableDeclaration list option"
  | Throw SourceLocation
  | EmitStatement SourceLocation Expression
  | VariableDeclarationStatement SourceLocation "VariableDeclaration option list" "Expression option"
  | ExpressionStatement SourceLocation Expression

record ModifierDefinition =
  mod_location :: SourceLocation
  mod_parameters :: "VariableDeclaration list"
  mod_body :: Statement
  mod_useABICoderV2 :: bool

text \<open>A modifier of a function is the call of a base constructor, or the use of a modifier, which has been looked up.\<close>

datatype ModifierInvocation =
    BaseConstructor
  | Modifier ModifierDefinition "Expression list"

record FunctionDefinition = Declaration +
  fun_location :: SourceLocation
  fun_parameters :: "VariableDeclaration list"
  fun_returnParameters :: "VariableDeclaration list"
  fun_modifiers :: "ModifierInvocation list"
  fun_body :: "Statement option"
  fun_useABICoderV2 :: bool
  fun_isConstructor :: bool
  fun_isFallback :: bool
  fun_isReceive :: bool

section \<open>The state\<close>

text \<open>The tags of the enclosing loops and functions with the height of the stack at them, the innermost one last; the heights at the begin of the open scopes.\<close>

record ContractCompiler =
  m_breakTags :: "(AssemblyItem \<times> nat) list"
  m_continueTags :: "(AssemblyItem \<times> nat) list"
  m_returnTags :: "(AssemblyItem \<times> nat) list"
  m_modifierDepth :: u32
  m_currentFunction :: "FunctionDefinition option"
  m_scopeStackHeight :: "(u32 \<times> (nat \<times> nat) list) list"
  m_context :: ctx

type_synonym ccr = "ContractCompiler result"

definition in_context :: "(ctx \<Rightarrow> ctx result) \<Rightarrow> ContractCompiler \<Rightarrow> ccr" where
  "in_context f cc = bindE (f (m_context cc)) (\<lambda>c. Inr (cc\<lparr>m_context := c\<rparr>))"

definition new_tag :: "string \<Rightarrow> ContractCompiler \<Rightarrow> (AssemblyItem \<times> ContractCompiler) result" where
  "new_tag d cc = bindE (CompilerContext_newTag d (m_context cc)) (\<lambda>(t, c). Inr (t, cc\<lparr>m_context := c\<rparr>))"

definition at_node :: "SourceLocation \<Rightarrow> (ContractCompiler \<Rightarrow> ccr) \<Rightarrow> ContractCompiler \<Rightarrow> ccr" where
  "at_node l f cc =
     bindE (f (cc\<lparr>m_context := pushVisitedNodes l (m_context cc)\<rparr>)) (\<lambda>cc. bindE (popVisitedNodes (m_context cc)) (\<lambda>c. Inr (cc\<lparr>m_context := c\<rparr>)))"

text \<open>A \<open>StackHeightChecker\<close> asserts that the height of the stack is the same before and after a statement.\<close>

definition checked_height :: "(ContractCompiler \<Rightarrow> ccr) \<Rightarrow> ContractCompiler \<Rightarrow> ccr" where
  "checked_height f cc =
     bindE (stackHeight (m_context cc)) (\<lambda>before.
     bindE (f cc) (\<lambda>cc.
     bindE (stackHeight (m_context cc)) (\<lambda>after.
     bindE (assertThrow (after = before) InternalCompilerError) (\<lambda>_. Inr cc))))"

definition storeStackHeight :: "nat \<Rightarrow> ContractCompiler \<Rightarrow> ccr" where
  "storeStackHeight node cc =
     bindE (stackHeight (m_context cc)) (\<lambda>h.
       let heights = m_scopeStackHeight cc; d = m_modifierDepth cc;
           inner = (case map_find d heights of None \<Rightarrow> [] | Some hs \<Rightarrow> hs)
       in Inr (cc\<lparr>m_scopeStackHeight := map_put d (map_put node h inner) heights\<rparr>))"

definition popScopedVariables :: "CodegenExternal \<Rightarrow> nat \<Rightarrow> ContractCompiler \<Rightarrow> ccr" where
  "popScopedVariables ext node cc =
     bindE (map_at (m_modifierDepth cc) (m_scopeStackHeight cc)) (\<lambda>inner.
     bindE (map_at node inner) (\<lambda>blockHeight.
     bindE (in_context (removeVariablesAboveStackHeight blockHeight) cc) (\<lambda>cc.
     bindE (stackHeight (m_context cc)) (\<lambda>h.
     bindE (assertThrow (h \<ge> blockHeight) InternalCompilerError) (\<lambda>_.
     bindE (in_context (popStackSlots ext (h - blockHeight)) cc) (\<lambda>cc.
       let d = m_modifierDepth cc; inner = map_erase node inner
       in Inr (cc\<lparr>m_scopeStackHeight :=
                 (if inner = [] then map_erase d (m_scopeStackHeight cc) else map_put d inner (m_scopeStackHeight cc))\<rparr>)))))))"

definition dataStoredInMemory :: "Type \<Rightarrow> bool" where
  "dataStoredInMemory t = (case t of ArrayType loc ptr kind base len \<Rightarrow> loc = Memory | _ \<Rightarrow> False)"

definition appendStackVariableInitialisation :: "Generator ExpressionCompiler \<Rightarrow> VariableDeclaration \<Rightarrow> bool \<Rightarrow> ctx \<Rightarrow> ctx result" where
  "appendStackVariableInitialisation ec v provideDefaultValue c =
     bindE (append_debug (''ContractCompiler::appendStackVariableInitialisation('' @ ec_locationText ec (var_location v) @ '')'') c) (\<lambda>c.
     bindE (addVariable v 0 (pushVisitedNodes (var_location v) c)) (\<lambda>c.
     bindE (if \<not> provideDefaultValue \<and> dataStoredInMemory (var_type v)
            then bindE (assertThrow (sizeOnStack (var_type v) = 1) InternalCompilerError) (\<lambda>_. append_value (ec_ext ec) 0 c)
            else pushZeroValue (ec_ext ec) (var_type v) c) (\<lambda>c.
     bindE (append_debug ''end of ContractCompiler::appendStackVariableInitialisation()'' c) popVisitedNodes)))"

text \<open>Every expression is compiled by a new compiler of expressions, so that its place is dropped.\<close>

definition compileExpression :: "Generator ExpressionCompiler \<Rightarrow> Expression \<Rightarrow> Type option \<Rightarrow> ctx \<Rightarrow> ctx result" where
  "compileExpression ec e targetType c =
     bindE (accept ec e (None, c)) (\<lambda>(_, c).
       case targetType of
         None \<Rightarrow> Inr c
       | Some t \<Rightarrow> convertType (ec_ext ec) (ec_arrays ec) (expression_type e) t False False False c)"

section \<open>Statements\<close>

definition is_zero :: "CodegenExternal \<Rightarrow> ContractCompiler \<Rightarrow> ccr" where
  "is_zero ext = in_context (append_op ext Instruction_ISZERO)"

text \<open>The tags of a loop are known while its body is compiled.\<close>

definition push_breakTag :: "AssemblyItem \<Rightarrow> ContractCompiler \<Rightarrow> ccr" where
  "push_breakTag t cc = bindE (stackHeight (m_context cc)) (\<lambda>h. Inr (cc\<lparr>m_breakTags := m_breakTags cc @ [(t, h)]\<rparr>))"

definition push_continueTag :: "AssemblyItem \<Rightarrow> ContractCompiler \<Rightarrow> ccr" where
  "push_continueTag t cc = bindE (stackHeight (m_context cc)) (\<lambda>h. Inr (cc\<lparr>m_continueTags := m_continueTags cc @ [(t, h)]\<rparr>))"

definition pop_loopTags :: "ContractCompiler \<Rightarrow> ccr" where
  "pop_loopTags cc = Inr (cc\<lparr>m_continueTags := butlast (m_continueTags cc), m_breakTags := butlast (m_breakTags cc)\<rparr>)"

definition jump_to_last :: "CodegenExternal \<Rightarrow> (AssemblyItem \<times> nat) list \<Rightarrow> ContractCompiler \<Rightarrow> ccr" where
  "jump_to_last ext tags = in_context (popAndJump ext (snd (last tags)) (fst (last tags)))"

text \<open>
  The expression of a return statement. With other than one variable its type is converted to that of a tuple; expressions with the type of a tuple are not modelled, and the
  conversion of any other type to that of a tuple is refused.
\<close>

definition return_values :: "Generator ExpressionCompiler \<Rightarrow> Expression \<Rightarrow> VariableDeclaration list option \<Rightarrow> ctx \<Rightarrow> ctx result" where
  "return_values ec e parameters c =
     (case parameters of
        None \<Rightarrow> Inl InternalCompilerError
      | Some [v] \<Rightarrow> run_ops [compileExpression ec e (Some (var_type v)), moveToStackVariable (ec_ext ec) v] c
      | Some _ \<Rightarrow> bindE (compileExpression ec e None c) (\<lambda>_. Inl InternalCompilerError))"

text \<open>The initial value of a declaration of variables. The values of several variables are a tuple, which is not modelled.\<close>

definition initial_value :: "Generator ExpressionCompiler \<Rightarrow> VariableDeclaration option list \<Rightarrow> Expression \<Rightarrow> ctx \<Rightarrow> ctx result" where
  "initial_value ec declarations e c =
     bindE (compileExpression ec e None c) (\<lambda>c.
       case declarations of
         [None] \<Rightarrow> popStackElement (ec_ext ec) (expression_type e) c
       | [Some v] \<Rightarrow>
           run_ops [convertType (ec_ext ec) (ec_arrays ec) (expression_type e) (var_type v) False False False,
                    moveToStackVariable (ec_ext ec) v] c
       | _ \<Rightarrow> Inl InternalCompilerError)"

text \<open>The entry and the exit of an unchecked block.\<close>

definition set_arithmetic :: "Arithmetic \<Rightarrow> Arithmetic \<Rightarrow> ContractCompiler \<Rightarrow> ccr" where
  "set_arithmetic old new =
     in_context (\<lambda>c. bindE (assertThrow (m_arithmetic c = old) InternalCompilerError) (\<lambda>_. Inr (c\<lparr>m_arithmetic := new\<rparr>)))"

text \<open>\<open>placeholder\<close> is what the placeholder of a modifier appends: the next modifier, or the body of the function.\<close>

fun visit :: "Generator ExpressionCompiler \<Rightarrow> (ContractCompiler \<Rightarrow> ccr) \<Rightarrow> Statement \<Rightarrow> ContractCompiler \<Rightarrow> ccr" where
  "visit ec placeholder (Block node unchecked ss) cc =
     bindE (if unchecked then set_arithmetic Checked Wrapping cc else Inr cc) (\<lambda>cc.
     bindE (storeStackHeight node cc) (\<lambda>cc.
     bindE (foldE (\<lambda>cc s. visit ec placeholder s cc) cc ss) (\<lambda>cc.
     bindE (if unchecked then set_arithmetic Wrapping Checked cc else Inr cc)
       (popScopedVariables (ec_ext ec) node))))"
| "visit ec placeholder (PlaceholderStatement l) cc =
     checked_height (at_node l (\<lambda>cc.
       bindE (assertThrow (m_arithmetic (m_context cc) = Checked) InternalCompilerError) (\<lambda>_.
       bindE (placeholder cc) (\<lambda>cc.
       bindE (assertThrow (m_arithmetic (m_context cc) = Checked) InternalCompilerError) (\<lambda>_. Inr cc))))) cc"
| "visit ec placeholder (IfStatement l cond yes no) cc =
     checked_height (at_node l (\<lambda>cc.
       bindE (run_ops [in_context (compileExpression ec cond None), is_zero (ec_ext ec)] cc) (\<lambda>cc.
       bindE (appendConditionalJump (ec_ext ec) '''' (m_context cc)) (\<lambda>(falseTag, c).
       bindE (visit ec placeholder yes (cc\<lparr>m_context := c\<rparr>)) (\<lambda>cc.
         case no of
           None \<Rightarrow> in_context (append_item (ec_ext ec) falseTag) cc
         | Some no \<Rightarrow>
             bindE (appendJumpToNew (ec_ext ec) (m_context cc)) (\<lambda>(endTag, c).
             bindE (in_context (append_item (ec_ext ec) falseTag) (cc\<lparr>m_context := c\<rparr>)) (\<lambda>cc.
             bindE (visit ec placeholder no cc) (in_context (append_item (ec_ext ec) endTag))))))))) cc"
| "visit ec placeholder (WhileStatement l cond body isDoWhile) cc =
     checked_height (at_node l (\<lambda>cc.
       bindE (new_tag '''' cc) (\<lambda>(loopStart, cc).
       bindE (new_tag '''' cc) (\<lambda>(loopEnd, cc).
       bindE (run_ops [push_breakTag loopEnd, in_context (append_item (ec_ext ec) loopStart)] cc) (\<lambda>cc.
       bindE (if isDoWhile then
                bindE (new_tag '''' cc) (\<lambda>(condition, cc).
                bindE (push_continueTag condition cc) (\<lambda>cc.
                bindE (visit ec placeholder body cc) (run_ops
                  [in_context (append_item (ec_ext ec) condition), in_context (compileExpression ec cond None), is_zero (ec_ext ec), is_zero (ec_ext ec),
                   in_context (appendConditionalJumpTo (ec_ext ec) loopStart)])))
              else
                bindE (run_ops [push_continueTag loopStart, in_context (compileExpression ec cond None), is_zero (ec_ext ec),
                                in_context (appendConditionalJumpTo (ec_ext ec) loopEnd)] cc) (\<lambda>cc.
                bindE (visit ec placeholder body cc) (in_context (CompilerContext_appendJumpTo (ec_ext ec) loopStart Ordinary)))) (\<lambda>cc.
         run_ops [in_context (append_item (ec_ext ec) loopEnd), pop_loopTags] cc)))))) cc"
| "visit ec placeholder (ForStatement node l init cond loop body) cc =
     checked_height (at_node l (\<lambda>cc.
       bindE (new_tag '''' cc) (\<lambda>(loopStart, cc).
       bindE (new_tag '''' cc) (\<lambda>(loopEnd, cc).
       bindE (new_tag '''' cc) (\<lambda>(loopNext, cc).
       bindE (storeStackHeight node cc) (\<lambda>cc.
       bindE (case init of None \<Rightarrow> Inr cc | Some s \<Rightarrow> visit ec placeholder s cc) (\<lambda>cc.
       bindE (run_ops [push_breakTag loopEnd, push_continueTag loopNext, in_context (append_item (ec_ext ec) loopStart)] cc) (\<lambda>cc.
       bindE (case cond of
                None \<Rightarrow> Inr cc
              | Some e \<Rightarrow>
                  run_ops [in_context (compileExpression ec e None), is_zero (ec_ext ec), in_context (appendConditionalJumpTo (ec_ext ec) loopEnd)] cc) (\<lambda>cc.
       bindE (visit ec placeholder body cc) (\<lambda>cc.
       bindE (in_context (append_item (ec_ext ec) loopNext) cc) (\<lambda>cc.
       bindE (case loop of None \<Rightarrow> Inr cc | Some s \<Rightarrow> visit ec placeholder s cc) (run_ops
         [in_context (CompilerContext_appendJumpTo (ec_ext ec) loopStart Ordinary), in_context (append_item (ec_ext ec) loopEnd), pop_loopTags,
          popScopedVariables (ec_ext ec) node])))))))))))) cc"
| "visit ec placeholder (Continue l) cc =
     at_node l (\<lambda>cc. bindE (assertThrow (m_continueTags cc \<noteq> []) InternalCompilerError) (\<lambda>_. jump_to_last (ec_ext ec) (m_continueTags cc) cc)) cc"
| "visit ec placeholder (Break l) cc =
     at_node l (\<lambda>cc. bindE (assertThrow (m_breakTags cc \<noteq> []) InternalCompilerError) (\<lambda>_. jump_to_last (ec_ext ec) (m_breakTags cc) cc)) cc"
| "visit ec placeholder (Return l e parameters) cc =
     at_node l (\<lambda>cc.
       bindE (in_context (append_debug ''ContractCompiler::visit(return)'') cc) (\<lambda>cc.
       bindE (case e of None \<Rightarrow> Inr cc | Some e \<Rightarrow> in_context (return_values ec e parameters) cc) (\<lambda>cc.
       bindE (if m_returnTags cc = [] then Inl UndefinedBehaviour else jump_to_last (ec_ext ec) (m_returnTags cc) cc)
         (in_context (append_debug ''end of ContractCompiler::visit(return)''))))) cc"
| "visit ec placeholder (Throw l) cc = Inl InternalCompilerError"
| "visit ec placeholder (EmitStatement l e) cc = at_node l (checked_height (in_context (compileExpression ec e None))) cc"
| "visit ec placeholder (VariableDeclarationStatement l declarations e) cc =
     at_node l (\<lambda>cc.
       bindE (in_context (run_ops (map (\<lambda>d. case d of None \<Rightarrow> Inr | Some v \<Rightarrow> appendStackVariableInitialisation ec v (e = None)) declarations)) cc)
         (checked_height (\<lambda>cc. case e of None \<Rightarrow> Inr cc | Some e \<Rightarrow> in_context (initial_value ec declarations e) cc))) cc"
| "visit ec placeholder (ExpressionStatement l e) cc =
     checked_height (at_node l (in_context (run_ops [compileExpression ec e None, popStackElement (ec_ext ec) (expression_type e)]))) cc"

section \<open>Modifiers and bodies\<close>

definition set_modifierDepth :: "nat \<Rightarrow> ctx \<Rightarrow> ctx" where
  "set_modifierDepth d c = c\<lparr>m_asm := upd (\<lambda>s. s\<lparr>m_currentModifierDepth := word_of_nat d\<rparr>) (m_asm c)\<rparr>"

definition change_depth :: "u32 \<Rightarrow> ContractCompiler \<Rightarrow> ContractCompiler" where
  "change_depth d cc = cc\<lparr>m_modifierDepth := d, m_context := set_modifierDepth (unat d) (m_context cc)\<rparr>"

text \<open>The arguments of a modifier become variables.\<close>

definition add_arguments :: "Generator ExpressionCompiler \<Rightarrow> ModifierDefinition \<Rightarrow> Expression list \<Rightarrow> ContractCompiler \<Rightarrow> ccr" where
  "add_arguments ec md args cc =
     bindE (assertThrow (length (mod_parameters md) = length args) InternalCompilerError) (\<lambda>_.
       run_ops (concat (map (\<lambda>(v, e). [in_context (addVariable v 0), in_context (compileExpression ec e (Some (var_type v)))])
         (zip (mod_parameters md) args))) cc)"

definition code_block :: "Generator ExpressionCompiler \<Rightarrow> (ContractCompiler \<Rightarrow> ccr) \<Rightarrow> string \<Rightarrow> Statement \<Rightarrow> bool \<Rightarrow> nat \<Rightarrow> VariableDeclaration list \<Rightarrow>
    ContractCompiler \<Rightarrow> ccr" where
  "code_block ec placeholder name body useV2 stackSurplus addedVariables cc =
     (let outside = m_useABICoderV2 (m_context cc);
          cc = cc\<lparr>m_context := (m_context cc)\<lparr>m_arithmetic := Checked, m_useABICoderV2 := useV2\<rparr>\<rparr> in
      bindE (new_tag (''return tag of '' @ name) cc) (\<lambda>(returnTag, cc).
      bindE (stackHeight (m_context cc)) (\<lambda>h.
      bindE (in_context (append_debug (''start of code block of '' @ name)) (cc\<lparr>m_returnTags := m_returnTags cc @ [(returnTag, h)]\<rparr>)) (\<lambda>cc.
      bindE (visit ec placeholder body cc) (\<lambda>cc.
      bindE (assertThrow (m_returnTags cc \<noteq> []) InternalCompilerError) (\<lambda>_.
      bindE (in_context (append_debug ''start processing return data'') (cc\<lparr>m_context := (m_context cc)\<lparr>m_useABICoderV2 := outside\<rparr>\<rparr>)) (\<lambda>cc.
      bindE (in_context (append_item (ec_ext ec) (fst (last (m_returnTags cc)))) cc) (\<lambda>cc.
        in_context (run_ops (popStackSlots (ec_ext ec) stackSurplus # map (\<lambda>v. removeVariable (decl_id v)) addedVariables @
            [append_debug ''finish processing return data'']))
          (cc\<lparr>m_returnTags := butlast (m_returnTags cc)\<rparr>)))))))))"

text \<open>
  One layer of a function: the next modifier, or the body. \<open>n\<close> is the number of modifiers that are left. A placeholder in the body of the function itself
  leads to the same body again, without end.
\<close>

fun appendModifierOrFunctionCode :: "nat \<Rightarrow> Generator ExpressionCompiler \<Rightarrow> ContractCompiler \<Rightarrow> ccr" where
  "appendModifierOrFunctionCode n ec cc =
     (case m_currentFunction cc of
        None \<Rightarrow> Inl InternalCompilerError
      | Some f \<Rightarrow>
          bindE (in_context (append_debug (''ContractCompiler::appendModifierOrFunctionCode() for '' @ decl_name f)) cc) (\<lambda>cc.
          let cc = change_depth (m_modifierDepth cc + 1) cc; d = unat (m_modifierDepth cc) in
          bindE
            (if length (fun_modifiers f) \<le> d then
               (case fun_body f of
                  None \<Rightarrow> Inl InternalCompilerError
                | Some b \<Rightarrow> code_block ec (\<lambda>_. Inl UndefinedBehaviour) (decl_name f) b (fun_useABICoderV2 f) 0 [] cc)
             else
               case n of
                 0 \<Rightarrow> Inl UndefinedBehaviour
               | Suc k \<Rightarrow>
                   (case fun_modifiers f ! d of
                      BaseConstructor \<Rightarrow> appendModifierOrFunctionCode k ec cc
                    | Modifier md args \<Rightarrow>
                        bindE (at_node (mod_location md) (add_arguments ec md args) cc)
                          (code_block ec (appendModifierOrFunctionCode k ec) (decl_name f) (mod_body md) (mod_useABICoderV2 md)
                             (CompilerUtils_sizeOnStack (map var_type (mod_parameters md))) (mod_parameters md)))) (\<lambda>cc.
            in_context (append_debug ''end of ContractCompiler::appendModifierOrFunctionCode()'')
              (change_depth (m_modifierDepth cc - 1) cc))))"

section \<open>The end of a function\<close>

text \<open>
  The stack at the end of a function, from the bottom: the return address, which goes above the returned values, the arguments, which are dropped (-1), and the
  returned values.
\<close>

definition stack_layout :: "bool \<Rightarrow> nat \<Rightarrow> nat \<Rightarrow> int list" where
  "stack_layout returns argumentsSize returnValuesSize =
     (if returns then [int returnValuesSize] else []) @ replicate argumentsSize (- 1) @ map int [0..<returnValuesSize]"

definition layout_text :: "int list \<Rightarrow> string" where
  "layout_text layout = '' current stackLayout ['' @ concat (map (\<lambda>i. decimal_int i @ '' '') layout) @ '']''"

text \<open>The loop swaps the topmost slot to its place, or drops it, until it is in place. Indices outside the layout are undefined; the loop need not end.\<close>

partial_function (option) reshuffle :: "CodegenExternal \<Rightarrow> int list \<Rightarrow> ctx \<Rightarrow> (int list \<times> ctx) result option" where
  "reshuffle ext layout c =
     (if layout = [] \<or> last layout = int (length layout) - 1 then Some (Inr (layout, c))
      else if last layout < 0 then
        (case run_ops [append_debug (layout_text layout), append_op ext Instruction_POP] c of
           Inl e \<Rightarrow> Some (Inl e)
         | Inr c \<Rightarrow> reshuffle ext (butlast layout) c)
      else if last layout \<ge> int (length layout) then
        (case run_ops [append_debug (layout_text layout), append_swap ext (nat ((int (length layout) - last layout - 1) mod 2 ^ 32))] c of
           Inl e \<Rightarrow> Some (Inl e)
         | Inr c \<Rightarrow> Some (Inl UndefinedBehaviour))
      else
        (case run_ops [append_debug (layout_text layout), append_swap ext (nat (int (length layout) - last layout - 1))] c of
           Inl e \<Rightarrow> Some (Inl e)
         | Inr c \<Rightarrow>
             reshuffle ext ((layout[nat (last layout) := last layout])[length layout - 1 := layout ! nat (last layout)]) c))"

text \<open>The loop with the check of its result.\<close>

definition rearrange :: "CodegenExternal \<Rightarrow> bool \<Rightarrow> nat \<Rightarrow> nat \<Rightarrow> ctx \<Rightarrow> ctx result option" where
  "rearrange ext returns argumentsSize returnValuesSize c =
     (let layout = stack_layout returns argumentsSize returnValuesSize in
      if length layout > 17 then Some (Inl StackTooDeepError)
      else
        (case reshuffle ext layout c of
           None \<Rightarrow> None
         | Some (Inl e) \<Rightarrow> Some (Inl e)
         | Some (Inr (layout, c)) \<Rightarrow>
             Some (bindE (assertThrow (layout = map int [0..<length layout]) InternalCompilerError) (\<lambda>_. Inr c))))"

section \<open>Functions\<close>

text \<open>A computation that may not end and may throw.\<close>

definition bindO :: "'a result option \<Rightarrow> ('a \<Rightarrow> 'b result option) \<Rightarrow> 'b result option" where
  "bindO m f = (case m of None \<Rightarrow> None | Some (Inl e) \<Rightarrow> Some (Inl e) | Some (Inr x) \<Rightarrow> f x)"

definition function_begin :: "Generator ExpressionCompiler \<Rightarrow> FunctionDefinition \<Rightarrow> ctx \<Rightarrow> ctx result" where
  "function_begin ec f c =
     (let parametersSize = CompilerUtils_sizeOnStack (map var_type (fun_parameters f)) in
      bindE (startFunction (ec_ext ec) f c) (\<lambda>c.
      bindE (if fun_isFallback f then adjustStackOffset (int parametersSize) c
             else if \<not> fun_isConstructor f then adjustStackOffset (int parametersSize + 1) c else Inr c) (\<lambda>c.
      bindE (append_debug ''Add parameters'' c) (\<lambda>c.
      bindE (foldE (\<lambda>(rest, c) v. bindE (addVariable v rest c) (\<lambda>c. Inr (rest - sizeOnStack (var_type v), c))) (parametersSize, c) (fun_parameters f)) (\<lambda>(_, c).
        run_ops (append_debug ''Add return parameters'' # map (\<lambda>v. appendStackVariableInitialisation ec v True) (fun_returnParameters f)) c)))))"

definition function_code :: "Generator ExpressionCompiler \<Rightarrow> FunctionDefinition \<Rightarrow> ContractCompiler \<Rightarrow> ccr" where
  "function_code ec f cc =
     bindE (assertThrow (m_returnTags cc = []) InternalCompilerError) (\<lambda>_.
     bindE (appendModifierOrFunctionCode (length (fun_modifiers f)) ec
              (cc\<lparr>m_breakTags := [], m_continueTags := [], m_currentFunction := Some f, m_modifierDepth := - 1, m_scopeStackHeight := [],
                 m_context := set_modifierDepth 0 (m_context cc)\<rparr>)) (\<lambda>cc.
     bindE (assertThrow (m_returnTags cc = []) InternalCompilerError) (\<lambda>_.
       Inr (cc\<lparr>m_context := set_modifierDepth 0 (m_context cc)\<rparr>))))"

definition function_end :: "CodegenExternal \<Rightarrow> FunctionDefinition \<Rightarrow> ctx \<Rightarrow> ctx result option" where
  "function_end ext f c =
     (let argumentsSize = CompilerUtils_sizeOnStack (map var_type (fun_parameters f));
          returnValuesSize = CompilerUtils_sizeOnStack (map var_type (fun_returnParameters f)) in
      bindO (Some (append_debug (''remove variables: '' @ decimal argumentsSize @ '' parameters and '' @ decimal returnValuesSize @ '' return parameters'') c)) (\<lambda>c.
      bindO (rearrange ext (\<not> fun_isConstructor f \<and> \<not> fun_isFallback f) argumentsSize returnValuesSize c) (\<lambda>c.
        Some
          (bindE (run_ops (map (\<lambda>v. removeVariable (decl_id v)) (fun_parameters f @ fun_returnParameters f)) c) (\<lambda>c.
           bindE (adjustStackOffset (- int returnValuesSize) c) (\<lambda>c.
             if fun_isConstructor f then Inr c
             else
               bindE (assertThrow (numberOfLocalVariables c = 0) InternalCompilerError) (\<lambda>_.
                 if \<not> fun_isFallback f \<and> \<not> fun_isReceive f then CompilerContext_appendJump ext OutOfFunction c else Inr c)))))))"

text \<open>
  A function. \<open>bases\<close> are the constructors of the base contracts that follow in the linearisation, with their arguments: a constructor calls the next one
  before its own code.
\<close>

definition base_arguments :: "Generator ExpressionCompiler \<Rightarrow> FunctionDefinition \<Rightarrow> Expression list option \<Rightarrow> ctx \<Rightarrow> ctx result" where
  "base_arguments ec f args c =
     (if fun_parameters f = [] then Inr c
      else
        case args of
          None \<Rightarrow> Inl InternalCompilerError
        | Some args \<Rightarrow>
            bindE (assertThrow (length args = length (fun_parameters f)) InternalCompilerError) (\<lambda>_.
              run_ops (map (\<lambda>(e, v). compileExpression ec e (Some (var_type v))) (zip args (fun_parameters f))) c))"

definition at_node_option :: "SourceLocation \<Rightarrow> (ContractCompiler \<Rightarrow> ccr option) \<Rightarrow> ContractCompiler \<Rightarrow> ccr option" where
  "at_node_option l f cc =
     bindO (f (cc\<lparr>m_context := pushVisitedNodes l (m_context cc)\<rparr>)) (\<lambda>cc.
       Some (bindE (popVisitedNodes (m_context cc)) (\<lambda>c. Inr (cc\<lparr>m_context := c\<rparr>))))"

fun visit_function :: "Generator ExpressionCompiler \<Rightarrow> (FunctionDefinition \<times> Expression list option) list \<Rightarrow> FunctionDefinition \<Rightarrow> ContractCompiler \<Rightarrow>
    ccr option" where
  "visit_function ec bases f =
     at_node_option (fun_location f) (\<lambda>cc.
       bindO (Some (in_context (function_begin ec f) cc)) (\<lambda>cc.
       bindO (if fun_isConstructor f then
                (case bases of
                   [] \<Rightarrow> Some (Inr cc)
                 | (b, args) # bases \<Rightarrow>
                     at_node_option (fun_location b) (\<lambda>cc.
                       bindO (Some (in_context (base_arguments ec b args) cc)) (visit_function ec bases b)) cc)
              else Some (Inr cc)) (\<lambda>cc.
       bindO (Some (function_code ec f cc)) (\<lambda>cc.
       bindO (function_end (ec_ext ec) f (m_context cc)) (\<lambda>c. Some (Inr (cc\<lparr>m_context := c\<rparr>)))))))"

text \<open>
  All functions that are referred to. \<open>accept_function\<close> compiles the declaration with a number: a function, or the accessor of a state variable. Compiling
  one may ask for further ones.
\<close>

partial_function (option) missing_functions :: "(nat \<Rightarrow> ContractCompiler \<Rightarrow> ccr option) \<Rightarrow> ContractCompiler \<Rightarrow> ccr option" where
  "missing_functions accept_function cc =
     (case nextFunctionToCompile (m_context cc) of
        (None, c) \<Rightarrow> Some (Inr (cc\<lparr>m_context := c\<rparr>))
      | (Some d, c) \<Rightarrow>
          (case bindO (Some (setStackOffset 0 c)) (\<lambda>c. accept_function d (cc\<lparr>m_context := c\<rparr>)) of
             None \<Rightarrow> None
           | Some (Inl e) \<Rightarrow> Some (Inl e)
           | Some (Inr cc) \<Rightarrow>
               (case nextFunctionToCompile (m_context cc) of
                  (d', c) \<Rightarrow> if d' = Some d then Some (Inl InternalCompilerError) else missing_functions accept_function (cc\<lparr>m_context := c\<rparr>))))"

definition appendMissingFunctions :: "CodegenExternal \<Rightarrow> (nat \<Rightarrow> ContractCompiler \<Rightarrow> ccr option) \<Rightarrow> ContractCompiler \<Rightarrow> ccr option" where
  "appendMissingFunctions ext accept_function cc =
     bindO (Some (stackHeight (m_context cc))) (\<lambda>h.
     bindO (missing_functions accept_function cc) (\<lambda>cc.
     bindO (appendMissingLowLevelFunctions ext (generate ext) (m_context cc)) (\<lambda>c.
       Some (bindE (setStackOffset (int h) c) (\<lambda>c. Inr (cc\<lparr>m_context := c\<rparr>))))))"

section \<open>The dispatch of calls\<close>

definition appendCallValueCheck :: "CodegenExternal \<Rightarrow> ctx \<Rightarrow> ctx result" where
  "appendCallValueCheck ext =
     run_ops [append_debug ''ContractCompiler::appendCallValueCheck()'', append_op ext Instruction_CALLVALUE,
              appendConditionalRevert ext False ''Ether sent to non-payable function'', append_debug ''end of ContractCompiler::appendCallValueCheck()'']"

text \<open>One comparison for every function of the interface and for every callback; the selector stays on the stack.\<close>

definition selector_test :: "CodegenExternal \<Rightarrow> u256 \<Rightarrow> AssemblyItem \<Rightarrow> ctx \<Rightarrow> ctx result" where
  "selector_test ext identifier tag =
     run_ops [append_dup ext 1, append_value ext identifier, append_op ext Instruction_EQ, appendConditionalJumpTo ext tag]"

definition appendInternalSelector :: "CodegenExternal \<Rightarrow> (bytes \<times> AssemblyItem) list \<Rightarrow> bytes list \<Rightarrow> AssemblyItem \<Rightarrow> ctx \<Rightarrow> ctx result" where
  "appendInternalSelector ext entryPoints ids notFoundTag c =
     bindE (run_ops [append_debug ''ContractCompiler::appendInternalSelector()'', append_debug ''function selector''] c) (\<lambda>c.
     bindE (foldE (\<lambda>c i. bindE (map_at i entryPoints) (\<lambda>tag. selector_test ext (FixedHash_arith i) tag c)) c ids) (\<lambda>c.
     bindE (append_debug ''callback selector'' c) (\<lambda>c.
     bindE (foldE (\<lambda>c (i, tag). selector_test ext (word_of_nat i) tag c) c (m_awaitCallbacks c)) (run_ops
       [append_debug ''not found'', CompilerContext_appendJumpTo ext notFoundTag Ordinary,
        append_debug ''end of ContractCompiler::appendInternalSelector()'']))))"

end
