(* ===== verification/FunctionEffects.thy ===== *)
theory FunctionEffects
  imports OperatorEffects ContractCompiler "HOL-Library.Multiset"
begin

text \<open>
  What the code of functions does: the rearrangement of the stack at the end of a function, and the dispatch on the selector of a call.
\<close>

section \<open>The end of a function\<close>

text \<open>
  The invariant of the loop: every place of the result is the target of exactly one slot, and every slot but the topmost one has a target that is not above it, unless it is the
  highest of all.
\<close>

definition layout_ok :: "nat \<Rightarrow> int list \<Rightarrow> bool" where
  "layout_ok k L \<longleftrightarrow>
     distinct (filter (\<lambda>x. 0 \<le> x) L) \<and> set (filter (\<lambda>x. 0 \<le> x) L) = {0..<int k} \<and> (\<forall>x \<in> set L. - 1 \<le> x) \<and>
     (\<forall>i. i + 1 < length L \<longrightarrow> L ! i \<le> int i \<or> L ! i = int k - 1)"

text \<open>The slots \<open>S\<close> hold the values \<open>T\<close> at the places where the layout says.\<close>

definition places :: "int list \<Rightarrow> 'a list \<Rightarrow> 'a list \<Rightarrow> bool" where
  "places L S T \<longleftrightarrow> length S = length L \<and> (\<forall>i < length L. 0 \<le> L ! i \<longrightarrow> S ! i = T ! nat (L ! i))"

lemma layout_size: "layout_ok k L \<Longrightarrow> k \<le> length L"
proof -
  assume "layout_ok k L"
  then have "length (filter (\<lambda>x. 0 \<le> x) L) = card {0..<int k}" by (metis layout_ok_def distinct_card)
  then show ?thesis using length_filter_le [of "\<lambda>x. 0 \<le> x" L] by simp
qed

lemma layout_entry: "layout_ok k L \<Longrightarrow> i < length L \<Longrightarrow> L ! i = - 1 \<or> 0 \<le> L ! i \<and> L ! i < int k"
proof -
  assume l: "layout_ok k L" and i: "i < length L"
  have "L ! i \<in> set (filter (\<lambda>x. 0 \<le> x) L)" if "0 \<le> L ! i" using i that by simp
  moreover have "- 1 \<le> L ! i" using l i by (simp add: layout_ok_def)
  ultimately show ?thesis using l by (fastforce simp: layout_ok_def)
qed

lemma distinct_filter_nth: "distinct (filter P L) \<Longrightarrow> i < j \<Longrightarrow> j < length L \<Longrightarrow> P (L ! i) \<Longrightarrow> L ! i \<noteq> L ! j"
proof (induction L arbitrary: i j)
  case (Cons x L)
  then obtain j' where j: "j = Suc j'" by (cases j) auto
  show ?case
  proof (cases i)
    case 0
    then show ?thesis using Cons.prems j by (auto split: if_splits)
  next
    case (Suc i')
    then show ?thesis using Cons j by (auto split: if_splits)
  qed
qed simp

lemma layout_distinct: "layout_ok k L \<Longrightarrow> i < length L \<Longrightarrow> j < length L \<Longrightarrow> 0 \<le> L ! i \<Longrightarrow> L ! i = L ! j \<Longrightarrow> i = j"
  using distinct_filter_nth [of "\<lambda>x. 0 \<le> x" L i j] distinct_filter_nth [of "\<lambda>x. 0 \<le> x" L j i] by (cases i j rule: linorder_cases) (auto simp: layout_ok_def)

text \<open>When the loop ends, everything is in place.\<close>

lemma layout_done:
  assumes L: "layout_ok k L" and e: "L = [] \<or> last L = int (length L) - 1"
  shows "L = map int [0..<k]"
proof (cases "L = []")
  case True
  then show ?thesis using L by (simp add: layout_ok_def)
next
  case False
  let ?n = "length L"
  have lst: "L ! (?n - 1) = int ?n - 1" using e False by (simp add: last_conv_nth)
  moreover have "0 < ?n" using False by simp
  ultimately have "int ?n - 1 < int k" using layout_entry [OF L, of "?n - 1"] by auto
  then have k: "k = ?n" using layout_size [OF L] by simp
  have "length (filter (\<lambda>x. 0 \<le> x) L) = k" using L by (metis layout_ok_def distinct_card card_atLeastLessThan_int diff_zero nat_int)
  then have all: "0 \<le> L ! i" if "i < ?n" for i
    using k that by (metis filter_True length_filter_less linorder_not_le nth_mem order_less_irrefl)
  have below: "L ! i \<le> int i" if i: "i < ?n" for i
  proof (cases "i = ?n - 1")
    case False
    then have "L ! i \<noteq> int k - 1" using layout_distinct [OF L i, of "?n - 1"] all [OF i] lst k i by fastforce
    moreover have "i + 1 < ?n" using i False by simp
    ultimately show ?thesis using L unfolding layout_ok_def by blast
  qed (use lst i in auto)
  have "L ! i = int i" if "i < ?n" for i
    using that
  proof (induction i rule: less_induct)
    case (less i)
    show ?case
    proof (rule ccontr)
      assume ne: "L ! i \<noteq> int i"
      let ?j = "nat (L ! i)"
      have "0 \<le> L ! i" "L ! i < int i" using all [OF less.prems] below [OF less.prems] ne by auto
      then have j: "?j < i" "int ?j = L ! i" by auto
      then have "L ! ?j = L ! i" using less by simp
      then show False using layout_distinct [OF L, of i ?j] less.prems j all by fastforce
    qed
  qed
  then show ?thesis using k by (intro nth_equalityI) auto
qed

lemma layout_pop: "layout_ok k L \<Longrightarrow> L \<noteq> [] \<Longrightarrow> last L < 0 \<Longrightarrow> layout_ok k (butlast L)"
proof -
  assume L: "layout_ok k L" and ne: "L \<noteq> []" and neg: "last L < 0"
  have "L = butlast L @ [last L]" using ne by simp
  then have "filter (\<lambda>x. 0 \<le> x) L = filter (\<lambda>x. 0 \<le> x) (butlast L)" using neg
    by (metis append_Nil2 filter.simps(1) filter.simps(2) filter_append linorder_not_le)
  then show ?thesis using L by (auto simp: layout_ok_def nth_butlast dest: in_set_butlastD)
qed

lemma layout_swap:
  assumes L: "layout_ok k L" and v: "0 \<le> last L" "last L \<noteq> int (length L) - 1" and ne: "L \<noteq> []"
  defines "v \<equiv> nat (last L)"
  defines "L' \<equiv> (L[v := last L])[length L - 1 := L ! v]"
  shows "v + 1 < length L" "layout_ok k L'" "L ! v \<noteq> int v"
    and "\<And>i. i < length L \<Longrightarrow> L' ! i = (if i = v then int v else if i = length L - 1 then L ! v else L ! i)"
proof -
  have lst: "L ! (length L - 1) = last L" using ne by (simp add: last_conv_nth)
  have "last L < int k" using layout_entry [OF L, of "length L - 1"] lst v ne by auto
  then have vl: "v + 1 < length L" using layout_size [OF L] v ne by (auto simp: v_def)
  then show "v + 1 < length L" .
  have "length L - 1 < length L" "length L - 1 \<noteq> v" "v < length L" using vl by linarith+
  then have "L ! v \<noteq> last L" using layout_distinct [OF L, of "length L - 1" v] lst v by auto
  then show "L ! v \<noteq> int v" using v by (simp add: v_def)
  show nth: "\<And>i. i < length L \<Longrightarrow> L' ! i = (if i = v then int v else if i = length L - 1 then L ! v else L ! i)"
    using vl v by (auto simp: L'_def v_def)
  have "mset L' = mset L" using mset_swap [of v L "length L - 1"] vl lst ne unfolding L'_def by (simp add: list_update_swap)
  then have "mset (filter (\<lambda>x. 0 \<le> x) L') = mset (filter (\<lambda>x. 0 \<le> x) L)" "set L' = set L"
    by (simp_all add: mset_filter) (metis set_mset_mset)
  then have "distinct (filter (\<lambda>x. 0 \<le> x) L')" "set (filter (\<lambda>x. 0 \<le> x) L') = set (filter (\<lambda>x. 0 \<le> x) L)"
    using L mset_eq_imp_distinct_iff [of "filter (\<lambda>x. 0 \<le> x) L'" "filter (\<lambda>x. 0 \<le> x) L"] by (auto simp: layout_ok_def)
  moreover have "L' ! i \<le> int i \<or> L' ! i = int k - 1" if "i + 1 < length L" for i
    using L nth [of i] that by (auto simp: layout_ok_def)
  moreover have "length L' = length L" by (simp add: L'_def)
  ultimately show "layout_ok k L'" using L \<open>set L' = set L\<close> by (simp add: layout_ok_def)
qed

text \<open>The loop appends a sequence of operations that is determined by the layout, and takes the stack to the result.\<close>

definition unplaced :: "int list \<Rightarrow> nat" where
  "unplaced L = card {i. i < length L \<and> L ! i \<noteq> int i}"

lemma case_run_ops:
  "(case run_ops fs c of Inl e \<Rightarrow> Some (Inl e) | Inr c \<Rightarrow> Some (bindE (run_ops gs c) h)) = Some (bindE (run_ops (fs @ gs) c) h)"
  by (cases "run_ops fs c") (simp_all add: run_ops_append)

lemma nth_swap_stack:
  assumes S: "length S = n" "v + 1 < n"
  shows "swap_top (n - v - 1) (rev S @ st) = rev ((S[v := S ! (n - 1)])[n - 1 := S ! v]) @ st"
proof (rule nth_equalityI)
  fix j
  assume "j < length (swap_top (n - v - 1) (rev S @ st))"
  then have j: "j < n + length st" using S by simp
  have ix: "n - Suc (n - v - 1) = v" "n - v - 1 \<noteq> 0" "n - v - 1 < n" "v < n" "n - 1 < n" "v \<noteq> n - 1" using assms by auto
  consider "j = 0" | "j = n - v - 1" | "j \<noteq> 0" "j \<noteq> n - v - 1" "j < n" | "n \<le> j" by linarith
  then show "swap_top (n - v - 1) (rev S @ st) ! j = (rev ((S[v := S ! (n - 1)])[n - 1 := S ! v]) @ st) ! j"
  proof cases
    case 3
    then have "n - Suc j \<noteq> v" "n - Suc j \<noteq> n - 1" "n - Suc j < n" using assms by auto
    then show ?thesis using 3 ix S(1) by (simp add: swap_top_def nth_append rev_nth)
  qed (use ix S(1) j in \<open>simp_all add: swap_top_def nth_append rev_nth\<close>)
qed (use S in simp)

lemma reshuffle_end: "L = [] \<or> last L = int (length L) - 1 \<Longrightarrow> reshuffle ext L c = Some (Inr (L, c))"
  by (subst reshuffle.simps) simp

lemma reshuffle_pop:
  assumes "L \<noteq> []" "last L < 0" and rest: "\<And>c. reshuffle ext (butlast L) c = Some (bindE (run_ops fs c) h)"
  shows "reshuffle ext L c = Some (bindE (run_ops ([append_debug (layout_text L), append_op ext Instruction_POP] @ fs) c) h)"
proof -
  have "last L \<noteq> int (length L) - 1" using assms(1,2) by (cases L) auto
  then show ?thesis using assms(1,2) unfolding case_run_ops [symmetric] rest [symmetric] by (subst reshuffle.simps) simp
qed

lemma reshuffle_swap:
  assumes "last L = int v" "v + 1 < length L"
    and rest: "\<And>c. reshuffle ext ((L[v := int v])[length L - 1 := L ! v]) c = Some (bindE (run_ops fs c) h)"
  shows "reshuffle ext L c = Some (bindE (run_ops ([append_debug (layout_text L), append_swap ext (length L - v - 1)] @ fs) c) h)"
proof -
  have "nat (int (length L) - int v - 1) = length L - v - 1" "L \<noteq> []" "nat (last L) = v" using assms by auto
  then show ?thesis using assms(1,2) unfolding case_run_ops [symmetric] rest [symmetric] by (subst reshuffle.simps) (simp cong: sum.case_cong)
qed

lemma unplaced_pop: "L \<noteq> [] \<Longrightarrow> last L < 0 \<Longrightarrow> unplaced (butlast L) < unplaced L"
proof -
  assume L: "L \<noteq> []" "last L < 0"
  have "length L - 1 \<in> {i. i < length L \<and> L ! i \<noteq> int i}" using L last_conv_nth [OF L(1)] by simp
  moreover have "length L - 1 \<notin> {i. i < length (butlast L) \<and> butlast L ! i \<noteq> int i}" by simp
  moreover have "{i. i < length (butlast L) \<and> butlast L ! i \<noteq> int i} \<subseteq> {i. i < length L \<and> L ! i \<noteq> int i}" by (auto simp: nth_butlast)
  ultimately show ?thesis unfolding unplaced_def by (intro psubset_card_mono) auto
qed

lemma reshuffle_result:
  assumes "layout_ok k L" "length L \<le> 17" "places L S T" "length T = k"
  shows "\<exists>fs. (\<forall>c. reshuffle ext L c = Some (bindE (run_ops fs c) (\<lambda>c. Inr (map int [0..<k], c)))) \<and>
    (\<forall>cx. does cx (run_ops fs) (vm_at (rev S @ st) m) (vm_at (rev T @ st) m))"
  using assms
proof (induction "unplaced L" arbitrary: L S rule: less_induct)
  case less
  note L = less.prems(1)
  have S: "length S = length L" using less.prems(3) by (simp add: places_def)
  let ?n = "length L"
  consider "L = [] \<or> last L = int ?n - 1" | "L \<noteq> []" "last L < 0" | "L \<noteq> []" "0 \<le> last L" "last L \<noteq> int ?n - 1" by linarith
  then show ?case
  proof cases
    case 1
    have Lk: "L = map int [0..<k]" by (rule layout_done [OF L 1])
    have "S = T" using less.prems(3,4) unfolding Lk places_def by (intro nth_equalityI) auto
    moreover have "reshuffle ext L c = Some (bindE (run_ops [] c) (\<lambda>c. Inr (map int [0..<k], c)))" for c
      using reshuffle_end [OF 1] Lk by simp
    ultimately show ?thesis using does_Nil by blast
  next
    case 2
    let ?S = "butlast S"
    have "places (butlast L) ?S T" using less.prems(3) S by (auto simp: places_def nth_butlast)
    then obtain fs where fs: "\<And>c. reshuffle ext (butlast L) c = Some (bindE (run_ops fs c) (\<lambda>c. Inr (map int [0..<k], c)))"
        "\<And>cx. does cx (run_ops fs) (vm_at (rev ?S @ st) m) (vm_at (rev T @ st) m)"
      using less.hyps [OF unplaced_pop [OF 2] layout_pop [OF L 2]] less.prems(2,4) by fastforce
    have "rev S = last S # rev ?S" using S 2(1) by (metis append_butlast_last_id length_0_conv rev_eq_Cons_iff rev_rev_ident)
    then have "does cx (run_ops ([append_debug (layout_text L), append_op ext Instruction_POP] @ fs)) (vm_at (rev S @ st) m) (vm_at (rev T @ st) m)" for cx
      using does_append [OF does_Cons [OF effect_debug does_Cons [OF effect_POP does_Nil]] fs(2)] by (metis append_Cons)
    with reshuffle_pop [OF 2 fs(1)] show ?thesis by blast
  next
    case 3
    define v where "v = nat (last L)"
    define L' where "L' = (L[v := last L])[?n - 1 := L ! v]"
    note sw = layout_swap [OF L 3(2,3,1), folded v_def, folded L'_def]
    have v: "last L = int v" "L ! (?n - 1) = last L" using 3(1,2) by (simp_all add: v_def last_conv_nth)
    let ?S = "(S[v := S ! (?n - 1)])[?n - 1 := S ! v]"
    have len: "length L' = ?n" by (simp add: L'_def)
    have "{i. i < length L' \<and> L' ! i \<noteq> int i} \<subseteq> {i. i < ?n \<and> L ! i \<noteq> int i}" using sw(3,4) v 3(3) by (auto simp: len split: if_splits)
    moreover have "v \<in> {i. i < ?n \<and> L ! i \<noteq> int i}" "v \<notin> {i. i < length L' \<and> L' ! i \<noteq> int i}" using sw(1,3,4) len by auto
    ultimately have "unplaced L' < unplaced L" unfolding unplaced_def by (intro psubset_card_mono) auto
    moreover have "places L' ?S T"
      unfolding places_def
    proof (intro conjI allI impI)
      show "length ?S = length L'" using S len by simp
      fix i
      assume i: "i < length L'" "0 \<le> L' ! i"
      have "S ! (?n - 1) = T ! v" using less.prems(3) v sw(1) by (simp add: places_def)
      then show "?S ! i = T ! nat (L' ! i)" using i S sw(1,4) less.prems(3) by (auto simp: places_def len nth_list_update)
    qed
    ultimately obtain fs where fs: "\<And>c. reshuffle ext L' c = Some (bindE (run_ops fs c) (\<lambda>c. Inr (map int [0..<k], c)))"
        "\<And>cx. does cx (run_ops fs) (vm_at (rev ?S @ st) m) (vm_at (rev T @ st) m)"
      using less.hyps [OF _ sw(2)] less.prems(2,4) len by fastforce
    have "swap_top (?n - v - 1) (rev S @ st) = rev ?S @ st" using nth_swap_stack [of S ?n v st] S sw(1) by simp
    then have "does cx (append_swap ext (?n - v - 1)) (vm_at (rev S @ st) m) (vm_at (rev ?S @ st) m)" for cx
      using effect_swap [of "?n - v - 1" "rev S @ st" cx ext m] S sw(1) less.prems(2) by simp
    then have "does cx (run_ops ([append_debug (layout_text L), append_swap ext (?n - v - 1)] @ fs)) (vm_at (rev S @ st) m) (vm_at (rev T @ st) m)" for cx
      by (intro does_append [OF does_Cons [OF effect_debug does_Cons [OF _ does_Nil]] fs(2)])
    with reshuffle_swap [OF v(1) sw(1) fs(1) [unfolded L'_def v(1)]] show ?thesis by blast
  qed
qed

lemma layout_initial: "layout_ok (r + (if ret then 1 else 0)) (stack_layout ret a r)"
proof -
  let ?R = "map int [0..<r]" and ?L = "stack_layout ret a r"
  have R: "filter (\<lambda>x. 0 \<le> x) ?R = ?R" "distinct ?R" "set ?R = {0..<int r}"
    by (auto simp: distinct_map image_iff intro!: bexI [of _ "nat _"])
  have f: "filter (\<lambda>x. 0 \<le> x) ?L = (if ret then [int r] else []) @ ?R" using R by (simp add: stack_layout_def)
  have "?L ! i \<le> int i \<or> ?L ! i = int (r + (if ret then 1 else 0)) - 1" if "i < length ?L" for i
    using that by (auto simp: stack_layout_def nth_append nth_Cons' split: if_splits)
  moreover have "set (filter (\<lambda>x. 0 \<le> x) ?L) = {0..<int (r + (if ret then 1 else 0))}" unfolding f using R(3) by auto
  moreover have "distinct (filter (\<lambda>x. 0 \<le> x) ?L)" unfolding f using R by auto
  moreover have "\<forall>x \<in> set ?L. - 1 \<le> x" by (auto simp: stack_layout_def)
  ultimately show ?thesis by (auto simp: layout_ok_def)
qed

text \<open>
  C3. The end of a function rearranges the stack as the caller expects: whatever the numbers of arguments and returned values, the loop ends, its check holds, and the code
  drops the arguments and puts the return address above the returned values, whose order is kept; it is refused exactly when there are more than 17 slots. The first
  part is for functions that are called, the second for constructors and the fallback, which have no return address.
\<close>

theorem rearrange_correct:
  assumes "length args = a" "length vals = r"
  shows "(a + r \<le> 16 \<longrightarrow> (\<exists>fs. (\<forall>c. rearrange ext True a r c = Some (run_ops fs c)) \<and>
        (\<forall>cx. does cx (run_ops fs) (vm_at (rev vals @ rev args @ [address] @ st) m) (vm_at ([address] @ rev vals @ st) m)))) \<and>
    (a + r \<le> 17 \<longrightarrow> (\<exists>fs. (\<forall>c. rearrange ext False a r c = Some (run_ops fs c)) \<and>
        (\<forall>cx. does cx (run_ops fs) (vm_at (rev vals @ rev args @ st) m) (vm_at (rev vals @ st) m)))) \<and>
    (17 < a + r + of_bool ret \<longrightarrow> rearrange ext ret a r c = Some (Inl StackTooDeepError))"
proof -
  have main: "\<exists>fs. (\<forall>c. rearrange ext ret a r c = Some (run_ops fs c)) \<and> (\<forall>cx. does cx (run_ops fs) (vm_at (rev S @ st) m) (vm_at (rev T @ st) m))"
    if len: "length (stack_layout ret a r) \<le> 17" and S: "places (stack_layout ret a r) S T" and T: "length T = r + (if ret then 1 else 0)" for ret S T
  proof -
    obtain fs where fs: "\<And>c. reshuffle ext (stack_layout ret a r) c = Some (bindE (run_ops fs c) (\<lambda>c. Inr (map int [0..<r + (if ret then 1 else 0)], c)))"
        "\<And>cx. does cx (run_ops fs) (vm_at (rev S @ st) m) (vm_at (rev T @ st) m)"
      using reshuffle_result [OF layout_initial len S T, of ext st m] by blast
    have "rearrange ext ret a r c = Some (run_ops fs c)" for c
      using len by (cases "run_ops fs c") (simp_all add: rearrange_def fs(1) assertThrow_def)
    then show ?thesis using fs(2) by blast
  qed
  have "\<exists>fs. (\<forall>c. rearrange ext True a r c = Some (run_ops fs c)) \<and>
      (\<forall>cx. does cx (run_ops fs) (vm_at (rev vals @ rev args @ [address] @ st) m) (vm_at ([address] @ rev vals @ st) m))" if "a + r \<le> 16"
  proof -
    have "places (stack_layout True a r) ([address] @ args @ vals) (vals @ [address])"
      unfolding places_def
    proof (intro conjI allI impI)
      fix i
      assume "i < length (stack_layout True a r)" "0 \<le> stack_layout True a r ! i"
      moreover have "nat (int x - int y) = x - y" for x y by simp
      ultimately show "([address] @ args @ vals) ! i = (vals @ [address]) ! nat (stack_layout True a r ! i)"
        using assms by (cases i) (auto simp: stack_layout_def nth_append split: if_splits)
    qed (use assms in \<open>simp add: stack_layout_def\<close>)
    from main [OF _ this] show ?thesis using assms that by (simp add: stack_layout_def)
  qed
  moreover have "\<exists>fs. (\<forall>c. rearrange ext False a r c = Some (run_ops fs c)) \<and>
      (\<forall>cx. does cx (run_ops fs) (vm_at (rev vals @ rev args @ st) m) (vm_at (rev vals @ st) m))" if "a + r \<le> 17"
  proof -
    have "places (stack_layout False a r) (args @ vals) vals"
      using assms by (auto simp: places_def stack_layout_def nth_append nat_diff_distrib split: if_splits)
    from main [OF _ this] show ?thesis using assms that by (simp add: stack_layout_def)
  qed
  moreover have "rearrange ext ret a r c = Some (Inl StackTooDeepError)" if "17 < a + r + of_bool ret"
    using that by (cases ret) (simp_all add: rearrange_def stack_layout_def)
  ultimately show ?thesis by blast
qed

theorem rearrange_correct_witness:
  "\<forall>ext cx m. \<exists>fs. (\<forall>c. rearrange ext True 2 1 c = Some (run_ops fs c)) \<and>
     does cx (run_ops fs) (vm_at [30, 20, 10, 7, 5] m) (vm_at [7, 30, 5] m)"
proof (intro allI)
  fix ext :: CodegenExternal and cx m
  have "\<exists>fs. (\<forall>c. rearrange ext True 2 1 c = Some (run_ops fs c)) \<and>
      (\<forall>cx. does cx (run_ops fs) (vm_at (rev [30] @ rev [10, 20] @ [7] @ [5]) m) (vm_at ([7] @ rev [30] @ [5]) m))"
    using rearrange_correct [where args = "[10, 20]" and a = 2 and vals = "[30]" and r = 1 and address = 7 and st = "[5]" and ext = ext and m = m] by simp
  then show "\<exists>fs. (\<forall>c. rearrange ext True 2 1 c = Some (run_ops fs c)) \<and> does cx (run_ops fs) (vm_at [30, 20, 10, 7, 5] m) (vm_at [7, 30, 5] m)" by auto
qed

section \<open>The dispatch on the selector\<close>

text \<open>Code that jumps to a label, wherever the label is in the program.\<close>

definition jumps :: "AssemblyItem list \<Rightarrow> VM \<Rightarrow> u256 \<Rightarrow> VM \<Rightarrow> bool" where
  "jumps code vm l vm' \<longleftrightarrow>
     (\<forall>pre post k. distinct (labels (pre @ code @ post)) \<longrightarrow> k < length (pre @ code @ post) \<longrightarrow> is_label l ((pre @ code @ post) ! k) \<longrightarrow>
        runs (pre @ code @ post) (length pre, vm) (k, vm'))"

lemma jumps_after: "executes xs vm vm1 \<Longrightarrow> jumps ys vm1 l vm2 \<Longrightarrow> jumps (xs @ ys) vm l vm2"
  unfolding jumps_def
proof (intro allI impI)
  fix pre post k
  let ?P = "pre @ (xs @ ys) @ post"
  assume x: "executes xs vm vm1" and y: "\<forall>pre post k. distinct (labels (pre @ ys @ post)) \<longrightarrow> k < length (pre @ ys @ post) \<longrightarrow>
      is_label l ((pre @ ys @ post) ! k) \<longrightarrow> runs (pre @ ys @ post) (length pre, vm1) (k, vm2)"
    and d: "distinct (labels ?P)" and k: "k < length ?P" "is_label l (?P ! k)"
  have P: "?P = pre @ xs @ (ys @ post)" "?P = (pre @ xs) @ ys @ post" by simp_all
  have "runs ?P (length pre, vm) (length pre + length xs, vm1)" by (rule runs_code [OF P(1) x d refl])
  moreover have "runs ?P (length pre + length xs, vm1) (k, vm2)" using y [rule_format, of "pre @ xs" post k] d k by (simp add: P(2))
  ultimately show "runs ?P (length pre, vm) (k, vm2)" by (rule runs_trans)
qed

lemma jumps_first: "jumps xs vm l vm2 \<Longrightarrow> jumps (xs @ ys) vm l vm2"
  unfolding jumps_def
proof (intro allI impI)
  fix pre post k
  assume x: "\<forall>pre post k. distinct (labels (pre @ xs @ post)) \<longrightarrow> k < length (pre @ xs @ post) \<longrightarrow>
      is_label l ((pre @ xs @ post) ! k) \<longrightarrow> runs (pre @ xs @ post) (length pre, vm) (k, vm2)"
    and "distinct (labels (pre @ (xs @ ys) @ post))" "k < length (pre @ (xs @ ys) @ post)" "is_label l ((pre @ (xs @ ys) @ post) ! k)"
  then show "runs (pre @ (xs @ ys) @ post) (length pre, vm) (k, vm2)" using x [rule_format, of pre "ys @ post" k] by simp
qed

lemma jumps_jump:
  assumes "is_jump op l code" "op = Instruction_JUMP \<and> bs = [] \<or> op = Instruction_JUMPI \<and> bs = [b] \<and> b \<noteq> 0"
  shows "jumps code (vm_at (bs @ st) m) l (vm_at st m)"
  unfolding jumps_def
proof (intro allI impI)
  fix pre post k
  let ?P = "pre @ code @ post"
  assume P: "distinct (labels ?P)" "k < length ?P" "is_label l (?P ! k)"
  show "runs ?P (length pre, vm_at (bs @ st) m) (k, vm_at st m)"
    by (rule runs_trans [OF runs_push_tag [OF refl assms(1)] runs_jump_step [OF refl assms P]])
qed

lemma executes_no_jump: "is_jump Instruction_JUMPI l code \<Longrightarrow> executes code (vm_at (0 # st) m) (vm_at st m)"
  unfolding executes_def
proof (intro allI impI)
  fix pre post
  assume j: "is_jump Instruction_JUMPI l code"
  have "runs (pre @ code @ post) (length pre, vm_at (0 # st) m) (length pre + 2, vm_at st m)"
    by (rule runs_trans [OF runs_push_tag [OF refl j] runs_no_jump [OF refl j]])
  then show "runs (pre @ code @ post) (length pre, vm_at (0 # st) m) (length pre + length code, vm_at st m)"
    using is_jump_simps [OF j] by simp
qed

text \<open>Appending a jump to a label.\<close>

lemma pair_appended:
  fixes ext :: CodegenExternal
  assumes a: "tracks a (vm_at (bs @ st) m)" and p: "it_type p = PushTag" "it_data p = Some l" and j: "it_type j = Operation" "it_instruction j = op"
    and op: "op = Instruction_JUMP \<and> bs = [] \<or> op = Instruction_JUMPI \<and> bs = [b]"
  obtains a1 a2 x y code where "Assembly_append (cg_external ext) p a = Inr (x, a1)" "Assembly_append (cg_external ext) j a1 = Inr (y, a2)"
    "adds a code 0 a2" "is_jump op l code" "tracks a2 (vm_at st m)"
proof
  let ?a1 = "upd (\<lambda>s. s\<lparr>m_deposit := m_deposit s + sint (ucast (item_deposit p) :: u32), m_items := m_items s @ [located ext a p]\<rparr>) a"
  let ?a2 = "upd (\<lambda>s. s\<lparr>m_deposit := m_deposit s + sint (ucast (item_deposit j) :: u32), m_items := m_items s @ [located ext ?a1 j]\<rparr>) ?a1"
  have t1: "tracks ?a1 (vm_at (l # bs @ st) m)" using a jump_deposits(3) [OF p(1)] by (simp add: tracks_def)
  have dj: "item_deposit j = item_deposit (AssemblyItem_of_instruction op SourceLocation_default)"
    using j by (simp add: item_deposit_def item_returnValues_def item_arguments_def AssemblyItem_of_instruction_def)
  show "Assembly_append (cg_external ext) p a = Inr (located ext a p, ?a1)" by (rule Assembly_append_eq [OF a])
  show "Assembly_append (cg_external ext) j ?a1 = Inr (located ext ?a1 j, ?a2)" by (rule Assembly_append_eq [OF t1])
  show "adds a [located ext a p, located ext ?a1 j] 0 ?a2" by (simp add: adds_def next_label_def)
  show "is_jump op l [located ext a p, located ext ?a1 j]" using p j by (simp add: is_jump_def)
  show "tracks ?a2 (vm_at st m)" using a op dj jump_deposits(3) [OF p(1)] jump_deposits(1,2) by (auto simp: tracks_def)
qed

lemma pushTag_of_label: "is_label l t \<Longrightarrow> \<exists>p. item_pushTag t = Inr p \<and> it_type p = PushTag \<and> it_data p = Some l"
  by (simp add: is_label_def item_pushTag_def item_data_def assertThrow_def AssemblyItem_make_def)

lemma conditional_jump_to_appended:
  fixes ext :: CodegenExternal
  assumes "tracks a (vm_at (b # st) m)" "is_label l t"
  obtains a' code where "appendConditionalJumpTo ext t (c\<lparr>m_asm := a\<rparr>) = Inr (c\<lparr>m_asm := a'\<rparr>)" "adds a code 0 a'" "is_jump Instruction_JUMPI l code"
    "tracks a' (vm_at st m)"
proof -
  obtain p where p: "item_pushTag t = Inr p" "it_type p = PushTag" "it_data p = Some l" using pushTag_of_label [OF assms(2)] by blast
  have j: "it_type (AssemblyItem_of_instruction Instruction_JUMPI SourceLocation_default) = Operation"
    "it_instruction (AssemblyItem_of_instruction Instruction_JUMPI SourceLocation_default) = Instruction_JUMPI" by (simp_all add: AssemblyItem_of_instruction_def)
  show thesis
    by (rule pair_appended [where ext = ext, of a "[b]" st m p l, OF _ p(2,3) j]) (use assms(1) p that in \<open>auto simp: appendConditionalJumpTo_def from_asm_def appendJumpITo_def appendInstruction_def\<close>)
qed

lemma jump_to_appended:
  fixes ext :: CodegenExternal
  assumes "tracks a (vm_at st m)" "is_label l t"
  obtains a' code where "CompilerContext_appendJumpTo ext t jt (c\<lparr>m_asm := a\<rparr>) = Inr (c\<lparr>m_asm := a'\<rparr>)" "adds a code 0 a'" "is_jump Instruction_JUMP l code"
    "tracks a' (vm_at st m)"
proof -
  obtain p where p: "item_pushTag t = Inr p" "it_type p = PushTag" "it_data p = Some l" using pushTag_of_label [OF assms(2)] by blast
  let ?j = "(AssemblyItem_of_instruction Instruction_JUMP SourceLocation_default)\<lparr>it_jumpType := jt\<rparr>"
  have j: "it_type ?j = Operation" "it_instruction ?j = Instruction_JUMP" by (simp_all add: AssemblyItem_of_instruction_def)
  show thesis
    by (rule pair_appended [where ext = ext, of a "[]" st m p l, OF _ p(2,3) j])
      (use assms(1) p that in \<open>auto simp: CompilerContext_appendJumpTo_def CompilerContext_appendJump_def run_ops_Cons append_item_def on_asm_def\<close>)
qed

text \<open>One comparison.\<close>

lemma selector_test_appended:
  fixes ext :: CodegenExternal
  assumes a: "tracks a (vm_at (s # st) m)" "next_label a < 2 ^ 32" and t: "is_label l t"
  shows "\<exists>a' code. selector_test ext i t (c\<lparr>m_asm := a\<rparr>) = Inr (c\<lparr>m_asm := a'\<rparr>) \<and> adds a code 0 a' \<and> labels code = [] \<and> tracks a' (vm_at (s # st) m) \<and>
    (s = i \<longrightarrow> jumps code (vm_at (s # st) m) l (vm_at (s # st) m)) \<and> (s \<noteq> i \<longrightarrow> executes code (vm_at (s # st) m) (vm_at (s # st) m))"
proof -
  let ?b = "of_bool (i = s) :: u256"
  have "does c (run_ops [append_dup ext 1, append_value ext i, append_op ext Instruction_EQ]) (vm_at (s # st) m) (vm_at (?b # s # st) m)"
    using effect_dup [of 1 "s # st" c ext m] by (intro does_Cons [OF _ does_Cons [OF effect_value does_Cons [OF effect_EQ does_Nil]]]) simp
  then obtain a1 code where 1: "run_ops [append_dup ext 1, append_value ext i, append_op ext Instruction_EQ] (c\<lparr>m_asm := a\<rparr>) = Inr (c\<lparr>m_asm := a1\<rparr>)"
      "adds a code 0 a1" "executes code (vm_at (s # st) m) (vm_at (?b # s # st) m)" "tracks a1 (vm_at (?b # s # st) m)" "fresh_code (next_label a) 0 code"
    by (rule labelled_addsD) (use a in auto)
  obtain a2 j where 2: "appendConditionalJumpTo ext t (c\<lparr>m_asm := a1\<rparr>) = Inr (c\<lparr>m_asm := a2\<rparr>)" "adds a1 j 0 a2" "is_jump Instruction_JUMPI l j"
      "tracks a2 (vm_at (s # st) m)"
    by (rule conditional_jump_to_appended [OF 1(4) t])
  have "selector_test ext i t (c\<lparr>m_asm := a\<rparr>) = Inr (c\<lparr>m_asm := a2\<rparr>)"
    using 1(1) 2(1) unfolding selector_test_def by (auto simp: run_ops_Cons bindE_Inr)
  moreover have "jumps (code @ j) (vm_at (s # st) m) l (vm_at (s # st) m)" if "s = i"
  proof (rule jumps_after)
    show "executes code (vm_at (s # st) m) (vm_at (1 # s # st) m)" using 1(3) that by simp
    show "jumps j (vm_at (1 # s # st) m) l (vm_at (s # st) m)" using jumps_jump [OF 2(3), of "[1]" 1 "s # st" m] by simp
  qed
  moreover have "executes (code @ j) (vm_at (s # st) m) (vm_at (s # st) m)" if "s \<noteq> i"
  proof (rule executes_append)
    show "executes code (vm_at (s # st) m) (vm_at (0 # s # st) m)" using 1(3) that by simp
    show "executes j (vm_at (0 # s # st) m) (vm_at (s # st) m)" by (rule executes_no_jump [OF 2(3)])
  qed
  moreover have "labels (code @ j) = []" using 1(5) is_jump_simps [OF 2(3)] by (simp add: fresh_code_def)
  ultimately show ?thesis using 1(2) 2(2,4) by (intro exI [of _ a2] exI [of _ "code @ j"]) (simp add: adds_def)
qed

text \<open>A sequence of comparisons: the first one that holds jumps.\<close>

lemma selector_tests_appended:
  fixes ext :: CodegenExternal
  assumes "tracks a (vm_at (s # st) m)" "next_label a < 2 ^ 32" "\<forall>p \<in> set ts. \<exists>l. is_label l (snd p)"
  shows "\<exists>a' code. foldE (\<lambda>c (i, t). selector_test ext i t c) (c\<lparr>m_asm := a\<rparr>) ts = Inr (c\<lparr>m_asm := a'\<rparr>) \<and> adds a code 0 a' \<and> labels code = [] \<and>
    tracks a' (vm_at (s # st) m) \<and>
    (case find (\<lambda>(i, t). i = s) ts of
       Some (i, t) \<Rightarrow> (\<forall>l. is_label l t \<longrightarrow> jumps code (vm_at (s # st) m) l (vm_at (s # st) m))
     | None \<Rightarrow> executes code (vm_at (s # st) m) (vm_at (s # st) m))"
  using assms
proof (induction ts arbitrary: a)
  case Nil
  have "adds a [] 0 a" by (simp add: adds_def)
  with Nil show ?case by (auto intro!: exI [of _ "[]"] simp: executes_Nil)
next
  case (Cons p ts)
  obtain i t where p: "p = (i, t)" by (cases p)
  obtain l where l: "is_label l t" using Cons.prems(3) p by auto
  obtain a1 code where 1: "selector_test ext i t (c\<lparr>m_asm := a\<rparr>) = Inr (c\<lparr>m_asm := a1\<rparr>)" "adds a code 0 a1" "labels code = []" "tracks a1 (vm_at (s # st) m)"
      "s = i \<Longrightarrow> jumps code (vm_at (s # st) m) l (vm_at (s # st) m)" "s \<noteq> i \<Longrightarrow> executes code (vm_at (s # st) m) (vm_at (s # st) m)"
    using selector_test_appended [OF Cons.prems(1,2) l] by blast
  have "next_label a1 < 2 ^ 32" using 1(2) Cons.prems(2) by (simp add: adds_def)
  then obtain a2 code' where 2: "foldE (\<lambda>c (i, t). selector_test ext i t c) (c\<lparr>m_asm := a1\<rparr>) ts = Inr (c\<lparr>m_asm := a2\<rparr>)" "adds a1 code' 0 a2"
      "labels code' = []" "tracks a2 (vm_at (s # st) m)"
      "case find (\<lambda>(i, t). i = s) ts of
         Some (i, t) \<Rightarrow> (\<forall>l. is_label l t \<longrightarrow> jumps code' (vm_at (s # st) m) l (vm_at (s # st) m))
       | None \<Rightarrow> executes code' (vm_at (s # st) m) (vm_at (s # st) m)"
    using Cons.IH [OF 1(4)] Cons.prems(3) by auto
  have "case find (\<lambda>(i, t). i = s) (p # ts) of
         Some (i, t) \<Rightarrow> (\<forall>l. is_label l t \<longrightarrow> jumps (code @ code') (vm_at (s # st) m) l (vm_at (s # st) m))
       | None \<Rightarrow> executes (code @ code') (vm_at (s # st) m) (vm_at (s # st) m)"
  proof (cases "s = i")
    case True
    then have "jumps (code @ code') (vm_at (s # st) m) l (vm_at (s # st) m)" using jumps_first [OF 1(5)] by blast
    moreover have "l' = l" if "is_label l' t" for l' using that l by (simp add: is_label_def)
    ultimately show ?thesis using p True by auto
  next
    case False
    then have "i \<noteq> s" and e: "executes code (vm_at (s # st) m) (vm_at (s # st) m)" using 1(6) by auto
    then show ?thesis using 2(5) p jumps_after [OF e] executes_append [OF e] by (auto split: option.splits)
  qed
  moreover have "foldE (\<lambda>c (i, t). selector_test ext i t c) (c\<lparr>m_asm := a\<rparr>) (p # ts) = Inr (c\<lparr>m_asm := a2\<rparr>)" using 1(1) 2(1) p by simp
  moreover have "adds a (code @ code') 0 a2" using 1(2) 2(2) by (simp add: adds_def)
  ultimately show ?case using 1(3) 2(3,4) by (intro exI [of _ a2] exI [of _ "code @ code'"]) simp
qed

text \<open>Where a call goes: to the first function with the selector, else to the first callback with it, else to the code for unknown calls.\<close>

definition dispatch :: "(u256 \<times> AssemblyItem) list \<Rightarrow> AssemblyItem \<Rightarrow> u256 \<Rightarrow> AssemblyItem" where
  "dispatch ts notFound s = (case find (\<lambda>(i, t). i = s) ts of None \<Rightarrow> notFound | Some (i, t) \<Rightarrow> t)"

definition selector_table :: "(bytes \<times> AssemblyItem) list \<Rightarrow> bytes list \<Rightarrow> (nat \<times> AssemblyItem) list \<Rightarrow> (u256 \<times> AssemblyItem) list" where
  "selector_table entryPoints ids callbacks =
     map (\<lambda>i. (FixedHash_arith i, the (map_find i entryPoints))) ids @ map (\<lambda>(i, t). (word_of_nat i, t)) callbacks"

lemma fold_ids:
  "\<forall>i \<in> set ids. map_find i entryPoints \<noteq> None \<Longrightarrow>
     foldE (\<lambda>c i. bindE (map_at i entryPoints) (\<lambda>tag. f (FixedHash_arith i) tag c)) c ids =
     foldE (\<lambda>c (i, t). f i t c) c (map (\<lambda>i. (FixedHash_arith i, the (map_find i entryPoints))) ids)"
proof (induction ids arbitrary: c)
  case (Cons i ids)
  then obtain t where t: "map_find i entryPoints = Some t" by auto
  then have "map_at i entryPoints = Inr t" by (simp add: map_at_def map_find_def)
  then show ?case using Cons t by (cases "f (FixedHash_arith i) t c") simp_all
qed simp

lemma fold_callbacks: "foldE (\<lambda>c (i, t). f (word_of_nat i) t c) c cs = foldE (\<lambda>c (i, t). f i t c) c (map (\<lambda>(i, t). (word_of_nat i, t)) cs)"
proof (induction cs arbitrary: c)
  case (Cons p cs)
  then show ?case by (cases p; cases "f (word_of_nat (fst p)) (snd p) c") simp_all
qed simp

lemma debug_eq: "tracks a vm \<Longrightarrow> \<exists>a'. append_debug d (c\<lparr>m_asm := a\<rparr>) = Inr (c\<lparr>m_asm := a'\<rparr>) \<and> adds a [] 0 a' \<and> tracks a' vm"
  by (auto simp: append_debug_def on_asm_def appendDebugInfo_def Let_def adds_def tracks_def next_label_def)

lemma find_append: "find P (xs @ ys) = (case find P xs of None \<Rightarrow> find P ys | Some x \<Rightarrow> Some x)"
  by (induction xs) auto

lemma tests_then_jump:
  assumes 1: "case find (\<lambda>(i, t). i = s) xs of Some (i, t) \<Rightarrow> (\<forall>l. is_label l t \<longrightarrow> jumps c1 vm l vm) | None \<Rightarrow> executes c1 vm vm"
    and 2: "case find (\<lambda>(i, t). i = s) ys of Some (i, t) \<Rightarrow> (\<forall>l. is_label l t \<longrightarrow> jumps c2 vm l vm) | None \<Rightarrow> executes c2 vm vm"
    and 3: "\<And>l. is_label l notFound \<Longrightarrow> jumps c3 vm l vm" and l: "is_label l (dispatch (xs @ ys) notFound s)"
  shows "jumps (c1 @ c2 @ c3) vm l vm"
proof (cases "find (\<lambda>(i, t). i = s) xs")
  case None
  then have e1: "executes c1 vm vm" using 1 by simp
  show ?thesis
  proof (cases "find (\<lambda>(i, t). i = s) ys")
    case None': None
    then have e2: "executes c2 vm vm" using 2 by simp
    have "is_label l notFound" using l None None' by (simp add: dispatch_def find_append)
    then show ?thesis by (intro jumps_after [OF e1] jumps_after [OF e2] 3)
  next
    case (Some p)
    then have "jumps c2 vm l vm" using 2 l None by (auto simp: dispatch_def find_append split: prod.splits)
    then show ?thesis by (intro jumps_after [OF e1] jumps_first)
  qed
next
  case (Some p)
  then have "jumps c1 vm l vm" using 1 l by (auto simp: dispatch_def find_append split: prod.splits)
  then show ?thesis by (rule jumps_first)
qed

lemma selector_code:
  fixes ext :: CodegenExternal and c :: ctx
  assumes a: "tracks a (vm_at (s # st) m)" "next_label a < 2 ^ 32" and ids: "\<forall>i \<in> set ids. map_find i entryPoints \<noteq> None"
    and tags: "\<forall>p \<in> set (selector_table entryPoints ids (m_awaitCallbacks c)). \<exists>l. is_label l (snd p)" and nf: "is_label n notFound"
  shows "\<exists>a' code. appendInternalSelector ext entryPoints ids notFound (c\<lparr>m_asm := a\<rparr>) = Inr (c\<lparr>m_asm := a'\<rparr>) \<and> adds a code 0 a' \<and> labels code = [] \<and>
    tracks a' (vm_at (s # st) m) \<and>
    (\<forall>l. is_label l (dispatch (selector_table entryPoints ids (m_awaitCallbacks c)) notFound s) \<longrightarrow> jumps code (vm_at (s # st) m) l (vm_at (s # st) m))"
proof -
  let ?vm = "vm_at (s # st) m"
  let ?t1 = "map (\<lambda>i. (FixedHash_arith i :: u256, the (map_find i entryPoints))) ids" and ?t2 = "map (\<lambda>(i, t). (word_of_nat i :: u256, t)) (m_awaitCallbacks c)"
  obtain a1 where 1: "append_debug ''ContractCompiler::appendInternalSelector()'' (c\<lparr>m_asm := a\<rparr>) = Inr (c\<lparr>m_asm := a1\<rparr>)" "adds a [] 0 a1" "tracks a1 ?vm"
    using debug_eq [OF a(1)] by blast
  obtain a2 where 2: "append_debug ''function selector'' (c\<lparr>m_asm := a1\<rparr>) = Inr (c\<lparr>m_asm := a2\<rparr>)" "adds a1 [] 0 a2" "tracks a2 ?vm"
    using debug_eq [OF 1(3)] by blast
  have n2: "next_label a2 < 2 ^ 32" using a(2) 1(2) 2(2) by (simp add: adds_def)
  obtain a3 c1 where 3: "foldE (\<lambda>c (i, t). selector_test ext i t c) (c\<lparr>m_asm := a2\<rparr>) ?t1 = Inr (c\<lparr>m_asm := a3\<rparr>)" "adds a2 c1 0 a3" "labels c1 = []" "tracks a3 ?vm"
      "case find (\<lambda>(i, t). i = s) ?t1 of Some (i, t) \<Rightarrow> (\<forall>l. is_label l t \<longrightarrow> jumps c1 ?vm l ?vm) | None \<Rightarrow> executes c1 ?vm ?vm"
    using selector_tests_appended [OF 2(3) n2, of ?t1 ext c] tags by (auto simp: selector_table_def)
  obtain a4 where 4: "append_debug ''callback selector'' (c\<lparr>m_asm := a3\<rparr>) = Inr (c\<lparr>m_asm := a4\<rparr>)" "adds a3 [] 0 a4" "tracks a4 ?vm"
    using debug_eq [OF 3(4)] by blast
  have n4: "next_label a4 < 2 ^ 32" using n2 3(2) 4(2) by (simp add: adds_def)
  obtain a5 c2 where 5: "foldE (\<lambda>c (i, t). selector_test ext i t c) (c\<lparr>m_asm := a4\<rparr>) ?t2 = Inr (c\<lparr>m_asm := a5\<rparr>)" "adds a4 c2 0 a5" "labels c2 = []" "tracks a5 ?vm"
      "case find (\<lambda>(i, t). i = s) ?t2 of Some (i, t) \<Rightarrow> (\<forall>l. is_label l t \<longrightarrow> jumps c2 ?vm l ?vm) | None \<Rightarrow> executes c2 ?vm ?vm"
    using selector_tests_appended [OF 4(3) n4, of ?t2 ext c] tags by (auto simp: selector_table_def)
  obtain a6 where 6: "append_debug ''not found'' (c\<lparr>m_asm := a5\<rparr>) = Inr (c\<lparr>m_asm := a6\<rparr>)" "adds a5 [] 0 a6" "tracks a6 ?vm"
    using debug_eq [OF 5(4)] by blast
  obtain a7 c3 where 7: "CompilerContext_appendJumpTo ext notFound Ordinary (c\<lparr>m_asm := a6\<rparr>) = Inr (c\<lparr>m_asm := a7\<rparr>)" "adds a6 c3 0 a7"
      "is_jump Instruction_JUMP n c3" "tracks a7 ?vm"
    by (rule jump_to_appended [OF 6(3) nf])
  obtain a8 where 8: "append_debug ''end of ContractCompiler::appendInternalSelector()'' (c\<lparr>m_asm := a7\<rparr>) = Inr (c\<lparr>m_asm := a8\<rparr>)" "adds a7 [] 0 a8" "tracks a8 ?vm"
    using debug_eq [OF 7(4)] by blast
  have "appendInternalSelector ext entryPoints ids notFound (c\<lparr>m_asm := a\<rparr>) = Inr (c\<lparr>m_asm := a8\<rparr>)"
    unfolding appendInternalSelector_def fold_ids [OF ids, where f = "selector_test ext"] fold_callbacks [where f = "selector_test ext"]
    using 1(1) 2(1) 3(1) 4(1) 5(1) 6(1) 7(1) 8(1) by (simp add: run_ops_Cons)
  moreover have j3: "jumps c3 ?vm l ?vm" if "is_label l notFound" for l
    using jumps_jump [OF 7(3), of "[]" undefined "s # st" m] nf that by (simp add: is_label_def)
  moreover have "jumps (c1 @ c2 @ c3) ?vm l ?vm" if "is_label l (dispatch (selector_table entryPoints ids (m_awaitCallbacks c)) notFound s)" for l
    by (rule tests_then_jump [OF 3(5) 5(5) j3 that [unfolded selector_table_def]])
  moreover have "adds a (c1 @ c2 @ c3) 0 a8" using 1(2) 2(2) 3(2) 4(2) 5(2) 6(2) 7(2) 8(2) by (simp add: adds_def)
  moreover have "labels (c1 @ c2 @ c3) = []" using 3(3) 5(3) is_jump_simps [OF 7(3)] by simp
  ultimately show ?thesis using 8(3) by blast
qed

text \<open>
  C4. The code of the dispatch jumps to the entry of the function with the selector on the stack, else to the callback with that number, else to the code for
  unknown calls; the selector stays on the stack and the generator tracks its height.
\<close>

theorem appendInternalSelector_dispatches:
  fixes c :: ctx
  assumes "m_deposit (m_state (m_asm c)) = int (length (s # st))"
    and "\<forall>i. i \<in> set ids \<longrightarrow> map_find i entryPoints \<noteq> None"
    and "\<forall>p. p \<in> set (selector_table entryPoints ids (m_awaitCallbacks c)) \<longrightarrow> (\<exists>l. is_label l (snd p))" and "is_label n notFound"
  shows "\<exists>c' code. appendInternalSelector ext entryPoints ids notFound c = Inr c' \<and>
    m_items (m_state (m_asm c')) = m_items (m_state (m_asm c)) @ code \<and> labels code = [] \<and>
    m_deposit (m_state (m_asm c')) = m_deposit (m_state (m_asm c)) \<and>
    (\<forall>pre post k l. distinct (labels (pre @ code @ post)) \<longrightarrow> k < length (pre @ code @ post) \<longrightarrow>
       is_label l (dispatch (selector_table entryPoints ids (m_awaitCallbacks c)) notFound s) \<longrightarrow> is_label l ((pre @ code @ post) ! k) \<longrightarrow>
       runs (pre @ code @ post) (length pre, vm_at (s # st) m) (k, vm_at (s # st) m))"
proof -
  have a: "tracks (m_asm c) (vm_at (s # st) m)" "next_label (m_asm c) < 2 ^ 32"
    using assms(1) unsigned_less [of "m_usedTags (m_state (m_asm c))"] by (simp_all add: tracks_def next_label_def)
  obtain a' code where "appendInternalSelector ext entryPoints ids notFound (c\<lparr>m_asm := m_asm c\<rparr>) = Inr (c\<lparr>m_asm := a'\<rparr>)" "adds (m_asm c) code 0 a'"
      "labels code = []" "tracks a' (vm_at (s # st) m)"
      "\<And>l. is_label l (dispatch (selector_table entryPoints ids (m_awaitCallbacks c)) notFound s) \<Longrightarrow> jumps code (vm_at (s # st) m) l (vm_at (s # st) m)"
    using selector_code [OF a, of ids entryPoints c n notFound ext] assms(2-4) by blast
  then show ?thesis using assms(1)
    by (intro exI [of _ "c\<lparr>m_asm := a'\<rparr>"] exI [of _ code]) (simp add: adds_def tracks_def jumps_def)
qed

definition example_tag :: "u256 \<Rightarrow> AssemblyItem" where
  "example_tag l = AssemblyItem_make Tag l SourceLocation_default ''''"

theorem appendInternalSelector_dispatches_witness:
  "\<forall>ext (c :: ctx) m. \<exists>c' code.
     appendInternalSelector ext [([0, 0, 0, 7], example_tag 2), ([0, 0, 1, 0], example_tag 3)] [[0, 0, 0, 7], [0, 0, 1, 0]] (example_tag 4)
       (c\<lparr>m_awaitCallbacks := [(9, example_tag 5)], m_asm := upd (\<lambda>s. s\<lparr>m_deposit := 1\<rparr>) (m_asm c)\<rparr>) = Inr c' \<and>
     runs (code @ [example_tag 2, example_tag 3, example_tag 4, example_tag 5]) (0, vm_at [256] m) (length code + 1, vm_at [256] m) \<and>
     labels code = []"
proof (intro allI)
  fix ext and c :: ctx and m
  let ?c = "c\<lparr>m_awaitCallbacks := [(9, example_tag 5)], m_asm := upd (\<lambda>s. s\<lparr>m_deposit := 1\<rparr>) (m_asm c)\<rparr>"
  let ?e = "[([0, 0, 0, 7], example_tag 2), ([0, 0, 1, 0], example_tag 3)] :: (bytes \<times> AssemblyItem) list" and ?ids = "[[0, 0, 0, 7], [0, 0, 1, 0]] :: bytes list"
  have tag: "is_label l (example_tag k) \<longleftrightarrow> l = k" for l k by (auto simp: example_tag_def is_label_def AssemblyItem_make_def)
  have n: "FixedHash_arith [0, 0, 0, 7] = (7 :: u256)" "FixedHash_arith [0, 0, 1, 0] = (256 :: u256)" by code_simp+
  have t: "selector_table ?e ?ids (m_awaitCallbacks ?c) = [(7, example_tag 2), (256, example_tag 3), (9, example_tag 5)]"
    by (simp add: selector_table_def n map_find_def)
  have d: "dispatch [(7, example_tag 2), (256, example_tag 3), (9, example_tag 5)] (example_tag 4) 256 = example_tag 3" by (simp add: dispatch_def)
  obtain c' code where r: "appendInternalSelector ext ?e ?ids (example_tag 4) ?c = Inr c'" "labels code = []"
      "\<And>pre post k l. distinct (labels (pre @ code @ post)) \<Longrightarrow> k < length (pre @ code @ post) \<Longrightarrow> is_label l (example_tag 3) \<Longrightarrow>
         is_label l ((pre @ code @ post) ! k) \<Longrightarrow> runs (pre @ code @ post) (length pre, vm_at [256] m) (k, vm_at [256] m)"
    using appendInternalSelector_dispatches [of ?c 256 "[]" ?ids ?e 4 "example_tag 4" ext m, unfolded t d] by (auto simp: tag map_find_def)
  have l: "labels [example_tag 2, example_tag 3, example_tag 4, example_tag 5] = [2, 3, 4, 5]" by (simp add: example_tag_def AssemblyItem_make_def)
  have "runs (code @ [example_tag 2, example_tag 3, example_tag 4, example_tag 5]) (0, vm_at [256] m) (length code + 1, vm_at [256] m)"
    using r(3) [of "[]" "[example_tag 2, example_tag 3, example_tag 4, example_tag 5]" "length code + 1" 3] r(2) l by (simp add: tag nth_append)
  then show "\<exists>c' code. appendInternalSelector ext ?e ?ids (example_tag 4) ?c = Inr c' \<and>
     runs (code @ [example_tag 2, example_tag 3, example_tag 4, example_tag 5]) (0, vm_at [256] m) (length code + 1, vm_at [256] m) \<and> labels code = []"
    using r(1,2) by blast
qed

end
