(* ===== verification/Spec2Isabelle.thy ===== *)
theory Spec2Isabelle
  imports FunctionSelector EVMVersion Assembled AssemblyText ExpressionCorrect FunctionEffects
begin

text \<open>
  Verification of the code generator, the assembler and the base libraries of the Solidity++ compiler.

  \<^bold>\<open>The program.\<close> The compiler reads contracts, checks them and produces code for the virtual machine of
  Vite. The parser, the analysis and the code generator (\<^verbatim>\<open>libsolidity\<close>) build an assembly: a list of
  items (instructions, pushes, tags and references) together with data, strings, libraries and nested
  sub-assemblies (\<^verbatim>\<open>libevmasm\<close>). The assembler turns it into an object with bytecode and link references, which
  the linker completes with the addresses of libraries. Below them lie utilities for bytes and hexadecimal text, hashes of
  fixed size, BLAKE2b and function selectors (\<^verbatim>\<open>libsolutil\<close>), and tokens and machine versions
  (\<^verbatim>\<open>liblangutil\<close>). Solidity++ differs from Solidity in addresses of 21 bytes with a BLAKE2b checksum, in token
  identifiers, in BLAKE2b selectors and in additional instructions.

  \<^bold>\<open>The theories.\<close>
  \<^item> \<open>Prelude\<close>: errors as values of a sum type, loops that may throw (\<open>foldE\<close>, \<open>mapE\<close>), and \<open>std::map\<close> and
    \<open>std::multimap\<close> as sorted association lists. The locale \<open>ordered_map\<close> states the laws of a map with
    \<open>put\<close>, \<open>erase\<close> and \<open>find\<close>; it is interpreted on the sorted lists.
  \<^item> \<open>CommonData\<close> (\<^verbatim>\<open>libsolutil/CommonData.h\<close>, \<^verbatim>\<open>.cpp\<close>): hexadecimal text, big-endian numbers, quoting and the
    rewriting loops; round trips, minimal encodings, behaviour on malformed text.
  \<^item> \<open>FixedHash\<close> (\<^verbatim>\<open>FixedHash.h\<close>): hashes as byte strings, isomorphic to numbers.
  \<^item> \<open>Blake2\<close> (\<^verbatim>\<open>Blake2.h\<close>, \<^verbatim>\<open>Blake2Impl.h\<close>, \<^verbatim>\<open>Blake2bRef.cpp\<close>): the streaming implementation with its buffer and its
    two-word counter is proved equal to a reference definition of BLAKE2b. The locale
    \<open>streaming_hash\<close> states the contract of update and finalisation.
  \<^item> \<open>FunctionSelector\<close> (\<^verbatim>\<open>FunctionSelector.h\<close>): selectors.
  \<^item> \<open>ViteAddress\<close> (\<^verbatim>\<open>CommonData.cpp\<close>) and \<open>Literal\<close> (\<^verbatim>\<open>libsolidity/ast/AST.cpp\<close>): checksummed addresses and token
    identifiers, and address literals.
  \<^item> \<open>Token\<close> (\<^verbatim>\<open>liblangutil/Token.h\<close>) and \<open>EVMVersion\<close>: the token tables with their classification and precedences;
    versions and their opcodes. Tokens and opcodes are numbers, as the enumerations of the code are.
  \<^item> \<open>Instruction\<close> (\<^verbatim>\<open>libevmasm/Instruction.h\<close>, \<^verbatim>\<open>.cpp\<close>): opcodes, the two tables, decoding of bytecode.
  \<^item> \<open>AssemblyItem\<close>: the record of an item, packing of tags and sub-assembly numbers, sizes, stack effects, texts and compressed
    source mappings.
  \<^item> \<open>LinkerObject\<close>: appending, linking and printing of objects.
  \<^item> \<open>Assembly\<close>: the state of an assembly (\<open>AssemblyState\<close>, and \<open>Assembly\<close> for the tree of sub-assemblies), the
    operations that build it, paths of nested sub-assemblies and the size estimate.
  \<^item> \<open>AssemblyText\<close>: the textual and the JSON form of an assembly; nested expressions are proved to be those
    of an execution on a stack of expressions.
  \<^item> \<open>Assemble\<close>: the assembler, one definition for each part of \<open>Assembly::assemble\<close>: the preparation, the loop over the items
    (\<open>emit_item\<close>), and the loops that fill in references (\<open>patch_sub\<close>, \<open>patch_tag\<close>, \<open>patch_data\<close>,
    \<open>patch_size\<close>), composed in \<open>assemble_with\<close> and \<open>assemble\<close>.
  \<^item> \<open>Emission\<close>, \<open>Layout\<close>, \<open>Assembled\<close>: the correctness of the assembler. \<open>Emission\<close> proves the invariant of the loop over the
    items, \<open>Layout\<close> reduces the loops that follow to scripts of writes and appends and proves that the result
    satisfies the declarative predicate \<open>layout\<close>, and \<open>Assembled\<close> holds the properties of \<open>assemble\<close>, of the size
    estimate and of the paths.
  \<^item> \<open>Optimiser\<close>: the driver of the optimiser, whose passes are parameters; under their contract it ends, in a state that no enabled pass
    changes.
  \<^item> \<open>Types\<close> and \<open>TypeNames\<close> (\<^verbatim>\<open>libsolidity/ast/Types.h\<close>, \<^verbatim>\<open>Types.cpp\<close>): value types, literals, contracts, enumerations and
    arrays as a datatype, with equality, conversions, results of operators, sizes, storage layout, identifiers, texts, and the values of literals.
    \<open>TypeProps\<close> proves that members in storage do not overlap, that conversions between numbers are exactly those that
    lose nothing, that literals get the smallest type and the right value, and that accepted arrays have a size.
  \<^item> \<open>CompilerContext\<close> (\<^verbatim>\<open>libsolidity/codegen/CompilerContext.h\<close>, \<^verbatim>\<open>.cpp\<close>): the state of the code generator around its assembly,
    with local variables, the queue of functions, low-level functions, labels and jumps, panics and reverts.
  \<^item> \<open>CompilerUtils\<close> (\<^verbatim>\<open>CompilerUtils.cpp\<close>): the code that expressions and statements share: the stack, the free memory
    pointer, loads and stores, conversions of values.
  \<^item> \<open>ExpressionCompiler\<close> (\<^verbatim>\<open>ExpressionCompiler.cpp\<close>) and \<open>ContractCompiler\<close> (\<^verbatim>\<open>ContractCompiler.cpp\<close>): the code of expressions,
    of statements, of functions with modifiers and base constructors, and of the dispatch on selectors. Syntax nodes carry the annotations that the
    code reads, as arguments of their constructors.
  \<^item> \<open>StackMachine\<close>: the reference for the code that is appended, a machine with a stack and a memory that executes assembly items. The relation
    \<open>does\<close> says that an operation of the code generator appends straight code with a given effect, \<open>executes\<close> and \<open>jumps\<close>
    are about code with jumps.
  \<^item> \<open>StackOperations\<close>, \<open>CodeEffects\<close>: what the shared code does to the machine (moving items, converting values, memory).
    \<open>ControlFlow\<close>: branches, and labels that are never defined twice. \<open>OperatorEffects\<close>: operators and conversions. \<open>ExpressionCorrect\<close>: the
    code of an expression computes its value. \<open>FunctionEffects\<close>: the rearrangement of the stack at the end of a function, and the dispatch.

  \<^bold>\<open>Conventions.\<close> Exceptions and failed assertions are \<open>Inl\<close> with a value of \<open>error\<close>; what the language leaves undefined is
  \<open>Inl UndefinedBehaviour\<close>. Bytes are 8-bit words, \<open>u32\<close>, \<open>u64\<close> and \<open>u256\<close> are words; a \<open>size_t\<close> that counts
  elements of a container is a natural number, and the places where a value is cut to 32 or 64 bits say so. Output streams are strings.

  \<^bold>\<open>Parameters.\<close> Keccak-256, source locations, the joining of strings and \<open>toString\<close> are defined outside the
  repository and are arguments of the definitions that use them (\<open>External\<close>, \<open>TextExternal\<close>). The passes of the optimiser are the fields of \<open>OptimiserPasses\<close>. The types
  take in \<open>TypesExternal\<close> the validation of UTF-8, the reading of big numbers, the check of their precision and the evaluation of operators on constants.
  The code generator takes in \<open>CodegenExternal\<close> what it uses from outside: inline assembly and the names of generated functions among them. The code
  for arrays (\<open>ArrayCode\<close>) and for places that are assigned to (\<open>LValueCode\<close>) is in files that are not in the repository.

  \<^bold>\<open>Loops and termination.\<close> No fuel is used. The loops of the optimiser driver depend on passes outside the
  repository and are partial functions into \<open>option\<close>, with \<open>None\<close> for not returning; that they return is a theorem. So are the loops of the
  code generator that go on until a queue is empty or the stack is in order; that the rearrangement of the stack ends is a theorem. All other definitions are total: the search of the size estimate ends because the
  size is a 64-bit number and so needs at most eight bytes, and the assembler recurses on the tree of sub-assemblies.

  \<^bold>\<open>Not modelled.\<close> The types of structs, mappings, functions, tuples and magic objects. In the code generator: function calls, members and indices,
  assignments to tuples, try statements, inline assembly, the encoding and decoding of arguments, the creation of contracts, and the functions in Yul,
  which are text for a template engine outside the repository. The parser, the analysis and the driver (\<^verbatim>\<open>libsolidity\<close>);
  the command line (\<^verbatim>\<open>solppc\<close>), which is input and output.
\<close>

end
